(* ===== verification/Prelude.thy ===== *)
theory Prelude
  imports Main "HOL-Library.AList"
begin

text \<open>
  Shared vocabulary of the development.

  Go strings are byte strings, so they are HOL \<^typ>\<open>string\<close>s (lists of 8-bit characters).
  This theory holds the operations of Go's \<^verbatim>\<open>strings\<close>, \<^verbatim>\<open>strconv\<close> and \<^verbatim>\<open>fmt\<close> packages
  that the sources use (case mapping and white space on the ASCII range), signed 64-bit
  wrap-around, Go maps as association lists whose order is one possible iteration order, messages
  as an unrendered format with its arguments, results as sums, and the generic lemmas the component
  theories share.
\<close>

section \<open>Collections\<close>

named_theorems gostr \<open>equations of the Go string operations\<close>
named_theorems flow_defs \<open>definitions of the flow controller that case analyses unfold\<close>

section \<open>Messages, results, maps\<close>

text \<open>
  \<^term>\<open>Fmt f args\<close> stands for \<^verbatim>\<open>fmt.Sprintf(f, args...)\<close> or \<^verbatim>\<open>fmt.Errorf(f, args...)\<close>: the format
  text of the source and its arguments, not rendered. \<^term>\<open>Txt s\<close> is a plain string.
\<close>

datatype msg = Txt string | Fmt string "msg list"

type_synonym 'a result = "msg + 'a"

text \<open>\<^verbatim>\<open>map[string]string\<close>: the list order is an arbitrary iteration order of the Go map.\<close>

type_synonym smap = "(string \<times> string) list"

type_synonym time = int
type_synonym duration = int

abbreviation is_ok :: "'e + 'a \<Rightarrow> bool" where
  "is_ok r \<equiv> (\<exists>x. r = Inr x)"

fun bindR :: "'e + 'a \<Rightarrow> ('a \<Rightarrow> 'e + 'b) \<Rightarrow> 'e + 'b" where
  "bindR (Inl e) f = Inl e"
| "bindR (Inr x) f = f x"

fun mapErr :: "('e \<Rightarrow> 'f) \<Rightarrow> 'e + 'a \<Rightarrow> 'f + 'a" where
  "mapErr g (Inl e) = Inl (g e)"
| "mapErr g (Inr x) = Inr x"

section \<open>Signed 64-bit integers\<close>

text \<open>\<^verbatim>\<open>int64\<close> and \<^verbatim>\<open>time.Duration\<close> arithmetic wraps around at 64 bits.\<close>

definition wrap64 :: "int \<Rightarrow> int" where
  "wrap64 x = (x + 2 ^ 63) mod 2 ^ 64 - 2 ^ 63"

definition int64 :: "int \<Rightarrow> bool" where
  "int64 x \<longleftrightarrow> - (2 ^ 63) \<le> x \<and> x < 2 ^ 63"

definition wrap32 :: "int \<Rightarrow> int" where
  "wrap32 x = (x + 2 ^ 31) mod 2 ^ 32 - 2 ^ 31"

section \<open>Strings\<close>

definition hasPrefix :: "string \<Rightarrow> string \<Rightarrow> bool" where
  "hasPrefix s p \<longleftrightarrow> take (length p) s = p"

definition hasSuffix :: "string \<Rightarrow> string \<Rightarrow> bool" where
  "hasSuffix s p \<longleftrightarrow> length p \<le> length s \<and> drop (length s - length p) s = p"

definition trimPrefix :: "string \<Rightarrow> string \<Rightarrow> string" where
  "trimPrefix s p = (if hasPrefix s p then drop (length p) s else s)"

text \<open>\<^verbatim>\<open>strings.Index\<close>: the first position of \<open>p\<close>; \<^const>\<open>None\<close> for the result -1.\<close>

fun strIndex :: "string \<Rightarrow> string \<Rightarrow> nat option" where
  "strIndex [] p = (if p = [] then Some 0 else None)"
| "strIndex (c # s) p =
     (if hasPrefix (c # s) p then Some 0 else map_option Suc (strIndex s p))"

definition strContains :: "string \<Rightarrow> string \<Rightarrow> bool" where
  "strContains s p \<longleftrightarrow> strIndex s p \<noteq> None"

text \<open>\<^verbatim>\<open>strings.Split\<close> with a one-byte separator.\<close>

fun splitOn :: "char \<Rightarrow> string \<Rightarrow> string list" where
  "splitOn d [] = [[]]"
| "splitOn d (c # s) =
     (if c = d then [] # splitOn d s
      else (case splitOn d s of [] \<Rightarrow> [[c]] | x # xs \<Rightarrow> (c # x) # xs))"

fun joinStr :: "string \<Rightarrow> string list \<Rightarrow> string" where
  "joinStr sep [] = []"
| "joinStr sep [x] = x"
| "joinStr sep (x # y # ys) = x @ sep @ joinStr sep (y # ys)"

text \<open>\<^verbatim>\<open>strings.ReplaceAll\<close>: leftmost, non-overlapping; an empty \<open>old\<close> matches before every
  byte and at the end.\<close>

function replaceAll :: "string \<Rightarrow> string \<Rightarrow> string \<Rightarrow> string" where
  "replaceAll s old new =
     (if old = [] then concat (map (\<lambda>c. new @ [c]) s) @ new
      else case s of
          [] \<Rightarrow> []
        | c # cs \<Rightarrow>
            if hasPrefix s old then new @ replaceAll (drop (length old) s) old new
            else c # replaceAll cs old new)"
  by pat_completeness auto
termination
  by (relation "measure (\<lambda>(s, old, new). length s)") auto

declare replaceAll.simps [simp del]

definition lowerChar :: "char \<Rightarrow> char" where
  "lowerChar c = (let n = (of_char c :: nat) in
     if 65 \<le> n \<and> n \<le> 90 then char_of (n + 32) else c)"

definition upperChar :: "char \<Rightarrow> char" where
  "upperChar c = (let n = (of_char c :: nat) in
     if 97 \<le> n \<and> n \<le> 122 then char_of (n - 32) else c)"

definition toLower :: "string \<Rightarrow> string" where
  "toLower s = map lowerChar s"

definition toUpper :: "string \<Rightarrow> string" where
  "toUpper s = map upperChar s"

definition isSpace :: "char \<Rightarrow> bool" where
  "isSpace c \<longleftrightarrow> (let n = (of_char c :: nat) in n = 32 \<or> (9 \<le> n \<and> n \<le> 13))"

definition trimSpace :: "string \<Rightarrow> string" where
  "trimSpace s = rev (dropWhile isSpace (rev (dropWhile isSpace s)))"

definition trimLeftChar :: "char \<Rightarrow> string \<Rightarrow> string" where
  "trimLeftChar c s = dropWhile (\<lambda>x. x = c) s"

definition trimRightChar :: "char \<Rightarrow> string \<Rightarrow> string" where
  "trimRightChar c s = rev (dropWhile (\<lambda>x. x = c) (rev s))"

section \<open>Decimal numbers\<close>

definition digitChar :: "nat \<Rightarrow> char" where
  "digitChar d = char_of (48 + d)"

fun showNat :: "nat \<Rightarrow> string" where
  "showNat n = (if n < 10 then [digitChar n] else showNat (n div 10) @ [digitChar (n mod 10)])"

declare showNat.simps [simp del]

text \<open>\<^verbatim>\<open>fmt.Sprintf("%d", n)\<close>.\<close>

definition showInt :: "int \<Rightarrow> string" where
  "showInt n = (if n < 0 then ''-'' @ showNat (nat (- n)) else showNat (nat n))"

definition isDigit :: "char \<Rightarrow> bool" where
  "isDigit c \<longleftrightarrow> (let n = (of_char c :: nat) in 48 \<le> n \<and> n \<le> 57)"

definition digitVal :: "char \<Rightarrow> nat" where
  "digitVal c = of_char c - 48"

definition natOfDigits :: "string \<Rightarrow> nat" where
  "natOfDigits s = foldl (\<lambda>n c. n * 10 + digitVal c) 0 s"

text \<open>\<^verbatim>\<open>strconv.Atoi\<close> and \<^verbatim>\<open>strconv.ParseInt(s, 10, 64)\<close>: an optional sign, at least one digit, only
  digits, and a value in the signed 64-bit range.\<close>

definition parseInt64 :: "string \<Rightarrow> int option" where
  "parseInt64 s =
     (let neg = hasPrefix s ''-'';
          ds = (if hasPrefix s ''-'' \<or> hasPrefix s ''+'' then tl s else s);
          v = (if neg then - int (natOfDigits ds) else int (natOfDigits ds))
      in if ds \<noteq> [] \<and> list_all isDigit ds \<and> int64 v then Some v else None)"

section \<open>Times\<close>

text \<open>
  A \<^typ>\<open>time\<close> counts nanoseconds from 1 January 1970, UTC. The date of a day is the one of the proleptic Gregorian
  calendar, counted in eras of 400 years that start on 1 March; \<^verbatim>\<open>t.UTC().Format(time.RFC3339)\<close> writes it with the
  time of the day in seconds.
\<close>

definition civilDate :: "int \<Rightarrow> int \<times> int \<times> int" where
  "civilDate days =
     (let z = days + 719468; dayOfEra = z mod 146097;
          yearOfEra = (dayOfEra - dayOfEra div 1460 + dayOfEra div 36524 - dayOfEra div 146096) div 365;
          dayOfYear = dayOfEra - (365 * yearOfEra + yearOfEra div 4 - yearOfEra div 100);
          monthIndex = (5 * dayOfYear + 2) div 153;
          month = (if monthIndex < 10 then monthIndex + 3 else monthIndex - 9)
      in (yearOfEra + z div 146097 * 400 + (if month \<le> 2 then 1 else 0), month, dayOfYear - (153 * monthIndex + 2) div 5 + 1))"

definition padded :: "nat \<Rightarrow> int \<Rightarrow> string" where
  "padded w n = (let s = showNat (nat \<bar>n\<bar>) in (if n < 0 then ''-'' else []) @ replicate (w - length s) (CHR ''0'') @ s)"

definition rfc3339 :: "time \<Rightarrow> string" where
  "rfc3339 t =
     (let secs = t div 1000000000; (y, m, d) = civilDate (secs div 86400); s = secs mod 86400
      in padded 4 y @ ''-'' @ padded 2 m @ ''-'' @ padded 2 d @ ''T'' @
         padded 2 (s div 3600) @ '':'' @ padded 2 (s div 60 mod 60) @ '':'' @ padded 2 (s mod 60) @ ''Z'')"

lemma civilDate_examples:
  "civilDate 0 = (1970, 1, 1)" "civilDate 11016 = (2000, 2, 29)" "civilDate 19782 = (2024, 2, 29)" "civilDate (- 1) = (1969, 12, 31)"
  by code_simp+

section \<open>Base64\<close>

text \<open>\<^verbatim>\<open>base64.StdEncoding.EncodeToString\<close>.\<close>

definition base64Alphabet :: string where
  "base64Alphabet = ''ABCDEFGHIJKLMNOPQRSTUVWXYZabcdefghijklmnopqrstuvwxyz0123456789+/''"

definition base64Char :: "int \<Rightarrow> char" where
  "base64Char n = base64Alphabet ! nat (n mod 64)"

fun base64Encode :: "string \<Rightarrow> string" where
  "base64Encode [] = []"
| "base64Encode [a] =
     (let n = of_char a * 65536
      in [base64Char (n div 262144), base64Char (n div 4096), CHR ''='', CHR ''=''])"
| "base64Encode [a, b] =
     (let n = of_char a * 65536 + of_char b * 256
      in [base64Char (n div 262144), base64Char (n div 4096), base64Char (n div 64), CHR ''=''])"
| "base64Encode (a # b # c # s) =
     (let n = of_char a * 65536 + of_char b * 256 + of_char c
      in [base64Char (n div 262144), base64Char (n div 4096), base64Char (n div 64), base64Char n]
         @ base64Encode s)"

section \<open>Generic lemmas\<close>

lemma bindR_assoc: "bindR (bindR r f) g = bindR r (\<lambda>x. bindR (f x) g)"
  by (cases r) auto

lemma bindR_Inr_iff [simp]: "bindR r f = Inr y \<longleftrightarrow> (\<exists>x. r = Inr x \<and> f x = Inr y)"
  by (cases r) auto

lemma bindR_Inl_iff: "bindR r f = Inl e \<longleftrightarrow> r = Inl e \<or> (\<exists>x. r = Inr x \<and> f x = Inl e)"
  by (cases r) auto

lemma mapErr_Inr_iff [simp]: "mapErr g r = Inr y \<longleftrightarrow> r = Inr y"
  by (cases r) auto

lemma wrap32_id: "- (2 ^ 31) \<le> x \<Longrightarrow> x < 2 ^ 31 \<Longrightarrow> wrap32 x = x"
  by (simp add: wrap32_def)

lemma wrap64_id: "int64 x \<Longrightarrow> wrap64 x = x"
  by (simp add: int64_def wrap64_def)

lemma int64_wrap64: "int64 (wrap64 x)"
  by (simp add: int64_def wrap64_def)

lemma hasPrefix_append [simp, gostr]: "hasPrefix (p @ s) p"
  by (simp add: hasPrefix_def)

lemma hasPrefix_iff: "hasPrefix s p \<longleftrightarrow> (\<exists>r. s = p @ r)"
  by (metis append_take_drop_id hasPrefix_def append_eq_conv_conj)

lemma hasSuffix_iff: "hasSuffix s p \<longleftrightarrow> (\<exists>r. s = r @ p)"
  by (auto simp: hasSuffix_def) (metis append_take_drop_id)

lemma hasPrefix_Nil [simp, gostr]: "hasPrefix s []"
  by (simp add: hasPrefix_def)

lemma hasPrefix_Cons [simp, gostr]:
  "hasPrefix [] (p # ps) \<longleftrightarrow> False"
  "hasPrefix (c # cs) (p # ps) \<longleftrightarrow> c = p \<and> hasPrefix cs ps"
  by (auto simp: hasPrefix_def)

lemma trimPrefix_append [simp, gostr]: "trimPrefix (p @ s) p = s"
  by (simp add: trimPrefix_def)

lemma strIndex_drop_prefix: "strIndex s p = Some i \<Longrightarrow> hasPrefix (drop i s) p"
  by (induction s arbitrary: i) (auto simp: hasPrefix_def split: if_splits)

lemma strIndex_Some_split:
  "strIndex s p = Some i \<Longrightarrow> \<exists>r. s = take i s @ p @ r"
proof (induction s arbitrary: i)
  case Nil
  then show ?case by (simp split: if_splits)
next
  case (Cons c s)
  show ?case
  proof (cases "hasPrefix (c # s) p")
    case True
    with Cons.prems have "i = 0" by simp
    with True show ?thesis by (auto simp: hasPrefix_iff)
  next
    case False
    with Cons.prems obtain j where "strIndex s p = Some j" and "i = Suc j" by auto
    with Cons.IH show ?thesis by fastforce
  qed
qed

lemma hasPrefix_length: "hasPrefix s p \<Longrightarrow> length p \<le> length s"
  by (auto simp: hasPrefix_iff)

lemma strIndex_le: "strIndex s p = Some i \<Longrightarrow> i + length p \<le> length s"
proof (induction s arbitrary: i)
  case Nil
  then show ?case by (simp split: if_splits)
next
  case (Cons c s)
  then show ?case by (auto dest: hasPrefix_length split: if_splits)
qed

end
