(* ===== verification/ApiTypes.thy ===== *)
theory ApiTypes
  imports Prelude
begin

text \<open>
  The custom resources of \<^verbatim>\<open>api/v1alpha1\<close> as records and datatypes, with the fields the modelled
  code reads or writes. A Go pointer field is an \<^typ>\<open>'a option\<close>; a string-typed enum is a
  datatype whose \<open>Unset\<close> constructor is the empty string; times are nanoseconds.
\<close>

section \<open>Flow\<close>

datatype failurePolicy = FailurePolicyUnset | FailurePolicyFail | FailurePolicyContinue

datatype onFailureAction =
    OnFailureUnset | OnFailureActionFail | OnFailureActionContinue | OnFailureActionSkip

record paramDeclaration =
  pd_name :: string
  pd_required :: bool
  pd_default :: string

record retryPolicy =
  rp_maxRetries :: int
  rp_backoffType :: string
  rp_initialDelay :: "duration option"
  rp_maxDelay :: "duration option"
  rp_multiplier :: string

record httpAction =
  ha_url :: string
  ha_method :: string
  ha_headers :: smap
  ha_body :: string
  ha_timeoutSeconds :: int
  ha_resultMappings :: smap
  ha_integrationRef :: "string option"

record publishAction =
  pa_integrationRef :: string
  pa_topic :: string
  pa_body :: string
  pa_headers :: smap

record stepAction =
  sa_type :: string
  sa_http :: "httpAction option"
  sa_transform :: "smap option"
  sa_publish :: "publishAction option"
  sa_wait :: "string option"

record flowStep =
  fs_name :: string
  fs_runAfter :: "string list"
  fs_when :: "string list"
  fs_action :: stepAction
  fs_retryPolicy :: "retryPolicy option"
  fs_timeout :: "duration option"
  fs_onFailure :: onFailureAction

record flowSpec =
  fl_timeout :: "duration option"
  fl_failurePolicy :: failurePolicy
  fl_params :: "paramDeclaration list"
  fl_steps :: "flowStep list"

section \<open>FlowRun\<close>

record triggerData =
  td_eventType :: string
  td_resourceName :: string
  td_resourceNamespace :: string
  td_resourceAPIVersion :: string
  td_resourceKind :: string
  td_source :: string
  td_method :: string
  td_path :: string
  td_headers :: smap
  td_topic :: string
  td_partition :: int
  td_offset :: int
  td_key :: string
  td_keyEncoding :: string
  td_scheduledTime :: "time option"
  td_body :: string
  td_bodyTruncated :: bool
  td_bodyEncoding :: string
  td_contentType :: string

datatype stepPhase =
    StepPhaseUnset | StepPhasePending | StepPhaseRunning | StepPhaseSucceeded
  | StepPhaseFailed | StepPhaseSkipped | StepPhaseWaiting

datatype flowRunPhase =
    FlowRunPhaseUnset | FlowRunPhasePending | FlowRunPhaseRunning | FlowRunPhaseSucceeded
  | FlowRunPhaseFailed | FlowRunPhaseCancelled

record resultValue =
  rv_name :: string
  rv_value :: string

record stepRunStatus =
  ss_name :: string
  ss_phase :: stepPhase
  ss_startTime :: "time option"
  ss_completionTime :: "time option"
  ss_attempts :: int
  ss_message :: msg
  ss_results :: "resultValue list"
  ss_durationMillis :: "int option"
  ss_resumeAfter :: "time option"

record condition =
  cond_type :: string
  cond_status :: string
  cond_reason :: string
  cond_message :: msg
  cond_lastTransitionTime :: "time option"
  cond_observedGeneration :: int

record flowRunSpec =
  frs_flowRef :: string
  frs_params :: smap
  frs_triggerRef :: "(string \<times> string) option"
  frs_triggerData :: "triggerData option"
  frs_ttlAfterFinished :: "duration option"

record flowRunStatus =
  st_observedGeneration :: int
  st_phase :: flowRunPhase
  st_conditions :: "condition list"
  st_startTime :: "time option"
  st_completionTime :: "time option"
  st_steps :: "stepRunStatus list"
  st_message :: msg
  st_durationMillis :: "int option"

record flowRun =
  fr_name :: string
  fr_namespace :: string
  fr_uid :: string
  fr_generation :: int
  fr_deletionTimestamp :: "time option"
  fr_labels :: smap
  fr_annotations :: smap
  fr_finalizers :: "string list"
  fr_spec :: flowRunSpec
  fr_status :: flowRunStatus

record flowRunGCPolicy =
  gp_maxSucceeded :: "int option"
  gp_maxFailed :: "int option"
  gp_ttlAfterSucceeded :: "duration option"
  gp_ttlAfterFailed :: "duration option"

section \<open>Step actions and constants\<close>

definition stepActionHTTP :: string where "stepActionHTTP = ''http''"
definition stepActionTransform :: string where "stepActionTransform = ''transform''"
definition stepActionPublish :: string where "stepActionPublish = ''publish''"
definition stepActionWait :: string where "stepActionWait = ''wait''"

lemmas stepAction_defs =
  stepActionHTTP_def stepActionTransform_def stepActionPublish_def stepActionWait_def

text \<open>The zero value of \<^verbatim>\<open>StepRunStatus{Name: n}\<close>.\<close>

definition newStepStatus :: "string \<Rightarrow> stepRunStatus" where
  "newStepStatus n =
     \<lparr>ss_name = n, ss_phase = StepPhaseUnset, ss_startTime = None, ss_completionTime = None,
      ss_attempts = 0, ss_message = Txt [], ss_results = [], ss_durationMillis = None,
      ss_resumeAfter = None\<rparr>"

lemma newStepStatus_name [simp]: "ss_name (newStepStatus n) = n"
  by (simp add: newStepStatus_def)

text \<open>The phases after which a step, or a run, is never dispatched again.\<close>

definition stepTerminal :: "stepPhase \<Rightarrow> bool" where
  "stepTerminal p \<longleftrightarrow> p \<in> {StepPhaseSucceeded, StepPhaseSkipped, StepPhaseFailed}"

definition runTerminal :: "flowRunPhase \<Rightarrow> bool" where
  "runTerminal p \<longleftrightarrow> p \<in> {FlowRunPhaseSucceeded, FlowRunPhaseFailed, FlowRunPhaseCancelled}"

lemma stepTerminal_simps [simp]:
  "stepTerminal StepPhaseSucceeded" "stepTerminal StepPhaseSkipped" "stepTerminal StepPhaseFailed"
  "\<not> stepTerminal StepPhaseUnset" "\<not> stepTerminal StepPhasePending"
  "\<not> stepTerminal StepPhaseRunning" "\<not> stepTerminal StepPhaseWaiting"
  by (auto simp: stepTerminal_def)

lemma runTerminal_simps [simp]:
  "runTerminal FlowRunPhaseSucceeded" "runTerminal FlowRunPhaseFailed"
  "runTerminal FlowRunPhaseCancelled" "\<not> runTerminal FlowRunPhaseUnset"
  "\<not> runTerminal FlowRunPhasePending" "\<not> runTerminal FlowRunPhaseRunning"
  by (auto simp: runTerminal_def)

section \<open>API server answers\<close>

datatype apiError = NotFound | AlreadyExists | Conflict | ApiFailure msg

fun apiErrorMsg :: "apiError \<Rightarrow> msg" where
  "apiErrorMsg NotFound = Txt ''not found''"
| "apiErrorMsg AlreadyExists = Txt ''already exists''"
| "apiErrorMsg Conflict = Txt ''conflict''"
| "apiErrorMsg (ApiFailure m) = m"

text \<open>\<^verbatim>\<open>ctrl.Result\<close>: the zero value, \<^verbatim>\<open>Requeue: true\<close> or a positive \<^verbatim>\<open>RequeueAfter\<close>.\<close>

datatype ctrlResult = Done | Requeue | RequeueAfter duration

end
