(* ===== verification/Interpolation.thy ===== *)
theory Interpolation
  imports ApiTypes "HOL-Library.Word"
begin

text \<open>
  Template interpolation of the FlowRun controller
  (\<^verbatim>\<open>internal/controller/flowrun_controller.go\<close>, lines 2172 to 2602): the single left-to-right pass
  over \<^verbatim>\<open>$(...)\<close> placeholders, the resolution of one token, body paths, and Flow parameters.

  The reference semantics is a lexer: \<open>lexTemplate\<close> cuts a template into literal text and tokens,
  and interpolation is the rendering of that list. Substituted text is not part of the list, so it
  is never scanned again.

  The encoders and decoders of the Go library that the code calls (JSON, float formatting, query
  strings, media types, RFC 3339 times) are the fields of \<open>codec\<close>, an argument of every definition.
\<close>

section \<open>JSON values and codecs\<close>

text \<open>The dynamic values of \<^verbatim>\<open>json.Unmarshal\<close> into \<^verbatim>\<open>interface{}\<close>; a number is the bit pattern of
  its \<^verbatim>\<open>float64\<close>.\<close>

datatype json =
    JNull | JBool bool | JNum "64 word" | JStr string | JArr "json list"
  | JObj "(string \<times> json) list"

record codec =
  cd_unmarshal :: "string \<Rightarrow> json option"
  cd_marshal :: "json \<Rightarrow> string option"
  cd_sprintV :: "json \<Rightarrow> string"
  cd_formatFloat :: "64 word \<Rightarrow> string"
  cd_parseQuery :: "string \<Rightarrow> (string \<times> string list) list option"
  cd_parseMediaType :: "string \<Rightarrow> string option"

section \<open>Trigger bodies\<close>

definition isFormURLEncodedContentType :: "codec \<Rightarrow> string \<Rightarrow> bool" where
  "isFormURLEncodedContentType cd contentType =
     (let mediaType = (case cd_parseMediaType cd contentType of
            Some m \<Rightarrow> m
          | None \<Rightarrow> trimSpace (takeWhile (\<lambda>c. c \<noteq> CHR '';'') contentType))
      in toLower mediaType = toLower ''application/x-www-form-urlencoded'')"

definition parseFormURLEncodedBody :: "codec \<Rightarrow> string \<Rightarrow> (string \<times> json) list option" where
  "parseFormURLEncodedBody cd body =
     (case cd_parseQuery cd body of
        None \<Rightarrow> None
      | Some vals \<Rightarrow>
          Some (map (\<lambda>(k, vs). (k, JStr (hd vs))) (filter (\<lambda>(k, vs). vs \<noteq> []) vals)))"

definition parseTriggerBody :: "codec \<Rightarrow> triggerData option \<Rightarrow> json option" where
  "parseTriggerBody cd td =
     (case td of
        None \<Rightarrow> None
      | Some t \<Rightarrow>
          if td_body t = [] then None
          else if isFormURLEncodedContentType cd (td_contentType t) then
            (case parseFormURLEncodedBody cd (td_body t) of
               Some formBody \<Rightarrow> Some (JObj formBody)
             | None \<Rightarrow> None)
          else (case cd_unmarshal cd (td_body t) of
                  None \<Rightarrow> None
                | Some JNull \<Rightarrow> None
                | Some j \<Rightarrow> Some j))"

definition renderBodyLeaf :: "codec \<Rightarrow> json \<Rightarrow> string" where
  "renderBodyLeaf cd v =
     (case v of
        JNull \<Rightarrow> []
      | JStr s \<Rightarrow> s
      | JNum f \<Rightarrow> cd_formatFloat cd f
      | JObj _ \<Rightarrow> (case cd_marshal cd v of Some b \<Rightarrow> b | None \<Rightarrow> cd_sprintV cd v)
      | JArr _ \<Rightarrow> (case cd_marshal cd v of Some b \<Rightarrow> b | None \<Rightarrow> cd_sprintV cd v)
      | JBool b \<Rightarrow> (if b then ''true'' else ''false''))"

fun resolveBodyPath :: "codec \<Rightarrow> string list \<Rightarrow> json \<Rightarrow> string" where
  "resolveBodyPath cd [] v = renderBodyLeaf cd v"
| "resolveBodyPath cd (key # rest) v =
     (case v of
        JObj node \<Rightarrow>
          (case map_of node key of
             None \<Rightarrow> []
           | Some child \<Rightarrow> resolveBodyPath cd rest child)
      | JArr node \<Rightarrow>
          (case parseInt64 key of
             None \<Rightarrow> []
           | Some idx \<Rightarrow>
               if idx < 0 \<or> int (length node) \<le> idx then []
               else resolveBodyPath cd rest (node ! nat idx))
      | _ \<Rightarrow> [])"

section \<open>One token\<close>

text \<open>The results \<^verbatim>\<open>(value, matched, isSecret)\<close>: not matched, matched, matched and secret.\<close>

datatype resolution = Unresolved | Plain string | Secret string

type_synonym secretResolver = "string \<Rightarrow> string \<Rightarrow> string result"
type_synonym stepResultsMap = "(string \<times> smap) list"

definition resolveTriggerScalarToken ::
  "codec \<Rightarrow> string \<Rightarrow> triggerData option \<Rightarrow> resolution result" where
  "resolveTriggerScalarToken cd token triggerData =
     (case triggerData of
        None \<Rightarrow> Inr Unresolved
      | Some td \<Rightarrow>
          if token = ''trigger.topic'' then Inr (Plain (td_topic td))
          else if token = ''trigger.partition'' then Inr (Plain (showInt (td_partition td)))
          else if token = ''trigger.offset'' then Inr (Plain (showInt (td_offset td)))
          else if token = ''trigger.key'' then Inr (Plain (td_key td))
          else if token = ''trigger.scheduledTime'' then
            (case td_scheduledTime td of
               Some t \<Rightarrow> Inr (Plain (rfc3339 t))
             | None \<Rightarrow> Inr (Plain []))
          else Inr Unresolved)"

text \<open>The loop over \<^verbatim>\<open>stepResults\<close> stops at the first step whose normalised name matches.\<close>

definition lookupStepResult :: "stepResultsMap \<Rightarrow> string \<Rightarrow> string \<Rightarrow> resolution" where
  "lookupStepResult stepResults stepName key =
     (case find (\<lambda>(name, results). replaceAll name ''-'' ''_'' = stepName) stepResults of
        None \<Rightarrow> Unresolved
      | Some (name, results) \<Rightarrow>
          (case map_of results key of Some v \<Rightarrow> Plain v | None \<Rightarrow> Unresolved))"

definition lowerHeaderMap :: "smap \<Rightarrow> smap" where
  "lowerHeaderMap hs = foldl (\<lambda>m (k, v). AList.update (toLower k) v m) [] hs"

definition resolveInterpolationToken ::
  "codec \<Rightarrow> string \<Rightarrow> stepResultsMap \<Rightarrow> triggerData option \<Rightarrow> smap \<Rightarrow> json option \<Rightarrow> smap \<Rightarrow>
   secretResolver option \<Rightarrow> resolution result" where
  "resolveInterpolationToken cd token stepResults triggerData params bodyRoot lowerHeaders resolveSecret =
     (if hasPrefix token ''steps.'' then
        (let rest = trimPrefix token ''steps.'' in
         case strIndex rest ''.results.'' of
           None \<Rightarrow> Inr Unresolved
         | Some idx \<Rightarrow>
             Inr (lookupStepResult stepResults (take idx rest)
                    (drop (idx + length ''.results.'') rest)))
      else if hasPrefix token ''params.'' then
        (case map_of params (trimPrefix token ''params.'') of
           Some v \<Rightarrow> Inr (Plain v)
         | None \<Rightarrow> Inr Unresolved)
      else if token = ''trigger.body'' then
        (case triggerData of None \<Rightarrow> Inr Unresolved | Some td \<Rightarrow> Inr (Plain (td_body td)))
      else if hasPrefix token ''trigger.body.'' then
        (case (triggerData, bodyRoot) of
           (Some td, Some root) \<Rightarrow>
             if td_body td = [] then Inr Unresolved
             else Inr (Plain (resolveBodyPath cd
                    (splitOn CHR ''.'' (trimPrefix token ''trigger.body.'')) root))
         | _ \<Rightarrow> Inr Unresolved)
      else if hasPrefix token ''trigger.headers.'' then
        (case triggerData of
           None \<Rightarrow> Inr Unresolved
         | Some td \<Rightarrow>
             Inr (Plain (case map_of lowerHeaders (toLower (trimPrefix token ''trigger.headers.'')) of
                           Some v \<Rightarrow> v | None \<Rightarrow> [])))
      else if token = ''trigger.topic'' \<or> token = ''trigger.partition'' \<or> token = ''trigger.offset''
              \<or> token = ''trigger.key'' \<or> token = ''trigger.scheduledTime'' then
        resolveTriggerScalarToken cd token triggerData
      else if hasPrefix token ''secrets.'' then
        (case resolveSecret of
           None \<Rightarrow> Inr Unresolved
         | Some rs \<Rightarrow>
             (let inner = trimPrefix token ''secrets.'' in
              case strIndex inner ''.'' of
                None \<Rightarrow> Inr Unresolved
              | Some dotIdx \<Rightarrow>
                  (case rs (take dotIdx inner) (drop (dotIdx + 1) inner) of
                     Inl e \<Rightarrow> Inl (Fmt ''resolving $(%s): %w'' [Txt token, e])
                   | Inr v \<Rightarrow> Inr (Secret v))))
      else Inr Unresolved)"

section \<open>The pass over the template\<close>

definition redactedMarker :: string where "redactedMarker = ''[REDACTED]''"

text \<open>What a resolved token writes to the two buffers; \<open>full\<close> is the placeholder text.\<close>

fun actualText :: "string \<Rightarrow> resolution \<Rightarrow> string" where
  "actualText full Unresolved = full"
| "actualText full (Plain v) = v"
| "actualText full (Secret v) = v"

fun displayText :: "string \<Rightarrow> resolution \<Rightarrow> string" where
  "displayText full Unresolved = full"
| "displayText full (Plain v) = v"
| "displayText full (Secret v) = redactedMarker"

text \<open>
  The loop from position \<^verbatim>\<open>i\<close>, on the rest \<^verbatim>\<open>s[i:]\<close>. \<open>parsed\<close> is what \<^verbatim>\<open>parseTriggerBody\<close> returns
  when it is called, \<open>bodyParsed\<close> and \<open>bodyRoot\<close> are the loop's variables of these names.
\<close>

function interpolateLoop ::
  "(json option \<Rightarrow> string \<Rightarrow> resolution result) \<Rightarrow> json option \<Rightarrow> bool \<Rightarrow> json option \<Rightarrow> string \<Rightarrow>
   (string \<times> string) result" where
  "interpolateLoop resolve parsed bodyParsed bodyRoot s =
     (case strIndex s ''$('' of
        None \<Rightarrow> Inr (s, s)
      | Some start \<Rightarrow>
          (case strIndex (drop start s) '')'' of
             None \<Rightarrow> Inr (s, s)
           | Some closeIdx \<Rightarrow>
               (let token = take (closeIdx - 2) (drop (start + 2) s);
                    full = take (closeIdx + 1) (drop start s);
                    parseNow = (\<not> bodyParsed \<and> hasPrefix token ''trigger.body.'');
                    bodyRoot' = (if parseNow then parsed else bodyRoot);
                    bodyParsed' = (bodyParsed \<or> parseNow)
                in bindR (resolve bodyRoot' token) (\<lambda>r.
                     bindR (interpolateLoop resolve parsed bodyParsed' bodyRoot'
                              (drop (start + closeIdx + 1) s))
                       (\<lambda>(a, d). Inr (take start s @ actualText full r @ a,
                                      take start s @ displayText full r @ d))))))"
  by pat_completeness auto
termination
proof (relation "measure (\<lambda>(resolve, parsed, bodyParsed, bodyRoot, s). length s)", goal_cases)
  case 1
  show ?case by simp
next
  case (2 resolve parsed bodyParsed bodyRoot s start)
  then have "s \<noteq> []" by (cases s) auto
  then show ?case by simp
qed

declare interpolateLoop.simps [simp del]

definition interpolateTemplate ::
  "codec \<Rightarrow> string \<Rightarrow> stepResultsMap \<Rightarrow> triggerData option \<Rightarrow> smap \<Rightarrow> secretResolver option \<Rightarrow>
   (string \<times> string) result" where
  "interpolateTemplate cd s stepResults triggerData params resolveSecret =
     (let lowerHeaders = (case triggerData of None \<Rightarrow> [] | Some td \<Rightarrow> lowerHeaderMap (td_headers td))
      in interpolateLoop
           (\<lambda>bodyRoot token. resolveInterpolationToken cd token stepResults triggerData params
                                bodyRoot lowerHeaders resolveSecret)
           (parseTriggerBody cd triggerData) False None s)"

definition substituteVars ::
  "codec \<Rightarrow> string \<Rightarrow> stepResultsMap \<Rightarrow> triggerData option \<Rightarrow> smap \<Rightarrow> string" where
  "substituteVars cd s stepResults triggerData params =
     (case interpolateTemplate cd s stepResults triggerData params None of
        Inr (actual, display) \<Rightarrow> actual
      | Inl e \<Rightarrow> [])"

definition substituteVarsWithSecrets ::
  "codec \<Rightarrow> secretResolver \<Rightarrow> string \<Rightarrow> stepResultsMap \<Rightarrow> triggerData option \<Rightarrow> smap \<Rightarrow>
   (string \<times> string) result" where
  "substituteVarsWithSecrets cd fetch s stepResults triggerData params =
     interpolateTemplate cd s stepResults triggerData params (Some fetch)"

section \<open>Flow parameters\<close>

definition suppliedParams :: "smap \<Rightarrow> smap" where
  "suppliedParams ps = foldl (\<lambda>m (n, v). AList.update n v m) [] ps"

fun resolveParamsLoop ::
  "codec \<Rightarrow> paramDeclaration list \<Rightarrow> smap \<Rightarrow> (string \<times> json) list option \<Rightarrow> stepResultsMap \<Rightarrow>
   triggerData option \<Rightarrow> smap \<Rightarrow> smap result" where
  "resolveParamsLoop cd [] supplied bodyFields stepResults triggerData resolved = Inr resolved"
| "resolveParamsLoop cd (decl # decls) supplied bodyFields stepResults triggerData resolved =
     (let continue = (\<lambda>v. resolveParamsLoop cd decls supplied bodyFields stepResults triggerData
                            (AList.update (pd_name decl) v resolved))
      in case map_of supplied (pd_name decl) of
           Some raw \<Rightarrow> continue (substituteVars cd raw stepResults triggerData [])
         | None \<Rightarrow>
             (case (case bodyFields of None \<Rightarrow> None | Some m \<Rightarrow> map_of m (pd_name decl)) of
                Some v \<Rightarrow> continue (resolveBodyPath cd [] v)
              | None \<Rightarrow>
                  if pd_default decl \<noteq> [] then continue (pd_default decl)
                  else if pd_required decl then
                    Inl (Fmt ''required parameter %q not supplied and has no default''
                           [Txt (pd_name decl)])
                  else continue []))"

definition resolveFlowParams ::
  "codec \<Rightarrow> paramDeclaration list \<Rightarrow> smap \<Rightarrow> stepResultsMap \<Rightarrow> triggerData option \<Rightarrow> smap result" where
  "resolveFlowParams cd paramDecls flowRunParams stepResults triggerData =
     (if paramDecls = [] then Inr []
      else (let bodyFields = (case parseTriggerBody cd triggerData of
                                Some (JObj m) \<Rightarrow> Some m | _ \<Rightarrow> None)
            in resolveParamsLoop cd paramDecls (suppliedParams flowRunParams) bodyFields
                 stepResults triggerData []))"

section \<open>Reference semantics\<close>

datatype segment = Lit string | Tok string

fun unlex :: "segment \<Rightarrow> string" where
  "unlex (Lit t) = t"
| "unlex (Tok t) = ''$('' @ t @ '')''"

function lexTemplate :: "string \<Rightarrow> segment list" where
  "lexTemplate s =
     (case strIndex s ''$('' of
        None \<Rightarrow> [Lit s]
      | Some start \<Rightarrow>
          (case strIndex (drop start s) '')'' of
             None \<Rightarrow> [Lit s]
           | Some closeIdx \<Rightarrow>
               Lit (take start s) # Tok (take (closeIdx - 2) (drop (start + 2) s)) #
               lexTemplate (drop (start + closeIdx + 1) s)))"
  by pat_completeness auto
termination
proof (relation "measure length", goal_cases)
  case 1
  show ?case by simp
next
  case (2 s start)
  then have "s \<noteq> []" by (cases s) auto
  then show ?case by simp
qed

declare lexTemplate.simps [simp del]

fun renderSegments ::
  "(string \<Rightarrow> resolution result) \<Rightarrow> segment list \<Rightarrow> (string \<times> string) result" where
  "renderSegments f [] = Inr ([], [])"
| "renderSegments f (Lit t # segs) =
     bindR (renderSegments f segs) (\<lambda>(a, d). Inr (t @ a, t @ d))"
| "renderSegments f (Tok t # segs) =
     bindR (f t) (\<lambda>r. bindR (renderSegments f segs)
       (\<lambda>(a, d). Inr (actualText (unlex (Tok t)) r @ a, displayText (unlex (Tok t)) r @ d)))"

text \<open>The secrets a token names, and the secrets a template names.\<close>

definition tokenSecret :: "string \<Rightarrow> (string \<times> string) option" where
  "tokenSecret token =
     (if hasPrefix token ''secrets.'' then
        (let inner = trimPrefix token ''secrets.'' in
         case strIndex inner ''.'' of
           None \<Rightarrow> None
         | Some i \<Rightarrow> Some (take i inner, drop (i + 1) inner))
      else None)"

fun segmentSecrets :: "segment \<Rightarrow> (string \<times> string) list" where
  "segmentSecrets (Lit t) = []"
| "segmentSecrets (Tok t) = (case tokenSecret t of None \<Rightarrow> [] | Some p \<Rightarrow> [p])"

definition templateSecrets :: "string \<Rightarrow> (string \<times> string) list" where
  "templateSecrets s = concat (map segmentSecrets (lexTemplate s))"

section \<open>Lemmas\<close>

lemma placeholder_split:
  assumes "strIndex s ''$('' = Some start" and "strIndex (drop start s) '')'' = Some c"
  shows "take (c + 1) (drop start s) = unlex (Tok (take (c - 2) (drop (start + 2) s)))"
    and "take start s @ unlex (Tok (take (c - 2) (drop (start + 2) s))) @ drop (start + c + 1) s = s"
proof -
  from strIndex_Some_split [OF assms(1)] obtain r where r: "s = take start s @ ''$('' @ r" by blast
  from strIndex_le [OF assms(1)] have len: "length (take start s) = start" by simp
  have u: "drop start s = ''$('' @ r"
    using r len by (metis append_eq_conv_conj)
  with assms(2) obtain j where j: "strIndex r '')'' = Some j" and c: "c = j + 2" by auto
  from strIndex_Some_split [OF j] obtain r' where r': "r = take j r @ '')'' @ r'" by blast
  from strIndex_le [OF j] have lenj: "length (take j r) = j" by simp
  have d2: "drop (start + 2) s = r"
    by (metis u drop_drop add.commute append_Cons append_Nil drop_Suc_Cons drop_0 numeral_2_eq_2)
  have rest: "drop (start + c + 1) s = r'"
  proof -
    have "drop (start + c + 1) s = drop (j + 1) (drop (start + 2) s)"
      by (simp add: c ac_simps)
    also have "\<dots> = drop 1 (drop j r)" by (subst d2) simp
    also have "drop j r = '')'' @ r'" using r' lenj by (metis append_eq_conv_conj)
    finally show ?thesis by simp
  qed
  show first: "take (c + 1) (drop start s) = unlex (Tok (take (c - 2) (drop (start + 2) s)))"
  proof -
    have "take (c + 1) (drop start s) = ''$('' @ take (j + 1) r"
      by (simp add: u c)
    also have "take (j + 1) r = take j r @ '')''"
    proof -
      have "take (j + 1) (take j r @ '')'' @ r') = take j r @ '')''"
        using lenj by (simp only: take_append) simp
      with r' show ?thesis by simp
    qed
    finally show ?thesis using c d2 by simp
  qed
  show "take start s @ unlex (Tok (take (c - 2) (drop (start + 2) s))) @ drop (start + c + 1) s = s"
    using r r' c d2 rest by simp
qed

lemma lex_unlex: "concat (map unlex (lexTemplate s)) = s"
proof (induction s rule: lexTemplate.induct)
  case (1 s)
  show ?case
  proof (cases "strIndex s ''$(''")
    case None
    then show ?thesis by (simp add: lexTemplate.simps [of s])
  next
    case (Some start)
    note st = Some
    show ?thesis
    proof (cases "strIndex (drop start s) '')''")
      case None
      with st show ?thesis by (simp add: lexTemplate.simps [of s])
    next
      case (Some c)
      from 1 [OF st Some] placeholder_split(2) [OF st Some] st Some show ?thesis
        by (simp add: lexTemplate.simps [of s])
    qed
  qed
qed

lemma interpolateLoop_render:
  assumes "\<And>b t. (hasPrefix t ''trigger.body.'' \<longrightarrow> b = parsed) \<Longrightarrow> resolve b t = f t"
  shows "(bodyParsed \<longrightarrow> bodyRoot = parsed) \<Longrightarrow>
    interpolateLoop resolve parsed bodyParsed bodyRoot s = renderSegments f (lexTemplate s)"
proof (induction s arbitrary: bodyParsed bodyRoot rule: lexTemplate.induct)
  case (1 s)
  show ?case
  proof (cases "strIndex s ''$(''")
    case None
    then show ?thesis by (simp add: lexTemplate.simps [of s] interpolateLoop.simps [of _ _ _ _ s])
  next
    case (Some start)
    note st = Some
    show ?thesis
    proof (cases "strIndex (drop start s) '')''")
      case None
      with st show ?thesis
        by (simp add: lexTemplate.simps [of s] interpolateLoop.simps [of _ _ _ _ s])
    next
      case (Some c)
      define token where "token = take (c - 2) (drop (start + 2) s)"
      define now where "now = (\<not> bodyParsed \<and> hasPrefix token ''trigger.body.'')"
      define root where "root = (if now then parsed else bodyRoot)"
      have res: "resolve root token = f token"
        using "1.prems" by (intro assms) (auto simp: root_def now_def)
      have "(bodyParsed \<or> now) \<longrightarrow> root = parsed"
        using "1.prems" by (auto simp: root_def)
      then have IH: "interpolateLoop resolve parsed (bodyParsed \<or> now) root (drop (start + c + 1) s) =
                 renderSegments f (lexTemplate (drop (start + c + 1) s))"
        by (rule "1.IH" [OF st Some])
      have full: "take (c + 1) (drop start s) = unlex (Tok token)"
        using placeholder_split(1) [OF st Some] by (simp add: token_def)
      have "interpolateLoop resolve parsed bodyParsed bodyRoot s =
          bindR (resolve root token) (\<lambda>r.
            bindR (interpolateLoop resolve parsed (bodyParsed \<or> now) root (drop (start + c + 1) s))
              (\<lambda>(a, d). Inr (take start s @ actualText (unlex (Tok token)) r @ a,
                             take start s @ displayText (unlex (Tok token)) r @ d)))"
        by (simp only: interpolateLoop.simps [of _ _ _ _ s] st Some option.case Let_def
              full [unfolded token_def] token_def now_def root_def)
      moreover have "lexTemplate s =
          Lit (take start s) # Tok token # lexTemplate (drop (start + c + 1) s)"
        using st Some by (simp add: lexTemplate.simps [of s] token_def)
      ultimately show ?thesis
        using res IH by (simp add: bindR_assoc case_prod_unfold)
    qed
  qed
qed

text \<open>The token resolver a call of \<^verbatim>\<open>interpolateTemplate\<close> uses, with the body parsed.\<close>

abbreviation tokenResolver ::
  "codec \<Rightarrow> stepResultsMap \<Rightarrow> triggerData option \<Rightarrow> smap \<Rightarrow> secretResolver option \<Rightarrow>
   string \<Rightarrow> resolution result" where
  "tokenResolver cd stepResults triggerData params resolveSecret t \<equiv>
     resolveInterpolationToken cd t stepResults triggerData params
       (parseTriggerBody cd triggerData)
       (case triggerData of None \<Rightarrow> [] | Some td \<Rightarrow> lowerHeaderMap (td_headers td)) resolveSecret"

lemma resolveToken_bodyRoot_irrelevant:
  "\<not> hasPrefix t ''trigger.body.'' \<Longrightarrow>
     resolveInterpolationToken cd t sr td ps b lh rs = resolveInterpolationToken cd t sr td ps b' lh rs"
  by (simp add: resolveInterpolationToken_def)

lemma interpolateTemplate_eq_render:
  "interpolateTemplate cd s sr td ps rs = renderSegments (tokenResolver cd sr td ps rs) (lexTemplate s)"
  unfolding interpolateTemplate_def Let_def
  by (rule interpolateLoop_render) (auto intro: resolveToken_bodyRoot_irrelevant)

text \<open>How a token's resolution depends on the secret resolver.\<close>

lemma hasPrefix_disjoint:
  "hasPrefix t p \<Longrightarrow> hasPrefix t q \<Longrightarrow> \<exists>r. p = q @ r \<or> q = p @ r"
  by (auto simp: hasPrefix_iff append_eq_append_conv2)

lemma lookupStepResult_not_secret: "lookupStepResult sr n k \<noteq> Secret v"
  by (simp add: lookupStepResult_def split: option.split prod.split)

lemma resolveTriggerScalarToken_total:
  "\<exists>r. resolveTriggerScalarToken cd t td = Inr r \<and> (\<forall>v. r \<noteq> Secret v)"
  by (simp add: resolveTriggerScalarToken_def split: option.split)

lemma resolveToken_total:
  "\<exists>r. tokenResolver cd sr td ps None t = Inr r \<and> (\<forall>v. r \<noteq> Secret v)"
  using resolveTriggerScalarToken_total [of cd t td]
  by (simp add: resolveInterpolationToken_def Let_def lookupStepResult_not_secret split: option.split)

lemma resolveToken_not_secret:
  assumes "tokenSecret t = None"
  shows "tokenResolver cd sr td ps (Some f) t = tokenResolver cd sr td ps None t"
proof (cases "hasPrefix t ''secrets.''")
  case True
  with assms have "strIndex (trimPrefix t ''secrets.'') ''.'' = None"
    by (simp add: tokenSecret_def Let_def split: option.splits)
  then show ?thesis by (simp add: resolveInterpolationToken_def Let_def)
next
  case False
  then show ?thesis by (simp add: resolveInterpolationToken_def)
qed

lemma resolveToken_secret:
  assumes "tokenSecret t = Some (n, k)"
  shows "tokenResolver cd sr td ps (Some f) t =
           (case f n k of Inl e \<Rightarrow> Inl (Fmt ''resolving $(%s): %w'' [Txt t, e]) | Inr v \<Rightarrow> Inr (Secret v))"
    and "tokenResolver cd sr td ps None t = Inr Unresolved"
proof -
  from assms have pre: "hasPrefix t ''secrets.''"
    by (auto simp: tokenSecret_def split: if_splits)
  then obtain u where u: "t = ''secrets.'' @ u" by (auto simp: hasPrefix_iff)
  then have no: "\<not> hasPrefix t ''steps.''" "\<not> hasPrefix t ''params.''" "t \<noteq> ''trigger.body''"
    "\<not> hasPrefix t ''trigger.body.''" "\<not> hasPrefix t ''trigger.headers.''"
    "t \<noteq> ''trigger.topic''" "t \<noteq> ''trigger.partition''" "t \<noteq> ''trigger.offset''"
    "t \<noteq> ''trigger.key''" "t \<noteq> ''trigger.scheduledTime''"
    by simp_all
  show "tokenResolver cd sr td ps (Some f) t =
      (case f n k of Inl e \<Rightarrow> Inl (Fmt ''resolving $(%s): %w'' [Txt t, e]) | Inr v \<Rightarrow> Inr (Secret v))"
    using assms pre no
    by (auto simp: tokenSecret_def resolveInterpolationToken_def Let_def split: option.splits)
  show "tokenResolver cd sr td ps None t = Inr Unresolved"
    using pre no by (simp add: resolveInterpolationToken_def)
qed

lemma templateSecrets_iff:
  "(n, k) \<in> set (templateSecrets s) \<longleftrightarrow>
     (\<exists>t. Tok t \<in> set (lexTemplate s) \<and> tokenSecret t = Some (n, k))"
proof -
  have "(n, k) \<in> set (segmentSecrets seg) \<longleftrightarrow> (\<exists>t. seg = Tok t \<and> tokenSecret t = Some (n, k))" for seg
    by (cases seg) (auto split: option.splits)
  then show ?thesis by (auto simp: templateSecrets_def)
qed

lemma renderSegments_cong:
  "(\<And>t. Tok t \<in> set segs \<Longrightarrow> f t = g t) \<Longrightarrow> renderSegments f segs = renderSegments g segs"
  by (induction f segs rule: renderSegments.induct) auto

lemma renderSegments_Inl_iff:
  "(\<exists>e. renderSegments f segs = Inl e) \<longleftrightarrow> (\<exists>t e. Tok t \<in> set segs \<and> f t = Inl e)"
proof (induction f segs rule: renderSegments.induct)
  case (3 f t segs)
  then show ?case by (cases "f t") (auto simp: bindR_Inl_iff)
qed (auto simp: bindR_Inl_iff)

text \<open>Two token resolvers that differ in secret values only show the same display text.\<close>

lemma renderSegments_display:
  assumes "\<And>t r r'. Tok t \<in> set segs \<Longrightarrow> f t = Inr r \<Longrightarrow> g t = Inr r' \<Longrightarrow>
             displayText (unlex (Tok t)) r = displayText (unlex (Tok t)) r'"
    and "renderSegments f segs = Inr (a, d)" and "renderSegments g segs = Inr (a', d')"
  shows "d = d'"
  using assms
proof (induction f segs arbitrary: a d a' d' rule: renderSegments.induct)
  case (2 f t segs)
  then show ?case by fastforce
next
  case (3 f t segs)
  then show ?case by fastforce
qed simp

section \<open>Properties of interpolation\<close>

text \<open>C37: \<^verbatim>\<open>interpolateTemplate\<close> makes one pass over the original template. Its result is the rendering
  of the template's own segments, literal text copied and every placeholder resolved once with the
  trigger body parsed, and the segments are exactly a partition of the template text, so
  substituted values are never scanned for placeholders.\<close>

theorem interpolate_single_pass:
  "interpolateTemplate cd s stepResults triggerData params resolveSecret =
     renderSegments
       (\<lambda>t. resolveInterpolationToken cd t stepResults triggerData params
              (parseTriggerBody cd triggerData)
              (case triggerData of None \<Rightarrow> [] | Some td \<Rightarrow> lowerHeaderMap (td_headers td))
              resolveSecret)
       (lexTemplate s)
   \<and> concat (map unlex (lexTemplate s)) = s"
  by (simp add: interpolateTemplate_eq_render lex_unlex)

text \<open>The secrets a call can read are the ones the template text names: if two resolvers agree on
  the \<^verbatim>\<open>$(secrets.name.key)\<close> placeholders of the template, the results agree, whatever trigger
  data, headers, parameters and step results contain.\<close>

theorem interpolate_secrets_from_template_only:
  assumes "\<forall>(n, k) \<in> set (templateSecrets s). f n k = g n k"
  shows "interpolateTemplate cd s stepResults triggerData params (Some f) =
         interpolateTemplate cd s stepResults triggerData params (Some g)"
  unfolding interpolateTemplate_eq_render
proof (rule renderSegments_cong)
  fix t
  assume t: "Tok t \<in> set (lexTemplate s)"
  show "tokenResolver cd stepResults triggerData params (Some f) t =
        tokenResolver cd stepResults triggerData params (Some g) t"
  proof (cases "tokenSecret t")
    case None
    then show ?thesis by (simp only: resolveToken_not_secret)
  next
    case (Some p)
    then obtain n k where nk: "tokenSecret t = Some (n, k)" by (cases p) auto
    with t have "f n k = g n k" using assms templateSecrets_iff by blast
    with nk show ?thesis by (simp only: resolveToken_secret(1))
  qed
qed

definition exampleCodec :: codec where
  "exampleCodec =
     \<lparr>cd_unmarshal = (\<lambda>s. if s = ''{}'' then Some (JObj []) else None),
      cd_marshal = (\<lambda>j. None), cd_sprintV = (\<lambda>j. []), cd_formatFloat = (\<lambda>w. []),
      cd_parseQuery = (\<lambda>s. None), cd_parseMediaType = (\<lambda>s. Some s)\<rparr>"

lemma templateSecrets_example: "templateSecrets ''k=$(secrets.db.pw)'' = [(''db'', ''pw'')]"
  by code_simp

theorem interpolate_secrets_from_template_only_witness:
  "interpolateTemplate exampleCodec ''k=$(secrets.db.pw)'' [] None [(''p'', ''$(secrets.x.y)'')]
       (Some (\<lambda>n k. if n = ''db'' then Inr ''s3'' else Inl (Txt ''no''))) =
     interpolateTemplate exampleCodec ''k=$(secrets.db.pw)'' [] None [(''p'', ''$(secrets.x.y)'')]
       (Some (\<lambda>n k. Inr ''s3''))"
  by (rule interpolate_secrets_from_template_only) (simp add: templateSecrets_example)

text \<open>The display string carries no secret: two calls that differ only in the secret values return
  the same display string.\<close>

theorem interpolate_display_hides_secrets:
  assumes "interpolateTemplate cd s stepResults triggerData params (Some f) = Inr (a, d)"
    and "interpolateTemplate cd s stepResults triggerData params (Some g) = Inr (a', d')"
  shows "d = d'"
proof (rule renderSegments_display)
  show "renderSegments (tokenResolver cd stepResults triggerData params (Some f)) (lexTemplate s) = Inr (a, d)"
    using assms(1) by (simp only: interpolateTemplate_eq_render)
  show "renderSegments (tokenResolver cd stepResults triggerData params (Some g)) (lexTemplate s) = Inr (a', d')"
    using assms(2) by (simp only: interpolateTemplate_eq_render)
  fix t r r'
  assume r: "tokenResolver cd stepResults triggerData params (Some f) t = Inr r"
    and r': "tokenResolver cd stepResults triggerData params (Some g) t = Inr r'"
  show "displayText (unlex (Tok t)) r = displayText (unlex (Tok t)) r'"
  proof (cases "tokenSecret t")
    case None
    with r r' show ?thesis by (simp only: resolveToken_not_secret) simp
  next
    case (Some p)
    then obtain n k where "tokenSecret t = Some (n, k)" by (cases p) auto
    with r r' show ?thesis by (auto simp only: resolveToken_secret(1) split: sum.splits) auto
  qed
qed

theorem interpolate_display_hides_secrets_witness:
  "interpolateTemplate exampleCodec ''k=$(secrets.db.pw)'' [] None [] (Some (\<lambda>n k. Inr ''s3'')) =
       Inr (''k=s3'', ''k=[REDACTED]'') \<and>
   interpolateTemplate exampleCodec ''k=$(secrets.db.pw)'' [] None [] (Some (\<lambda>n k. Inr ''q9'')) =
       Inr (''k=q9'', ''k=[REDACTED]'')"
proof -
  have 1: "interpolateTemplate exampleCodec ''k=$(secrets.db.pw)'' [] None [] (Some (\<lambda>n k. Inr ''s3'')) =
       Inr (''k=s3'', ''k=[REDACTED]'')" by code_simp
  have 2: "interpolateTemplate exampleCodec ''k=$(secrets.db.pw)'' [] None [] (Some (\<lambda>n k. Inr ''q9'')) =
       Inr (''k=q9'', ''k=[REDACTED]'')" by code_simp
  show ?thesis using interpolate_display_hides_secrets [OF 1 2] 1 2 by simp
qed

text \<open>A call fails exactly when a secret that the template names cannot be fetched; then no partial
  result is returned.\<close>

theorem interpolate_aborts_iff_secret_missing:
  "(\<exists>e. interpolateTemplate cd s stepResults triggerData params (Some f) = Inl e) \<longleftrightarrow>
     (\<exists>n k e. (n, k) \<in> set (templateSecrets s) \<and> f n k = Inl e)"
proof -
  have tok: "(\<exists>e. tokenResolver cd stepResults triggerData params (Some f) t = Inl e) \<longleftrightarrow>
          (\<exists>n k e. tokenSecret t = Some (n, k) \<and> f n k = Inl e)" for t
  proof (cases "tokenSecret t")
    case None
    with resolveToken_total [of cd t stepResults triggerData params] show ?thesis
      by (auto simp only: resolveToken_not_secret)
  next
    case (Some p)
    then obtain n k where nk: "tokenSecret t = Some (n, k)" by (cases p) auto
    then show ?thesis by (simp only: resolveToken_secret(1)) (auto split: sum.splits)
  qed
  have "(\<exists>e. interpolateTemplate cd s stepResults triggerData params (Some f) = Inl e) \<longleftrightarrow>
      (\<exists>t. Tok t \<in> set (lexTemplate s) \<and>
           (\<exists>e. tokenResolver cd stepResults triggerData params (Some f) t = Inl e))"
    unfolding interpolateTemplate_eq_render renderSegments_Inl_iff by blast
  then show ?thesis unfolding tok templateSecrets_iff by blast
qed

text \<open>Without a secret resolver interpolation always succeeds, leaves \<^verbatim>\<open>$(secrets.*)\<close> as literal
  text, and shows what it computes, so \<^verbatim>\<open>substituteVars\<close> may drop the error.\<close>

theorem substituteVars_total:
  "interpolateTemplate cd s stepResults triggerData params None =
     Inr (substituteVars cd s stepResults triggerData params,
          substituteVars cd s stepResults triggerData params)
   \<and> (\<forall>t. tokenSecret t \<noteq> None \<longrightarrow> tokenResolver cd stepResults triggerData params None t = Inr Unresolved)"
proof -
  have same: "\<exists>a. renderSegments (tokenResolver cd stepResults triggerData params None) segs = Inr (a, a)" for segs
  proof (induction "tokenResolver cd stepResults triggerData params None" segs rule: renderSegments.induct)
    case (3 t segs)
    obtain r where r: "tokenResolver cd stepResults triggerData params None t = Inr r" "\<forall>v. r \<noteq> Secret v"
      using resolveToken_total by blast
    then have "actualText full r = displayText full r" for full by (cases r) auto
    with 3 r(1) show ?case by auto
  qed auto
  obtain a where a: "interpolateTemplate cd s stepResults triggerData params None = Inr (a, a)"
    using same interpolateTemplate_eq_render by metis
  moreover have "tokenResolver cd stepResults triggerData params None t = Inr Unresolved"
    if "tokenSecret t \<noteq> None" for t
  proof -
    from that obtain n k where "tokenSecret t = Some (n, k)" by auto
    then show ?thesis by (rule resolveToken_secret(2))
  qed
  ultimately show ?thesis by (simp add: substituteVars_def del: not_None_eq)
qed

theorem substituteVars_total_witness:
  "tokenSecret ''secrets.a.b'' \<noteq> None \<and>
   tokenResolver exampleCodec [] None [] None ''secrets.a.b'' = Inr Unresolved"
proof -
  have "tokenSecret ''secrets.a.b'' \<noteq> None" by code_simp
  then show ?thesis using substituteVars_total [of exampleCodec "''$(secrets.a.b)''" "[]" None "[]"] by blast
qed

section \<open>Properties of Flow parameters\<close>

text \<open>The documented order: an explicit value of the run, else the same-named top-level field of the
  trigger body, else the default, else an error for a required parameter, else the empty string.\<close>

definition bodyField :: "codec \<Rightarrow> triggerData option \<Rightarrow> string \<Rightarrow> json option" where
  "bodyField cd td n =
     (case parseTriggerBody cd td of Some (JObj m) \<Rightarrow> map_of m n | _ \<Rightarrow> None)"

definition paramValue ::
  "codec \<Rightarrow> smap \<Rightarrow> stepResultsMap \<Rightarrow> triggerData option \<Rightarrow> paramDeclaration \<Rightarrow> string option" where
  "paramValue cd supplied sr td d =
     (case map_of (rev supplied) (pd_name d) of
        Some raw \<Rightarrow> Some (substituteVars cd raw sr td [])
      | None \<Rightarrow>
          (case bodyField cd td (pd_name d) of
             Some v \<Rightarrow> Some (renderBodyLeaf cd v)
           | None \<Rightarrow>
               if pd_default d \<noteq> [] then Some (pd_default d)
               else if pd_required d then None else Some []))"

lemma map_of_suppliedParams: "map_of (suppliedParams ps) = map_of (rev ps)"
proof -
  have "map_of (foldl (\<lambda>m (n, v). AList.update n v m) m ps) = map_of m ++ map_of (rev ps)" for m
    by (induction ps arbitrary: m) (auto simp: update_conv' map_add_def fun_eq_iff split: option.splits)
  then show ?thesis by (simp add: suppliedParams_def)
qed

lemma resolveParamsLoop_eq:
  "resolveParamsLoop cd decls (suppliedParams ps)
           (case parseTriggerBody cd td of Some (JObj m) \<Rightarrow> Some m | _ \<Rightarrow> None) sr td acc =
     (case find (\<lambda>d. paramValue cd ps sr td d = None) decls of
        Some d \<Rightarrow> Inl (Fmt ''required parameter %q not supplied and has no default'' [Txt (pd_name d)])
      | None \<Rightarrow> Inr (foldl (\<lambda>m d. AList.update (pd_name d) (the (paramValue cd ps sr td d)) m) acc decls))"
proof (induction decls arbitrary: acc)
  case Nil
  show ?case by simp
next
  case (Cons d decls)
  have body: "(case (case parseTriggerBody cd td of Some (JObj m) \<Rightarrow> Some m | _ \<Rightarrow> None) of
                 None \<Rightarrow> None | Some m \<Rightarrow> map_of m n) = bodyField cd td n" for n
    by (simp add: bodyField_def split: option.split json.split)
  show ?case
  proof (cases "paramValue cd ps sr td d")
    case None
    then show ?thesis
      by (simp add: paramValue_def map_of_suppliedParams body Let_def split: option.splits if_splits)
  next
    case (Some v)
    then have step: "resolveParamsLoop cd (d # decls) (suppliedParams ps)
         (case parseTriggerBody cd td of Some (JObj m) \<Rightarrow> Some m | _ \<Rightarrow> None) sr td acc =
       resolveParamsLoop cd decls (suppliedParams ps)
         (case parseTriggerBody cd td of Some (JObj m) \<Rightarrow> Some m | _ \<Rightarrow> None) sr td
         (AList.update (pd_name d) v acc)"
      by (simp add: paramValue_def map_of_suppliedParams body Let_def split: option.splits if_splits)
    show ?thesis by (subst step) (simp add: Some Cons.IH split: option.split)
  qed
qed

lemma map_of_foldl_update:
  "distinct (map f ds) \<Longrightarrow> d \<in> set ds \<Longrightarrow>
     map_of (foldl (\<lambda>m d. AList.update (f d) (g d) m) acc ds) (f d) = Some (g d)"
proof (induction ds arbitrary: acc)
  case (Cons x xs)
  have keep: "k \<notin> f ` set ys \<Longrightarrow>
      map_of (foldl (\<lambda>m d. AList.update (f d) (g d) m) a ys) k = map_of a k" for k a ys
    by (induction ys arbitrary: a) (auto simp: update_conv')
  from Cons show ?case by (cases "d = x") (auto simp: keep update_conv')
qed simp

text \<open>\<^verbatim>\<open>resolveFlowParams\<close> follows the documented priority for every declared parameter, and it
  fails exactly when a required parameter has no explicit value, no body field and no default.\<close>

theorem flow_params_resolution:
  assumes "distinct (map pd_name decls)"
  shows "(\<forall>r d. resolveFlowParams cd decls ps sr td = Inr r \<longrightarrow> d \<in> set decls \<longrightarrow>
            map_of r (pd_name d) = paramValue cd ps sr td d \<and> map_of r (pd_name d) \<noteq> None)
       \<and> ((\<exists>e. resolveFlowParams cd decls ps sr td = Inl e) \<longleftrightarrow>
            (\<exists>d \<in> set decls. pd_required d \<and> pd_default d = [] \<and>
               map_of (rev ps) (pd_name d) = None \<and> bodyField cd td (pd_name d) = None))"
proof -
  let ?pv = "paramValue cd ps sr td"
  have eq: "resolveFlowParams cd decls ps sr td =
      (case find (\<lambda>d. ?pv d = None) decls of
         Some d \<Rightarrow> Inl (Fmt ''required parameter %q not supplied and has no default'' [Txt (pd_name d)])
       | None \<Rightarrow> Inr (foldl (\<lambda>m d. AList.update (pd_name d) (the (?pv d)) m) [] decls))"
    by (simp add: resolveFlowParams_def resolveParamsLoop_eq Let_def)
  have none: "?pv d = None \<longleftrightarrow> pd_required d \<and> pd_default d = [] \<and>
      map_of (rev ps) (pd_name d) = None \<and> bodyField cd td (pd_name d) = None" for d
    by (auto simp: paramValue_def split: option.splits)
  have first: "map_of r (pd_name d) = ?pv d \<and> map_of r (pd_name d) \<noteq> None"
    if "resolveFlowParams cd decls ps sr td = Inr r" and "d \<in> set decls" for r d
  proof -
    from that eq have "find (\<lambda>d. ?pv d = None) decls = None"
      and r: "r = foldl (\<lambda>m d. AList.update (pd_name d) (the (?pv d)) m) [] decls"
      by (auto split: option.splits)
    with that(2) have "?pv d \<noteq> None" by (auto simp: find_None_iff)
    moreover have "map_of r (pd_name d) = Some (the (?pv d))"
      unfolding r by (rule map_of_foldl_update [OF assms that(2)])
    ultimately show ?thesis by simp
  qed
  moreover have "(\<exists>e. resolveFlowParams cd decls ps sr td = Inl e) \<longleftrightarrow> (\<exists>d \<in> set decls. ?pv d = None)"
    unfolding eq by (auto simp: find_None_iff find_Some_iff split: option.splits)
  ultimately show ?thesis unfolding none by blast
qed

theorem flow_params_resolution_witness:
  "distinct (map pd_name [\<lparr>pd_name = ''region'', pd_required = True, pd_default = []\<rparr>]) \<and>
   (\<exists>e. resolveFlowParams exampleCodec [\<lparr>pd_name = ''region'', pd_required = True, pd_default = []\<rparr>]
          [] [] None = Inl e)"
  using flow_params_resolution [of "[\<lparr>pd_name = ''region'', pd_required = True, pd_default = []\<rparr>]"
      exampleCodec "[]" "[]" None]
  by (simp add: bodyField_def parseTriggerBody_def)

end
