(* ===== verification/WhenConditions.thy ===== *)
theory WhenConditions
  imports Interpolation
begin

text \<open>
  \<^verbatim>\<open>when\<close> conditions (\<^verbatim>\<open>evaluateWhen\<close>, \<^verbatim>\<open>internal/controller/flowrun_controller.go\<close> lines 1966 to
  2100): the activation a CEL expression sees, and the evaluation loop with its cache of compiled
  programs. The CEL library is the record \<open>celLib\<close>, an argument of the definitions: compilation,
  program construction with a cost limit, and evaluation.
\<close>

section \<open>Activation\<close>

datatype celVal = CStr string | CJson json | CMap "(string \<times> celVal) list"

fun stepPhaseString :: "stepPhase \<Rightarrow> string" where
  "stepPhaseString StepPhaseUnset = ''''"
| "stepPhaseString StepPhasePending = ''Pending''"
| "stepPhaseString StepPhaseRunning = ''Running''"
| "stepPhaseString StepPhaseSucceeded = ''Succeeded''"
| "stepPhaseString StepPhaseFailed = ''Failed''"
| "stepPhaseString StepPhaseSkipped = ''Skipped''"
| "stepPhaseString StepPhaseWaiting = ''Waiting''"

definition strMap :: "smap \<Rightarrow> celVal" where
  "strMap m = CMap (map (\<lambda>(k, v). (k, CStr v)) m)"

definition triggerActivation :: "codec \<Rightarrow> triggerData option \<Rightarrow> celVal" where
  "triggerActivation cd triggerData =
     (case triggerData of
        None \<Rightarrow> CMap
          [(''body'', CStr ''''), (''bodyFields'', CMap []), (''topic'', CStr ''''),
           (''partition'', CStr ''0''), (''offset'', CStr ''0''), (''key'', CStr ''''),
           (''keyEncoding'', CStr ''''), (''scheduledTime'', CStr ''''), (''headers'', CMap [])]
      | Some td \<Rightarrow> CMap
          [(''body'', CStr (td_body td)),
           (''bodyFields'', (case parseTriggerBody cd (Some td) of
                               Some bodyRoot \<Rightarrow> CJson bodyRoot | None \<Rightarrow> CMap [])),
           (''topic'', CStr (td_topic td)),
           (''partition'', CStr (showInt (td_partition td))),
           (''offset'', CStr (showInt (td_offset td))),
           (''key'', CStr (td_key td)),
           (''keyEncoding'', CStr (td_keyEncoding td)),
           (''scheduledTime'', (case td_scheduledTime td of
                                  Some t \<Rightarrow> CStr (rfc3339 t) | None \<Rightarrow> CStr '''')),
           (''headers'', strMap (td_headers td))])"

text \<open>Entries of \<^verbatim>\<open>stepsMap\<close>: the results and the status string of a step.\<close>

definition stepsActivation ::
  "stepResultsMap \<Rightarrow> stepRunStatus list \<Rightarrow> (string \<times> smap \<times> string) list" where
  "stepsActivation stepResults stepStatuses =
     (let m0 = foldl (\<lambda>m (name, results).
                  AList.update (replaceAll name ''-'' ''_'') (results, '''') m) [] stepResults
      in foldl (\<lambda>m ss.
             let underscoreName = replaceAll (ss_name ss) ''-'' ''_'';
                 status = stepPhaseString (ss_phase ss)
             in case map_of m underscoreName of
                  Some (results, _) \<Rightarrow> AList.update underscoreName (results, status) m
                | None \<Rightarrow> AList.update underscoreName ([], status) m) m0 stepStatuses)"

definition whenActivation ::
  "codec \<Rightarrow> stepResultsMap \<Rightarrow> stepRunStatus list \<Rightarrow> triggerData option \<Rightarrow> smap \<Rightarrow> celVal" where
  "whenActivation cd stepResults stepStatuses triggerData params =
     CMap [(''trigger'', triggerActivation cd triggerData),
           (''steps'', CMap (map (\<lambda>(n, results, status).
                (n, CMap [(''results'', strMap results), (''status'', CStr status)]))
                (stepsActivation stepResults stepStatuses))),
           (''params'', strMap params)]"

section \<open>Evaluation\<close>

datatype celOut = CelBool bool | CelOther string

record ('a, 'p) celLib =
  cel_compile :: "string \<Rightarrow> 'a result"
  cel_program :: "'a \<Rightarrow> int option \<Rightarrow> 'p result"
  cel_eval :: "'p \<Rightarrow> celVal \<Rightarrow> celOut result"

text \<open>The fields of the reconciler that \<^verbatim>\<open>evaluateWhen\<close> reads.\<close>

record whenConfig =
  wc_celEnv :: bool
  wc_disableCELCache :: bool
  wc_celCostLimit :: int

definition compileProgram :: "('a, 'p) celLib \<Rightarrow> whenConfig \<Rightarrow> string \<Rightarrow> 'p result" where
  "compileProgram lib cfg e =
     (case cel_compile lib e of
        Inl iss \<Rightarrow> Inl (Fmt ''CEL compile error: %w'' [iss])
      | Inr ast \<Rightarrow>
          (case cel_program lib ast (if wc_celCostLimit cfg > 0 then Some (wc_celCostLimit cfg) else None) of
             Inl err \<Rightarrow> Inl (Fmt ''CEL program error: %w'' [err])
           | Inr prog \<Rightarrow> Inr prog))"

fun evaluateWhenLoop ::
  "('a, 'p) celLib \<Rightarrow> whenConfig \<Rightarrow> celVal \<Rightarrow> string list \<Rightarrow> (string \<rightharpoonup> 'p) \<Rightarrow>
   bool result \<times> (string \<rightharpoonup> 'p)" where
  "evaluateWhenLoop lib cfg activation [] cache = (Inr True, cache)"
| "evaluateWhenLoop lib cfg activation (e # es) cache =
     (case (case (if wc_disableCELCache cfg then None else cache e) of
              Some prog \<Rightarrow> (Inr prog, cache)
            | None \<Rightarrow>
                (case compileProgram lib cfg e of
                   Inl err \<Rightarrow> (Inl err, cache)
                 | Inr prog \<Rightarrow>
                     (Inr prog, if wc_disableCELCache cfg then cache else cache(e \<mapsto> prog)))) of
        (Inl err, cache') \<Rightarrow> (Inl err, cache')
      | (Inr prog, cache') \<Rightarrow>
          (case cel_eval lib prog activation of
             Inl err \<Rightarrow> (Inl (Fmt ''CEL eval error: %w'' [err]), cache')
           | Inr (CelOther v) \<Rightarrow>
               (Inl (Fmt ''CEL expression did not return bool: %v'' [Txt v]), cache')
           | Inr (CelBool b) \<Rightarrow>
               if \<not> b then (Inr False, cache')
               else evaluateWhenLoop lib cfg activation es cache'))"

definition evaluateWhen ::
  "codec \<Rightarrow> ('a, 'p) celLib \<Rightarrow> whenConfig \<Rightarrow> string list \<Rightarrow> stepResultsMap \<Rightarrow> stepRunStatus list \<Rightarrow>
   triggerData option \<Rightarrow> smap \<Rightarrow> (string \<rightharpoonup> 'p) \<Rightarrow> bool result \<times> (string \<rightharpoonup> 'p)" where
  "evaluateWhen cd lib cfg whens stepResults stepStatuses triggerData params cache =
     (if whens = [] then (Inr True, cache)
      else if \<not> wc_celEnv cfg then (Inl (Txt ''CEL environment not initialized''), cache)
      else evaluateWhenLoop lib cfg
             (whenActivation cd stepResults stepStatuses triggerData params) whens cache)"

section \<open>The cache does not change results\<close>

text \<open>The value of one expression, compiled afresh.\<close>

definition evalExpression ::
  "('a, 'p) celLib \<Rightarrow> whenConfig \<Rightarrow> celVal \<Rightarrow> string \<Rightarrow> bool result" where
  "evalExpression lib cfg activation e =
     bindR (compileProgram lib cfg e) (\<lambda>prog.
       case cel_eval lib prog activation of
         Inl err \<Rightarrow> Inl (Fmt ''CEL eval error: %w'' [err])
       | Inr (CelOther v) \<Rightarrow> Inl (Fmt ''CEL expression did not return bool: %v'' [Txt v])
       | Inr (CelBool b) \<Rightarrow> Inr b)"

text \<open>The conjunction with the source's short cut: stop at the first error or \<^const>\<open>False\<close>.\<close>

fun allHold :: "(string \<Rightarrow> bool result) \<Rightarrow> string list \<Rightarrow> bool result" where
  "allHold f [] = Inr True"
| "allHold f (e # es) = bindR (f e) (\<lambda>b. if b then allHold f es else Inr False)"

definition cacheSound :: "('a, 'p) celLib \<Rightarrow> whenConfig \<Rightarrow> (string \<rightharpoonup> 'p) \<Rightarrow> bool" where
  "cacheSound lib cfg cache \<longleftrightarrow> (\<forall>e prog. cache e = Some prog \<longrightarrow> compileProgram lib cfg e = Inr prog)"

lemma evaluateWhenLoop_sound:
  assumes "cacheSound lib cfg cache"
  shows "fst (evaluateWhenLoop lib cfg act es cache) = allHold (evalExpression lib cfg act) es \<and>
         cacheSound lib cfg (snd (evaluateWhenLoop lib cfg act es cache))"
  using assms
proof (induction es arbitrary: cache)
  case Nil
  then show ?case by simp
next
  case (Cons e es)
  let ?look = "case (if wc_disableCELCache cfg then None else cache e) of
              Some prog \<Rightarrow> (Inr prog, cache)
            | None \<Rightarrow>
                (case compileProgram lib cfg e of
                   Inl err \<Rightarrow> (Inl err, cache)
                 | Inr prog \<Rightarrow>
                     (Inr prog, if wc_disableCELCache cfg then cache else cache(e \<mapsto> prog)))"
  have look: "fst ?look = compileProgram lib cfg e \<and> cacheSound lib cfg (snd ?look)"
    using Cons.prems by (auto simp: cacheSound_def split: option.splits sum.splits if_splits)
  obtain p cache' where pc: "?look = (p, cache')" by (cases ?look)
  with look have p: "p = compileProgram lib cfg e" and sound: "cacheSound lib cfg cache'" by auto
  have step: "evaluateWhenLoop lib cfg act (e # es) cache =
      (case p of Inl err \<Rightarrow> (Inl err, cache')
       | Inr prog \<Rightarrow>
          (case cel_eval lib prog act of
             Inl err \<Rightarrow> (Inl (Fmt ''CEL eval error: %w'' [err]), cache')
           | Inr (CelOther v) \<Rightarrow>
               (Inl (Fmt ''CEL expression did not return bool: %v'' [Txt v]), cache')
           | Inr (CelBool b) \<Rightarrow>
               if \<not> b then (Inr False, cache')
               else evaluateWhenLoop lib cfg act es cache'))"
    by (subst evaluateWhenLoop.simps, subst pc) simp
  show ?case
    unfolding step using Cons.IH [OF sound] sound p
    by (auto simp: evalExpression_def split: sum.splits celOut.splits)
qed

lemma allHold_True_iff:
  "allHold f es = Inr True \<longleftrightarrow> list_all (\<lambda>e. f e = Inr True) es"
  by (induction es) auto

text \<open>Caching compiled programs changes no answer: from a cache that holds only programs compiled
  from their own expression, \<^verbatim>\<open>evaluateWhen\<close> returns what the evaluation without a cache returns, keeps
  the cache sound, and lets the step run exactly when every expression evaluates to true.\<close>

theorem evaluateWhen_cache_transparent:
  assumes "cacheSound lib cfg cache"
  shows "fst (evaluateWhen cd lib cfg whens sr ss td ps cache) =
           fst (evaluateWhen cd lib (cfg\<lparr>wc_disableCELCache := True\<rparr>) whens sr ss td ps Map.empty)
       \<and> cacheSound lib cfg (snd (evaluateWhen cd lib cfg whens sr ss td ps cache))
       \<and> (wc_celEnv cfg \<longrightarrow>
            (fst (evaluateWhen cd lib cfg whens sr ss td ps cache) = Inr True \<longleftrightarrow>
               (\<forall>e \<in> set whens.
                  evalExpression lib cfg (whenActivation cd sr ss td ps) e = Inr True)))"
proof -
  let ?cfg' = "cfg\<lparr>wc_disableCELCache := True\<rparr>"
  have same: "evalExpression lib ?cfg' = evalExpression lib cfg"
  proof (intro ext)
    fix act e
    have "compileProgram lib ?cfg' e = compileProgram lib cfg e"
      by (simp add: compileProgram_def split: sum.split)
    then show "evalExpression lib ?cfg' act e = evalExpression lib cfg act e"
      by (simp add: evalExpression_def)
  qed
  have empty: "cacheSound lib ?cfg' Map.empty" by (simp add: cacheSound_def)
  note l = evaluateWhenLoop_sound [OF assms, of "whenActivation cd sr ss td ps" whens]
  note l' = evaluateWhenLoop_sound [OF empty, of "whenActivation cd sr ss td ps" whens]
  show ?thesis
    using l l' assms
    by (cases "whens = []") (auto simp: evaluateWhen_def same allHold_True_iff list_all_iff)
qed

definition exampleCel :: "(string, string) celLib" where
  "exampleCel = \<lparr>cel_compile = (\<lambda>s. Inr s), cel_program = (\<lambda>a c. Inr a),
                 cel_eval = (\<lambda>p act. Inr (CelBool (p = ''true'')))\<rparr>"

theorem evaluateWhen_cache_transparent_witness:
  "cacheSound exampleCel \<lparr>wc_celEnv = True, wc_disableCELCache = False, wc_celCostLimit = 0\<rparr>
     [''true'' \<mapsto> ''true''] \<and>
   fst (evaluateWhen exampleCodec exampleCel
          \<lparr>wc_celEnv = True, wc_disableCELCache = False, wc_celCostLimit = 0\<rparr>
          [''true'', ''false''] [] [] None [] [''true'' \<mapsto> ''true'']) = Inr False"
proof -
  let ?cfg = "\<lparr>wc_celEnv = True, wc_disableCELCache = False, wc_celCostLimit = 0\<rparr>"
  have h: "cacheSound exampleCel ?cfg [''true'' \<mapsto> ''true'']"
    by (simp add: cacheSound_def compileProgram_def exampleCel_def)
  show ?thesis
    using h evaluateWhen_cache_transparent [OF h, of exampleCodec "[''true'', ''false'']" "[]" "[]" None "[]"]
    by (simp add: evaluateWhen_def compileProgram_def exampleCel_def)
qed

end
