(* ===== verification/IntegrationTypes.thy ===== *)
theory IntegrationTypes
  imports ApiTypes
begin

text \<open>
  The Integration resource (\<^verbatim>\<open>api/v1alpha1/integration_types.go\<close>) with the kinds the FlowRun controller
  publishes to or calls through, and the reads of Kubernetes objects: secrets, config maps,
  integrations and flows. Reads are answered by the record \<open>cluster\<close>, an argument of the definitions.
\<close>

text \<open>A \<^verbatim>\<open>SecretKeySelector\<close> or \<^verbatim>\<open>ConfigMapKeySelector\<close>: object name and key.\<close>

record keySelector =
  ks_name :: string
  ks_key :: string

section \<open>HTTP\<close>

datatype httpAuthType =
    HttpAuthUnset | HttpAuthBearer | HttpAuthBasic | HttpAuthAPIKey | HttpAuthSecretURL

record httpBasicAuth =
  hba_usernameSecretRef :: keySelector
  hba_passwordSecretRef :: keySelector

record httpAPIKeyAuth =
  hka_headerName :: string
  hka_valueSecretRef :: keySelector

text \<open>\<^verbatim>\<open>HttpBearerAuth\<close> and \<^verbatim>\<open>HttpSecretURLAuth\<close> have one field, the selector.\<close>

record httpAuthSpec =
  has_type :: httpAuthType
  has_bearer :: "keySelector option"
  has_basic :: "httpBasicAuth option"
  has_apiKey :: "httpAPIKeyAuth option"
  has_secretURL :: "keySelector option"

record httpTLSSpec =
  hts_caBundleConfigMapRef :: "keySelector option"
  hts_clientCertSecretRef :: "string option"

record httpIntegrationSpec =
  hi_baseURL :: string
  hi_auth :: "httpAuthSpec option"
  hi_defaultHeaders :: smap
  hi_tls :: "httpTLSSpec option"

section \<open>Kafka\<close>

record kafkaTLSConfig =
  kt_enabled :: bool
  kt_insecureSkipVerify :: bool
  kt_caSecretRef :: "keySelector option"
  kt_clientCertSecretRef :: "string option"

record kafkaSASLConfig =
  ksc_mechanism :: string
  ksc_usernameSecretRef :: keySelector
  ksc_passwordSecretRef :: keySelector

record kafkaIntegrationSpec =
  ki_bootstrapServers :: "string list"
  ki_tls :: "kafkaTLSConfig option"
  ki_sasl :: "kafkaSASLConfig option"
  ki_consumerGroupPrefix :: string

section \<open>AMQP and NATS\<close>

record amqpTLSConfig =
  at_enabled :: bool
  at_insecureSkipVerify :: bool
  at_caSecretRef :: "keySelector option"
  at_clientCertSecretRef :: "string option"

record amqpIntegrationSpec =
  ai_url :: string
  ai_version :: string
  ai_tls :: "amqpTLSConfig option"
  ai_usernameSecretRef :: "keySelector option"
  ai_passwordSecretRef :: "keySelector option"

record natsTLSConfig =
  nx_insecureSkipVerify :: bool
  nx_caSecretRef :: "keySelector option"
  nx_clientCertSecretRef :: "string option"

record natsIntegrationSpec =
  ni_servers :: "string list"
  ni_tls :: "natsTLSConfig option"
  ni_credentialsSecretRef :: "string option"
  ni_usernameSecretRef :: "keySelector option"
  ni_passwordSecretRef :: "keySelector option"
  ni_jetStream :: bool

section \<open>Plugins\<close>

text \<open>\<^verbatim>\<open>corev1.EnvVar\<close>: a literal value, a key of a Secret, or another \<^verbatim>\<open>valueFrom\<close> source, kept as written.\<close>

datatype envValue = EnvValue string | EnvSecret string string | EnvOther string

record envVar =
  en_name :: string
  en_value :: envValue

record pluginSecretRef =
  pr_secretName :: string
  pr_envVarMappings :: smap

record pluginIntegrationSpec =
  pi_image :: string
  pi_imageDigest :: string
  pi_publisherPort :: int
  pi_secretRefs :: "pluginSecretRef list"
  pi_env :: "envVar list"
  pi_mtlsEnabled :: bool

section \<open>Integration\<close>

record integrationStatus =
  is_conditions :: "condition list"
  is_gatewayDeploymentName :: string
  is_lastReconciledTime :: "time option"

record integration =
  ig_name :: string
  ig_namespace :: string
  ig_generation :: int
  ig_type :: string
  ig_kafka :: "kafkaIntegrationSpec option"
  ig_amqp :: "amqpIntegrationSpec option"
  ig_nats :: "natsIntegrationSpec option"
  ig_plugin :: "pluginIntegrationSpec option"
  ig_http :: "httpIntegrationSpec option"
  ig_status :: integrationStatus

definition emptyIntegrationStatus :: integrationStatus where
  "emptyIntegrationStatus = \<lparr>is_conditions = [], is_gatewayDeploymentName = [], is_lastReconciledTime = None\<rparr>"

section \<open>Reads\<close>

record cluster =
  k_secret :: "string \<Rightarrow> string \<Rightarrow> apiError + smap"
  k_configMap :: "string \<Rightarrow> string \<Rightarrow> apiError + smap"
  k_integration :: "string \<Rightarrow> string \<Rightarrow> apiError + integration"
  k_flow :: "string \<Rightarrow> string \<Rightarrow> apiError + flowSpec"

definition fetchSecretValue :: "cluster \<Rightarrow> string \<Rightarrow> keySelector \<Rightarrow> string result" where
  "fetchSecretValue cl namespace ref =
     (case k_secret cl namespace (ks_name ref) of
        Inl err \<Rightarrow> Inl (Fmt ''secret %q not found: %w'' [Txt (ks_name ref), apiErrorMsg err])
      | Inr data \<Rightarrow>
          (case map_of data (ks_key ref) of
             None \<Rightarrow> Inl (Fmt ''key %q not found in secret %q'' [Txt (ks_key ref), Txt (ks_name ref)])
           | Some val \<Rightarrow> Inr val))"

definition fetchConfigMapValue :: "cluster \<Rightarrow> string \<Rightarrow> keySelector \<Rightarrow> string result" where
  "fetchConfigMapValue cl namespace ref =
     (case k_configMap cl namespace (ks_name ref) of
        Inl err \<Rightarrow> Inl (Fmt ''configmap %q not found: %w'' [Txt (ks_name ref), apiErrorMsg err])
      | Inr data \<Rightarrow>
          (case map_of data (ks_key ref) of
             None \<Rightarrow> Inl (Fmt ''key %q not found in configmap %q'' [Txt (ks_key ref), Txt (ks_name ref)])
           | Some val \<Rightarrow> Inr val))"

section \<open>The per-reconcile Integration cache\<close>

text \<open>\<^verbatim>\<open>HTTP\<close> and publish steps look an Integration up in a map kept for one reconcile before they read it,
  and store what they read.\<close>

type_synonym integrationCache = "string \<rightharpoonup> integration"

definition getIntegration ::
  "cluster \<Rightarrow> string \<Rightarrow> string \<Rightarrow> integrationCache \<Rightarrow> (apiError + integration) \<times> integrationCache" where
  "getIntegration cl namespace name cache =
     (let cacheKey = namespace @ ''/'' @ name
      in case cache cacheKey of
           Some integration \<Rightarrow> (Inr integration, cache)
         | None \<Rightarrow>
             (case k_integration cl namespace name of
                Inl err \<Rightarrow> (Inl err, cache)
              | Inr fetched \<Rightarrow> (Inr fetched, cache(cacheKey \<mapsto> fetched))))"

text \<open>Every entry of the cache is what a read of that Integration returns. Kubernetes names and
  namespaces contain no slash, so the key determines both.\<close>

definition cacheOf :: "cluster \<Rightarrow> string \<Rightarrow> integrationCache \<Rightarrow> bool" where
  "cacheOf cl namespace cache \<longleftrightarrow>
     (\<forall>name ig. cache (namespace @ ''/'' @ name) = Some ig \<longrightarrow> k_integration cl namespace name = Inr ig)"

lemma getIntegration_sound:
  assumes "cacheOf cl ns cache"
  shows "fst (getIntegration cl ns name cache) = k_integration cl ns name"
    and "cacheOf cl ns (snd (getIntegration cl ns name cache))"
  using assms by (auto simp: getIntegration_def cacheOf_def Let_def split: option.splits sum.splits)

lemma cacheOf_empty [simp]: "cacheOf cl ns Map.empty"
  by (simp add: cacheOf_def)

end
