(* ===== verification/NetAddr.thy ===== *)
theory NetAddr
  imports Prelude "HOL-Library.Word"
begin

text \<open>
  The parts of Go's \<^verbatim>\<open>net\<close> package the SSRF filter and the webhook gateway rely on: addresses of 4 or
  16 bytes, \<^verbatim>\<open>ParseIP\<close>, \<^verbatim>\<open>ParseCIDR\<close>, \<^verbatim>\<open>IPNet.Contains\<close> and \<^verbatim>\<open>SplitHostPort\<close>. An address is the
  big-endian word of its bytes.
\<close>

unbundle bit_operations_syntax

section \<open>Addresses\<close>

datatype netIP = IP4 "32 word" | IP16 "128 word"

text \<open>\<^verbatim>\<open>IP.To4\<close>: an IPv4-mapped IPv6 address is the IPv4 address in its last four bytes.\<close>

fun to4 :: "netIP \<Rightarrow> 32 word option" where
  "to4 (IP4 w) = Some w"
| "to4 (IP16 w) = (if drop_bit 32 w = 0xffff then Some (ucast w) else None)"

definition mapped4 :: "32 word \<Rightarrow> netIP" where
  "mapped4 w = IP16 (push_bit 32 0xffff OR ucast w)"

definition norm4 :: "netIP \<Rightarrow> netIP" where
  "norm4 ip = (case to4 ip of Some w \<Rightarrow> IP4 w | None \<Rightarrow> ip)"

definition ipMsg :: "netIP \<Rightarrow> msg" where
  "ipMsg ip = (case norm4 ip of
     IP4 w \<Rightarrow> Fmt ''IPv4'' [Txt (showNat (unat w))]
   | IP16 w \<Rightarrow> Fmt ''IPv6'' [Txt (showNat (unat w))])"

section \<open>Parsing\<close>

definition parseOctet :: "string \<Rightarrow> nat option" where
  "parseOctet s =
     (if s \<noteq> [] \<and> list_all isDigit s \<and> (hd s = CHR ''0'' \<longrightarrow> length s = 1) \<and> length s \<le> 3
         \<and> natOfDigits s \<le> 255
      then Some (natOfDigits s) else None)"

definition parseIPv4 :: "string \<Rightarrow> 32 word option" where
  "parseIPv4 s =
     (case map parseOctet (splitOn (CHR ''.'') s) of
        [Some a, Some b, Some c, Some d] \<Rightarrow> Some (of_nat (((a * 256 + b) * 256 + c) * 256 + d))
      | _ \<Rightarrow> None)"

definition hexVal :: "char \<Rightarrow> nat option" where
  "hexVal c = (let n = (of_char c :: nat) in
     if 48 \<le> n \<and> n \<le> 57 then Some (n - 48)
     else if 97 \<le> n \<and> n \<le> 102 then Some (n - 87)
     else if 65 \<le> n \<and> n \<le> 70 then Some (n - 55) else None)"

definition hexNum :: "string \<Rightarrow> nat" where
  "hexNum s = foldl (\<lambda>n c. n * 16 + the (hexVal c)) 0 s"

text \<open>The loop of \<^verbatim>\<open>netip.parseIPv6\<close>: \<open>gs\<close> are the 16-bit groups read so far, \<open>ell\<close> the position of the
  ellipsis. Returns the groups and the ellipsis of a string that is used up.\<close>

function parseIPv6Groups ::
  "string \<Rightarrow> nat list \<Rightarrow> nat option \<Rightarrow> (nat list \<times> nat option) option" where
  "parseIPv6Groups s gs ell =
     (let ds = takeWhile (\<lambda>c. hexVal c \<noteq> None) s; rest = drop (length ds) s
      in if 8 \<le> length gs then None
         else if ds = [] \<or> 4 < length ds then None
         else if rest \<noteq> [] \<and> hd rest = CHR ''.'' then
           (if (ell = None \<and> length gs \<noteq> 6) \<or> 6 < length gs then None
            else case parseIPv4 s of
                None \<Rightarrow> None
              | Some w \<Rightarrow> Some (gs @ [unat w div 65536, unat w mod 65536], ell))
         else
           (let gs' = gs @ [hexNum ds]
            in if rest = [] then Some (gs', ell)
               else if hd rest \<noteq> CHR '':'' \<or> length rest = 1 then None
               else if hd (tl rest) = CHR '':'' then
                 (if ell \<noteq> None then None
                  else if tl (tl rest) = [] then Some (gs', Some (length gs'))
                  else parseIPv6Groups (tl (tl rest)) gs' (Some (length gs')))
               else parseIPv6Groups (tl rest) gs' ell))"
  by pat_completeness auto
termination
proof (relation "measure (\<lambda>(s, gs, ell). length s)", goal_cases)
  case 1
  show ?case by simp
next
  case (2 s gs ell ds rest gs')
  then have "rest \<noteq> []" "length rest \<le> length s" by auto
  then show ?case by (cases rest) auto
next
  case (3 s gs ell ds rest gs')
  then have "rest \<noteq> []" "length rest \<le> length s" by auto
  then show ?case by (cases rest) auto
qed

declare parseIPv6Groups.simps [simp del]

definition parseIPv6 :: "string \<Rightarrow> 128 word option" where
  "parseIPv6 s =
     (let lead = hasPrefix s ''::''; s' = (if lead then drop 2 s else s)
      in if lead \<and> s' = [] then Some 0
         else case parseIPv6Groups s' [] (if lead then Some 0 else None) of
             None \<Rightarrow> None
           | Some (gs, ell) \<Rightarrow>
               (case ell of
                  None \<Rightarrow> if length gs = 8 then Some (of_nat (foldl (\<lambda>n g. n * 65536 + g) 0 gs)) else None
                | Some e \<Rightarrow>
                    if 8 \<le> length gs then None
                    else Some (of_nat (foldl (\<lambda>n g. n * 65536 + g) 0
                           (take e gs @ replicate (8 - length gs) 0 @ drop e gs)))))"

text \<open>\<^verbatim>\<open>netip.ParseAddr\<close> for an address without a zone (a zone makes \<^verbatim>\<open>net.ParseIP\<close> and \<^verbatim>\<open>net.ParseCIDR\<close>
  fail): the first dot or colon decides the family.\<close>

definition parseAddr :: "string \<Rightarrow> netIP option" where
  "parseAddr s =
     (if CHR ''%'' \<in> set s then None
      else case filter (\<lambda>c. c = CHR ''.'' \<or> c = CHR '':'') s of
          [] \<Rightarrow> None
        | c # _ \<Rightarrow> if c = CHR ''.'' then map_option IP4 (parseIPv4 s)
                   else map_option IP16 (parseIPv6 s))"

text \<open>\<^verbatim>\<open>net.ParseIP\<close> returns 16 bytes.\<close>

definition parseIP :: "string \<Rightarrow> netIP option" where
  "parseIP s = (case parseAddr s of
     Some (IP4 w) \<Rightarrow> Some (mapped4 w) | r \<Rightarrow> r)"

section \<open>Networks\<close>

text \<open>A mask has 4 or 16 bytes, as an address.\<close>

record ipNet =
  in_ip :: netIP
  in_mask :: netIP

definition cidrMask4 :: "nat \<Rightarrow> 32 word" where
  "cidrMask4 n = NOT (mask (32 - n))"

definition cidrMask16 :: "nat \<Rightarrow> 128 word" where
  "cidrMask16 n = NOT (mask (128 - n))"

definition parseCIDR :: "string \<Rightarrow> ipNet option" where
  "parseCIDR s =
     (case strIndex s ''/'' of
        None \<Rightarrow> None
      | Some i \<Rightarrow>
          (let addr = take i s; bits = drop (i + 1) s; n = natOfDigits bits
           in if bits = [] \<or> \<not> list_all isDigit bits then None
              else case parseAddr addr of
                  None \<Rightarrow> None
                | Some (IP4 w) \<Rightarrow>
                    if n \<le> 32 then Some \<lparr>in_ip = IP4 (w AND cidrMask4 n), in_mask = IP4 (cidrMask4 n)\<rparr>
                    else None
                | Some (IP16 w) \<Rightarrow>
                    if n \<le> 128
                    then Some \<lparr>in_ip = IP16 (w AND cidrMask16 n), in_mask = IP16 (cidrMask16 n)\<rparr>
                    else None))"

definition netContains :: "ipNet \<Rightarrow> netIP \<Rightarrow> bool" where
  "netContains n ip =
     (case (norm4 (in_ip n), in_mask n, norm4 ip) of
        (IP4 a, IP4 m, IP4 w) \<Rightarrow> a AND m = w AND m
      | (IP4 a, IP16 m, IP4 w) \<Rightarrow> a AND ucast m = w AND ucast m
      | (IP16 a, IP16 m, IP16 w) \<Rightarrow> a AND m = w AND m
      | _ \<Rightarrow> False)"

definition netMsg :: "ipNet \<Rightarrow> msg" where
  "netMsg n = Fmt ''CIDR'' [ipMsg (in_ip n), ipMsg (in_mask n)]"

section \<open>Host and port\<close>

text \<open>\<^verbatim>\<open>net.SplitHostPort\<close>: the last colon separates the port; an address in brackets may contain
  colons; \<^const>\<open>None\<close> for every error.\<close>

fun lastIndex :: "char \<Rightarrow> string \<Rightarrow> nat option" where
  "lastIndex c [] = None"
| "lastIndex c (x # xs) =
     (case lastIndex c xs of Some i \<Rightarrow> Some (Suc i) | None \<Rightarrow> if x = c then Some 0 else None)"

definition splitHostPort :: "string \<Rightarrow> (string \<times> string) option" where
  "splitHostPort s =
     (case lastIndex (CHR '':'') s of
        None \<Rightarrow> None
      | Some i \<Rightarrow>
          if s \<noteq> [] \<and> hd s = CHR ''['' then
            (case strIndex s '']'' of
               None \<Rightarrow> None
             | Some e \<Rightarrow>
                 if e + 1 \<noteq> i then None
                 else if CHR ''['' \<in> set (drop 1 s) \<or> CHR '']'' \<in> set (drop (e + 1) s) then None
                 else Some (take (e - 1) (drop 1 s), drop (i + 1) s))
          else
            (let host = take i s
             in if CHR '':'' \<in> set host \<or> CHR ''['' \<in> set s \<or> CHR '']'' \<in> set s then None
                else Some (host, drop (i + 1) s)))"

section \<open>Lemmas\<close>

lemma ucast_mapped4: "drop_bit 32 (push_bit 32 0xffff OR (ucast w :: 128 word)) = 0xffff"
  "ucast (push_bit 32 0xffff OR (ucast (w :: 32 word) :: 128 word)) = w"
proof -
  have m: "(0xffff :: 128 word) = mask 16" by (simp add: mask_eq_exp_minus_1)
  show "drop_bit 32 (push_bit 32 0xffff OR (ucast w :: 128 word)) = 0xffff"
    unfolding m
    by (rule bit_word_eqI)
      (auto simp: bit_drop_bit_eq bit_or_iff bit_push_bit_iff bit_mask_iff bit_ucast_iff dest: bit_imp_le_length)
  show "ucast (push_bit 32 0xffff OR (ucast w :: 128 word)) = w"
    unfolding m
    by (rule bit_word_eqI) (auto simp: bit_or_iff bit_push_bit_iff bit_ucast_iff)
qed

lemma to4_mapped4 [simp]: "to4 (mapped4 w) = Some w"
  by (simp only: mapped4_def to4.simps ucast_mapped4 simp_thms if_True)

lemma norm4_IP4 [simp]: "norm4 (IP4 w) = IP4 w"
  by (simp add: norm4_def)

lemma norm4_mapped4 [simp]: "norm4 (mapped4 w) = IP4 w"
  by (simp add: norm4_def)

lemma netContains_norm4: "norm4 ip = norm4 ip' \<Longrightarrow> netContains n ip = netContains n ip'"
  by (simp add: netContains_def)

lemma and_not_mask_eq_iff:
  "(a AND NOT (mask k) = w AND NOT (mask k)) \<longleftrightarrow> drop_bit k a = drop_bit k (w :: 'a::len word)"
proof
  assume h: "a AND NOT (mask k) = w AND NOT (mask k)"
  have "bit a n = bit w n" if "k \<le> n" for n
  proof (cases "n < LENGTH('a)")
    case True
    have "bit (a AND NOT (mask k)) n = bit (w AND NOT (mask k)) n" by (simp only: h)
    then show ?thesis using that True by (simp add: bit_and_iff bit_not_iff bit_mask_iff)
  next
    case False
    then show ?thesis using bit_imp_le_length by blast
  qed
  then show "drop_bit k a = drop_bit k w"
    by (intro bit_word_eqI) (simp add: bit_drop_bit_eq)
next
  assume h: "drop_bit k a = drop_bit k w"
  have "bit a n = bit w n" if "k \<le> n" for n
  proof -
    have "bit (drop_bit k a) (n - k) = bit (drop_bit k w) (n - k)" by (simp only: h)
    then show ?thesis using that by (simp add: bit_drop_bit_eq)
  qed
  then show "a AND NOT (mask k) = w AND NOT (mask k)"
    by (intro bit_word_eqI) (auto simp: bit_and_iff bit_not_iff bit_mask_iff)
qed

text \<open>Equations that let \<open>simp\<close> evaluate the parsers on literals.\<close>

lemmas net_eval =
  parseCIDR_def parseIP_def parseAddr_def parseIPv4_def parseIPv6_def parseIPv6Groups.simps
  parseOctet_def hexVal_def hexNum_def hasPrefix_def isDigit_def natOfDigits_def digitVal_def
  cidrMask4_def cidrMask16_def mask_eq_exp_minus_1

end
