(* ===== verification/Ssrf.thy ===== *)
theory Ssrf
  imports NetAddr
begin

text \<open>
  The SSRF filter of the controller (\<^verbatim>\<open>internal/controller/ssrf.go\<close>) and the copy in the HTTP executor
  (\<^verbatim>\<open>internal/executor/http/ssrf.go\<close>): the default block list, \<^verbatim>\<open>ParseCIDRList\<close>, the pre-check of a URL and
  the dial-time resolution. URL parsing and DNS are the record \<open>resolver\<close>, an argument of the
  definitions.
\<close>

section \<open>Block lists\<close>

text \<open>\<^const>\<open>None\<close> is the panic of \<^verbatim>\<open>mustParseCIDRs\<close>.\<close>

fun mustParseCIDRs :: "string list \<Rightarrow> ipNet list option" where
  "mustParseCIDRs [] = Some []"
| "mustParseCIDRs (c # cs) =
     (case parseCIDR c of
        None \<Rightarrow> None
      | Some n \<Rightarrow> map_option (\<lambda>ns. n # ns) (mustParseCIDRs cs))"

definition defaultCIDRStrings :: "string list" where
  "defaultCIDRStrings =
     [''10.0.0.0/8'', ''172.16.0.0/12'', ''192.168.0.0/16'', ''127.0.0.0/8'', ''169.254.0.0/16'',
      ''0.0.0.0/8'', ''::1/128'', ''fe80::/10'', ''fc00::/7'', ''100.64.0.0/10'']"

definition defaultSSRFBlockedCIDRs :: "ipNet list" where
  "defaultSSRFBlockedCIDRs = the (mustParseCIDRs defaultCIDRStrings)"

fun appendCIDRs :: "string \<Rightarrow> string list \<Rightarrow> ipNet list \<Rightarrow> ipNet list result" where
  "appendCIDRs flag [] result = Inr result"
| "appendCIDRs flag (raw # rest) result =
     (let cidr = trimSpace raw
      in if cidr = [] then appendCIDRs flag rest result
         else case parseCIDR cidr of
             None \<Rightarrow> Inl (Fmt ''invalid CIDR %q in %s: %w''
                         [Txt cidr, Txt flag, Fmt ''invalid CIDR address: %s'' [Txt cidr]])
           | Some n \<Rightarrow> appendCIDRs flag rest (result @ [n]))"

definition ParseCIDRList :: "string \<Rightarrow> ipNet list result" where
  "ParseCIDRList extraCIDRs =
     (if trimSpace extraCIDRs = [] then Inr defaultSSRFBlockedCIDRs
      else appendCIDRs ''--http-step-blocked-cidrs'' (splitOn (CHR '','') extraCIDRs)
             defaultSSRFBlockedCIDRs)"

fun isBlockedIP :: "netIP \<Rightarrow> ipNet list \<Rightarrow> bool \<times> msg" where
  "isBlockedIP ip [] = (False, Txt [])"
| "isBlockedIP ip (cidr # rest) =
     (if netContains cidr ip then (True, netMsg cidr) else isBlockedIP ip rest)"

section \<open>The controller's check\<close>

record resolver =
  rs_urlHostname :: "string \<Rightarrow> string result"
  rs_lookupIPAddr :: "string \<Rightarrow> netIP list result"

definition isClusterInternal :: "string \<Rightarrow> bool" where
  "isClusterInternal hostname \<longleftrightarrow>
     hasSuffix hostname ''.svc.cluster.local'' \<or> hasSuffix hostname ''.svc.cluster.local.''"

definition clusterInternalError :: string where
  "clusterInternalError = ''requests to in-cluster service endpoints (.svc.cluster.local) are not permitted from HTTP steps; use a plugin Integration instead''"

fun checkAddrs :: "string \<Rightarrow> netIP list \<Rightarrow> ipNet list \<Rightarrow> msg option" where
  "checkAddrs hostname [] blockedCIDRs = None"
| "checkAddrs hostname (ip # ips) blockedCIDRs =
     (case isBlockedIP ip blockedCIDRs of
        (True, cidr) \<Rightarrow>
          Some (Fmt ''SSRF check: hostname %q resolves to blocked IP %s (range %s)''
                  [Txt hostname, ipMsg ip, cidr])
      | (False, _) \<Rightarrow> checkAddrs hostname ips blockedCIDRs)"

text \<open>\<^const>\<open>None\<close> is a nil error. A nil block list means the default one.\<close>

definition checkSSRF ::
  "resolver \<Rightarrow> string \<Rightarrow> ipNet list option \<Rightarrow> bool \<Rightarrow> msg option" where
  "checkSSRF rs rawURL blocked allowClusterInternal =
     (let blockedCIDRs = (case blocked of None \<Rightarrow> defaultSSRFBlockedCIDRs | Some b \<Rightarrow> b)
      in case rs_urlHostname rs rawURL of
           Inl err \<Rightarrow> Some (Fmt ''SSRF check: invalid URL: %w'' [err])
         | Inr hostname \<Rightarrow>
             if hostname = [] then Some (Txt ''SSRF check: URL has no hostname'')
             else if isClusterInternal hostname then
               (if allowClusterInternal then None
                else Some (Fmt ''SSRF check: %s'' [Txt clusterInternalError]))
             else (case parseIP hostname of
                 Some ip \<Rightarrow>
                   (case isBlockedIP ip blockedCIDRs of
                      (True, cidr) \<Rightarrow>
                        Some (Fmt ''SSRF check: target IP %s is in blocked range %s'' [ipMsg ip, cidr])
                    | (False, _) \<Rightarrow> None)
               | None \<Rightarrow>
                   (case rs_lookupIPAddr rs hostname of
                      Inl err \<Rightarrow>
                        Some (Fmt ''SSRF check: DNS resolution failed for %q: %w'' [Txt hostname, err])
                    | Inr addrs \<Rightarrow> checkAddrs hostname addrs blockedCIDRs)))"

section \<open>The executor's copy\<close>

definition SSRFBlockedCIDRsV4 :: "string list" where
  "SSRFBlockedCIDRsV4 =
     [''10.0.0.0/8'', ''172.16.0.0/12'', ''192.168.0.0/16'', ''127.0.0.0/8'', ''169.254.0.0/16'',
      ''0.0.0.0/8'', ''100.64.0.0/10'']"

definition SSRFBlockedCIDRsV6 :: "string list" where
  "SSRFBlockedCIDRsV6 = [''::1/128'', ''fe80::/10'', ''fc00::/7'']"

definition executorBlockedCIDRs :: "ipNet list" where
  "executorBlockedCIDRs = the (mustParseCIDRs (SSRFBlockedCIDRsV4 @ SSRFBlockedCIDRsV6))"

definition executorParseCIDRList :: "string \<Rightarrow> ipNet list result" where
  "executorParseCIDRList extraCIDRs =
     (if trimSpace extraCIDRs = [] then Inr executorBlockedCIDRs
      else appendCIDRs ''--blocked-cidrs'' (splitOn (CHR '','') extraCIDRs) executorBlockedCIDRs)"

definition checkSSRFPreflight :: "resolver \<Rightarrow> string \<Rightarrow> bool \<Rightarrow> msg option" where
  "checkSSRFPreflight rs rawURL allowClusterInternal =
     (case rs_urlHostname rs rawURL of
        Inl err \<Rightarrow> Some (Fmt ''SSRF check: invalid URL: %w'' [err])
      | Inr hostname \<Rightarrow>
          if hostname = [] then Some (Txt ''SSRF check: URL has no hostname'')
          else if isClusterInternal hostname then
            (if allowClusterInternal then None
             else Some (Fmt ''SSRF check: %s'' [Txt clusterInternalError]))
          else None)"

fun validateAddrs :: "string \<Rightarrow> netIP list \<Rightarrow> ipNet list \<Rightarrow> netIP list \<Rightarrow> netIP list result" where
  "validateAddrs hostname [] blockedCIDRs validated = Inr validated"
| "validateAddrs hostname (ip # ips) blockedCIDRs validated =
     (case isBlockedIP ip blockedCIDRs of
        (True, cidr) \<Rightarrow>
          Inl (Fmt ''hostname %q resolves to blocked IP %s (range %s)'' [Txt hostname, ipMsg ip, cidr])
      | (False, _) \<Rightarrow> validateAddrs hostname ips blockedCIDRs (validated @ [ip]))"

definition resolveAndValidate ::
  "resolver \<Rightarrow> string \<Rightarrow> ipNet list option \<Rightarrow> netIP list result" where
  "resolveAndValidate rs hostname blocked =
     (let blockedCIDRs = (case blocked of None \<Rightarrow> executorBlockedCIDRs | Some b \<Rightarrow> b)
      in case parseIP hostname of
           Some ip \<Rightarrow>
             (case isBlockedIP ip blockedCIDRs of
                (True, cidr) \<Rightarrow> Inl (Fmt ''target IP %s is in blocked range %s'' [ipMsg ip, cidr])
              | (False, _) \<Rightarrow> Inr [ip])
         | None \<Rightarrow>
             (case rs_lookupIPAddr rs hostname of
                Inl err \<Rightarrow> Inl (Fmt ''DNS resolution failed for %q: %w'' [Txt hostname, err])
              | Inr addrs \<Rightarrow>
                  if addrs = [] then
                    Inl (Fmt ''DNS resolution for %q returned no addresses'' [Txt hostname])
                  else validateAddrs hostname addrs blockedCIDRs []))"

section \<open>Lemmas\<close>

lemma isBlockedIP_iff: "fst (isBlockedIP ip ns) \<longleftrightarrow> (\<exists>n \<in> set ns. netContains n ip)"
  by (induction ns) auto

lemma checkAddrs_None_iff:
  "checkAddrs h ips ns = None \<longleftrightarrow> (\<forall>ip \<in> set ips. \<not> fst (isBlockedIP ip ns))"
  by (induction ips) (auto split: prod.splits bool.splits)

lemma validateAddrs_Inr_iff:
  "validateAddrs h ips ns acc = Inr r \<longleftrightarrow> r = acc @ ips \<and> (\<forall>ip \<in> set ips. \<not> fst (isBlockedIP ip ns))"
  by (induction ips arbitrary: acc) (auto split: prod.splits bool.splits)

lemma appendCIDRs_extends: "appendCIDRs flag raws acc = Inr r \<Longrightarrow> \<exists>extra. r = acc @ extra"
proof (induction raws arbitrary: acc)
  case Nil
  then show ?case by simp
next
  case (Cons raw raws)
  show ?case
  proof (cases "trimSpace raw = []")
    case True
    then show ?thesis using Cons by simp
  next
    case False
    then obtain n where "appendCIDRs flag raws (acc @ [n]) = Inr r"
      using Cons.prems by (auto simp: Let_def split: option.splits)
    then show ?thesis using Cons.IH by fastforce
  qed
qed

lemma mustParseCIDRs_append:
  "mustParseCIDRs (a @ b) = (case (mustParseCIDRs a, mustParseCIDRs b) of
     (Some x, Some y) \<Rightarrow> Some (x @ y) | _ \<Rightarrow> None)"
  by (induction a) (auto split: option.splits)

lemma parseCIDR_defaults:
  "parseCIDR ''10.0.0.0/8'' = Some \<lparr>in_ip = IP4 0x0A000000, in_mask = IP4 (NOT (mask 24))\<rparr>"
  "parseCIDR ''172.16.0.0/12'' = Some \<lparr>in_ip = IP4 0xAC100000, in_mask = IP4 (NOT (mask 20))\<rparr>"
  "parseCIDR ''192.168.0.0/16'' = Some \<lparr>in_ip = IP4 0xC0A80000, in_mask = IP4 (NOT (mask 16))\<rparr>"
  "parseCIDR ''127.0.0.0/8'' = Some \<lparr>in_ip = IP4 0x7F000000, in_mask = IP4 (NOT (mask 24))\<rparr>"
  "parseCIDR ''169.254.0.0/16'' = Some \<lparr>in_ip = IP4 0xA9FE0000, in_mask = IP4 (NOT (mask 16))\<rparr>"
  "parseCIDR ''0.0.0.0/8'' = Some \<lparr>in_ip = IP4 0, in_mask = IP4 (NOT (mask 24))\<rparr>"
  "parseCIDR ''100.64.0.0/10'' = Some \<lparr>in_ip = IP4 0x64400000, in_mask = IP4 (NOT (mask 22))\<rparr>"
  by (simp_all add: net_eval)

lemma replicate_7: "replicate 7 x = [x, x, x, x, x, x, x]"
  by (simp add: numeral_eq_Suc)

lemma parseCIDR_defaults6:
  "parseCIDR ''::1/128'' = Some \<lparr>in_ip = IP16 1, in_mask = IP16 (NOT (mask 0))\<rparr>"
  "parseCIDR ''fe80::/10'' = Some \<lparr>in_ip = IP16 (push_bit 118 0x3fa), in_mask = IP16 (NOT (mask 118))\<rparr>"
  "parseCIDR ''fc00::/7'' = Some \<lparr>in_ip = IP16 (push_bit 121 0x7e), in_mask = IP16 (NOT (mask 121))\<rparr>"
  by (simp_all add: net_eval replicate_7)

lemma defaultSSRFBlockedCIDRs_parse:
  "mustParseCIDRs defaultCIDRStrings = Some defaultSSRFBlockedCIDRs"
  by (simp add: defaultSSRFBlockedCIDRs_def defaultCIDRStrings_def parseCIDR_defaults parseCIDR_defaults6)

lemma executorBlockedCIDRs_parse:
  "mustParseCIDRs (SSRFBlockedCIDRsV4 @ SSRFBlockedCIDRsV6) = Some executorBlockedCIDRs"
  by (simp add: executorBlockedCIDRs_def SSRFBlockedCIDRsV4_def SSRFBlockedCIDRsV6_def
      parseCIDR_defaults parseCIDR_defaults6)

lemma same_default_nets: "set executorBlockedCIDRs = set defaultSSRFBlockedCIDRs"
  by (auto simp: executorBlockedCIDRs_def SSRFBlockedCIDRsV4_def SSRFBlockedCIDRsV6_def
      defaultSSRFBlockedCIDRs_def defaultCIDRStrings_def parseCIDR_defaults parseCIDR_defaults6)

lemma netContains_prefix4:
  "netContains \<lparr>in_ip = IP4 a, in_mask = IP4 (NOT (mask k))\<rparr> ip \<longleftrightarrow>
     (case norm4 ip of IP4 w \<Rightarrow> drop_bit k w = drop_bit k a | IP16 _ \<Rightarrow> False)"
  by (auto simp: netContains_def and_not_mask_eq_iff split: netIP.split)

lemma netContains_prefix16:
  "to4 (IP16 a) = None \<Longrightarrow> netContains \<lparr>in_ip = IP16 a, in_mask = IP16 (NOT (mask k))\<rparr> ip \<longleftrightarrow>
     (case norm4 ip of IP16 w \<Rightarrow> drop_bit k w = drop_bit k a | IP4 _ \<Rightarrow> False)"
  by (auto simp: netContains_def and_not_mask_eq_iff norm4_def [of "IP16 a"] split: netIP.split)

lemma netContains_host16:
  "netContains \<lparr>in_ip = IP16 1, in_mask = IP16 (- 1)\<rparr> ip \<longleftrightarrow> norm4 ip = IP16 1"
  by (auto simp: netContains_def norm4_def [of "IP16 1"] split: netIP.split)

section \<open>Properties\<close>

text \<open>The address ranges the default list documents: RFC 1918, loopback, link-local, the zero network,
  shared address space, and their IPv6 counterparts.\<close>

definition reservedAddress :: "netIP \<Rightarrow> bool" where
  "reservedAddress ip \<longleftrightarrow>
     (case norm4 ip of
        IP4 w \<Rightarrow> drop_bit 24 w \<in> {0, 10, 127} \<or> drop_bit 20 w = 0xac1
               \<or> drop_bit 16 w \<in> {0xc0a8, 0xa9fe} \<or> drop_bit 22 w = 0x191
      | IP16 w \<Rightarrow> w = 1 \<or> drop_bit 118 w = 0x3fa \<or> drop_bit 121 w = 0x7e)"

lemma default_blocks_reserved: "fst (isBlockedIP ip defaultSSRFBlockedCIDRs) \<longleftrightarrow> reservedAddress ip"
  unfolding isBlockedIP_iff reservedAddress_def defaultSSRFBlockedCIDRs_def defaultCIDRStrings_def
  by (auto simp: parseCIDR_defaults parseCIDR_defaults6 netContains_prefix4 netContains_prefix16
      netContains_host16 split: netIP.splits)

lemma executor_blocks_reserved: "fst (isBlockedIP ip executorBlockedCIDRs) \<longleftrightarrow> reservedAddress ip"
  using default_blocks_reserved by (simp add: isBlockedIP_iff same_default_nets)

lemma ParseCIDRList_extends:
  "ParseCIDRList s = Inr ns \<Longrightarrow> set defaultSSRFBlockedCIDRs \<subseteq> set ns"
  "executorParseCIDRList s = Inr ns \<Longrightarrow> set executorBlockedCIDRs \<subseteq> set ns"
  using appendCIDRs_extends
  by (fastforce simp: ParseCIDRList_def executorParseCIDRList_def split: if_splits)+

text \<open>The default block lists of the controller and of the executor parse without a panic, block exactly
  the reserved address ranges, and therefore block the same addresses; an IPv4-mapped IPv6 address is
  judged like the IPv4 address it carries.\<close>

theorem default_blocklist_exact:
  "mustParseCIDRs defaultCIDRStrings = Some defaultSSRFBlockedCIDRs \<and>
   mustParseCIDRs (SSRFBlockedCIDRsV4 @ SSRFBlockedCIDRsV6) = Some executorBlockedCIDRs \<and>
   fst (isBlockedIP ip defaultSSRFBlockedCIDRs) = reservedAddress ip \<and>
   fst (isBlockedIP ip executorBlockedCIDRs) = reservedAddress ip \<and>
   isBlockedIP (mapped4 w) ns = isBlockedIP (IP4 w) ns"
proof -
  have "isBlockedIP (mapped4 w) ns = isBlockedIP (IP4 w) ns"
    by (induction ns) (simp_all add: netContains_norm4 [of "mapped4 w" "IP4 w"])
  then show ?thesis
    by (simp add: defaultSSRFBlockedCIDRs_parse executorBlockedCIDRs_parse default_blocks_reserved
        executor_blocks_reserved)
qed

text \<open>The operator's extra ranges only add to the defaults: whatever the value of
  \<^verbatim>\<open>--http-step-blocked-cidrs\<close> or \<^verbatim>\<open>--blocked-cidrs\<close>, every reserved address stays blocked.\<close>

theorem ParseCIDRList_keeps_defaults:
  assumes "ParseCIDRList s = Inr ns \<or> executorParseCIDRList s = Inr ns" and "reservedAddress ip"
  shows "fst (isBlockedIP ip ns)"
proof -
  have "set defaultSSRFBlockedCIDRs \<subseteq> set ns"
    using assms(1) ParseCIDRList_extends same_default_nets by blast
  then show ?thesis
    using assms(2) default_blocks_reserved [of ip] by (auto simp: isBlockedIP_iff)
qed

theorem ParseCIDRList_keeps_defaults_witness:
  "ParseCIDRList ''203.0.113.0/24, '' \<noteq> Inr defaultSSRFBlockedCIDRs \<and>
   fst (isBlockedIP (IP4 0xA9FEA9FE) (projr (ParseCIDRList ''203.0.113.0/24, '')))"
proof -
  have p: "ParseCIDRList ''203.0.113.0/24, '' = Inr (defaultSSRFBlockedCIDRs @
      [\<lparr>in_ip = IP4 0xCB007100, in_mask = IP4 0xFFFFFF00\<rparr>])"
    by (simp add: ParseCIDRList_def trimSpace_def isSpace_def net_eval)
  have "reservedAddress (IP4 0xA9FEA9FE)" by (simp add: reservedAddress_def)
  with p show ?thesis
    using ParseCIDRList_keeps_defaults [of "''203.0.113.0/24, ''" _ "IP4 0xA9FEA9FE"] by simp
qed

text \<open>The controller accepts a URL exactly when it parses with a host name and that host is either an
  in-cluster service allowed by the flag, or a literal address outside every blocked range, or a name
  whose resolution succeeds with every address outside every blocked range. The flag
  \<^verbatim>\<open>allowClusterInternal\<close> has no effect on any other host.\<close>

theorem checkSSRF_accepts_iff:
  "checkSSRF rs url blocked allow = None \<longleftrightarrow>
     (\<exists>host. rs_urlHostname rs url = Inr host \<and> host \<noteq> [] \<and>
        (if isClusterInternal host then allow
         else case parseIP host of
             Some ip \<Rightarrow> \<not> fst (isBlockedIP ip (case blocked of None \<Rightarrow> defaultSSRFBlockedCIDRs | Some b \<Rightarrow> b))
           | None \<Rightarrow> (\<exists>addrs. rs_lookupIPAddr rs host = Inr addrs \<and>
               list_all (\<lambda>ip. \<not> fst (isBlockedIP ip
                 (case blocked of None \<Rightarrow> defaultSSRFBlockedCIDRs | Some b \<Rightarrow> b))) addrs)))"
proof (cases "rs_urlHostname rs url")
  case (Inl err)
  then show ?thesis by (simp add: checkSSRF_def Let_def)
next
  case (Inr host)
  then show ?thesis
    by (cases "parseIP host"; cases "rs_lookupIPAddr rs host")
      (auto simp: checkSSRF_def Let_def checkAddrs_None_iff list_all_iff split: prod.splits bool.splits)
qed

section \<open>The interface of dial-time validation\<close>

text \<open>What a dialler relies on: a host that validates yields at least one address and only permitted
  ones.\<close>

locale address_validator =
  fixes validate :: "string \<Rightarrow> netIP list result"
    and permitted :: "netIP \<Rightarrow> bool"
  assumes validate_nonempty: "validate h = Inr ips \<Longrightarrow> ips \<noteq> []"
    and validate_permitted: "validate h = Inr ips \<Longrightarrow> ip \<in> set ips \<Longrightarrow> permitted ip"
begin

lemma pinned_permitted: "validate h = Inr ips \<Longrightarrow> permitted (hd ips)"
  using validate_nonempty validate_permitted by (metis list.set_sel(1))

end

interpretation executor_validator: address_validator
  "\<lambda>h. resolveAndValidate rs h blocked"
  "\<lambda>ip. \<not> fst (isBlockedIP ip (case blocked of None \<Rightarrow> executorBlockedCIDRs | Some b \<Rightarrow> b))"
  for rs blocked
proof
  fix h ips
  assume "resolveAndValidate rs h blocked = Inr ips"
  then show "ips \<noteq> []"
    by (auto simp: resolveAndValidate_def Let_def validateAddrs_Inr_iff
        split: option.splits sum.splits prod.splits bool.splits if_splits)
next
  fix h ips ip
  assume "resolveAndValidate rs h blocked = Inr ips" and "ip \<in> set ips"
  then show "\<not> fst (isBlockedIP ip (case blocked of None \<Rightarrow> executorBlockedCIDRs | Some b \<Rightarrow> b))"
    by (auto simp: resolveAndValidate_def Let_def validateAddrs_Inr_iff
        split: option.splits sum.splits prod.splits bool.splits if_splits)
qed

end
