(* ===== verification/HttpExecutor.thy ===== *)
theory HttpExecutor
  imports Ssrf
begin

text \<open>
  The HTTP executor (\<^verbatim>\<open>internal/executor/http\<close>): the request and response of the internal RPC, the
  handler of \<^verbatim>\<open>POST /execute\<close>, the one-shot client with its TLS configuration, the validating dialler and
  the classification of transport errors. The standard library's HTTP client, certificate parsing and DNS
  are the record \<open>execLib\<close>; a fresh \<open>resolver\<close> answers every dial, so successive lookups of one name
  may differ.
\<close>

section \<open>Types\<close>

record executeRequest =
  eq_method :: string
  eq_url :: string
  eq_headers :: smap
  eq_body :: string
  eq_timeoutSeconds :: int
  eq_tlsSkipVerify :: bool
  eq_tlsCABundle :: string
  eq_tlsClientCert :: string
  eq_tlsClientKey :: string

text \<open>The error is a message on the executor's side and the decoded string on the controller's.\<close>

record 'e executeResponse =
  er_statusCode :: int
  er_headers :: smap
  er_body :: string
  er_truncated :: bool
  er_error :: 'e

record handler =
  h_blockedCIDRs :: "ipNet list option"
  h_bodyLimitBytes :: int
  h_allowTLSSkipVerify :: bool
  h_allowClusterInternal :: bool
  h_injectedClient :: bool

text \<open>\<open>tc_rootCAs\<close> is the bundle appended to the system pool, \<open>None\<close> for the system pool alone.\<close>

record tlsConfig =
  tc_insecureSkipVerify :: bool
  tc_rootCAs :: "string option"
  tc_certificate :: "(string \<times> string) option"

datatype httpClient = InjectedClient | OneShotClient tlsConfig

record transportErr =
  te_msg :: string
  te_deadlineExceeded :: bool
  te_opError :: bool
  te_dnsError :: bool

text \<open>An upstream response: its body is the bytes that arrive before the end or before a read error.\<close>

record upstream =
  up_statusCode :: int
  up_headers :: "(string \<times> string list) list"
  up_body :: string
  up_readError :: "msg option"

record outRequest =
  oq_method :: string
  oq_url :: string
  oq_headers :: smap
  oq_body :: string
  oq_timeoutSeconds :: int

datatype dialTarget = DialAddress string | DialPinned netIP string

record execLib =
  ex_resolvers :: "nat \<Rightarrow> resolver"
  ex_systemCertPool :: "msg option"
  ex_appendCerts :: "string \<Rightarrow> bool"
  ex_keyPair :: "string \<Rightarrow> string \<Rightarrow> msg option"
  ex_newRequest :: "string \<Rightarrow> string \<Rightarrow> msg option"
  ex_clientDo :: "httpClient \<Rightarrow> (nat \<Rightarrow> string \<Rightarrow> dialTarget result) \<Rightarrow> outRequest \<Rightarrow>
                  transportErr + upstream"

datatype httpReply = BadRequest msg | Reply "msg executeResponse" | HandlerPanic

section \<open>Dialling\<close>

definition dialContext :: "handler \<Rightarrow> resolver \<Rightarrow> string \<Rightarrow> dialTarget result" where
  "dialContext h rs addr =
     (case splitHostPort addr of
        None \<Rightarrow> Inl (Fmt ''ssrf_blocked: invalid dial address %q: %v'' [Txt addr])
      | Some (host, port) \<Rightarrow>
          if isClusterInternal host \<and> h_allowClusterInternal h then Inr (DialAddress addr)
          else if isClusterInternal host then
            Inl (Fmt ''ssrf_blocked: %s'' [Txt clusterInternalError])
          else (case resolveAndValidate rs host (h_blockedCIDRs h) of
              Inl err \<Rightarrow> Inl (Fmt ''ssrf_blocked: %v'' [err])
            | Inr validated \<Rightarrow> Inr (DialPinned (hd validated) port)))"

definition executorHTTPClient :: "handler \<Rightarrow> execLib \<Rightarrow> executeRequest \<Rightarrow> httpClient result" where
  "executorHTTPClient h lib req =
     (if h_injectedClient h then Inr InjectedClient
      else
        (let skipVerify = (h_allowTLSSkipVerify h \<and> eq_tlsSkipVerify req);
             roots = (if eq_tlsCABundle req \<noteq> [] then
                        (case ex_systemCertPool lib of
                           Some err \<Rightarrow> Inl (Fmt ''loading system CA pool: %w'' [err])
                         | None \<Rightarrow>
                             if \<not> ex_appendCerts lib (eq_tlsCABundle req) then
                               Inl (Txt ''failed to parse TLS CA bundle: no valid PEM certificates found'')
                             else Inr (Some (eq_tlsCABundle req)))
                      else Inr None);
             certs = (if eq_tlsClientCert req \<noteq> [] \<and> eq_tlsClientKey req \<noteq> [] then
                        (case ex_keyPair lib (eq_tlsClientCert req) (eq_tlsClientKey req) of
                           Some err \<Rightarrow> Inl (Fmt ''failed to parse TLS client certificate/key: %w'' [err])
                         | None \<Rightarrow> Inr (Some (eq_tlsClientCert req, eq_tlsClientKey req)))
                      else if eq_tlsClientCert req \<noteq> [] \<or> eq_tlsClientKey req \<noteq> [] then
                        Inl (Txt ''tlsClientCert and tlsClientKey must both be set for client certificate authentication'')
                      else Inr None)
         in bindR roots (\<lambda>ca. bindR certs (\<lambda>cert.
              Inr (OneShotClient \<lparr>tc_insecureSkipVerify = skipVerify, tc_rootCAs = ca,
                                   tc_certificate = cert\<rparr>)))))"

definition classifyTransportError :: "transportErr \<Rightarrow> string" where
  "classifyTransportError err =
     (let m = te_msg err
      in case strIndex m ''ssrf_blocked:'' of
           Some idx \<Rightarrow> drop idx m
         | None \<Rightarrow>
             if te_deadlineExceeded err then ''timeout: '' @ m
             else if te_opError err then
               (if te_dnsError err then ''dns_error: '' @ m else ''upstream_error: '' @ m)
             else if strContains m ''tls:'' \<or> strContains m ''x509:'' \<or> strContains m ''certificate''
             then ''tls_error: '' @ m
             else ''upstream_error: '' @ m)"

section \<open>The handler\<close>

definition allowedMethods :: string where
  "allowedMethods = ''GET POST PUT PATCH DELETE''"

definition methodAccepted :: "string \<Rightarrow> bool" where
  "methodAccepted method \<longleftrightarrow> strContains allowedMethods method \<and> method \<noteq> []"

definition effectiveTimeout :: "int \<Rightarrow> int" where
  "effectiveTimeout requested =
     (let t = (if requested \<le> 0 then 30 else requested) in if t > 300 then 300 else t)"

definition readLimited :: "nat \<Rightarrow> upstream \<Rightarrow> string result" where
  "readLimited n up =
     (if n \<le> length (up_body up) then Inr (take n (up_body up))
      else case up_readError up of Some e \<Rightarrow> Inl e | None \<Rightarrow> Inr (up_body up))"

definition errorReply :: "int \<Rightarrow> msg \<Rightarrow> httpReply" where
  "errorReply code e =
     Reply \<lparr>er_statusCode = code, er_headers = [], er_body = [], er_truncated = False, er_error = e\<rparr>"

definition collectHeaders :: "(string \<times> string list) list \<Rightarrow> smap" where
  "collectHeaders hs = map (\<lambda>(n, vs). (n, last vs)) (filter (\<lambda>(n, vs). vs \<noteq> []) hs)"

definition readUpstream :: "handler \<Rightarrow> upstream \<Rightarrow> httpReply" where
  "readUpstream h up =
     (case readLimited (nat (wrap64 (h_bodyLimitBytes h + 1))) up of
        Inl err \<Rightarrow> errorReply (up_statusCode up)
                     (Fmt ''upstream_error: failed to read response body: %v'' [err])
      | Inr rawBody \<Rightarrow>
          if int (length rawBody) > h_bodyLimitBytes h \<and> h_bodyLimitBytes h < 0 then HandlerPanic
          else
            (let truncated = (int (length rawBody) > h_bodyLimitBytes h);
                 body = (if truncated then take (nat (h_bodyLimitBytes h)) rawBody else rawBody)
             in Reply \<lparr>er_statusCode = up_statusCode up, er_headers = collectHeaders (up_headers up),
                       er_body = body, er_truncated = truncated, er_error = Txt []\<rparr>))"

text \<open>The decoded body is the argument; \<^const>\<open>Inl\<close> is a decoding error.\<close>

definition ServeExecute :: "handler \<Rightarrow> execLib \<Rightarrow> executeRequest result \<Rightarrow> httpReply" where
  "ServeExecute h lib decoded =
     (case decoded of
        Inl err \<Rightarrow> BadRequest (Fmt ''invalid_request: failed to decode JSON body: %v'' [err])
      | Inr req \<Rightarrow>
          (let method = toUpper (trimSpace (eq_method req))
           in if \<not> methodAccepted method then
                BadRequest (Fmt ''invalid_request: method %q is not allowed; must be one of GET, POST, PUT, PATCH, DELETE''
                  [Txt (eq_method req)])
              else if trimSpace (eq_url req) = [] then BadRequest (Txt ''invalid_request: url is required'')
              else case checkSSRFPreflight (ex_resolvers lib 0) (eq_url req) (h_allowClusterInternal h) of
                  Some err \<Rightarrow> errorReply 0 (Fmt ''ssrf_blocked: %s'' [err])
                | None \<Rightarrow>
                    (case ex_newRequest lib method (eq_url req) of
                       Some err \<Rightarrow>
                         errorReply 0 (Fmt ''invalid_request: failed to build HTTP request: %v'' [err])
                     | None \<Rightarrow>
                         (case executorHTTPClient h lib req of
                            Inl err \<Rightarrow> errorReply 0 (Fmt ''invalid_request: %v'' [err])
                          | Inr client \<Rightarrow>
                              (case ex_clientDo lib client (\<lambda>n. dialContext h (ex_resolvers lib n))
                                      \<lparr>oq_method = method, oq_url = eq_url req,
                                       oq_headers = eq_headers req, oq_body = eq_body req,
                                       oq_timeoutSeconds = effectiveTimeout (eq_timeoutSeconds req)\<rparr> of
                                 Inl err \<Rightarrow> errorReply 0 (Txt (classifyTransportError err))
                               | Inr up \<Rightarrow> readUpstream h up)))))"

section \<open>Properties\<close>

text \<open>C7: whatever a name resolves to at the moment of a dial, a connection is opened only to an address
  outside every blocked range that this very resolution returned (or the literal in the URL), or,
  with \<^verbatim>\<open>AllowClusterInternal\<close>, to the unresolved address of an in-cluster service. No answer given
  to an earlier lookup matters, so DNS rebinding gains nothing.\<close>

theorem dialContext_only_validated:
  assumes "dialContext h rs addr = Inr target"
  shows "\<exists>host port. splitHostPort addr = Some (host, port) \<and>
     (case target of
        DialAddress a \<Rightarrow> a = addr \<and> isClusterInternal host \<and> h_allowClusterInternal h
      | DialPinned ip p \<Rightarrow> p = port \<and> \<not> isClusterInternal host \<and>
          \<not> fst (isBlockedIP ip (case h_blockedCIDRs h of None \<Rightarrow> executorBlockedCIDRs | Some b \<Rightarrow> b)) \<and>
          (parseIP host = Some ip \<or>
           (\<exists>addrs. rs_lookupIPAddr rs host = Inr addrs \<and> ip \<in> set addrs)))"
proof -
  obtain host port where hp: "splitHostPort addr = Some (host, port)"
    using assms by (auto simp: dialContext_def split: option.splits)
  show ?thesis
  proof (cases "isClusterInternal host")
    case True
    then show ?thesis using assms hp by (auto simp: dialContext_def split: if_splits)
  next
    case False
    then obtain ips where ips: "resolveAndValidate rs host (h_blockedCIDRs h) = Inr ips"
      and t: "target = DialPinned (hd ips) port"
      using assms hp by (auto simp: dialContext_def split: sum.splits)
    have "parseIP host = Some (hd ips) \<or> (\<exists>addrs. rs_lookupIPAddr rs host = Inr addrs \<and> hd ips \<in> set addrs)"
      using ips by (auto simp: resolveAndValidate_def Let_def validateAddrs_Inr_iff
          split: option.splits sum.splits prod.splits bool.splits if_splits)
    then show ?thesis
      using hp False t executor_validator.pinned_permitted [OF ips] by simp
  qed
qed

theorem dialContext_only_validated_witness:
  "\<exists>h rs. dialContext h rs ''93.184.216.34:80'' = Inr (DialPinned (mapped4 0x5DB8D822) ''80'') \<and>
     \<not> fst (isBlockedIP (mapped4 0x5DB8D822) executorBlockedCIDRs)"
proof -
  let ?h = "\<lparr>h_blockedCIDRs = None, h_bodyLimitBytes = 4096, h_allowTLSSkipVerify = False,
             h_allowClusterInternal = False, h_injectedClient = False\<rparr>"
  let ?rs = "\<lparr>rs_urlHostname = (\<lambda>u. Inr u), rs_lookupIPAddr = (\<lambda>h. Inl (Txt ''no such host''))\<rparr>"
  have nb: "fst (isBlockedIP (mapped4 0x5DB8D822) executorBlockedCIDRs) = False"
    by (simp add: executor_blocks_reserved reservedAddress_def)
  have sp: "splitHostPort ''93.184.216.34:80'' = Some (''93.184.216.34'', ''80'')"
    by (simp add: splitHostPort_def)
  have ip: "parseIP ''93.184.216.34'' = Some (mapped4 0x5DB8D822)"
    by (simp add: net_eval)
  obtain m where m: "isBlockedIP (mapped4 0x5DB8D822) executorBlockedCIDRs = (False, m)"
    using nb by (cases "isBlockedIP (mapped4 0x5DB8D822) executorBlockedCIDRs") auto
  have "dialContext ?h ?rs ''93.184.216.34:80'' = Inr (DialPinned (mapped4 0x5DB8D822) ''80'')"
    by (simp add: dialContext_def sp resolveAndValidate_def ip isClusterInternal_def hasSuffix_def m)
  then show ?thesis
    using dialContext_only_validated [of ?h ?rs "''93.184.216.34:80''"] sp by fastforce
qed

text \<open>A reply without an error carries the upstream status and the first \<^verbatim>\<open>BodyLimitBytes\<close> bytes of the
  upstream body, flagged as truncated exactly when the body is longer; it exists only for a request
  that passed the pre-flight check, with a timeout between 1 and 300 seconds.\<close>

theorem ServeExecute_success:
  assumes "ServeExecute h lib (Inr req) = Reply r" and "er_error r = Txt []"
    and "0 \<le> h_bodyLimitBytes h" and "h_bodyLimitBytes h < 2 ^ 63 - 1"
  shows "\<exists>client up out. ex_clientDo lib client (\<lambda>n. dialContext h (ex_resolvers lib n)) out = Inr up
     \<and> checkSSRFPreflight (ex_resolvers lib 0) (eq_url req) (h_allowClusterInternal h) = None
     \<and> oq_url out = eq_url req \<and> 1 \<le> oq_timeoutSeconds out \<and> oq_timeoutSeconds out \<le> 300
     \<and> er_statusCode r = up_statusCode up
     \<and> er_body r = take (nat (h_bodyLimitBytes h)) (up_body up)
     \<and> er_truncated r = (h_bodyLimitBytes h < int (length (up_body up)))"
proof -
  let ?out = "\<lparr>oq_method = toUpper (trimSpace (eq_method req)), oq_url = eq_url req,
       oq_headers = eq_headers req, oq_body = eq_body req,
       oq_timeoutSeconds = effectiveTimeout (eq_timeoutSeconds req)\<rparr>"
  have ne: "er_error r \<noteq> Fmt f args" for f args using assms(2) by simp
  have cls: "classifyTransportError e \<noteq> []" for e
    using strIndex_Some_split [of "te_msg e" "''ssrf_blocked:''"]
    by (auto simp: classifyTransportError_def Let_def split: option.splits)
  obtain client up where do: "ex_clientDo lib client (\<lambda>n. dialContext h (ex_resolvers lib n)) ?out = Inr up"
    and pre: "checkSSRFPreflight (ex_resolvers lib 0) (eq_url req) (h_allowClusterInternal h) = None"
    and read: "readUpstream h up = Reply r"
    using assms(1,2) cls
    by (auto simp: ServeExecute_def Let_def errorReply_def split: if_splits option.splits sum.splits)
  have lim: "nat (wrap64 (h_bodyLimitBytes h + 1)) = Suc (nat (h_bodyLimitBytes h))"
    using assms(3,4) by (simp add: wrap64_id int64_def)
  have "er_statusCode r = up_statusCode up \<and> er_body r = take (nat (h_bodyLimitBytes h)) (up_body up)
     \<and> er_truncated r = (h_bodyLimitBytes h < int (length (up_body up)))"
    using read assms(2,3)
    by (auto simp: readUpstream_def lim readLimited_def errorReply_def Let_def min_def
        split: if_splits option.splits sum.splits)
  moreover have "1 \<le> effectiveTimeout (eq_timeoutSeconds req) \<and> effectiveTimeout (eq_timeoutSeconds req) \<le> 300"
    by (simp add: effectiveTimeout_def Let_def)
  ultimately show ?thesis using do pre by force
qed

text \<open>Every transport failure is reported under one of the documented prefixes, and under
  \<^verbatim>\<open>ssrf_blocked:\<close> exactly when the dial-time validation text is in the error, however it was wrapped.\<close>

theorem classifyTransportError_prefix:
  "list_ex (hasPrefix (classifyTransportError e))
     [''ssrf_blocked:'', ''timeout: '', ''dns_error: '', ''tls_error: '', ''upstream_error: ''] \<and>
   hasPrefix (classifyTransportError e) ''ssrf_blocked:'' = strContains (te_msg e) ''ssrf_blocked:''"
proof (cases "strIndex (te_msg e) ''ssrf_blocked:''")
  case None
  then show ?thesis
    by (auto simp: classifyTransportError_def Let_def strContains_def hasPrefix_def)
next
  case (Some i)
  then have "hasPrefix (drop i (te_msg e)) ''ssrf_blocked:''"
    by (rule strIndex_drop_prefix)
  then show ?thesis using Some by (simp add: classifyTransportError_def strContains_def)
qed

text \<open>Certificate verification is skipped only when the operator's flag and the request both ask for
  it; a client certificate is presented only with both halves; a CA bundle is used only if it parses.\<close>

theorem executorHTTPClient_tls_policy:
  assumes "executorHTTPClient h lib req = Inr (OneShotClient c)"
  shows "tc_insecureSkipVerify c = (h_allowTLSSkipVerify h \<and> eq_tlsSkipVerify req) \<and>
     tc_rootCAs c = (if eq_tlsCABundle req = [] then None else Some (eq_tlsCABundle req)) \<and>
     (eq_tlsCABundle req = [] \<or> ex_appendCerts lib (eq_tlsCABundle req)) \<and>
     tc_certificate c = (if eq_tlsClientCert req = [] then None
                         else Some (eq_tlsClientCert req, eq_tlsClientKey req)) \<and>
     (eq_tlsClientCert req = [] \<longleftrightarrow> eq_tlsClientKey req = [])"
  using assms
  by (auto simp: executorHTTPClient_def Let_def split: if_splits option.splits)

definition exampleHandler :: handler where
  "exampleHandler = \<lparr>h_blockedCIDRs = None, h_bodyLimitBytes = 4, h_allowTLSSkipVerify = True,
     h_allowClusterInternal = False, h_injectedClient = False\<rparr>"

definition exampleExecLib :: execLib where
  "exampleExecLib =
     \<lparr>ex_resolvers = (\<lambda>n. \<lparr>rs_urlHostname = (\<lambda>u. Inr ''example.org''),
                              rs_lookupIPAddr = (\<lambda>h. Inr [IP4 0x5DB8D822])\<rparr>),
      ex_systemCertPool = None, ex_appendCerts = (\<lambda>s. True), ex_keyPair = (\<lambda>c k. None),
      ex_newRequest = (\<lambda>m u. None),
      ex_clientDo = (\<lambda>c d q. Inr \<lparr>up_statusCode = 200, up_headers = [], up_body = ''hello'',
                                        up_readError = None\<rparr>)\<rparr>"

definition exampleRequest :: executeRequest where
  "exampleRequest = \<lparr>eq_method = ''get'', eq_url = ''http://example.org/'', eq_headers = [], eq_body = [],
     eq_timeoutSeconds = 0, eq_tlsSkipVerify = True, eq_tlsCABundle = [], eq_tlsClientCert = [],
     eq_tlsClientKey = []\<rparr>"

lemmas example_defs = exampleHandler_def exampleExecLib_def exampleRequest_def

lemma exampleRequest_method: "toUpper (trimSpace (eq_method exampleRequest)) = ''GET''"
  by code_simp

theorem ServeExecute_success_witness:
  "\<exists>r. ServeExecute exampleHandler exampleExecLib (Inr exampleRequest) = Reply r \<and>
       er_body r = ''hell'' \<and> er_truncated r"
proof -
  have acc: "methodAccepted ''GET''" by (simp add: methodAccepted_def allowedMethods_def strContains_def hasPrefix_def)
  have url: "trimSpace (eq_url exampleRequest) \<noteq> []" by (simp add: exampleRequest_def trimSpace_def isSpace_def)
  have pre: "checkSSRFPreflight (ex_resolvers exampleExecLib 0) (eq_url exampleRequest)
      (h_allowClusterInternal exampleHandler) = None"
    by (simp add: checkSSRFPreflight_def example_defs isClusterInternal_def hasSuffix_def)
  have client: "executorHTTPClient exampleHandler exampleExecLib exampleRequest = Inr (OneShotClient
      \<lparr>tc_insecureSkipVerify = True, tc_rootCAs = None, tc_certificate = None\<rparr>)"
    by (simp add: executorHTTPClient_def example_defs)
  let ?r = "\<lparr>er_statusCode = 200, er_headers = [], er_body = ''hell'', er_truncated = True,
             er_error = Txt []\<rparr>"
  have run: "ServeExecute exampleHandler exampleExecLib (Inr exampleRequest) = Reply ?r"
    using acc url pre client exampleRequest_method
    by (simp add: ServeExecute_def Let_def)
      (simp add: example_defs readUpstream_def readLimited_def wrap64_def collectHeaders_def)
  show ?thesis
    using ServeExecute_success [OF run] run by (simp add: example_defs)
qed

theorem executorHTTPClient_tls_policy_witness:
  "\<exists>c. executorHTTPClient exampleHandler exampleExecLib exampleRequest = Inr (OneShotClient c) \<and>
       tc_insecureSkipVerify c"
proof -
  obtain c where c: "executorHTTPClient exampleHandler exampleExecLib exampleRequest = Inr (OneShotClient c)"
    by (simp add: executorHTTPClient_def example_defs)
  then show ?thesis using executorHTTPClient_tls_policy [OF c] by (simp add: example_defs)
qed

text \<open>The method check is a substring test on the list of methods, so it also accepts fragments and
  spans of the list that are not HTTP methods, such as \<^verbatim>\<open>ET\<close> or \<^verbatim>\<open>GET POST\<close>.\<close>

theorem methodAccepted_substring:
  "list_all methodAccepted [''GET'', ''POST'', ''PUT'', ''PATCH'', ''DELETE''] \<and>
   methodAccepted ''ET'' \<and> methodAccepted ''GET POST'' \<and> \<not> methodAccepted ''HEAD'' \<and> \<not> methodAccepted []"
  by (simp add: methodAccepted_def allowedMethods_def strContains_def hasPrefix_def)

end
