(* ===== verification/HttpStep.thy ===== *)
theory HttpStep
  imports Interpolation IntegrationTypes HttpExecutor
begin

text \<open>
  HTTP steps (\<^verbatim>\<open>internal/controller/flowrun_controller.go\<close>): \<^verbatim>\<open>executeHTTPStep\<close> with the Integration it merges,
  the SSRF pre-check, the call of the executor, the retry loop and its delays. The executor RPC, the
  context and the clock are fields of the record \<open>httpEnv\<close>; the requests a step sends to the executor
  are part of its result, in order.
\<close>

section \<open>Delays\<close>

definition second :: duration where "second = 1000000000"

fun doubling :: "nat \<Rightarrow> duration \<Rightarrow> duration" where
  "doubling 0 d = d"
| "doubling (Suc n) d = doubling n (wrap64 (d * 2))"

definition capDelay :: "duration option \<Rightarrow> duration \<Rightarrow> duration" where
  "capDelay maxDelay d = (case maxDelay of None \<Rightarrow> d | Some m \<Rightarrow> if d > m then m else d)"

definition retryDelay :: "retryPolicy option \<Rightarrow> nat \<Rightarrow> duration" where
  "retryDelay policy attempt =
     (case policy of
        None \<Rightarrow> second
      | Some p \<Rightarrow>
          (let initial = (case rp_initialDelay p of None \<Rightarrow> second | Some d \<Rightarrow> d)
           in if rp_backoffType p = ''Exponential'' then
                capDelay (rp_maxDelay p) (doubling (attempt - 1) initial)
              else if rp_backoffType p = ''Linear'' then
                capDelay (rp_maxDelay p) (wrap64 (initial * int attempt))
              else initial))"

definition maxAttempts :: "retryPolicy option \<Rightarrow> nat" where
  "maxAttempts policy = (case policy of None \<Rightarrow> 1 | Some p \<Rightarrow> nat (rp_maxRetries p + 1))"

section \<open>Environment\<close>

datatype stepError = TransportError msg | StepError msg

datatype executorClient = MTLSClient | ConfiguredClient | DefaultClient

datatype rpcAnswer = RpcUnreachable msg | RpcAnswer int string

text \<open>The fields of the reconciler an HTTP step reads.\<close>

record httpConfig =
  hc_executorBaseURL :: string
  hc_executorTLS :: bool
  hc_httpClient :: bool
  hc_ssrfBlockedCIDRs :: "ipNet list option"
  hc_ssrfAllowClusterInternal :: bool

text \<open>\<open>he_ctxDone t n d\<close> is the context error if the step's context, with timeout \<open>t\<close>, ends before the
  delay \<open>d\<close> of attempt \<open>n\<close> has passed; \<open>he_rpc t n\<close> is the HTTP exchange of attempt \<open>n\<close> with the
  executor under that context.\<close>

record httpEnv =
  he_codec :: codec
  he_cluster :: cluster
  he_resolver :: resolver
  he_ctxDone :: "duration option \<Rightarrow> nat \<Rightarrow> duration \<Rightarrow> msg option"
  he_newRequest :: "string \<Rightarrow> msg option"
  he_rpc :: "duration option \<Rightarrow> nat \<Rightarrow> executorClient \<Rightarrow> string \<Rightarrow> executeRequest \<Rightarrow> rpcAnswer"
  he_decodeResponse :: "string \<Rightarrow> string executeResponse result"

record httpTLSMaterial =
  tm_caBundle :: string
  tm_clientCert :: string
  tm_clientKey :: string

definition noTLSMaterial :: httpTLSMaterial where
  "noTLSMaterial = \<lparr>tm_caBundle = [], tm_clientCert = [], tm_clientKey = []\<rparr>"

section \<open>The executor RPC\<close>

definition executorScheme :: "httpConfig \<Rightarrow> string" where
  "executorScheme cfg = (if hc_executorTLS cfg then ''https'' else ''http'')"

definition executorURL :: "httpConfig \<Rightarrow> string \<Rightarrow> string" where
  "executorURL cfg namespace =
     (let baseURL = (if hc_executorBaseURL cfg = []
                     then executorScheme cfg @ ''://kubezap-http-executor.%s.svc.cluster.local:8091''
                     else hc_executorBaseURL cfg)
      in replaceAll baseURL ''%s'' namespace @ ''/execute'')"

definition callExecutor ::
  "httpConfig \<Rightarrow> httpEnv \<Rightarrow> duration option \<Rightarrow> nat \<Rightarrow> string \<Rightarrow> executeRequest \<Rightarrow>
   stepError + string executeResponse" where
  "callExecutor cfg env ctx attempt namespace req =
     (let url = executorURL cfg namespace;
          client = (if hc_executorTLS cfg then MTLSClient
                    else if hc_httpClient cfg then ConfiguredClient else DefaultClient)
      in case he_newRequest env url of
           Some err \<Rightarrow> Inl (StepError (Fmt ''building executor HTTP request: %w'' [err]))
         | None \<Rightarrow>
             (case he_rpc env ctx attempt client url req of
                RpcUnreachable err \<Rightarrow>
                  Inl (TransportError (Fmt ''sending request to executor: %w'' [err]))
              | RpcAnswer code body \<Rightarrow>
                  if code \<noteq> 200 then
                    Inl (StepError (Fmt ''executor returned HTTP %d: %s''
                                      [Txt (showInt code), Txt (take 1024 body)]))
                  else (case he_decodeResponse env body of
                      Inl err \<Rightarrow> Inl (StepError (Fmt ''decoding executor response: %w'' [err]))
                    | Inr resp \<Rightarrow> Inr resp)))"

section \<open>Integrations\<close>

definition resolveHTTPTLS ::
  "cluster \<Rightarrow> httpTLSSpec \<Rightarrow> string \<Rightarrow> string \<Rightarrow> httpTLSMaterial result" where
  "resolveHTTPTLS cl tlsSpec integrationName namespace =
     bindR (case hts_caBundleConfigMapRef tlsSpec of
              None \<Rightarrow> Inr noTLSMaterial
            | Some ref \<Rightarrow>
                bindR (mapErr (\<lambda>e. Fmt ''fetching CA bundle for integration %q: %w'' [Txt integrationName, e])
                         (fetchConfigMapValue cl namespace ref))
                  (\<lambda>bundle. Inr (noTLSMaterial\<lparr>tm_caBundle := bundle\<rparr>)))
       (\<lambda>material.
          case hts_clientCertSecretRef tlsSpec of
            None \<Rightarrow> Inr material
          | Some name \<Rightarrow>
              (case k_secret cl namespace name of
                 Inl err \<Rightarrow> Inl (Fmt ''fetching client cert secret %q for integration %q: %w''
                                  [Txt name, Txt integrationName, apiErrorMsg err])
               | Inr data \<Rightarrow>
                   (case map_of data ''tls.crt'' of
                      None \<Rightarrow> Inl (Fmt ''key %q not found in client cert secret %q for integration %q''
                                    [Txt ''tls.crt'', Txt name, Txt integrationName])
                    | Some cert \<Rightarrow>
                        (case map_of data ''tls.key'' of
                           None \<Rightarrow> Inl (Fmt ''key %q not found in client cert secret %q for integration %q''
                                         [Txt ''tls.key'', Txt name, Txt integrationName])
                         | Some key \<Rightarrow> Inr (material\<lparr>tm_clientCert := cert, tm_clientKey := key\<rparr>)))))"

text \<open>The result is the URL and the headers after authentication.\<close>

definition applyHTTPAuth ::
  "cluster \<Rightarrow> httpAuthSpec \<Rightarrow> string \<Rightarrow> string \<Rightarrow> string \<Rightarrow> smap \<Rightarrow> (string \<times> smap) result" where
  "applyHTTPAuth cl auth integrationName namespace resolvedURL headers =
     (let fetch = (\<lambda>what ref. mapErr
             (\<lambda>e. Fmt ''fetching %s for integration %q: %w'' [Txt what, Txt integrationName, e])
             (fetchSecretValue cl namespace ref))
      in case has_type auth of
           HttpAuthBearer \<Rightarrow>
             (case has_bearer auth of
                None \<Rightarrow> Inr (resolvedURL, headers)
              | Some ref \<Rightarrow> bindR (fetch ''bearer token'' ref) (\<lambda>token.
                  Inr (resolvedURL, AList.update ''Authorization'' (''Bearer '' @ token) headers)))
         | HttpAuthBasic \<Rightarrow>
             (case has_basic auth of
                None \<Rightarrow> Inr (resolvedURL, headers)
              | Some b \<Rightarrow>
                  bindR (fetch ''basic auth username'' (hba_usernameSecretRef b)) (\<lambda>username.
                  bindR (fetch ''basic auth password'' (hba_passwordSecretRef b)) (\<lambda>password.
                    Inr (resolvedURL, AList.update ''Authorization''
                           (''Basic '' @ base64Encode (username @ '':'' @ password)) headers))))
         | HttpAuthAPIKey \<Rightarrow>
             (case has_apiKey auth of
                None \<Rightarrow> Inr (resolvedURL, headers)
              | Some k \<Rightarrow> bindR (fetch ''api key'' (hka_valueSecretRef k)) (\<lambda>apiKey.
                  Inr (resolvedURL, AList.update (hka_headerName k) apiKey headers)))
         | HttpAuthSecretURL \<Rightarrow>
             (case has_secretURL auth of
                None \<Rightarrow> Inr (resolvedURL, headers)
              | Some ref \<Rightarrow> bindR (fetch ''secret URL'' ref) (\<lambda>secretURL. Inr (secretURL, headers)))
         | HttpAuthUnset \<Rightarrow> Inr (resolvedURL, headers))"

definition joinBaseURL :: "string \<Rightarrow> string \<Rightarrow> string" where
  "joinBaseURL baseURL resolvedURL =
     (if baseURL \<noteq> [] \<and> \<not> hasPrefix resolvedURL ''http://'' \<and> \<not> hasPrefix resolvedURL ''https://''
      then trimRightChar (CHR ''/'') baseURL @ ''/'' @ trimLeftChar (CHR ''/'') resolvedURL
      else resolvedURL)"

definition addDefaultHeaders :: "(string \<Rightarrow> string) \<Rightarrow> smap \<Rightarrow> smap \<Rightarrow> smap" where
  "addDefaultHeaders subst defaults headers =
     foldl (\<lambda>hs (k, v). if map_of hs k = None then AList.update k (subst v) hs else hs) headers defaults"

definition applyHTTPIntegration ::
  "httpEnv \<Rightarrow> string \<Rightarrow> string \<Rightarrow> string \<Rightarrow> smap \<Rightarrow> stepResultsMap \<Rightarrow> triggerData option \<Rightarrow> smap \<Rightarrow>
   integrationCache \<Rightarrow> (string \<times> smap \<times> httpTLSMaterial) result \<times> integrationCache" where
  "applyHTTPIntegration env integrationName namespace resolvedURL headers stepResults triggerData params
     cache =
     (case getIntegration (he_cluster env) namespace integrationName cache of
        (Inl err, cache') \<Rightarrow>
          (Inl (Fmt ''fetching http integration %q: %w'' [Txt integrationName, apiErrorMsg err]), cache')
      | (Inr integration, cache') \<Rightarrow>
          (case ig_http integration of
             None \<Rightarrow> (Inr (resolvedURL, headers, noTLSMaterial), cache')
           | Some httpInteg \<Rightarrow>
               (let headers1 = addDefaultHeaders
                      (\<lambda>v. substituteVars (he_codec env) v stepResults triggerData params)
                      (hi_defaultHeaders httpInteg) headers;
                    url1 = joinBaseURL (hi_baseURL httpInteg) resolvedURL
                in (bindR (case hi_auth httpInteg of
                             None \<Rightarrow> Inr (url1, headers1)
                           | Some auth \<Rightarrow> applyHTTPAuth (he_cluster env) auth integrationName namespace
                                            url1 headers1)
                      (\<lambda>(url2, headers2).
                         bindR (case hi_tls httpInteg of
                                  None \<Rightarrow> Inr noTLSMaterial
                                | Some tlsSpec \<Rightarrow> resolveHTTPTLS (he_cluster env) tlsSpec integrationName
                                                    namespace)
                           (\<lambda>tls. Inr (url2, headers2, tls))), cache'))))"

section \<open>The step\<close>

definition truncateStr :: "string \<Rightarrow> nat \<Rightarrow> string" where
  "truncateStr s n = (if length s \<le> n then s else take n s @ ''...'')"

definition extractSimpleJSONPath :: "codec \<Rightarrow> string \<Rightarrow> (string \<times> json) list \<Rightarrow> string" where
  "extractSimpleJSONPath cd path obj =
     (case map_of obj (trimPrefix path ''$.'') of
        None \<Rightarrow> []
      | Some (JStr s) \<Rightarrow> s
      | Some val \<Rightarrow> cd_sprintV cd val)"

text \<open>\<^verbatim>\<open>json.Unmarshal\<close> into a \<^verbatim>\<open>map[string]interface{}\<close> accepts an object, and null as the nil map.\<close>

definition unmarshalObject :: "codec \<Rightarrow> string \<Rightarrow> (string \<times> json) list option" where
  "unmarshalObject cd body =
     (case cd_unmarshal cd body of Some (JObj m) \<Rightarrow> Some m | Some JNull \<Rightarrow> Some [] | _ \<Rightarrow> None)"

definition httpResults :: "codec \<Rightarrow> smap \<Rightarrow> string executeResponse \<Rightarrow> smap" where
  "httpResults cd resultMappings resp =
     (let results = [(''body'', er_body resp), (''status'', showInt (er_statusCode resp))]
      in if resultMappings = [] then results
         else case unmarshalObject cd (er_body resp) of
             None \<Rightarrow> results
           | Some jsonBody \<Rightarrow>
               foldl (\<lambda>rs (resultKey, jsonPath).
                        let val = extractSimpleJSONPath cd jsonPath jsonBody
                        in if val \<noteq> [] then AList.update resultKey val rs else rs)
                 results resultMappings)"

datatype attemptResult = Final stepError | Again msg | Success smap msg

definition attemptOnce ::
  "httpConfig \<Rightarrow> httpEnv \<Rightarrow> duration option \<Rightarrow> nat \<Rightarrow> string \<Rightarrow> flowStep \<Rightarrow> smap \<Rightarrow> string \<Rightarrow>
   executeRequest \<Rightarrow> attemptResult" where
  "attemptOnce cfg env ctx attempt namespace step resultMappings displayURL req =
     (case callExecutor cfg env ctx attempt namespace req of
        Inl (TransportError m) \<Rightarrow> Final (TransportError m)
      | Inl (StepError m) \<Rightarrow>
          Again (Fmt ''executor RPC for step %q (target: %s): %w'' [Txt (fs_name step), Txt displayURL, m])
      | Inr resp \<Rightarrow>
          if er_error resp \<noteq> [] then
            Again (Txt (if eq_url req \<noteq> displayURL then replaceAll (er_error resp) (eq_url req) displayURL
                        else er_error resp))
          else if 200 \<le> er_statusCode resp \<and> er_statusCode resp < 300 then
            Success (httpResults (he_codec env) resultMappings resp)
              (Fmt ''HTTP %d'' [Txt (showInt (er_statusCode resp))])
          else Again (Fmt ''HTTP %d: %s''
                        [Txt (showInt (er_statusCode resp)), Txt (truncateStr (er_body resp) 256)]))"

text \<open>What one execution of an HTTP step did: the calls of the executor in order, the attempts reported
  in the step status, and the results with the status message, or the error.\<close>

record httpRun =
  hr_calls :: "executeRequest list"
  hr_attempts :: nat
  hr_outcome :: "stepError + smap \<times> msg"

fun attemptLoop ::
  "(nat \<Rightarrow> msg option) \<Rightarrow> (nat \<Rightarrow> attemptResult) \<Rightarrow> executeRequest \<Rightarrow> nat \<Rightarrow> nat \<Rightarrow> msg option \<Rightarrow> httpRun" where
  "attemptLoop ctxDone once req 0 attempt lastErr =
     \<lparr>hr_calls = [], hr_attempts = attempt,
      hr_outcome = (case lastErr of None \<Rightarrow> Inr ([], Txt []) | Some e \<Rightarrow> Inl (StepError e))\<rparr>"
| "attemptLoop ctxDone once req (Suc n) attempt lastErr =
     (case (if attempt > 0 then ctxDone attempt else None) of
        Some err \<Rightarrow>
          \<lparr>hr_calls = [], hr_attempts = Suc attempt, hr_outcome = Inl (StepError err)\<rparr>
      | None \<Rightarrow>
          (case once attempt of
             Final e \<Rightarrow> \<lparr>hr_calls = [req], hr_attempts = Suc attempt, hr_outcome = Inl e\<rparr>
           | Success results m \<Rightarrow>
               \<lparr>hr_calls = [req], hr_attempts = Suc attempt, hr_outcome = Inr (results, m)\<rparr>
           | Again e \<Rightarrow>
               (let r = attemptLoop ctxDone once req n (Suc attempt) (Some e)
                in r\<lparr>hr_calls := req # hr_calls r\<rparr>)))"

fun substHeaders ::
  "(string \<Rightarrow> (string \<times> string) result) \<Rightarrow> string \<Rightarrow> string \<Rightarrow> smap \<Rightarrow> smap \<Rightarrow> smap result" where
  "substHeaders subst what stepName [] headers = Inr headers"
| "substHeaders subst what stepName ((k, v) # rest) headers =
     (case subst v of
        Inl herr \<Rightarrow> Inl (Fmt ''resolving secrets in %s %q for step %q: %w''
                          [Txt what, Txt k, Txt stepName, herr])
      | Inr (actual, _) \<Rightarrow> substHeaders subst what stepName rest (AList.update k actual headers))"

definition secretSubst ::
  "codec \<Rightarrow> cluster \<Rightarrow> string \<Rightarrow> stepResultsMap \<Rightarrow> triggerData option \<Rightarrow> smap \<Rightarrow> string \<Rightarrow>
   (string \<times> string) result" where
  "secretSubst cd cl namespace stepResults triggerData params s =
     substituteVarsWithSecrets cd
       (\<lambda>name key. fetchSecretValue cl namespace \<lparr>ks_name = name, ks_key = key\<rparr>)
       s stepResults triggerData params"

definition stepTimeout :: "flowStep \<Rightarrow> int \<Rightarrow> duration option" where
  "stepTimeout step timeoutSec =
     (case fs_timeout step of
        None \<Rightarrow> Some (timeoutSec * second)
      | Some d \<Rightarrow> if d > 0 then Some d else if d = 0 then Some (timeoutSec * second) else None)"

text \<open>Everything before the retry loop: the resolved inputs, the Integration's contribution, and the
  request for the executor with the URL to show.\<close>

definition httpInputs ::
  "httpEnv \<Rightarrow> flowStep \<Rightarrow> httpAction \<Rightarrow> stepResultsMap \<Rightarrow> triggerData option \<Rightarrow> smap \<Rightarrow> string \<Rightarrow>
   (string \<times> string \<times> string \<times> smap) result" where
  "httpInputs env step h stepResults triggerData params namespace =
     (let subst = secretSubst (he_codec env) (he_cluster env) namespace stepResults triggerData params
      in bindR (mapErr (\<lambda>e. Fmt ''resolving secrets in URL for step %q: %w'' [Txt (fs_name step), e])
                  (subst (ha_url h))) (\<lambda>(resolvedURL, displayURL).
         bindR (mapErr (\<lambda>e. Fmt ''resolving secrets in body for step %q: %w'' [Txt (fs_name step), e])
                  (subst (ha_body h))) (\<lambda>(body, _).
         bindR (substHeaders subst ''header'' (fs_name step) (ha_headers h) []) (\<lambda>headers.
           Inr (resolvedURL, displayURL, body, headers)))))"

definition mergeIntegration ::
  "httpEnv \<Rightarrow> httpAction \<Rightarrow> string \<Rightarrow> string \<Rightarrow> smap \<Rightarrow> stepResultsMap \<Rightarrow> triggerData option \<Rightarrow> smap \<Rightarrow>
   integrationCache \<Rightarrow> (string \<times> smap \<times> httpTLSMaterial) result \<times> integrationCache" where
  "mergeIntegration env h namespace resolvedURL headers stepResults triggerData params cache =
     (case ha_integrationRef h of
        None \<Rightarrow> (Inr (resolvedURL, headers, noTLSMaterial), cache)
      | Some name \<Rightarrow>
          if name = [] then (Inr (resolvedURL, headers, noTLSMaterial), cache)
          else applyHTTPIntegration env name namespace resolvedURL headers stepResults triggerData params
                 cache)"

definition buildExecuteRequest ::
  "httpConfig \<Rightarrow> httpEnv \<Rightarrow> flowStep \<Rightarrow> httpAction \<Rightarrow> string \<Rightarrow> string \<Rightarrow>
   string \<times> smap \<times> httpTLSMaterial \<Rightarrow> (executeRequest \<times> string) result" where
  "buildExecuteRequest cfg env step h displayURL body merged =
     (case merged of (url, headers, tls) \<Rightarrow>
        (case checkSSRF (he_resolver env) url (hc_ssrfBlockedCIDRs cfg) (hc_ssrfAllowClusterInternal cfg) of
           Some e \<Rightarrow> Inl (Fmt ''step %q blocked by SSRF protection: %w'' [Txt (fs_name step), e])
         | None \<Rightarrow>
             Inr (\<lparr>eq_method = (if ha_method h = [] then ''POST'' else ha_method h),
                   eq_url = url, eq_headers = headers, eq_body = body,
                   eq_timeoutSeconds = (if ha_timeoutSeconds h \<le> 0 then 30 else ha_timeoutSeconds h),
                   eq_tlsSkipVerify = False, eq_tlsCABundle = tm_caBundle tls,
                   eq_tlsClientCert = tm_clientCert tls, eq_tlsClientKey = tm_clientKey tls\<rparr>,
                  displayURL)))"

definition prepareHTTPStep ::
  "httpConfig \<Rightarrow> httpEnv \<Rightarrow> flowStep \<Rightarrow> httpAction \<Rightarrow> stepResultsMap \<Rightarrow> triggerData option \<Rightarrow> smap \<Rightarrow>
   string \<Rightarrow> integrationCache \<Rightarrow> (executeRequest \<times> string) result \<times> integrationCache" where
  "prepareHTTPStep cfg env step h stepResults triggerData params namespace cache =
     (case httpInputs env step h stepResults triggerData params namespace of
        Inl e \<Rightarrow> (Inl e, cache)
      | Inr (resolvedURL, displayURL, body, headers) \<Rightarrow>
          (case mergeIntegration env h namespace resolvedURL headers stepResults triggerData params cache of
             (merged, cache') \<Rightarrow>
               (bindR merged (buildExecuteRequest cfg env step h displayURL body), cache')))"

definition failedRun :: "msg \<Rightarrow> httpRun" where
  "failedRun e = \<lparr>hr_calls = [], hr_attempts = 0, hr_outcome = Inl (StepError e)\<rparr>"

definition executeHTTPStep ::
  "httpConfig \<Rightarrow> httpEnv \<Rightarrow> flowStep \<Rightarrow> stepResultsMap \<Rightarrow> triggerData option \<Rightarrow> smap \<Rightarrow> string \<Rightarrow>
   integrationCache \<Rightarrow> httpRun \<times> integrationCache" where
  "executeHTTPStep cfg env step stepResults triggerData params namespace cache =
     (case sa_http (fs_action step) of
        None \<Rightarrow> (failedRun (Fmt ''step %q has type=http but no http spec'' [Txt (fs_name step)]), cache)
      | Some h \<Rightarrow>
          (case prepareHTTPStep cfg env step h stepResults triggerData params namespace cache of
             (Inl e, cache') \<Rightarrow> (failedRun e, cache')
           | (Inr (req, displayURL), cache') \<Rightarrow>
               (let ctx = stepTimeout step (eq_timeoutSeconds req);
                    policy = fs_retryPolicy step
                in (attemptLoop (\<lambda>n. he_ctxDone env ctx n (retryDelay policy n))
                      (\<lambda>n. attemptOnce cfg env ctx n namespace step (ha_resultMappings h) displayURL req)
                      req (maxAttempts policy) 0 None, cache'))))"

section \<open>Lemmas\<close>

lemma attemptLoop_calls:
  "\<exists>k \<le> n. hr_calls (attemptLoop cd once req n a e) = replicate k req \<and>
     hr_attempts (attemptLoop cd once req n a e) \<le> a + n"
proof (induction n arbitrary: a e)
  case 0
  then show ?case by simp
next
  case (Suc n)
  have one: "\<exists>k \<le> Suc n. [req] = replicate k req" by (rule exI [of _ 1]) simp
  have again: "\<exists>k \<le> Suc n. req # hr_calls (attemptLoop cd once req n (Suc a) (Some m)) = replicate k req \<and>
      hr_attempts (attemptLoop cd once req n (Suc a) (Some m)) \<le> a + Suc n" for m
  proof -
    obtain k where "k \<le> n" "hr_calls (attemptLoop cd once req n (Suc a) (Some m)) = replicate k req"
      "hr_attempts (attemptLoop cd once req n (Suc a) (Some m)) \<le> Suc a + n"
      using Suc.IH by blast
    then show ?thesis by (intro exI [of _ "Suc k"]) simp
  qed
  show ?case
    using one again
    by (auto simp: Let_def split: option.splits attemptResult.splits)
qed

text \<open>The loop stops at the first attempt that is not retried.\<close>

lemma attemptLoop_success:
  "hr_outcome (attemptLoop cd once req n a e) = Inr (res, m) \<Longrightarrow> 0 < n \<or> e \<noteq> None \<Longrightarrow>
     \<exists>k < n. once (a + k) = Success res m \<and> (\<forall>j < k. \<exists>e. once (a + j) = Again e) \<and>
       hr_attempts (attemptLoop cd once req n a e) = Suc (a + k)"
proof (induction n arbitrary: a e)
  case 0
  then show ?case by (auto split: option.splits)
next
  case (Suc n)
  show ?case
  proof (cases "once a")
    case (Again x)
    then have "hr_outcome (attemptLoop cd once req n (Suc a) (Some x)) = Inr (res, m)"
      and att: "hr_attempts (attemptLoop cd once req (Suc n) a e) =
          hr_attempts (attemptLoop cd once req n (Suc a) (Some x))"
      using Suc.prems(1) by (auto simp: Let_def split: option.splits if_splits)
    then obtain k where k: "k < n" "once (Suc a + k) = Success res m"
      "\<forall>j < k. \<exists>e. once (Suc a + j) = Again e"
      "hr_attempts (attemptLoop cd once req n (Suc a) (Some x)) = Suc (Suc a + k)"
      using Suc.IH by blast
    have "\<exists>e. once (a + j) = Again e" if "j < Suc k" for j
      using that k(3) Again by (cases j) auto
    then show ?thesis using k att by (intro exI [of _ "Suc k"]) simp
  qed (use Suc.prems in \<open>auto split: option.splits if_splits\<close>)
qed

lemma attemptLoop_transport:
  "hr_outcome (attemptLoop cd once req n a e) = Inl (TransportError m) \<Longrightarrow>
     \<exists>k < n. once (a + k) = Final (TransportError m) \<and>
       hr_attempts (attemptLoop cd once req n a e) = Suc (a + k)"
proof (induction n arbitrary: a e)
  case 0
  then show ?case by (auto split: option.splits)
next
  case (Suc n)
  show ?case
  proof (cases "once a")
    case (Again x)
    then have "hr_outcome (attemptLoop cd once req n (Suc a) (Some x)) = Inl (TransportError m)"
      and att: "hr_attempts (attemptLoop cd once req (Suc n) a e) =
          hr_attempts (attemptLoop cd once req n (Suc a) (Some x))"
      using Suc.prems(1) by (auto simp: Let_def split: option.splits if_splits)
    then obtain k where "k < n" "once (Suc a + k) = Final (TransportError m)"
      "hr_attempts (attemptLoop cd once req n (Suc a) (Some x)) = Suc (Suc a + k)"
      using Suc.IH by blast
    then show ?thesis using att by (intro exI [of _ "Suc k"]) simp
  qed (use Suc.prems in \<open>auto split: option.splits if_splits\<close>)
qed

lemma buildExecuteRequest_checked:
  "buildExecuteRequest cfg env step h disp body merged = Inr (req, disp') \<Longrightarrow>
     checkSSRF (he_resolver env) (eq_url req) (hc_ssrfBlockedCIDRs cfg) (hc_ssrfAllowClusterInternal cfg)
       = None \<and> \<not> eq_tlsSkipVerify req \<and> 0 < eq_timeoutSeconds req \<and> disp' = disp"
  by (auto simp: buildExecuteRequest_def split: prod.splits option.splits)

lemma prepareHTTPStep_checked:
  "fst (prepareHTTPStep cfg env step h sr td ps ns cache) = Inr (req, disp) \<Longrightarrow>
     checkSSRF (he_resolver env) (eq_url req) (hc_ssrfBlockedCIDRs cfg) (hc_ssrfAllowClusterInternal cfg)
       = None \<and> \<not> eq_tlsSkipVerify req \<and> 0 < eq_timeoutSeconds req"
  by (auto simp: prepareHTTPStep_def dest: buildExecuteRequest_checked split: sum.splits prod.splits)

lemma doubling_closed:
  "0 \<le> d \<Longrightarrow> d * 2 ^ n < 2 ^ 63 \<Longrightarrow> doubling n d = d * 2 ^ n"
proof (induction n arbitrary: d)
  case 0
  then show ?case by simp
next
  case (Suc n)
  have "d * 2 \<le> d * 2 * 2 ^ n" using Suc.prems(1) by (simp add: mult_le_cancel_left1)
  then have "d * 2 < 2 ^ 63" using Suc.prems(2) by (simp add: mult.assoc)
  then have "wrap64 (d * 2) = d * 2" using Suc.prems(1) by (intro wrap64_id) (simp add: int64_def)
  then show ?case using Suc.IH [of "d * 2"] Suc.prems by (simp add: mult.assoc)
qed

lemma map_of_addDefaultHeaders:
  "map_of (addDefaultHeaders f defaults headers) k =
     (case map_of headers k of Some v \<Rightarrow> Some v | None \<Rightarrow> map_option f (map_of defaults k))"
proof (induction defaults arbitrary: headers)
  case Nil
  then show ?case by (simp add: addDefaultHeaders_def split: option.split)
next
  case (Cons d defaults)
  obtain k' v where d: "d = (k', v)" by (cases d)
  have "addDefaultHeaders f (d # defaults) headers =
      addDefaultHeaders f defaults (if map_of headers k' = None then AList.update k' (f v) headers else headers)"
    by (simp add: addDefaultHeaders_def d)
  then show ?case
    by (auto simp: Cons.IH d update_conv split: option.split)
qed

lemma applyHTTPIntegration_cache:
  assumes "cacheOf (he_cluster env) ns cache"
  shows "fst (applyHTTPIntegration env name ns url hs sr td ps cache) =
           fst (applyHTTPIntegration env name ns url hs sr td ps Map.empty)"
    and "cacheOf (he_cluster env) ns (snd (applyHTTPIntegration env name ns url hs sr td ps cache))"
proof -
  obtain r c where g: "getIntegration (he_cluster env) ns name cache = (r, c)" by fastforce
  obtain r' c' where g': "getIntegration (he_cluster env) ns name Map.empty = (r', c')" by fastforce
  have "r = r'" and c: "cacheOf (he_cluster env) ns c"
    using getIntegration_sound [OF assms, of name] getIntegration_sound(1) [of "he_cluster env" ns Map.empty name]
    by (simp_all add: g g')
  then show "fst (applyHTTPIntegration env name ns url hs sr td ps cache) =
           fst (applyHTTPIntegration env name ns url hs sr td ps Map.empty)"
    by (simp add: applyHTTPIntegration_def g g' Let_def split: sum.split option.split)
  show "cacheOf (he_cluster env) ns (snd (applyHTTPIntegration env name ns url hs sr td ps cache))"
    using c by (simp add: applyHTTPIntegration_def g Let_def split: sum.split option.split)
qed

lemma mergeIntegration_cache:
  assumes "cacheOf (he_cluster env) ns cache"
  shows "fst (mergeIntegration env h ns url hs sr td ps cache) =
           fst (mergeIntegration env h ns url hs sr td ps Map.empty)"
    and "cacheOf (he_cluster env) ns (snd (mergeIntegration env h ns url hs sr td ps cache))"
  using applyHTTPIntegration_cache [OF assms] assms
  by (simp_all add: mergeIntegration_def split: option.split)

lemma prepareHTTPStep_cache:
  assumes "cacheOf (he_cluster env) ns cache"
  shows "fst (prepareHTTPStep cfg env step h sr td ps ns cache) =
           fst (prepareHTTPStep cfg env step h sr td ps ns Map.empty)"
    and "cacheOf (he_cluster env) ns (snd (prepareHTTPStep cfg env step h sr td ps ns cache))"
  using mergeIntegration_cache [OF assms] assms
  by (simp_all add: prepareHTTPStep_def case_prod_unfold split: sum.split)

section \<open>Properties\<close>

text \<open>An HTTP step calls the executor at most \<^verbatim>\<open>MaxRetries + 1\<close> times, always with the same request, whose
  URL (after the Integration, authentication and secrets are applied) has passed the SSRF check, and
  never asks for certificate verification to be skipped. If it succeeds, some attempt got a 2xx answer
  and every earlier attempt failed in a way that is retried; if it reports the executor unreachable,
  its last attempt did not reach the executor.\<close>

theorem executeHTTPStep_calls:
  assumes "executeHTTPStep cfg env step sr td ps ns cache = (run, cache')"
    and "hr_calls run \<noteq> []"
  shows "\<exists>h req disp once.
     sa_http (fs_action step) = Some h
     \<and> hr_calls run = replicate (length (hr_calls run)) req
     \<and> length (hr_calls run) \<le> maxAttempts (fs_retryPolicy step)
     \<and> hr_attempts run \<le> maxAttempts (fs_retryPolicy step)
     \<and> checkSSRF (he_resolver env) (eq_url req) (hc_ssrfBlockedCIDRs cfg) (hc_ssrfAllowClusterInternal cfg) = None
     \<and> \<not> eq_tlsSkipVerify req
     \<and> once = (\<lambda>n. attemptOnce cfg env (stepTimeout step (eq_timeoutSeconds req)) n ns step
                       (ha_resultMappings h) disp req)
     \<and> (\<forall>res m. hr_outcome run = Inr (res, m) \<longrightarrow>
          once (hr_attempts run - 1) = Success res m \<and> (\<forall>j < hr_attempts run - 1. \<exists>e. once j = Again e))
     \<and> (\<forall>m. hr_outcome run = Inl (TransportError m) \<longrightarrow>
          once (hr_attempts run - 1) = Final (TransportError m))"
proof -
  obtain h where h: "sa_http (fs_action step) = Some h"
    using assms by (auto simp: executeHTTPStep_def failedRun_def split: option.splits)
  obtain req disp where pre: "fst (prepareHTTPStep cfg env step h sr td ps ns cache) = Inr (req, disp)"
    using assms h by (auto simp: executeHTTPStep_def failedRun_def split: prod.splits sum.splits)
  define ctx where "ctx = stepTimeout step (eq_timeoutSeconds req)"
  define once where "once = (\<lambda>n. attemptOnce cfg env ctx n ns step (ha_resultMappings h) disp req)"
  define cdone where "cdone = (\<lambda>n. he_ctxDone env ctx n (retryDelay (fs_retryPolicy step) n))"
  define n where "n = maxAttempts (fs_retryPolicy step)"
  have run: "run = attemptLoop cdone once req n 0 None"
    using assms(1) h pre
    by (auto simp: executeHTTPStep_def Let_def cdone_def once_def ctx_def n_def split: prod.splits)
  then obtain k where k: "k \<le> n" "hr_calls run = replicate k req" and a: "hr_attempts run \<le> n"
    using attemptLoop_calls [of n cdone once req 0 None] by auto
  with assms(2) have n: "0 < n" by (cases n) auto
  have ok: "once (hr_attempts run - 1) = Success res m \<and> (\<forall>j < hr_attempts run - 1. \<exists>e. once j = Again e)"
    if "hr_outcome run = Inr (res, m)" for res m
    using attemptLoop_success [of cdone once req n 0 None res m] that n by (auto simp: run)
  have tr: "once (hr_attempts run - 1) = Final (TransportError m)"
    if "hr_outcome run = Inl (TransportError m)" for m
    using attemptLoop_transport [of cdone once req n 0 None m] that by (auto simp: run)
  show ?thesis
    using h k a ok tr prepareHTTPStep_checked [OF pre] unfolding n_def once_def ctx_def
    by (intro exI [of _ h] exI [of _ req] exI [of _ disp] exI [of _ once])
      (simp add: once_def ctx_def)
qed

text \<open>Exponential backoff doubles the initial delay per retry and is capped by \<^verbatim>\<open>maxDelay\<close>, linear backoff
  is proportional to the attempt, for every attempt whose uncapped delay fits in a signed 64-bit
  nanosecond count.\<close>

theorem retryDelay_backoff:
  assumes "rp_initialDelay p = Some d" and "rp_maxDelay p = Some m" and "0 \<le> d"
    and "d * 2 ^ (attempt - 1) < 2 ^ 63" and "d * int attempt < 2 ^ 63"
  shows "retryDelay (Some p) attempt =
     (if rp_backoffType p = ''Exponential'' then min (d * 2 ^ (attempt - 1)) m
      else if rp_backoffType p = ''Linear'' then min (d * int attempt) m else d)"
proof -
  have "0 \<le> d * int attempt" using assms(3) by simp
  then have "wrap64 (d * int attempt) = d * int attempt"
    using assms(5) by (intro wrap64_id) (simp add: int64_def)
  then show ?thesis
    using assms by (simp add: retryDelay_def capDelay_def doubling_closed min_def)
qed

definition examplePolicy :: retryPolicy where
  "examplePolicy = \<lparr>rp_maxRetries = 40, rp_backoffType = ''Exponential'', rp_initialDelay = Some second,
     rp_maxDelay = Some (60 * second), rp_multiplier = ''2.0''\<rparr>"

theorem retryDelay_backoff_witness:
  "retryDelay (Some examplePolicy) 3 = 4 * second \<and> retryDelay (Some examplePolicy) 10 = 60 * second"
  using retryDelay_backoff [of examplePolicy second "60 * second" 3]
    retryDelay_backoff [of examplePolicy second "60 * second" 10]
  by (simp add: examplePolicy_def second_def)

text \<open>Past that range the doubling wraps around: with the default initial delay of one second and the
  default cap of sixty seconds, the delay of attempt 35 is negative, so the cap does not apply and the
  retry is immediate; from attempt 65 on it is zero.\<close>

theorem retryDelay_wraps:
  "retryDelay (Some examplePolicy) 35 < 0 \<and> retryDelay (Some examplePolicy) 65 = 0"
proof -
  have "doubling 34 second < 0" by code_simp
  moreover have "doubling 64 second = 0" by code_simp
  ultimately show ?thesis
    by (simp add: retryDelay_def capDelay_def examplePolicy_def second_def)
qed

text \<open>The header an authentication type writes.\<close>

definition authHeader :: "httpAuthSpec option \<Rightarrow> string option" where
  "authHeader auth =
     (case auth of
        None \<Rightarrow> None
      | Some a \<Rightarrow>
          (case has_type a of
             HttpAuthBearer \<Rightarrow> Some ''Authorization''
           | HttpAuthBasic \<Rightarrow> Some ''Authorization''
           | HttpAuthAPIKey \<Rightarrow> map_option hka_headerName (has_apiKey a)
           | _ \<Rightarrow> None))"

lemma applyHTTPAuth_other_headers:
  "applyHTTPAuth cl auth name ns url headers = Inr (url', headers') \<Longrightarrow>
     authHeader (Some auth) \<noteq> Some k \<Longrightarrow> map_of headers' k = map_of headers k"
  by (cases "has_type auth")
    (auto simp: applyHTTPAuth_def authHeader_def Let_def update_conv split: option.splits)

lemma applyHTTPAuth_url:
  "applyHTTPAuth cl auth name ns url headers = Inr (url', headers') \<Longrightarrow>
     has_type auth \<noteq> HttpAuthSecretURL \<Longrightarrow> url' = url"
  by (cases "has_type auth") (auto simp: applyHTTPAuth_def Let_def split: option.splits)

text \<open>An HTTP Integration contributes exactly what it documents: a header the step sets keeps the step's
  value, a default header fills in only where the step has none, only the header of the configured
  authentication is overridden, and unless the authentication is a secret URL the request goes to the
  step's URL joined to the base URL.\<close>

theorem applyHTTPIntegration_precedence:
  assumes "applyHTTPIntegration env name ns url headers sr td ps Map.empty = (Inr (url', headers', tls), cache')"
    and "k_integration (he_cluster env) ns name = Inr ig" and "ig_http ig = Some hi"
    and "authHeader (hi_auth hi) \<noteq> Some k"
  shows "map_of headers' k =
       (case map_of headers k of
          Some v \<Rightarrow> Some v
        | None \<Rightarrow> map_option (\<lambda>v. substituteVars (he_codec env) v sr td ps) (map_of (hi_defaultHeaders hi) k))
     \<and> (map_option has_type (hi_auth hi) = Some HttpAuthSecretURL \<or> url' = joinBaseURL (hi_baseURL hi) url)"
proof -
  let ?hs = "addDefaultHeaders (\<lambda>v. substituteVars (he_codec env) v sr td ps) (hi_defaultHeaders hi) headers"
  let ?url = "joinBaseURL (hi_baseURL hi) url"
  have "(case hi_auth hi of None \<Rightarrow> Inr (?url, ?hs)
         | Some auth \<Rightarrow> applyHTTPAuth (he_cluster env) auth name ns ?url ?hs) = Inr (url', headers')"
    using assms(1-3)
    by (auto simp: applyHTTPIntegration_def getIntegration_def Let_def)
  then have "map_of headers' k = map_of ?hs k \<and>
      (map_option has_type (hi_auth hi) = Some HttpAuthSecretURL \<or> url' = ?url)"
    using assms(4) by (auto dest: applyHTTPAuth_other_headers applyHTTPAuth_url split: option.splits)
  then show ?thesis by (simp add: map_of_addDefaultHeaders)
qed

text \<open>The Integration cache of a reconcile is transparent: from a cache that holds only what a read
  returns, a step does what it would do with an empty cache, and the cache stays correct, so the steps
  of one wave cannot influence each other through it.\<close>

theorem executeHTTPStep_cache_transparent:
  assumes "cacheOf (he_cluster env) ns cache"
  shows "fst (executeHTTPStep cfg env step sr td ps ns cache) =
           fst (executeHTTPStep cfg env step sr td ps ns Map.empty) \<and>
         cacheOf (he_cluster env) ns (snd (executeHTTPStep cfg env step sr td ps ns cache))"
proof (cases "sa_http (fs_action step)")
  case None
  then show ?thesis using assms by (simp add: executeHTTPStep_def)
next
  case (Some h)
  then show ?thesis
    using prepareHTTPStep_cache [OF assms, of cfg step h sr td ps]
    by (simp add: executeHTTPStep_def case_prod_unfold Let_def split: sum.split)
qed

section \<open>Examples\<close>

definition exampleStep :: "string \<Rightarrow> flowStep" where
  "exampleStep url =
     \<lparr>fs_name = ''call'', fs_runAfter = [], fs_when = [],
      fs_action = \<lparr>sa_type = stepActionHTTP,
        sa_http = Some \<lparr>ha_url = url, ha_method = [], ha_headers = [], ha_body = [], ha_timeoutSeconds = 0,
          ha_resultMappings = [], ha_integrationRef = None\<rparr>,
        sa_transform = None, sa_publish = None, sa_wait = None\<rparr>,
      fs_retryPolicy = None, fs_timeout = None, fs_onFailure = OnFailureUnset\<rparr>"

definition exampleCluster :: cluster where
  "exampleCluster =
     \<lparr>k_secret = (\<lambda>ns n. Inr [(''k'', ''s3cr3t'')]), k_configMap = (\<lambda>ns n. Inl NotFound),
      k_integration = (\<lambda>ns n. Inr \<lparr>ig_name = n, ig_namespace = ns, ig_generation = 1, ig_type = ''http'', ig_kafka = None,
        ig_amqp = None, ig_nats = None, ig_plugin = None, ig_http = Some \<lparr>hi_baseURL = ''https://api.example.org/'', hi_auth = None,
          hi_defaultHeaders = [(''X-A'', ''1'')], hi_tls = None\<rparr>, ig_status = emptyIntegrationStatus\<rparr>),
      k_flow = (\<lambda>ns n. Inl NotFound)\<rparr>"

text \<open>Host name parsing as \<^verbatim>\<open>net/url\<close> documents it for this example: a control character in the URL is an error
  whose text quotes the whole URL.\<close>

definition exampleURLHostname :: "string \<Rightarrow> string result" where
  "exampleURLHostname u =
     (if list_ex (\<lambda>c. of_char c < (32 :: nat)) u
      then Inl (Fmt ''parse %q: %s'' [Txt u, Txt ''net/url: invalid control character in URL''])
      else Inr ''93.184.216.34'')"

definition exampleEnv :: httpEnv where
  "exampleEnv =
     \<lparr>he_codec = exampleCodec, he_cluster = exampleCluster,
      he_resolver = \<lparr>rs_urlHostname = exampleURLHostname, rs_lookupIPAddr = (\<lambda>h. Inr [])\<rparr>,
      he_ctxDone = (\<lambda>t n d. None), he_newRequest = (\<lambda>u. None),
      he_rpc = (\<lambda>t n c u q. RpcAnswer 200 ''ok''),
      he_decodeResponse = (\<lambda>b. Inr \<lparr>er_statusCode = 204, er_headers = [], er_body = b,
                                       er_truncated = False, er_error = []\<rparr>)\<rparr>"

definition exampleConfig :: httpConfig where
  "exampleConfig = \<lparr>hc_executorBaseURL = [], hc_executorTLS = False, hc_httpClient = False,
     hc_ssrfBlockedCIDRs = Some [], hc_ssrfAllowClusterInternal = False\<rparr>"

lemmas http_example_defs =
  exampleStep_def exampleCluster_def exampleEnv_def exampleConfig_def exampleURLHostname_def

lemma exampleStep_run:
  "executeHTTPStep exampleConfig exampleEnv (exampleStep ''u'') [] None [] ''ns'' Map.empty =
     (\<lparr>hr_calls = [\<lparr>eq_method = ''POST'', eq_url = ''u'', eq_headers = [], eq_body = [],
         eq_timeoutSeconds = 30, eq_tlsSkipVerify = False, eq_tlsCABundle = [], eq_tlsClientCert = [],
         eq_tlsClientKey = []\<rparr>],
       hr_attempts = 1,
       hr_outcome = Inr ([(''body'', ''ok''), (''status'', ''204'')], Fmt ''HTTP %d'' [Txt ''204''])\<rparr>,
      Map.empty)"
proof -
  have ip: "parseIP ''93.184.216.34'' = Some (mapped4 0x5DB8D822)" by (simp add: net_eval)
  have s: "secretSubst cd cl ns sr td ps ''u'' = Inr (''u'', ''u'')" "secretSubst cd cl ns sr td ps [] = Inr ([], [])"
    for cd cl ns sr td ps
    by (simp_all add: secretSubst_def substituteVarsWithSecrets_def interpolateTemplate_def
        interpolateLoop.simps hasPrefix_def Let_def)
  have n: "showInt 204 = ''204''" by (simp add: showInt_def showNat.simps digitChar_def) code_simp
  show ?thesis
    by (simp add: executeHTTPStep_def http_example_defs prepareHTTPStep_def httpInputs_def s
        mergeIntegration_def buildExecuteRequest_def checkSSRF_def ip isClusterInternal_def hasSuffix_def
        maxAttempts_def attemptOnce_def callExecutor_def httpResults_def n noTLSMaterial_def Let_def)
qed

theorem executeHTTPStep_calls_witness:
  "\<exists>run. fst (executeHTTPStep exampleConfig exampleEnv (exampleStep ''u'') [] None [] ''ns'' Map.empty) = run \<and>
     length (hr_calls run) = 1 \<and> hr_attempts run \<le> maxAttempts (fs_retryPolicy (exampleStep ''u''))"
  using executeHTTPStep_calls [OF exampleStep_run] by (auto simp: exampleStep_run)

theorem executeHTTPStep_cache_transparent_witness:
  "cacheOf exampleCluster ''ns'' [''ns/api'' \<mapsto> projr (k_integration exampleCluster ''ns'' ''api'')] \<and>
   fst (executeHTTPStep exampleConfig exampleEnv (exampleStep ''u'') [] None [] ''ns''
          [''ns/api'' \<mapsto> projr (k_integration exampleCluster ''ns'' ''api'')]) =
   fst (executeHTTPStep exampleConfig exampleEnv (exampleStep ''u'') [] None [] ''ns'' Map.empty)"
proof -
  let ?c = "[''ns/api'' \<mapsto> projr (k_integration exampleCluster ''ns'' ''api'')]"
  have "cacheOf (he_cluster exampleEnv) ''ns'' ?c"
    by (simp add: cacheOf_def exampleEnv_def exampleCluster_def)
  then show ?thesis
    using executeHTTPStep_cache_transparent [of exampleEnv "''ns''" ?c exampleConfig "exampleStep ''u''" "[]" None "[]"]
    by (simp add: exampleEnv_def)
qed

theorem applyHTTPIntegration_precedence_witness:
  "\<exists>url hs tls c. applyHTTPIntegration exampleEnv ''api'' ''ns'' ''/v1'' [(''X-A'', ''2'')] [] None [] Map.empty =
       (Inr (url, hs, tls), c) \<and> map_of hs ''X-A'' = Some ''2''"
proof -
  let ?hi = "\<lparr>hi_baseURL = ''https://api.example.org/'', hi_auth = None,
          hi_defaultHeaders = [(''X-A'', ''1'')], hi_tls = None\<rparr>"
  obtain url hs tls c where r: "applyHTTPIntegration exampleEnv ''api'' ''ns'' ''/v1'' [(''X-A'', ''2'')] [] None []
      Map.empty = (Inr (url, hs, tls), c)"
    by (simp add: applyHTTPIntegration_def getIntegration_def http_example_defs Let_def)
  then show ?thesis
    using applyHTTPIntegration_precedence [OF r, of _ ?hi "''X-A''"]
    by (simp add: http_example_defs authHeader_def)
qed

fun msgMentions :: "string \<Rightarrow> msg \<Rightarrow> bool" where
  "msgMentions s (Txt t) = strContains t s"
| "msgMentions s (Fmt f args) = (strContains f s \<or> list_ex (msgMentions s) args)"

text \<open>The SSRF pre-check reports the URL it could not parse. A URL template that names a secret whose
  value makes the URL unparsable (here a trailing line break) therefore fails with a message that
  contains the resolved URL, secret included, although the other error paths show only the redacted
  URL.\<close>

theorem executeHTTPStep_error_discloses_secret:
  "\<exists>e. hr_outcome (fst (executeHTTPStep exampleConfig
          (exampleEnv\<lparr>he_cluster := exampleCluster\<lparr>k_secret := (\<lambda>ns n. Inr [(''k'', ''s3cr3t'' @ [CHR 0x0A])])\<rparr>\<rparr>)
          (exampleStep ''http://h/$(secrets.a.k)'') [] None [] ''ns'' Map.empty)) = Inl (StepError e) \<and>
       msgMentions ''s3cr3t'' e"
proof -
  let ?cl = "exampleCluster\<lparr>k_secret := (\<lambda>ns n. Inr [(''k'', ''s3cr3t'' @ [CHR 0x0A])])\<rparr>"
  let ?url = "''http://h/s3cr3t'' @ [CHR 0x0A]"
  have u: "secretSubst exampleCodec ?cl ''ns'' [] None [] ''http://h/$(secrets.a.k)'' =
      Inr (?url, ''http://h/[REDACTED]'')" by code_simp
  have b: "secretSubst exampleCodec ?cl ''ns'' [] None [] [] = Inr ([], [])" by code_simp
  have p: "exampleURLHostname ?url = Inl (Fmt ''parse %q: %s''
      [Txt ?url, Txt ''net/url: invalid control character in URL''])" by (simp add: exampleURLHostname_def)
  have m: "msgMentions ''s3cr3t'' (Fmt ''step %q blocked by SSRF protection: %w'' [Txt ''call'',
      Fmt ''SSRF check: invalid URL: %w'' [Fmt ''parse %q: %s''
        [Txt ?url, Txt ''net/url: invalid control character in URL'']]])"
    by (simp add: strContains_def hasPrefix_def)
  show ?thesis
    using u b p m
    by (simp add: executeHTTPStep_def exampleStep_def exampleEnv_def exampleConfig_def prepareHTTPStep_def
        httpInputs_def mergeIntegration_def buildExecuteRequest_def checkSSRF_def failedRun_def
        Let_def del: msgMentions.simps)
qed

end
