(* ===== verification/Sha256.thy ===== *)
theory Sha256
  imports Prelude "HOL-Library.Word"
begin

text \<open>
  \<^verbatim>\<open>crypto/sha256\<close>, \<^verbatim>\<open>crypto/hmac\<close> and \<^verbatim>\<open>encoding/hex\<close> as the sources use them: \<^verbatim>\<open>sha256.Sum256\<close>,
  \<^verbatim>\<open>hmac.New(sha256.New, key)\<close> with one \<^verbatim>\<open>Write\<close>, and \<^verbatim>\<open>hex.EncodeToString\<close>, on byte strings.
\<close>

unbundle bit_operations_syntax

section \<open>Hexadecimal\<close>

definition hexDigit :: "nat \<Rightarrow> char" where
  "hexDigit n = (if n < 10 then char_of (48 + n) else char_of (87 + n))"

definition hexEncode :: "string \<Rightarrow> string" where
  "hexEncode s = concat (map (\<lambda>c. [hexDigit (of_char c div 16), hexDigit (of_char c mod 16)]) s)"

section \<open>SHA-256\<close>

text \<open>The constants of the standard are the first 32 bits of the fractional parts of the cube roots of the
  first 64 primes, and of the square roots of the first 8. \<open>rootFrom e n b r\<close> sets the bits of the root below
  bit \<open>b\<close>, the highest first.\<close>

fun rootFrom :: "nat \<Rightarrow> nat \<Rightarrow> nat \<Rightarrow> nat \<Rightarrow> nat" where
  "rootFrom e n 0 r = r"
| "rootFrom e n (Suc b) r = rootFrom e n b (if (r + 2 ^ b) ^ e \<le> n then r + 2 ^ b else r)"

definition firstPrimes :: "nat list" where
  "firstPrimes =
     [2, 3, 5, 7, 11, 13, 17, 19, 23, 29, 31, 37, 41, 43, 47, 53,
      59, 61, 67, 71, 73, 79, 83, 89, 97, 101, 103, 107, 109, 113, 127, 131,
      137, 139, 149, 151, 157, 163, 167, 173, 179, 181, 191, 193, 197, 199, 211, 223,
      227, 229, 233, 239, 241, 251, 257, 263, 269, 271, 277, 281, 283, 293, 307, 311]"

definition sha256K :: "32 word list" where
  "sha256K = map (\<lambda>p. of_nat (rootFrom 3 (p * 2 ^ 96) 35 0)) firstPrimes"

definition squareRootBits :: "nat \<Rightarrow> 32 word" where
  "squareRootBits p = of_nat (rootFrom 2 (p * 2 ^ 64) 35 0)"

record sha256State =
  sa :: "32 word"
  sb :: "32 word"
  sc :: "32 word"
  sd :: "32 word"
  se :: "32 word"
  sf :: "32 word"
  sg :: "32 word"
  sh :: "32 word"

definition sha256Init :: sha256State where
  "sha256Init =
     \<lparr>sa = squareRootBits 2, sb = squareRootBits 3, sc = squareRootBits 5, sd = squareRootBits 7,
      se = squareRootBits 11, sf = squareRootBits 13, sg = squareRootBits 17, sh = squareRootBits 19\<rparr>"

definition rotr32 :: "nat \<Rightarrow> 32 word \<Rightarrow> 32 word" where
  "rotr32 n x = drop_bit n x OR push_bit (32 - n) x"

definition sha256Round :: "sha256State \<Rightarrow> 32 word \<times> 32 word \<Rightarrow> sha256State" where
  "sha256Round s kw =
     (let t1 = sh s + (rotr32 6 (se s) XOR rotr32 11 (se s) XOR rotr32 25 (se s))
               + ((se s AND sf s) XOR (NOT (se s) AND sg s)) + fst kw + snd kw;
          t2 = (rotr32 2 (sa s) XOR rotr32 13 (sa s) XOR rotr32 22 (sa s))
               + ((sa s AND sb s) XOR (sa s AND sc s) XOR (sb s AND sc s))
      in \<lparr>sa = t1 + t2, sb = sa s, sc = sb s, sd = sc s, se = sd s + t1, sf = se s, sg = sf s, sh = sg s\<rparr>)"

text \<open>The message schedule, newest word first.\<close>

fun sha256Schedule :: "nat \<Rightarrow> 32 word list \<Rightarrow> 32 word list" where
  "sha256Schedule 0 ws = ws"
| "sha256Schedule (Suc n) ws =
     (let a = ws ! 1; b = ws ! 14
      in sha256Schedule n
           (((rotr32 17 a XOR rotr32 19 a XOR drop_bit 10 a) + ws ! 6
             + (rotr32 7 b XOR rotr32 18 b XOR drop_bit 3 b) + ws ! 15) # ws))"

definition sha256Block :: "sha256State \<Rightarrow> 32 word list \<Rightarrow> sha256State" where
  "sha256Block s block =
     (let r = foldl sha256Round s (zip sha256K (rev (sha256Schedule 48 (rev block))))
      in \<lparr>sa = sa s + sa r, sb = sb s + sb r, sc = sc s + sc r, sd = sd s + sd r,
          se = se s + se r, sf = sf s + sf r, sg = sg s + sg r, sh = sh s + sh r\<rparr>)"

fun wordsOf :: "nat list \<Rightarrow> 32 word list" where
  "wordsOf (a # b # c # d # rest) = of_nat (((a * 256 + b) * 256 + c) * 256 + d) # wordsOf rest"
| "wordsOf _ = []"

fun blocksLoop :: "nat \<Rightarrow> 32 word list \<Rightarrow> sha256State \<Rightarrow> sha256State" where
  "blocksLoop 0 ws s = s"
| "blocksLoop (Suc n) ws s = blocksLoop n (drop 16 ws) (sha256Block s (take 16 ws))"

definition bytesBE :: "nat \<Rightarrow> nat \<Rightarrow> nat list" where
  "bytesBE k n = map (\<lambda>i. n div 256 ^ (k - 1 - i) mod 256) [0..<k]"

definition sha256Pad :: "nat list \<Rightarrow> nat list" where
  "sha256Pad bytes =
     bytes @ [128] @ replicate ((119 - length bytes mod 64) mod 64) 0 @ bytesBE 8 (8 * length bytes mod 2 ^ 64)"

definition sha256 :: "string \<Rightarrow> string" where
  "sha256 s =
     (let bytes = sha256Pad (map of_char s);
          r = blocksLoop (length bytes div 64) (wordsOf bytes) sha256Init
      in map char_of (concat (map (\<lambda>w. bytesBE 4 (unat w)) [sa r, sb r, sc r, sd r, se r, sf r, sg r, sh r])))"

section \<open>HMAC\<close>

definition xorPad :: "nat \<Rightarrow> string \<Rightarrow> string" where
  "xorPad p s = map (\<lambda>c. char_of ((of_char c :: nat) XOR p)) s"

definition hmacSHA256 :: "string \<Rightarrow> string \<Rightarrow> string" where
  "hmacSHA256 key message =
     (let k0 = (if 64 < length key then sha256 key else key);
          k = k0 @ replicate (64 - length k0) (char_of (0 :: nat))
      in sha256 (xorPad 0x5c k @ sha256 (xorPad 0x36 k @ message)))"

section \<open>The constants\<close>

lemma rootFrom_root:
  assumes "r ^ e \<le> n" "n < (r + 2 ^ b) ^ e"
  shows "rootFrom e n b r ^ e \<le> n \<and> n < Suc (rootFrom e n b r) ^ e"
  using assms
proof (induction b arbitrary: r)
  case (Suc b)
  then show ?case using Suc.IH [of "r + 2 ^ b"] Suc.IH [of r] by (auto simp: algebra_simps mult_2)
qed simp

lemma length_sha256K: "length sha256K = 64"
  by (simp add: sha256K_def firstPrimes_def)

section \<open>Lengths\<close>

lemma length_bytesBE [simp]: "length (bytesBE k n) = k"
  by (simp add: bytesBE_def)

lemma length_sha256 [simp]: "length (sha256 s) = 32"
  by (simp add: sha256_def Let_def length_concat)

lemma length_hmacSHA256 [simp]: "length (hmacSHA256 key m) = 32"
  by (simp add: hmacSHA256_def Let_def)

lemma length_hexEncode [simp]: "length (hexEncode s) = 2 * length s"
  by (induction s) (simp_all add: hexEncode_def)

lemma sha256Pad_blocks: "length (sha256Pad bytes) mod 64 = 0"
proof -
  define q r where "q = length bytes div 64" and "r = length bytes mod 64"
  have len: "length bytes = 64 * q + r" and r: "r < 64" by (simp_all add: q_def r_def)
  have "length (sha256Pad bytes) = length bytes + 1 + (119 - r) mod 64 + 8"
    by (simp add: sha256Pad_def r_def)
  also have "\<dots> = (if r \<le> 55 then 64 * (q + 1) else 64 * (q + 2))"
  proof (cases "r \<le> 55")
    case True
    then have "(119 - r) mod 64 = (55 - r + 64) mod 64" by (simp add: add.commute)
    also have "\<dots> = 55 - r" by simp
    finally show ?thesis using True len by simp
  next
    case False
    then have "(119 - r) mod 64 = 119 - r" by simp
    then show ?thesis using False len r by simp
  qed
  finally show ?thesis by simp
qed

end
