(* ===== verification/PublishStep.thy ===== *)
theory PublishStep
  imports HttpStep Sha256
begin

text \<open>
  Publish steps (\<^verbatim>\<open>internal/controller/flowrun_controller.go\<close>): routing to Kafka or to a plugin, the retry
  loop, the plugin envelope with its idempotency key, and the cache of Kafka producers the reconciler
  keeps across reconciles. Sending, producer construction and response decoding are fields
  of the record \<open>publishEnv\<close>. Producers have identities, and the state records which are open.
\<close>

section \<open>Kafka producers\<close>

datatype saslMechanism = SASLPlaintext | SASLSCRAMSHA256 | SASLSCRAMSHA512

record kafkaClientConfig =
  kc_servers :: "string list"
  kc_tls :: "(bool \<times> string option) option"
  kc_sasl :: "(saslMechanism \<times> string \<times> string) option"

record producer =
  pr_id :: nat
  pr_config :: kafkaClientConfig

text \<open>\<open>ks_open\<close> are the producers created and not closed; \<open>ks_next\<close> numbers the next one.\<close>

record kafkaState =
  ks_producers :: "string \<rightharpoonup> producer"
  ks_lastUsed :: "string \<rightharpoonup> time"
  ks_open :: "nat list"
  ks_next :: nat

record kafkaMessage =
  km_topic :: string
  km_value :: string
  km_headers :: smap

datatype pluginClient = PluginMTLSClient | PluginConfiguredClient | PluginDefaultClient

record publishEnvelope =
  pe_integration :: string
  pe_namespace :: string
  pe_destination :: string
  pe_headers :: smap
  pe_body :: string
  pe_idempotencyKey :: string

datatype publication = KafkaSend producer kafkaMessage | PluginPost pluginClient string publishEnvelope

datatype postAnswer = PostFailed msg | PostAnswer int string

record publishEnv =
  pv_codec :: codec
  pv_cluster :: cluster
  pv_httpClient :: bool
  pv_mtlsFor :: "string \<Rightarrow> string \<Rightarrow> bool"
  pv_ctxDone :: "nat \<Rightarrow> duration \<Rightarrow> msg option"
  pv_now :: "nat \<Rightarrow> time"
  pv_appendCerts :: "string \<Rightarrow> bool"
  pv_newSyncProducer :: "kafkaClientConfig \<Rightarrow> msg option"
  pv_sendMessage :: "nat \<Rightarrow> producer \<Rightarrow> kafkaMessage \<Rightarrow> (int \<times> int) result"
  pv_newRequest :: "string \<Rightarrow> msg option"
  pv_post :: "nat \<Rightarrow> pluginClient \<Rightarrow> string \<Rightarrow> publishEnvelope \<Rightarrow> postAnswer"
  pv_decodeFailure :: "string \<Rightarrow> string option"
  pv_decodeSuccess :: "string \<Rightarrow> string option"

definition kafkaProducerIdleTTL :: duration where
  "kafkaProducerIdleTTL = 10 * 60 * second"

definition kafkaTLS :: "publishEnv \<Rightarrow> integration \<Rightarrow> kafkaIntegrationSpec \<Rightarrow> (bool \<times> string option) option result" where
  "kafkaTLS env integration spec =
     (case ki_tls spec of
        None \<Rightarrow> Inr None
      | Some t \<Rightarrow>
          if \<not> kt_enabled t then Inr None
          else (case kt_caSecretRef t of
              None \<Rightarrow> Inr (Some (kt_insecureSkipVerify t, None))
            | Some ref \<Rightarrow>
                (case fetchSecretValue (pv_cluster env) (ig_namespace integration) ref of
                   Inl e \<Rightarrow> Inl (Fmt ''reading CA cert secret for integration %q: %w''
                                  [Txt (ig_name integration), e])
                 | Inr caPEM \<Rightarrow>
                     if \<not> pv_appendCerts env caPEM then
                       Inl (Fmt ''failed to parse CA certificate from secret %s key %s''
                              [Txt (ks_name ref), Txt (ks_key ref)])
                     else Inr (Some (kt_insecureSkipVerify t, Some caPEM)))))"

definition saslMechanismOf :: "string \<Rightarrow> saslMechanism option" where
  "saslMechanismOf m =
     (if m = ''PLAIN'' then Some SASLPlaintext
      else if m = ''SCRAM-SHA-256'' then Some SASLSCRAMSHA256
      else if m = ''SCRAM-SHA-512'' then Some SASLSCRAMSHA512 else None)"

definition kafkaSASL ::
  "publishEnv \<Rightarrow> integration \<Rightarrow> kafkaIntegrationSpec \<Rightarrow> (saslMechanism \<times> string \<times> string) option result" where
  "kafkaSASL env integration spec =
     (case ki_sasl spec of
        None \<Rightarrow> Inr None
      | Some c \<Rightarrow>
          (let fetch = (\<lambda>what ref. mapErr (\<lambda>e. Fmt ''reading SASL %s secret for integration %q: %w''
                         [Txt what, Txt (ig_name integration), e])
                       (fetchSecretValue (pv_cluster env) (ig_namespace integration) ref))
           in bindR (fetch ''username'' (ksc_usernameSecretRef c)) (\<lambda>username.
              bindR (fetch ''password'' (ksc_passwordSecretRef c)) (\<lambda>password.
                case saslMechanismOf (ksc_mechanism c) of
                  None \<Rightarrow> Inl (Fmt ''unsupported SASL mechanism %q for integration %q''
                                [Txt (ksc_mechanism c), Txt (ig_name integration)])
                | Some mech \<Rightarrow> Inr (Some (mech, username, password))))))"

definition kafkaConfig :: "publishEnv \<Rightarrow> integration \<Rightarrow> kafkaIntegrationSpec \<Rightarrow> kafkaClientConfig result" where
  "kafkaConfig env integration spec =
     bindR (kafkaTLS env integration spec) (\<lambda>t.
     bindR (kafkaSASL env integration spec) (\<lambda>s.
       Inr \<lparr>kc_servers = ki_bootstrapServers spec, kc_tls = t, kc_sasl = s\<rparr>))"

definition closeProducer :: "producer \<Rightarrow> kafkaState \<Rightarrow> kafkaState" where
  "closeProducer p st = st\<lparr>ks_open := removeAll (pr_id p) (ks_open st)\<rparr>"

definition evictProducer :: "string \<Rightarrow> kafkaState \<Rightarrow> kafkaState" where
  "evictProducer brokerKey st =
     st\<lparr>ks_producers := (ks_producers st)(brokerKey := None),
        ks_lastUsed := (ks_lastUsed st)(brokerKey := None)\<rparr>"

definition createProducer ::
  "publishEnv \<Rightarrow> nat \<Rightarrow> string \<Rightarrow> integration \<Rightarrow> kafkaIntegrationSpec \<Rightarrow> kafkaState \<Rightarrow>
   producer result \<times> kafkaState" where
  "createProducer env attempt brokerKey integration spec st =
     (case kafkaConfig env integration spec of
        Inl e \<Rightarrow> (Inl e, st)
      | Inr config \<Rightarrow>
          (case pv_newSyncProducer env config of
             Some e \<Rightarrow> (Inl (Fmt ''creating kafka producer for integration %q: %w''
                              [Txt (ig_name integration), e]), st)
           | None \<Rightarrow>
               (let p = \<lparr>pr_id = ks_next st, pr_config = config\<rparr>
                in (Inr p, st\<lparr>ks_producers := (ks_producers st)(brokerKey \<mapsto> p),
                              ks_lastUsed := (ks_lastUsed st)(brokerKey \<mapsto> pv_now env attempt),
                              ks_open := ks_next st # ks_open st, ks_next := Suc (ks_next st)\<rparr>))))"

text \<open>A missing last-use time is Go's zero time, idle for longer than any limit.\<close>

definition getOrCreateKafkaProducer ::
  "publishEnv \<Rightarrow> nat \<Rightarrow> string \<Rightarrow> integration \<Rightarrow> kafkaIntegrationSpec \<Rightarrow> kafkaState \<Rightarrow>
   producer result \<times> kafkaState" where
  "getOrCreateKafkaProducer env attempt brokerKey integration spec st =
     (case ks_producers st brokerKey of
        Some p \<Rightarrow>
          (let idle = (case ks_lastUsed st brokerKey of
                 None \<Rightarrow> True | Some t \<Rightarrow> pv_now env attempt - t > kafkaProducerIdleTTL)
           in if idle then createProducer env attempt brokerKey integration spec
                             (evictProducer brokerKey (closeProducer p st))
              else (Inr p, st))
      | None \<Rightarrow> createProducer env attempt brokerKey integration spec st)"

text \<open>After a failed send: the entry is dropped under the lock, then the producer that failed is closed.\<close>

definition sendFailed :: "string \<Rightarrow> producer \<Rightarrow> kafkaState \<Rightarrow> kafkaState" where
  "sendFailed brokerKey p st = closeProducer p (evictProducer brokerKey st)"

text \<open>The state, together with what has been sent.\<close>

record publishState =
  ps_kafka :: kafkaState
  ps_cache :: integrationCache
  ps_sent :: "publication list"

definition publishToKafka ::
  "publishEnv \<Rightarrow> integration \<Rightarrow> kafkaIntegrationSpec \<Rightarrow> string \<Rightarrow> string \<Rightarrow> smap \<Rightarrow> nat \<Rightarrow> publishState \<Rightarrow>
   smap result \<times> publishState" where
  "publishToKafka env integration spec topic body headers attempt st =
     (let brokerKey = joinStr '','' (ki_bootstrapServers spec)
      in case getOrCreateKafkaProducer env attempt brokerKey integration spec (ps_kafka st) of
           (Inl e, ks) \<Rightarrow> (Inl e, st\<lparr>ps_kafka := ks\<rparr>)
         | (Inr p, ks) \<Rightarrow>
             (let m = \<lparr>km_topic = topic, km_value = body, km_headers = headers\<rparr>;
                  sent = ps_sent st @ [KafkaSend p m]
              in case pv_sendMessage env attempt p m of
                   Inl e \<Rightarrow>
                     (Inl (Fmt ''sending kafka message to topic %q: %w'' [Txt topic, e]),
                      st\<lparr>ps_kafka := sendFailed brokerKey p ks, ps_sent := sent\<rparr>)
                 | Inr (part, offset) \<Rightarrow>
                     (Inr [(''partition'', showInt part), (''offset'', showInt offset)],
                      st\<lparr>ps_kafka := ks\<lparr>ks_lastUsed := (ks_lastUsed ks)(brokerKey \<mapsto> pv_now env attempt)\<rparr>,
                         ps_sent := sent\<rparr>)))"

section \<open>Plugins\<close>

definition idempotencyInput :: "string \<Rightarrow> string \<Rightarrow> string" where
  "idempotencyInput uid stepName = uid @ [CHR 0x00] @ stepName"

definition pluginPublishIdempotencyKey :: "string \<Rightarrow> string \<Rightarrow> string" where
  "pluginPublishIdempotencyKey uid stepName =
     ''kz1-'' @ hexEncode (sha256 (idempotencyInput uid stepName))"

definition pluginURL :: "string \<Rightarrow> string \<Rightarrow> int \<Rightarrow> string" where
  "pluginURL name namespace port =
     ''http://kubezap-plugin-'' @ name @ ''.'' @ namespace @ ''.svc.cluster.local:'' @ showInt port @ ''/publish''"

definition pluginAnswer :: "publishEnv \<Rightarrow> int \<Rightarrow> string \<Rightarrow> smap result" where
  "pluginAnswer env code body =
     (let respBytes = take 1024 body
      in if code \<ge> 400 then
           (case pv_decodeFailure env respBytes of
              Some err \<Rightarrow>
                if err \<noteq> [] then Inl (Fmt ''publish endpoint returned status %d: %s'' [Txt (showInt code), Txt err])
                else Inl (Fmt ''publish endpoint returned status %d: %s''
                            [Txt (showInt code), Txt (trimSpace respBytes)])
            | None \<Rightarrow> Inl (Fmt ''publish endpoint returned status %d: %s''
                            [Txt (showInt code), Txt (trimSpace respBytes)]))
         else (case pv_decodeSuccess env respBytes of
             Some mid \<Rightarrow> if mid \<noteq> [] then Inr [(''messageId'', mid)] else Inr []
           | None \<Rightarrow> Inr []))"

definition doPluginPublish ::
  "publishEnv \<Rightarrow> string \<Rightarrow> publishEnvelope \<Rightarrow> nat \<Rightarrow> publishState \<Rightarrow> smap result \<times> publishState" where
  "doPluginPublish env url envelope attempt st =
     (let mtls = pv_mtlsFor env (pe_namespace envelope) (pe_integration envelope);
          resolvedURL = (if mtls then replaceAll url ''http://'' ''https://'' else url);
          client = (if mtls then PluginMTLSClient
                    else if pv_httpClient env then PluginConfiguredClient else PluginDefaultClient)
      in case pv_newRequest env resolvedURL of
           Some e \<Rightarrow> (Inl (Fmt ''building publish request: %w'' [e]), st)
         | None \<Rightarrow>
             (let st' = st\<lparr>ps_sent := ps_sent st @ [PluginPost client resolvedURL envelope]\<rparr>
              in case pv_post env attempt client resolvedURL envelope of
                   PostFailed e \<Rightarrow> (Inl (Fmt ''publish request failed: %w'' [e]), st')
                 | PostAnswer code body \<Rightarrow> (pluginAnswer env code body, st')))"

section \<open>The step\<close>

text \<open>The retry loop both back ends share; the first component of the result is the number of
  attempts.\<close>

fun publishLoop ::
  "(nat \<Rightarrow> msg option) \<Rightarrow> (nat \<Rightarrow> publishState \<Rightarrow> smap result \<times> publishState) \<Rightarrow> nat \<Rightarrow> nat \<Rightarrow> msg option \<Rightarrow>
   publishState \<Rightarrow> (nat \<times> smap result) \<times> publishState" where
  "publishLoop ctxDone once 0 attempt lastErr st =
     ((attempt, case lastErr of None \<Rightarrow> Inr [] | Some e \<Rightarrow> Inl e), st)"
| "publishLoop ctxDone once (Suc n) attempt lastErr st =
     (case (if attempt > 0 then ctxDone attempt else None) of
        Some e \<Rightarrow> ((attempt, Inl e), st)
      | None \<Rightarrow>
          (case once attempt st of
             (Inr result, st') \<Rightarrow> ((Suc attempt, Inr result), st')
           | (Inl e, st') \<Rightarrow> publishLoop ctxDone once n (Suc attempt) (Some e) st'))"

definition publishInputs ::
  "publishEnv \<Rightarrow> flowRun \<Rightarrow> flowStep \<Rightarrow> publishAction \<Rightarrow> stepResultsMap \<Rightarrow> triggerData option \<Rightarrow> smap \<Rightarrow>
   (string \<times> string \<times> smap) result" where
  "publishInputs env flowRun step pa stepResults triggerData params =
     (let subst = secretSubst (pv_codec env) (pv_cluster env) (fr_namespace flowRun) stepResults
                    triggerData params;
          topic = substituteVars (pv_codec env) (pa_topic pa) stepResults triggerData params
      in bindR (mapErr (\<lambda>e. Fmt ''resolving secrets in publish body for step %q: %w'' [Txt (fs_name step), e])
                  (subst (pa_body pa))) (\<lambda>(body, _).
         bindR (substHeaders subst ''publish header'' (fs_name step) (pa_headers pa) []) (\<lambda>headers.
           Inr (topic, body, headers))))"

definition publishVia ::
  "publishEnv \<Rightarrow> flowRun \<Rightarrow> flowStep \<Rightarrow> integration \<Rightarrow> string \<Rightarrow> string \<Rightarrow> smap \<Rightarrow>
   (nat \<Rightarrow> publishState \<Rightarrow> smap result \<times> publishState) result" where
  "publishVia env flowRun step ig topic body headers =
     (case ig_kafka ig of
        Some spec \<Rightarrow> Inr (publishToKafka env ig spec topic body headers)
      | None \<Rightarrow>
          (case ig_plugin ig of
             None \<Rightarrow> Inl (Fmt ''integration %q is not a plugin type'' [Txt (ig_name ig)])
           | Some plugin \<Rightarrow>
               (let port = (if pi_publisherPort plugin = 0 then 8090 else pi_publisherPort plugin)
                in Inr (doPluginPublish env (pluginURL (ig_name ig) (fr_namespace flowRun) port)
                     \<lparr>pe_integration = ig_name ig, pe_namespace = fr_namespace flowRun,
                      pe_destination = topic, pe_headers = headers, pe_body = body,
                      pe_idempotencyKey =
                        pluginPublishIdempotencyKey (fr_uid flowRun) (fs_name step)\<rparr>))))"

definition executePublishStep ::
  "publishEnv \<Rightarrow> flowRun \<Rightarrow> flowStep \<Rightarrow> triggerData option \<Rightarrow> stepResultsMap \<Rightarrow> smap \<Rightarrow> publishState \<Rightarrow>
   (nat \<times> smap result) \<times> publishState" where
  "executePublishStep env flowRun step triggerData stepResults params st =
     (case sa_publish (fs_action step) of
        None \<Rightarrow> ((0, Inl (Fmt ''step %q has type=publish but no integrationRef.name'' [Txt (fs_name step)])), st)
      | Some pa \<Rightarrow>
          if pa_integrationRef pa = [] then
            ((0, Inl (Fmt ''step %q has type=publish but no integrationRef.name'' [Txt (fs_name step)])), st)
          else (case getIntegration (pv_cluster env) (fr_namespace flowRun) (pa_integrationRef pa) (ps_cache st) of
              (Inl err, c) \<Rightarrow>
                ((0, Inl (Fmt ''fetching integration %q: %w'' [Txt (pa_integrationRef pa), apiErrorMsg err])),
                 st\<lparr>ps_cache := c\<rparr>)
            | (Inr ig, c) \<Rightarrow>
                (let st' = st\<lparr>ps_cache := c\<rparr>
                 in if ig_kafka ig = None \<and> ig_plugin ig = None then
                      ((0, Inl (Fmt ''integration %q is not a plugin type'' [Txt (ig_name ig)])), st')
                    else (case bindR (publishInputs env flowRun step pa stepResults triggerData params)
                                 (\<lambda>(topic, body, headers). publishVia env flowRun step ig topic body headers) of
                        Inl e \<Rightarrow> ((0, Inl e), st')
                      | Inr once \<Rightarrow>
                          publishLoop (\<lambda>n. pv_ctxDone env n (retryDelay (fs_retryPolicy step) n))
                            once (maxAttempts (fs_retryPolicy step)) 0 None st'))))"

section \<open>The producer cache\<close>

text \<open>The open producers are exactly the cached ones, under one key each.\<close>

definition kafkaInv :: "kafkaState \<Rightarrow> bool" where
  "kafkaInv st \<longleftrightarrow>
     set (ks_open st) = pr_id ` ran (ks_producers st) \<and>
     inj_on (\<lambda>k. pr_id (the (ks_producers st k))) (dom (ks_producers st)) \<and>
     (\<forall>i \<in> set (ks_open st). i < ks_next st)"

lemma kafkaInv_cached_open: "kafkaInv st \<Longrightarrow> ks_producers st k = Some p \<Longrightarrow> pr_id p \<in> set (ks_open st)"
  by (auto simp: kafkaInv_def intro: ranI)

lemma kafkaInv_cached_key:
  assumes "kafkaInv st" and "ks_producers st k = Some p" and "ks_producers st k' = Some p'"
    and "pr_id p' = pr_id p"
  shows "k' = k"
proof -
  have "inj_on (\<lambda>k. pr_id (the (ks_producers st k))) (dom (ks_producers st))"
    using assms(1) by (simp add: kafkaInv_def)
  then show ?thesis using assms(2-4) by (auto dest: inj_onD [of _ _ k' k])
qed

lemma ran_drop_id:
  assumes "kafkaInv st" and "ks_producers st k = Some p"
  shows "pr_id ` ran ((ks_producers st)(k := None)) = pr_id ` ran (ks_producers st) - {pr_id p}"
proof (intro equalityI subsetI)
  fix i
  assume "i \<in> pr_id ` ran ((ks_producers st)(k := None))"
  then obtain k' q where "k' \<noteq> k" "ks_producers st k' = Some q" "i = pr_id q"
    by (auto simp: ran_def split: if_splits)
  then show "i \<in> pr_id ` ran (ks_producers st) - {pr_id p}"
    using kafkaInv_cached_key [OF assms] by (auto intro: ranI)
next
  fix i
  assume "i \<in> pr_id ` ran (ks_producers st) - {pr_id p}"
  then obtain k' q where "ks_producers st k' = Some q" "i = pr_id q" "i \<noteq> pr_id p"
    by (auto simp: ran_def)
  then have "((ks_producers st)(k := None)) k' = Some q" using assms(2) by auto
  then show "i \<in> pr_id ` ran ((ks_producers st)(k := None))"
    using \<open>i = pr_id q\<close> by (blast intro: ranI)
qed

lemma kafkaInv_drop:
  assumes "kafkaInv st" and "ks_producers st k = Some p"
  shows "kafkaInv (evictProducer k (closeProducer p st))" "kafkaInv (sendFailed k p st)"
proof -
  have "sendFailed k p st = evictProducer k (closeProducer p st)"
    by (simp add: sendFailed_def evictProducer_def closeProducer_def)
  moreover have "inj_on (\<lambda>k'. pr_id (the (((ks_producers st)(k := None)) k'))) (dom (ks_producers st) - {k})"
    using assms(1) by (auto simp: kafkaInv_def inj_on_def)
  then have "kafkaInv (evictProducer k (closeProducer p st))"
    using assms(1) ran_drop_id [OF assms]
    by (auto simp: kafkaInv_def evictProducer_def closeProducer_def)
  ultimately show "kafkaInv (evictProducer k (closeProducer p st))" "kafkaInv (sendFailed k p st)" by simp_all
qed

lemma kafkaInv_touch: "kafkaInv (st\<lparr>ks_lastUsed := l\<rparr>) = kafkaInv st"
  by (simp add: kafkaInv_def)

lemma createProducer_inv:
  assumes "kafkaInv st" and "ks_producers st k = None"
    and "createProducer env a k ig spec st = (r, st')"
  shows "kafkaInv st' \<and> (\<forall>p. r = Inr p \<longrightarrow> ks_producers st' k = Some p)"
proof (cases "r")
  case (Inl e)
  then have "st' = st"
    using assms(3) by (auto simp: createProducer_def Let_def split: sum.splits option.splits)
  then show ?thesis using assms(1) Inl by simp
next
  case (Inr p)
  then have st': "ks_producers st' = (ks_producers st)(k \<mapsto> p)" "ks_open st' = ks_next st # ks_open st"
    "ks_next st' = Suc (ks_next st)" "pr_id p = ks_next st"
    using assms(3) by (auto simp: createProducer_def Let_def split: sum.splits option.splits)
  have fresh: "pr_id q \<noteq> ks_next st" if "ks_producers st k' = Some q" for k' q
    using assms(1) kafkaInv_cached_open [OF assms(1) that] by (auto simp: kafkaInv_def)
  have "ran ((ks_producers st)(k \<mapsto> p)) = insert p (ran (ks_producers st))"
    using assms(2) by simp
  moreover have "inj_on (\<lambda>k'. pr_id (the (((ks_producers st)(k \<mapsto> p)) k'))) (insert k (dom (ks_producers st)))"
  proof (rule inj_onI)
    fix x y
    assume "x \<in> insert k (dom (ks_producers st))" "y \<in> insert k (dom (ks_producers st))"
      and "pr_id (the (((ks_producers st)(k \<mapsto> p)) x)) = pr_id (the (((ks_producers st)(k \<mapsto> p)) y))"
    then show "x = y"
      using kafkaInv_cached_key [OF assms(1), of y _ x] fresh [of x] fresh [of y] st'(4)
      by (cases "x = k"; cases "y = k") (auto; metis)+
  qed
  moreover have "set (ks_open st) = pr_id ` ran (ks_producers st)" "\<forall>i \<in> set (ks_open st). i < ks_next st"
    using assms(1) by (simp_all add: kafkaInv_def)
  ultimately have "kafkaInv st'"
    unfolding kafkaInv_def st'(1-3) by (simp add: st'(4) less_Suc_eq)
  then show ?thesis using st'(1) Inr by simp
qed

lemma getOrCreate_inv:
  assumes "kafkaInv st" and "getOrCreateKafkaProducer env a k ig spec st = (r, st')"
  shows "kafkaInv st' \<and> (\<forall>p. r = Inr p \<longrightarrow> ks_producers st' k = Some p)"
proof (cases "ks_producers st k")
  case None
  then have "createProducer env a k ig spec st = (r, st')"
    using assms(2) by (simp add: getOrCreateKafkaProducer_def)
  then show ?thesis by (rule createProducer_inv [OF assms(1) None])
next
  case (Some p)
  let ?st = "evictProducer k (closeProducer p st)"
  have none: "ks_producers ?st k = None" by (simp add: evictProducer_def)
  have "createProducer env a k ig spec ?st = (r, st') \<or> (r = Inr p \<and> st' = st)"
    using assms(2) Some by (auto simp: getOrCreateKafkaProducer_def Let_def split: if_splits)
  then show ?thesis
    using createProducer_inv [OF kafkaInv_drop(1) [OF assms(1) Some] none] assms(1) Some by blast
qed

text \<open>Publishing to Kafka one message at a time neither leaks nor reuses closed producers: it preserves
  that the open producers are exactly the cached ones, and every message goes out through a producer
  that is open and cached for its brokers at that moment.\<close>

theorem publishToKafka_producers:
  assumes "kafkaInv (ps_kafka st)"
    and "publishToKafka env ig spec topic body headers a st = (r, st')"
  shows "kafkaInv (ps_kafka st') \<and>
     (ps_sent st' = ps_sent st \<or>
      (\<exists>p m ks. ps_sent st' = ps_sent st @ [KafkaSend p m] \<and> kafkaInv ks \<and>
         ks_producers ks (joinStr '','' (ki_bootstrapServers spec)) = Some p \<and> pr_id p \<in> set (ks_open ks)))"
proof -
  let ?k = "joinStr '','' (ki_bootstrapServers spec)"
  obtain q ks where g: "getOrCreateKafkaProducer env a ?k ig spec (ps_kafka st) = (q, ks)" by fastforce
  have inv: "kafkaInv ks" and cached: "\<forall>p. q = Inr p \<longrightarrow> ks_producers ks ?k = Some p"
    using getOrCreate_inv [OF assms(1) g] by auto
  show ?thesis
  proof (cases q)
    case (Inl e)
    then show ?thesis using assms(2) g inv by (auto simp: publishToKafka_def)
  next
    case (Inr p)
    then have c: "ks_producers ks ?k = Some p" using cached by simp
    let ?m = "\<lparr>km_topic = topic, km_value = body, km_headers = headers\<rparr>"
    have "ps_sent st' = ps_sent st @ [KafkaSend p ?m] \<and> kafkaInv (ps_kafka st')"
    proof (cases "pv_sendMessage env a p ?m")
      case (Inl e)
      then have "st' = st\<lparr>ps_kafka := sendFailed ?k p ks, ps_sent := ps_sent st @ [KafkaSend p ?m]\<rparr>"
        using assms(2) g Inr by (simp add: publishToKafka_def Let_def)
      then show ?thesis using kafkaInv_drop(2) [OF inv c] by simp
    next
      case (Inr po)
      then have "\<exists>l. st' = st\<lparr>ps_kafka := ks\<lparr>ks_lastUsed := l\<rparr>, ps_sent := ps_sent st @ [KafkaSend p ?m]\<rparr>"
        using assms(2) g \<open>q = Inr p\<close> by (cases po) (auto simp: publishToKafka_def Let_def)
      then show ?thesis using inv kafkaInv_touch by auto
    qed
    then show ?thesis using c inv kafkaInv_cached_open [OF inv c] by blast
  qed
qed

text \<open>With concurrent steps this is lost: a step whose send fails on a producer that another step has
  already replaced drops the replacement from the cache and leaves it open, since only the failed
  producer is closed.\<close>

theorem sendFailed_leaks_replacement:
  assumes "kafkaInv st" and "ks_producers st k = Some p'" and "pr_id p' \<noteq> pr_id p"
  shows "ks_producers (sendFailed k p st) k = None \<and> pr_id p' \<in> set (ks_open (sendFailed k p st)) \<and>
         \<not> kafkaInv (sendFailed k p st)"
proof -
  have o: "pr_id p' \<in> set (ks_open st)" using kafkaInv_cached_open [OF assms(1,2)] .
  have n: "pr_id p' \<notin> pr_id ` ran (ks_producers (sendFailed k p st))"
    using ran_drop_id [OF assms(1,2)] by (simp add: sendFailed_def evictProducer_def closeProducer_def)
  have "pr_id p' \<in> set (ks_open (sendFailed k p st))"
    using o assms(3) by (simp add: sendFailed_def evictProducer_def closeProducer_def)
  moreover have "ks_producers (sendFailed k p st) k = None"
    by (simp add: sendFailed_def evictProducer_def closeProducer_def)
  ultimately show ?thesis using n by (auto simp: kafkaInv_def)
qed

text \<open>The cache is keyed by the broker addresses alone: while a cached producer is in use, every
  Integration that names the same brokers publishes through it, whatever its namespace, credentials
  or TLS settings.\<close>

theorem getOrCreateKafkaProducer_ignores_credentials:
  assumes "ks_producers st (joinStr '','' (ki_bootstrapServers spec)) = Some p"
    and "ks_lastUsed st (joinStr '','' (ki_bootstrapServers spec)) = Some t"
    and "pv_now env a - t \<le> kafkaProducerIdleTTL"
  shows "getOrCreateKafkaProducer env a (joinStr '','' (ki_bootstrapServers spec)) ig spec st = (Inr p, st)"
  using assms by (simp add: getOrCreateKafkaProducer_def)

section \<open>What a publish step sends\<close>

text \<open>The interface of the retry loop: one attempt sends at most one message, and only permitted ones.\<close>

locale publisher =
  fixes once :: "nat \<Rightarrow> publishState \<Rightarrow> smap result \<times> publishState"
    and permitted :: "publication \<Rightarrow> bool"
  assumes once_sends: "\<exists>new. ps_sent (snd (once a st)) = ps_sent st @ new \<and> length new \<le> 1 \<and> list_all permitted new"
begin

lemma loop_sends:
  "\<exists>new. ps_sent (snd (publishLoop cd once n a e st)) = ps_sent st @ new \<and> length new \<le> n \<and>
     list_all permitted new"
proof (induction n arbitrary: a e st)
  case 0
  then show ?case by simp
next
  case (Suc n)
  obtain r st1 where o: "once a st = (r, st1)" by fastforce
  obtain new where n1: "ps_sent st1 = ps_sent st @ new" "length new \<le> 1" "list_all permitted new"
    using once_sends [of a st] o by auto
  have more: "\<exists>new. ps_sent (snd (publishLoop cd once n (Suc a) (Some x) st1)) = ps_sent st @ new \<and>
      length new \<le> Suc n \<and> list_all permitted new" for x
  proof -
    obtain new' where "ps_sent (snd (publishLoop cd once n (Suc a) (Some x) st1)) = ps_sent st1 @ new'"
      "length new' \<le> n" "list_all permitted new'" using Suc.IH by blast
    then show ?thesis using n1 by (intro exI [of _ "new @ new'"]) auto
  qed
  have stop: "\<exists>new. ps_sent st1 = ps_sent st @ new \<and> length new \<le> Suc n \<and> list_all permitted new"
    using n1 by (intro exI [of _ new]) auto
  show ?case
    unfolding publishLoop.simps o using more stop by (auto split: option.splits sum.splits)
qed

end

interpretation kafka_publisher: publisher
  "publishToKafka env ig spec topic body headers"
  "\<lambda>x. \<exists>p. x = KafkaSend p \<lparr>km_topic = topic, km_value = body, km_headers = headers\<rparr>"
  for env ig spec topic body headers
proof
  fix a and st :: publishState
  let ?k = "joinStr '','' (ki_bootstrapServers spec)"
  let ?m = "\<lparr>km_topic = topic, km_value = body, km_headers = headers\<rparr>"
  obtain q ks where g: "getOrCreateKafkaProducer env a ?k ig spec (ps_kafka st) = (q, ks)" by fastforce
  show "\<exists>new. ps_sent (snd (publishToKafka env ig spec topic body headers a st)) = ps_sent st @ new \<and>
      length new \<le> 1 \<and> list_all (\<lambda>x. \<exists>p. x = KafkaSend p ?m) new"
  proof (cases q)
    case (Inl e)
    then show ?thesis by (simp add: publishToKafka_def g)
  next
    case (Inr p)
    have "ps_sent (snd (publishToKafka env ig spec topic body headers a st)) = ps_sent st @ [KafkaSend p ?m]"
      by (simp add: publishToKafka_def g Inr Let_def split: sum.split prod.split)
    then show ?thesis by simp
  qed
qed

interpretation plugin_publisher: publisher
  "doPluginPublish env url envelope" "\<lambda>x. \<exists>c u. x = PluginPost c u envelope"
  for env url envelope
  by unfold_locales (simp add: doPluginPublish_def Let_def split: option.split postAnswer.split)

fun payloadOf :: "publication \<Rightarrow> kafkaMessage + publishEnvelope" where
  "payloadOf (KafkaSend p m) = Inl m"
| "payloadOf (PluginPost c u e) = Inr e"

lemma publishVia_sends:
  assumes "publishVia env fr step ig topic body headers = Inr once"
  shows "\<exists>new payload. ps_sent (snd (publishLoop cd once n 0 None st)) = ps_sent st @ new \<and> length new \<le> n \<and>
     list_all (\<lambda>x. payloadOf x = payload) new \<and>
     (\<forall>e. payload = Inr e \<longrightarrow> pe_idempotencyKey e = pluginPublishIdempotencyKey (fr_uid fr) (fs_name step))"
proof (cases "ig_kafka ig")
  case (Some spec)
  then have o: "once = publishToKafka env ig spec topic body headers" using assms by (simp add: publishVia_def)
  obtain new where "ps_sent (snd (publishLoop cd once n 0 None st)) = ps_sent st @ new" "length new \<le> n"
    "list_all (\<lambda>x. \<exists>p. x = KafkaSend p \<lparr>km_topic = topic, km_value = body, km_headers = headers\<rparr>) new"
    using kafka_publisher.loop_sends unfolding o by blast
  then show ?thesis
    by (intro exI [of _ new] exI [of _ "Inl \<lparr>km_topic = topic, km_value = body, km_headers = headers\<rparr>"])
      (auto simp: list_all_iff)
next
  case None
  then obtain url envelope where o: "once = doPluginPublish env url envelope"
    and k: "pe_idempotencyKey envelope = pluginPublishIdempotencyKey (fr_uid fr) (fs_name step)"
    using assms by (auto simp: publishVia_def Let_def split: option.splits)
  obtain new where "ps_sent (snd (publishLoop cd once n 0 None st)) = ps_sent st @ new" "length new \<le> n"
    "list_all (\<lambda>x. \<exists>c u. x = PluginPost c u envelope) new"
    using plugin_publisher.loop_sends unfolding o by blast
  then show ?thesis
    using k by (intro exI [of _ new] exI [of _ "Inr envelope"]) (auto simp: list_all_iff)
qed

lemma executePublishStep_cases:
  "(\<exists>c. snd (executePublishStep env fr step td sr ps st) = st\<lparr>ps_cache := c\<rparr>) \<or>
   (\<exists>ig topic body headers once cd c. publishVia env fr step ig topic body headers = Inr once \<and>
      snd (executePublishStep env fr step td sr ps st) =
        snd (publishLoop cd once (maxAttempts (fs_retryPolicy step)) 0 None (st\<lparr>ps_cache := c\<rparr>)))"
proof (cases "sa_publish (fs_action step)")
  case None
  then show ?thesis by (intro disjI1 exI [of _ "ps_cache st"]) (simp add: executePublishStep_def)
next
  case (Some pa)
  obtain r c where g: "getIntegration (pv_cluster env) (fr_namespace fr) (pa_integrationRef pa) (ps_cache st) = (r, c)"
    by fastforce
  show ?thesis
  proof (cases "pa_integrationRef pa = []")
    case True
    then show ?thesis
      using Some by (intro disjI1 exI [of _ "ps_cache st"]) (simp add: executePublishStep_def)
  next
    case False
    then show ?thesis
      using Some g
      by (cases r; auto simp: executePublishStep_def Let_def split: sum.splits; blast)
  qed
qed

text \<open>A publish step sends at most \<^verbatim>\<open>MaxRetries + 1\<close> messages, all with the same payload; for a plugin every
  one carries the idempotency key of the FlowRun's identity and the step name, which depends on nothing
  else, so a retry or a re-execution after a restart is recognisable as the same publication.\<close>

theorem executePublishStep_sends:
  "\<exists>new payload. ps_sent (snd (executePublishStep env fr step td sr ps st)) = ps_sent st @ new \<and>
     length new \<le> maxAttempts (fs_retryPolicy step) \<and> list_all (\<lambda>x. payloadOf x = payload) new \<and>
     list_all (\<lambda>x. case payloadOf x of Inl m \<Rightarrow> True
       | Inr e \<Rightarrow> pe_idempotencyKey e = pluginPublishIdempotencyKey (fr_uid fr) (fs_name step)) new"
  using executePublishStep_cases [of env fr step td sr ps st]
proof
  assume "\<exists>c. snd (executePublishStep env fr step td sr ps st) = st\<lparr>ps_cache := c\<rparr>"
  then have "ps_sent (snd (executePublishStep env fr step td sr ps st)) = ps_sent st" by auto
  then show ?thesis by simp
next
  let ?st' = "snd (executePublishStep env fr step td sr ps st)"
  assume "\<exists>ig topic body headers once cd c. publishVia env fr step ig topic body headers = Inr once \<and>
      ?st' = snd (publishLoop cd once (maxAttempts (fs_retryPolicy step)) 0 None (st\<lparr>ps_cache := c\<rparr>))"
  then obtain ig topic body headers once cd c where v: "publishVia env fr step ig topic body headers = Inr once"
    and st': "?st' = snd (publishLoop cd once (maxAttempts (fs_retryPolicy step)) 0 None (st\<lparr>ps_cache := c\<rparr>))"
    by blast
  obtain new payload where "ps_sent ?st' = ps_sent (st\<lparr>ps_cache := c\<rparr>) @ new"
    "length new \<le> maxAttempts (fs_retryPolicy step)" "list_all (\<lambda>x. payloadOf x = payload) new"
    "\<forall>e. payload = Inr e \<longrightarrow> pe_idempotencyKey e = pluginPublishIdempotencyKey (fr_uid fr) (fs_name step)"
    using publishVia_sends [OF v] unfolding st' by blast
  then show ?thesis
    by (intro exI [of _ new] exI [of _ payload]) (auto simp: list_all_iff split: sum.split)
qed

section \<open>Examples\<close>

definition examplePublishEnv :: publishEnv where
  "examplePublishEnv =
     \<lparr>pv_codec = exampleCodec, pv_cluster = exampleCluster\<lparr>k_secret := (\<lambda>ns n. Inr [(''k'', ns)])\<rparr>,
      pv_httpClient = False, pv_mtlsFor = (\<lambda>ns n. False), pv_ctxDone = (\<lambda>n d. None), pv_now = (\<lambda>n. 0),
      pv_appendCerts = (\<lambda>c. True), pv_newSyncProducer = (\<lambda>c. None),
      pv_sendMessage = (\<lambda>n p m. Inr (0, 7)), pv_newRequest = (\<lambda>u. None),
      pv_post = (\<lambda>n c u e. PostAnswer 200 []), pv_decodeFailure = (\<lambda>b. None),
      pv_decodeSuccess = (\<lambda>b. None)\<rparr>"

definition exampleKafka :: "string \<Rightarrow> integration" where
  "exampleKafka ns =
     \<lparr>ig_name = ''kafka'', ig_namespace = ns, ig_generation = 1, ig_type = ''kafka'',
      ig_kafka = Some \<lparr>ki_bootstrapServers = [''b:9092''], ki_tls = None,
        ki_sasl = Some \<lparr>ksc_mechanism = ''PLAIN'', ksc_usernameSecretRef = \<lparr>ks_name = ''s'', ks_key = ''k''\<rparr>,
          ksc_passwordSecretRef = \<lparr>ks_name = ''s'', ks_key = ''k''\<rparr>\<rparr>, ki_consumerGroupPrefix = []\<rparr>,
      ig_amqp = None, ig_nats = None, ig_plugin = None, ig_http = None, ig_status = emptyIntegrationStatus\<rparr>"

abbreviation exampleSpec :: "string \<Rightarrow> kafkaIntegrationSpec" where
  "exampleSpec ns \<equiv> the (ig_kafka (exampleKafka ns))"

definition emptyKafka :: kafkaState where
  "emptyKafka = \<lparr>ks_producers = Map.empty, ks_lastUsed = Map.empty, ks_open = [], ks_next = 0\<rparr>"

definition exampleProducer :: producer where
  "exampleProducer = \<lparr>pr_id = 0, pr_config = \<lparr>kc_servers = [''b:9092''], kc_tls = None,
     kc_sasl = Some (SASLPlaintext, ''team-a'', ''team-a'')\<rparr>\<rparr>"

definition exampleKafkaState :: kafkaState where
  "exampleKafkaState = \<lparr>ks_producers = [''b:9092'' \<mapsto> exampleProducer], ks_lastUsed = [''b:9092'' \<mapsto> 0],
     ks_open = [0], ks_next = 1\<rparr>"

lemmas publish_example_defs =
  examplePublishEnv_def exampleKafka_def emptyKafka_def exampleProducer_def exampleKafkaState_def
  exampleCluster_def

lemma emptyKafka_inv: "kafkaInv emptyKafka"
  by (simp add: kafkaInv_def emptyKafka_def)

lemma exampleKafkaState_created:
  "getOrCreateKafkaProducer examplePublishEnv 0 ''b:9092'' (exampleKafka ''team-a'') (exampleSpec ''team-a'')
     emptyKafka = (Inr exampleProducer, exampleKafkaState)"
  by (simp add: getOrCreateKafkaProducer_def createProducer_def kafkaConfig_def kafkaTLS_def kafkaSASL_def
      saslMechanismOf_def fetchSecretValue_def publish_example_defs Let_def)

lemma exampleKafkaState_inv: "kafkaInv exampleKafkaState"
  using getOrCreate_inv [OF emptyKafka_inv exampleKafkaState_created] by simp

theorem publishToKafka_producers_witness:
  "kafkaInv emptyKafka \<and>
   (\<exists>r st'. publishToKafka examplePublishEnv (exampleKafka ''team-a'') (exampleSpec ''team-a'') ''t'' ''b'' [] 0
      \<lparr>ps_kafka = emptyKafka, ps_cache = Map.empty, ps_sent = []\<rparr> = (r, st') \<and> is_ok r \<and> kafkaInv (ps_kafka st'))"
proof -
  let ?st = "\<lparr>ps_kafka = emptyKafka, ps_cache = Map.empty, ps_sent = []\<rparr>"
  have k: "joinStr '','' (ki_bootstrapServers (exampleSpec ''team-a'')) = ''b:9092''"
    by (simp add: exampleKafka_def)
  obtain r st' where r: "publishToKafka examplePublishEnv (exampleKafka ''team-a'') (exampleSpec ''team-a'') ''t'' ''b'' [] 0
      ?st = (r, st')" by fastforce
  have "is_ok r"
    using r exampleKafkaState_created unfolding publishToKafka_def k
    by (auto simp: Let_def examplePublishEnv_def)
  then show ?thesis
    using emptyKafka_inv publishToKafka_producers [of ?st] r by fastforce
qed

theorem sendFailed_leaks_replacement_witness:
  "kafkaInv exampleKafkaState \<and>
   0 \<in> set (ks_open (sendFailed ''b:9092'' (exampleProducer\<lparr>pr_id := 9\<rparr>) exampleKafkaState)) \<and>
   ks_producers (sendFailed ''b:9092'' (exampleProducer\<lparr>pr_id := 9\<rparr>) exampleKafkaState) ''b:9092'' = None"
  using exampleKafkaState_inv
    sendFailed_leaks_replacement [OF exampleKafkaState_inv, of "''b:9092''" exampleProducer "exampleProducer\<lparr>pr_id := 9\<rparr>"]
  by (simp add: exampleKafkaState_def exampleProducer_def)

theorem getOrCreateKafkaProducer_ignores_credentials_witness:
  "getOrCreateKafkaProducer examplePublishEnv 0 ''b:9092'' (exampleKafka ''team-b'') (exampleSpec ''team-b'')
     exampleKafkaState = (Inr exampleProducer, exampleKafkaState) \<and>
   kafkaConfig examplePublishEnv (exampleKafka ''team-b'') (exampleSpec ''team-b'') \<noteq> Inr (pr_config exampleProducer)"
  using getOrCreateKafkaProducer_ignores_credentials
    [of exampleKafkaState "exampleSpec ''team-b''" exampleProducer 0 examplePublishEnv 0 "exampleKafka ''team-b''"]
  by (simp add: kafkaConfig_def kafkaTLS_def kafkaSASL_def saslMechanismOf_def fetchSecretValue_def
      publish_example_defs kafkaProducerIdleTTL_def second_def Let_def)

end
