(* ===== verification/StepGraph.thy ===== *)
theory StepGraph
  imports ApiTypes
begin

text \<open>
  Step statuses and the dependency graph of a Flow
  (\<^verbatim>\<open>internal/controller/flowrun_controller.go\<close>, helpers after line 1715): the status list that a
  FlowRun carries, looked up and updated by step name, the conversion of step results, and the
  readiness tests \<open>dependenciesMet\<close> and \<open>allDepsSkipped\<close>.

  The status list is used through the interface \<open>keyed_store\<close>: what a lookup returns after an
  update, and which keys a list has after an update.
\<close>

section \<open>Operations\<close>

fun findStepStatus :: "stepRunStatus list \<Rightarrow> string \<Rightarrow> stepRunStatus option" where
  "findStepStatus [] n = None"
| "findStepStatus (s # ss) n = (if ss_name s = n then Some s else findStepStatus ss n)"

fun upsertStepStatus :: "stepRunStatus list \<Rightarrow> stepRunStatus \<Rightarrow> stepRunStatus list" where
  "upsertStepStatus [] s = [s]"
| "upsertStepStatus (x # xs) s =
     (if ss_name x = ss_name s then s # xs else x # upsertStepStatus xs s)"

fun findFlowStep :: "flowStep list \<Rightarrow> string \<Rightarrow> flowStep option" where
  "findFlowStep [] n = None"
| "findFlowStep (s # ss) n = (if fs_name s = n then Some s else findFlowStep ss n)"

definition resultsToMap :: "resultValue list \<Rightarrow> smap" where
  "resultsToMap rs = foldl (\<lambda>m r. AList.update (rv_name r) (rv_value r) m) [] rs"

definition mapsToResults :: "smap \<Rightarrow> resultValue list" where
  "mapsToResults m = map (\<lambda>(k, v). \<lparr>rv_name = k, rv_value = v\<rparr>) m"

text \<open>Whether one entry of \<^verbatim>\<open>RunAfter\<close> lets the step proceed.\<close>

definition depSatisfied ::
  "stepRunStatus list \<Rightarrow> flowStep list \<Rightarrow> bool \<Rightarrow> string \<Rightarrow> bool" where
  "depSatisfied statuses allSteps failurePolicyContinue dep =
     (case findStepStatus statuses dep of
        None \<Rightarrow> False
      | Some s \<Rightarrow>
          (case ss_phase s of
             StepPhaseSucceeded \<Rightarrow> True
           | StepPhaseSkipped \<Rightarrow> True
           | StepPhaseFailed \<Rightarrow>
               (let depContinues = failurePolicyContinue in
                if \<not> depContinues then
                  (case findFlowStep allSteps dep of
                     Some depStep \<Rightarrow> fs_onFailure depStep = OnFailureActionContinue
                   | None \<Rightarrow> False)
                else True)
           | _ \<Rightarrow> False))"

fun dependenciesMetLoop ::
  "string list \<Rightarrow> stepRunStatus list \<Rightarrow> flowStep list \<Rightarrow> bool \<Rightarrow> bool" where
  "dependenciesMetLoop [] statuses allSteps fpc = True"
| "dependenciesMetLoop (dep # deps) statuses allSteps fpc =
     (if depSatisfied statuses allSteps fpc dep
      then dependenciesMetLoop deps statuses allSteps fpc else False)"

definition dependenciesMet ::
  "flowStep \<Rightarrow> stepRunStatus list \<Rightarrow> flowStep list \<Rightarrow> bool \<Rightarrow> bool" where
  "dependenciesMet step statuses allSteps fpc =
     dependenciesMetLoop (fs_runAfter step) statuses allSteps fpc"

definition allDepsSkipped :: "flowStep \<Rightarrow> stepRunStatus list \<Rightarrow> bool" where
  "allDepsSkipped step statuses =
     (if fs_runAfter step = [] then False
      else list_all (\<lambda>dep. case findStepStatus statuses dep of
                             None \<Rightarrow> False
                           | Some s \<Rightarrow> ss_phase s = StepPhaseSkipped) (fs_runAfter step))"

text \<open>Entries that the controller still treats as not started.\<close>

definition notStarted :: "stepRunStatus option \<Rightarrow> bool" where
  "notStarted existing = (case existing of
      None \<Rightarrow> True
    | Some s \<Rightarrow> ss_phase s = StepPhaseUnset \<or> ss_phase s = StepPhasePending)"

section \<open>Keyed stores\<close>

locale keyed_store =
  fixes key :: "'a \<Rightarrow> 'k"
    and find :: "'s \<Rightarrow> 'k \<Rightarrow> 'a option"
    and upsert :: "'s \<Rightarrow> 'a \<Rightarrow> 's"
    and keys :: "'s \<Rightarrow> 'k list"
  assumes find_upsert: "find (upsert st x) k = (if k = key x then Some x else find st k)"
    and find_key: "find st k = Some x \<Longrightarrow> key x = k"
    and find_keys: "(find st k = None) = (k \<notin> set (keys st))"
    and keys_upsert:
      "keys (upsert st x) = (if key x \<in> set (keys st) then keys st else keys st @ [key x])"
begin

lemma find_upsert_same: "find (upsert st x) (key x) = Some x"
  by (simp add: find_upsert)

lemma find_upsert_other: "k \<noteq> key x \<Longrightarrow> find (upsert st x) k = find st k"
  by (simp add: find_upsert)

lemma keys_upsert_distinct: "distinct (keys st) \<Longrightarrow> distinct (keys (upsert st x))"
  by (simp add: keys_upsert)

lemma upsert_commute_find:
  "key x \<noteq> key y \<Longrightarrow> find (upsert (upsert st x) y) k = find (upsert (upsert st y) x) k"
  by (simp add: find_upsert)

lemma find_foldl_upsert_other:
  "k \<notin> key ` set xs \<Longrightarrow> find (foldl upsert st xs) k = find st k"
  by (induction xs arbitrary: st) (auto simp: find_upsert)

lemma find_foldl_upsert_in:
  assumes "distinct (map key xs)" and "x \<in> set xs"
  shows "find (foldl upsert st xs) (key x) = Some x"
  using assms
proof (induction xs arbitrary: st)
  case Nil
  then show ?case by simp
next
  case (Cons y ys)
  show ?case
  proof (cases "x = y")
    case True
    with Cons.prems have "key x \<notin> key ` set ys" by simp
    with True show ?thesis by (simp add: find_foldl_upsert_other find_upsert)
  next
    case False
    with Cons show ?thesis by simp
  qed
qed

lemma find_foldl_upsert_perm:
  assumes "distinct (map key xs)" and "distinct (map key ys)" and "set xs = set ys"
  shows "find (foldl upsert st xs) k = find (foldl upsert st ys) k"
proof (cases "k \<in> key ` set xs")
  case True
  then obtain x where "x \<in> set xs" and "k = key x" by auto
  with assms show ?thesis by (simp add: find_foldl_upsert_in)
next
  case False
  with assms(3) show ?thesis by (simp add: find_foldl_upsert_other)
qed

end

abbreviation stepKeys :: "stepRunStatus list \<Rightarrow> string list" where
  "stepKeys ss \<equiv> map ss_name ss"

lemma findStepStatus_None_iff: "(findStepStatus ss n = None) = (n \<notin> set (stepKeys ss))"
  by (induction ss) auto

lemma findStepStatus_Some_in: "findStepStatus ss n = Some s \<Longrightarrow> s \<in> set ss \<and> ss_name s = n"
  by (induction ss) (auto split: if_splits)

lemma findStepStatus_upsert:
  "findStepStatus (upsertStepStatus ss x) k =
     (if k = ss_name x then Some x else findStepStatus ss k)"
  by (induction ss) auto

interpretation steps: keyed_store ss_name findStepStatus upsertStepStatus stepKeys
proof
  show "findStepStatus (upsertStepStatus st x) k =
          (if k = ss_name x then Some x else findStepStatus st k)" for st x k
    by (rule findStepStatus_upsert)
  show "ss_name x = k" if "findStepStatus st k = Some x" for st k x
    using findStepStatus_Some_in [OF that] by simp
  show "(findStepStatus st k = None) = (k \<notin> set (stepKeys st))" for st k
    by (rule findStepStatus_None_iff)
  show "stepKeys (upsertStepStatus st x) =
          (if ss_name x \<in> set (stepKeys st) then stepKeys st else stepKeys st @ [ss_name x])" for st x
    by (induction st) auto
qed

section \<open>Lemmas\<close>

lemma findFlowStep_Some_in: "findFlowStep ss n = Some s \<Longrightarrow> s \<in> set ss \<and> fs_name s = n"
  by (induction ss) (auto split: if_splits)

lemma findFlowStep_distinct:
  "distinct (map fs_name ss) \<Longrightarrow> s \<in> set ss \<Longrightarrow> findFlowStep ss (fs_name s) = Some s"
  by (induction ss) (auto simp: image_iff)

lemma dependenciesMet_iff:
  "dependenciesMet step statuses allSteps fpc =
     list_all (depSatisfied statuses allSteps fpc) (fs_runAfter step)"
proof -
  have "dependenciesMetLoop deps statuses allSteps fpc =
          list_all (depSatisfied statuses allSteps fpc) deps" for deps
    by (induction deps) auto
  then show ?thesis by (simp add: dependenciesMet_def)
qed

lemma depSatisfied_terminal:
  "depSatisfied statuses allSteps fpc dep \<Longrightarrow>
     \<exists>s. findStepStatus statuses dep = Some s \<and> stepTerminal (ss_phase s)"
  by (auto simp: depSatisfied_def split: option.splits stepPhase.splits)

lemma depSatisfied_mono:
  assumes "depSatisfied statuses allSteps fpc dep"
    and "\<And>s. findStepStatus statuses dep = Some s \<Longrightarrow> stepTerminal (ss_phase s) \<Longrightarrow>
           findStepStatus statuses' dep = Some s"
  shows "depSatisfied statuses' allSteps fpc dep"
proof -
  from depSatisfied_terminal [OF assms(1)] obtain s
    where s: "findStepStatus statuses dep = Some s" and "stepTerminal (ss_phase s)" by blast
  then have "findStepStatus statuses' dep = Some s" by (rule assms(2))
  with s assms(1) show ?thesis by (simp add: depSatisfied_def)
qed

lemma resultsToMap_foldl:
  "map_of (foldl (\<lambda>m r. AList.update (rv_name r) (rv_value r) m) m rs) =
     map_of m ++ map_of (map (\<lambda>r. (rv_name r, rv_value r)) (rev rs))"
  by (induction rs arbitrary: m) (auto simp: update_conv' map_add_def fun_eq_iff split: option.splits)

lemma map_of_resultsToMap:
  "map_of (resultsToMap rs) = map_of (map (\<lambda>r. (rv_name r, rv_value r)) (rev rs))"
  by (simp add: resultsToMap_def resultsToMap_foldl)

lemma map_of_rev_distinct: "distinct (map fst m) \<Longrightarrow> map_of (rev m) = map_of m"
  by (rule map_of_inject_set [THEN iffD2]) (auto simp: rev_map [symmetric])

text \<open>The results a step reports survive the round trip through the FlowRun status: converting a
  result map to the persisted list and rebuilding the map on the next reconcile gives the same
  lookup for every result name.\<close>

theorem results_roundtrip:
  assumes "distinct (map fst m)"
  shows "map_of (resultsToMap (mapsToResults m)) k = map_of m k"
proof -
  have "map (\<lambda>r. (rv_name r, rv_value r)) (rev (mapsToResults m)) = rev m"
    by (simp add: mapsToResults_def rev_map [symmetric] case_prod_unfold comp_def)
  with assms show ?thesis by (simp add: map_of_resultsToMap map_of_rev_distinct)
qed

theorem results_roundtrip_witness:
  "distinct (map fst [(''body'', ''x''), (''status'', ''200'')]) \<and>
   map_of (resultsToMap (mapsToResults [(''body'', ''x''), (''status'', ''200'')])) ''status'' =
     Some ''200''"
  using results_roundtrip [of "[(''body'', ''x''), (''status'', ''200'')]" "''status''"] by simp

end
