(* ===== verification/FlowRunStore.thy ===== *)
theory FlowRunStore
  imports StepGraph
begin

text \<open>
  The API server as the FlowRun controller sees it. The state holds the stored FlowRun of the request,
  the other FlowRuns, and the number of requests made; every request is accepted, rejected, or applied
  with the answer lost, as the argument \<open>api\<close> decides, so a theorem over all \<open>api\<close> covers conflicts,
  outages and crashes between requests. A status update stores only the status, a metadata update
  only the metadata, and an object marked for deletion disappears with its last finalizer.

  On top of it, the transitions to a terminal phase (\<^verbatim>\<open>finishFlowRun\<close>, \<^verbatim>\<open>failFlowRun\<close>, \<^verbatim>\<open>cancelFlowRun\<close>).
\<close>

section \<open>Requests\<close>

datatype apiOutcome = Accepted | Rejected apiError | AnswerLost apiError

type_synonym apiBehaviour = "nat \<Rightarrow> apiOutcome"

record apiState =
  as_run :: "flowRun option"
  as_others :: "flowRun list"
  as_requests :: nat

definition performRequest ::
  "apiBehaviour \<Rightarrow> (apiState \<Rightarrow> apiState) \<Rightarrow> 'r \<Rightarrow> apiState \<Rightarrow> (apiError + 'r) \<times> apiState" where
  "performRequest api change answer s =
     (let s1 = s\<lparr>as_requests := Suc (as_requests s)\<rparr>
      in case api (as_requests s) of
           Accepted \<Rightarrow> (Inr answer, change s1)
         | Rejected e \<Rightarrow> (Inl e, s1)
         | AnswerLost e \<Rightarrow> (Inl e, change s1))"

definition getRun :: "apiBehaviour \<Rightarrow> apiState \<Rightarrow> (apiError + flowRun) \<times> apiState" where
  "getRun api s =
     (case performRequest api (\<lambda>s. s) () s of
        (Inl e, s') \<Rightarrow> (Inl e, s')
      | (Inr _, s') \<Rightarrow> (case as_run s of None \<Rightarrow> (Inl NotFound, s') | Some fr \<Rightarrow> (Inr fr, s')))"

text \<open>The answer to a status update is decoded over the sent object.\<close>

definition updateStatus :: "apiBehaviour \<Rightarrow> flowRun \<Rightarrow> apiState \<Rightarrow> (apiError + flowRun) \<times> apiState" where
  "updateStatus api fr s =
     (case as_run s of
        None \<Rightarrow> (Inl NotFound, s)
      | Some stored \<Rightarrow>
          performRequest api (\<lambda>s. s\<lparr>as_run := Some (stored\<lparr>fr_status := fr_status fr\<rparr>)\<rparr>) fr s)"

text \<open>The answer to a metadata update carries the stored status.\<close>

definition updateMeta :: "apiBehaviour \<Rightarrow> flowRun \<Rightarrow> apiState \<Rightarrow> (apiError + flowRun) \<times> apiState" where
  "updateMeta api fr s =
     (case as_run s of
        None \<Rightarrow> (Inl NotFound, s)
      | Some stored \<Rightarrow>
          (let stored' = stored\<lparr>fr_labels := fr_labels fr, fr_annotations := fr_annotations fr,
                                fr_finalizers := fr_finalizers fr\<rparr>
           in performRequest api
                (\<lambda>s. s\<lparr>as_run := (if fr_deletionTimestamp stored \<noteq> None \<and> fr_finalizers fr = []
                                  then None else Some stored')\<rparr>)
                (fr\<lparr>fr_status := fr_status stored\<rparr>) s))"

definition sameRun :: "flowRun \<Rightarrow> flowRun \<Rightarrow> bool" where
  "sameRun a b \<longleftrightarrow> fr_namespace a = fr_namespace b \<and> fr_name a = fr_name b"

text \<open>Deleting an object with finalizers only marks it.\<close>

definition markDeleted :: "time \<Rightarrow> flowRun \<Rightarrow> flowRun" where
  "markDeleted now fr =
     (if fr_deletionTimestamp fr = None then fr\<lparr>fr_deletionTimestamp := Some now\<rparr> else fr)"

definition afterDelete :: "time \<Rightarrow> flowRun \<Rightarrow> flowRun \<Rightarrow> flowRun option" where
  "afterDelete now fr x =
     (if sameRun x fr then (if fr_finalizers x = [] then None else Some (markDeleted now x)) else Some x)"

definition removeRun :: "time \<Rightarrow> flowRun \<Rightarrow> apiState \<Rightarrow> apiState" where
  "removeRun now fr s =
     s\<lparr>as_run := (case as_run s of None \<Rightarrow> None | Some x \<Rightarrow> afterDelete now fr x),
       as_others := List.map_filter (afterDelete now fr) (as_others s)\<rparr>"

definition deleteRun :: "apiBehaviour \<Rightarrow> time \<Rightarrow> flowRun \<Rightarrow> apiState \<Rightarrow> (apiError + unit) \<times> apiState" where
  "deleteRun api now fr s = performRequest api (removeRun now fr) () s"

section \<open>Terminal transitions\<close>

definition executingFinalizer :: string where "executingFinalizer = ''kubezap.io/executing''"

definition containsString :: "string list \<Rightarrow> string \<Rightarrow> bool" where
  "containsString xs s \<longleftrightarrow> list_ex (\<lambda>x. x = s) xs"

definition removeString :: "string list \<Rightarrow> string \<Rightarrow> string list" where
  "removeString xs s = filter (\<lambda>x. x \<noteq> s) xs"

fun flowRunPhaseString :: "flowRunPhase \<Rightarrow> string" where
  "flowRunPhaseString FlowRunPhaseUnset = ''''"
| "flowRunPhaseString FlowRunPhasePending = ''Pending''"
| "flowRunPhaseString FlowRunPhaseRunning = ''Running''"
| "flowRunPhaseString FlowRunPhaseSucceeded = ''Succeeded''"
| "flowRunPhaseString FlowRunPhaseFailed = ''Failed''"
| "flowRunPhaseString FlowRunPhaseCancelled = ''Cancelled''"

definition millis :: "duration \<Rightarrow> int" where
  "millis d = (if d < 0 then - ((- d) div 1000000) else d div 1000000)"

text \<open>\<^verbatim>\<open>apimeta.SetStatusCondition\<close> is the argument \<open>setCond\<close>. Every caller sets the transition time.\<close>

type_synonym conditionSetter = "condition list \<Rightarrow> condition \<Rightarrow> condition list"

definition setFlowRunCondition :: "conditionSetter \<Rightarrow> flowRun \<Rightarrow> condition \<Rightarrow> flowRun" where
  "setFlowRunCondition setCond fr c =
     fr\<lparr>fr_status := (fr_status fr)\<lparr>st_conditions := setCond (st_conditions (fr_status fr)) c,
                                    st_observedGeneration := fr_generation fr\<rparr>\<rparr>"

definition durationSince :: "time \<Rightarrow> flowRun \<Rightarrow> int option" where
  "durationSince now fr =
     (case st_startTime (fr_status fr) of
        Some t \<Rightarrow> Some (millis (now - t)) | None \<Rightarrow> st_durationMillis (fr_status fr))"

text \<open>The local object after \<^verbatim>\<open>finishFlowRun\<close> has filled in the status, before the first request.\<close>

definition finishedRun ::
  "conditionSetter \<Rightarrow> time \<Rightarrow> flowRunPhase \<Rightarrow> string \<Rightarrow> msg \<Rightarrow> flowRun \<Rightarrow> flowRun" where
  "finishedRun setCond now phase reason m fr =
     (let fr1 = fr\<lparr>fr_labels := AList.update ''kubezap.io/phase'' (flowRunPhaseString phase) (fr_labels fr),
                   fr_status := (fr_status fr)\<lparr>st_phase := phase, st_completionTime := Some now,
                                               st_message := m\<rparr>\<rparr>;
          fr2 = setFlowRunCondition setCond fr1
                  \<lparr>cond_type = flowRunPhaseString phase, cond_status = ''True'', cond_reason = reason,
                   cond_message = m, cond_lastTransitionTime = Some now,
                   cond_observedGeneration = 0\<rparr>
      in fr2\<lparr>fr_status := (fr_status fr2)\<lparr>st_durationMillis := durationSince now fr\<rparr>\<rparr>)"

definition dropFinalizer :: "flowRun \<Rightarrow> flowRun" where
  "dropFinalizer fr =
     (if containsString (fr_finalizers fr) executingFinalizer
      then fr\<lparr>fr_finalizers := removeString (fr_finalizers fr) executingFinalizer\<rparr> else fr)"

definition finishFlowRun ::
  "apiBehaviour \<Rightarrow> conditionSetter \<Rightarrow> time \<Rightarrow> flowRun \<Rightarrow> flowRunPhase \<Rightarrow> string \<Rightarrow> msg \<Rightarrow> apiState \<Rightarrow>
   (apiError + unit) \<times> apiState" where
  "finishFlowRun api setCond now fr phase reason m s =
     (case updateStatus api (finishedRun setCond now phase reason m fr) s of
        (Inl e, s') \<Rightarrow> (Inl e, s')
      | (Inr fr', s') \<Rightarrow>
          (case updateMeta api (dropFinalizer fr') s' of
             (Inl e, s'') \<Rightarrow> (Inl e, s'')
           | (Inr _, s'') \<Rightarrow> (Inr (), s'')))"

definition failFlowRun ::
  "apiBehaviour \<Rightarrow> conditionSetter \<Rightarrow> time \<Rightarrow> flowRun \<Rightarrow> msg \<Rightarrow> apiState \<Rightarrow> (apiError + unit) \<times> apiState" where
  "failFlowRun api setCond now fr m s =
     finishFlowRun api setCond now fr FlowRunPhaseFailed ''FlowRunFailed'' m s"

definition cancelFlowRun ::
  "apiBehaviour \<Rightarrow> conditionSetter \<Rightarrow> time \<Rightarrow> flowRun \<Rightarrow> msg \<Rightarrow> apiState \<Rightarrow> (apiError + unit) \<times> apiState" where
  "cancelFlowRun api setCond now fr m s =
     finishFlowRun api setCond now fr FlowRunPhaseCancelled ''FlowRunCancelled'' m s"

end
