(* ===== verification/GarbageCollection.thy ===== *)
theory GarbageCollection
  imports FlowRunStore "HOL-Library.Product_Lexorder" "HOL-Library.Multiset"
begin

text \<open>
  Garbage collection of finished FlowRuns (\<^verbatim>\<open>reconcileGC\<close>, \<^verbatim>\<open>enforceFlowRunGCPolicy\<close> and
  \<^verbatim>\<open>enforceMaxFlowRunsByPhase\<close>, \<^verbatim>\<open>internal/controller/flowrun_controller.go\<close> lines 1779 to 1922): the time to
  live after completion, and the cap on the number of runs per trigger and phase.
\<close>

section \<open>Operations\<close>

definition retainAnnotation :: string where "retainAnnotation = ''kubezap.io/retain''"
definition labelTrigger :: string where "labelTrigger = ''kubezap.io/trigger''"

definition retained :: "flowRun \<Rightarrow> bool" where
  "retained fr \<longleftrightarrow> map_of (fr_annotations fr) retainAnnotation = Some ''true''"

definition allRuns :: "apiState \<Rightarrow> flowRun list" where
  "allRuns s = (case as_run s of None \<Rightarrow> [] | Some fr \<Rightarrow> [fr]) @ as_others s"

text \<open>The runs \<^verbatim>\<open>List\<close> returns for the trigger and phase labels, filtered by phase and annotation.\<close>

definition gcCandidate :: "string \<Rightarrow> string \<Rightarrow> flowRunPhase \<Rightarrow> flowRun \<Rightarrow> bool" where
  "gcCandidate triggerName namespace phase fr \<longleftrightarrow>
     fr_namespace fr = namespace \<and> map_of (fr_labels fr) labelTrigger = Some triggerName \<and>
     map_of (fr_labels fr) ''kubezap.io/phase'' = Some (flowRunPhaseString phase) \<and>
     st_phase (fr_status fr) = phase \<and> \<not> retained fr"

definition matchingRuns :: "string \<Rightarrow> string \<Rightarrow> flowRunPhase \<Rightarrow> apiState \<Rightarrow> flowRun list" where
  "matchingRuns triggerName namespace phase s = filter (gcCandidate triggerName namespace phase) (allRuns s)"

text \<open>A run without a completion time sorts first.\<close>

definition completionKey :: "flowRun \<Rightarrow> int \<times> int" where
  "completionKey fr = (case st_completionTime (fr_status fr) of None \<Rightarrow> (0, 0) | Some t \<Rightarrow> (1, t))"

fun deleteRuns :: "apiBehaviour \<Rightarrow> time \<Rightarrow> flowRun list \<Rightarrow> apiState \<Rightarrow> (apiError + unit) \<times> apiState" where
  "deleteRuns api now [] s = (Inr (), s)"
| "deleteRuns api now (fr # frs) s =
     (case deleteRun api now fr s of
        (Inl e, s') \<Rightarrow> if e = NotFound then deleteRuns api now frs s' else (Inl e, s')
      | (Inr _, s') \<Rightarrow> deleteRuns api now frs s')"

text \<open>The cap is not negative (the minimum the CRD declares is 0).\<close>

definition enforceMaxFlowRunsByPhase ::
  "apiBehaviour \<Rightarrow> time \<Rightarrow> string \<Rightarrow> string \<Rightarrow> flowRunPhase \<Rightarrow> int \<Rightarrow> apiState \<Rightarrow> (apiError + unit) \<times> apiState" where
  "enforceMaxFlowRunsByPhase api now triggerName namespace phase limit s =
     (case performRequest api (\<lambda>s. s) () s of
        (Inl e, s') \<Rightarrow> (Inl e, s')
      | (Inr _, s') \<Rightarrow>
          (let matching = matchingRuns triggerName namespace phase s;
               count = wrap32 (int (length matching))
           in if count \<le> limit then (Inr (), s')
              else deleteRuns api now
                     (take (nat (wrap32 (count - limit))) (sort_key completionKey matching)) s'))"

definition enforceFlowRunGCPolicy ::
  "apiBehaviour \<Rightarrow> time \<Rightarrow> string \<Rightarrow> string \<Rightarrow> flowRunGCPolicy \<Rightarrow> apiState \<Rightarrow> (apiError + unit) \<times> apiState" where
  "enforceFlowRunGCPolicy api now triggerName namespace policy s =
     (case (case gp_maxSucceeded policy of
              None \<Rightarrow> (Inr (), s)
            | Some m \<Rightarrow> enforceMaxFlowRunsByPhase api now triggerName namespace FlowRunPhaseSucceeded m s) of
        (Inl e, s') \<Rightarrow> (Inl e, s')
      | (Inr _, s') \<Rightarrow>
          (case gp_maxFailed policy of
             None \<Rightarrow> (Inr (), s')
           | Some m \<Rightarrow> enforceMaxFlowRunsByPhase api now triggerName namespace FlowRunPhaseFailed m s'))"

record gcConfig =
  gc_ttlSucceeded :: duration
  gc_ttlFailed :: duration

text \<open>The policy of the run's trigger, if the trigger can be read and has one. The argument \<open>policyOf\<close> is
  the read of the trigger.\<close>

definition triggerPolicy ::
  "(string \<Rightarrow> string \<Rightarrow> apiError + flowRunGCPolicy option) \<Rightarrow> flowRun \<Rightarrow> (string \<times> flowRunGCPolicy) option" where
  "triggerPolicy policyOf fr =
     (case map_of (fr_labels fr) labelTrigger of
        None \<Rightarrow> None
      | Some triggerName \<Rightarrow>
          if triggerName = [] then None
          else (case policyOf (fr_namespace fr) triggerName of
              Inr (Some gc) \<Rightarrow> Some (triggerName, gc) | _ \<Rightarrow> None))"

definition gcTTL ::
  "gcConfig \<Rightarrow> (string \<Rightarrow> string \<Rightarrow> apiError + flowRunGCPolicy option) \<Rightarrow> flowRun \<Rightarrow> duration" where
  "gcTTL cfg policyOf fr =
     (let phase = st_phase (fr_status fr);
          ttl = (if phase = FlowRunPhaseFailed then gc_ttlFailed cfg else gc_ttlSucceeded cfg);
          ttl1 = (case triggerPolicy policyOf fr of
                    None \<Rightarrow> ttl
                  | Some (_, gc) \<Rightarrow>
                      if phase = FlowRunPhaseSucceeded then
                        (case gp_ttlAfterSucceeded gc of Some d \<Rightarrow> d | None \<Rightarrow> ttl)
                      else if phase = FlowRunPhaseFailed then
                        (case gp_ttlAfterFailed gc of Some d \<Rightarrow> d | None \<Rightarrow> ttl)
                      else ttl)
      in case frs_ttlAfterFinished (fr_spec fr) of Some d \<Rightarrow> d | None \<Rightarrow> ttl1)"

definition gcExpire ::
  "apiBehaviour \<Rightarrow> time \<Rightarrow> duration \<Rightarrow> flowRun \<Rightarrow> apiState \<Rightarrow> (apiError + duration) \<times> apiState" where
  "gcExpire api now ttl fr s =
     (if ttl = 0 then (Inr 0, s)
      else case st_completionTime (fr_status fr) of
          None \<Rightarrow> (Inr 0, s)
        | Some completion \<Rightarrow>
            (let expiry = completion + ttl
             in if now < expiry then (Inr (expiry - now), s)
                else (case deleteRun api now fr s of
                    (Inl e, s') \<Rightarrow> if e = NotFound then (Inr 0, s') else (Inl e, s')
                  | (Inr _, s') \<Rightarrow> (Inr 0, s'))))"

definition reconcileGC ::
  "apiBehaviour \<Rightarrow> time \<Rightarrow> gcConfig \<Rightarrow> (string \<Rightarrow> string \<Rightarrow> apiError + flowRunGCPolicy option) \<Rightarrow>
   flowRun \<Rightarrow> apiState \<Rightarrow> (apiError + duration) \<times> apiState" where
  "reconcileGC api now cfg policyOf fr s =
     (if retained fr then (Inr 0, s)
      else case (case triggerPolicy policyOf fr of
                   None \<Rightarrow> (Inr (), s)
                 | Some (triggerName, gc) \<Rightarrow>
                     enforceFlowRunGCPolicy api now triggerName (fr_namespace fr) gc s) of
          (Inl e, s') \<Rightarrow> (Inl e, s')
        | (Inr _, s') \<Rightarrow> gcExpire api now (gcTTL cfg policyOf fr) fr s')"

section \<open>Lemmas\<close>

definition runKey :: "flowRun \<Rightarrow> string \<times> string" where
  "runKey fr = (fr_namespace fr, fr_name fr)"

definition distinctKeys :: "apiState \<Rightarrow> bool" where
  "distinctKeys s \<longleftrightarrow> distinct (map runKey (allRuns s))"

lemma sameRun_key: "sameRun a b \<longleftrightarrow> runKey a = runKey b"
  by (simp add: sameRun_def runKey_def)

lemma distinctKeys_eq: "distinctKeys s \<Longrightarrow> x \<in> set (allRuns s) \<Longrightarrow> y \<in> set (allRuns s) \<Longrightarrow> sameRun x y \<Longrightarrow> x = y"
  by (auto simp: distinctKeys_def sameRun_key distinct_map inj_on_def)

lemma allRuns_removeRun: "allRuns (removeRun now fr s) = List.map_filter (afterDelete now fr) (allRuns s)"
  by (simp add: allRuns_def removeRun_def List.map_filter_def split: option.split)

lemma runKey_afterDelete: "afterDelete now fr x = Some y \<Longrightarrow> runKey y = runKey x"
  by (auto simp: afterDelete_def markDeleted_def runKey_def split: if_splits)

lemma distinct_map_filter_keys:
  "distinct (map runKey xs) \<Longrightarrow> distinct (map runKey (List.map_filter (afterDelete now fr) xs))"
proof (induction xs)
  case Nil
  then show ?case by (simp add: List.map_filter_def)
next
  case (Cons x xs)
  have "runKey ` set (List.map_filter (afterDelete now fr) xs) \<subseteq> runKey ` set xs"
    by (auto simp: List.map_filter_def dest: runKey_afterDelete) (metis image_eqI runKey_afterDelete)
  then have "runKey x \<notin> runKey ` set (List.map_filter (afterDelete now fr) xs)" using Cons.prems by auto
  then show ?case
    using Cons by (cases "afterDelete now fr x") (auto simp: List.map_filter_simps runKey_afterDelete)
qed

lemma allRuns_requests [simp]: "allRuns (s\<lparr>as_requests := n\<rparr>) = allRuns s"
  by (simp add: allRuns_def)

lemma distinctKeys_removeRun: "distinctKeys s \<Longrightarrow> distinctKeys (removeRun now fr s)"
  by (simp add: distinctKeys_def allRuns_removeRun distinct_map_filter_keys)

lemma deleteRun_effect:
  "snd (deleteRun api now fr s) = s\<lparr>as_requests := Suc (as_requests s)\<rparr> \<or>
   snd (deleteRun api now fr s) = removeRun now fr (s\<lparr>as_requests := Suc (as_requests s)\<rparr>)"
  by (auto simp: deleteRun_def performRequest_def Let_def split: apiOutcome.split)

lemma deleteRun_keeps:
  assumes "x \<in> set (allRuns s)" and "\<not> sameRun x fr"
  shows "x \<in> set (allRuns (snd (deleteRun api now fr s)))"
proof -
  have "x \<in> set (allRuns (removeRun now fr (s\<lparr>as_requests := Suc (as_requests s)\<rparr>)))"
    using assms by (force simp: allRuns_removeRun List.map_filter_def afterDelete_def)
  then show ?thesis using deleteRun_effect [of api now fr s] assms(1) by auto
qed

lemma deleteRun_distinct:
  assumes "distinctKeys s"
  shows "distinctKeys (snd (deleteRun api now fr s))"
proof -
  have "distinctKeys (s\<lparr>as_requests := Suc (as_requests s)\<rparr>)" using assms by (simp add: distinctKeys_def)
  then show ?thesis using deleteRun_effect [of api now fr s] distinctKeys_removeRun by metis
qed

lemma deleteRuns_keeps:
  "x \<in> set (allRuns s) \<Longrightarrow> \<forall>d \<in> set ds. \<not> sameRun x d \<Longrightarrow> x \<in> set (allRuns (snd (deleteRuns api now ds s)))"
proof (induction ds arbitrary: s)
  case Nil
  then show ?case by simp
next
  case (Cons d ds)
  obtain r s' where d: "deleteRun api now d s = (r, s')" by fastforce
  then have "x \<in> set (allRuns s')" using deleteRun_keeps [of x s d api now] Cons.prems by simp
  then show ?case using Cons d by (auto split: sum.split)
qed

lemma deleteRuns_distinct: "distinctKeys s \<Longrightarrow> distinctKeys (snd (deleteRuns api now ds s))"
proof (induction ds arbitrary: s)
  case Nil
  then show ?case by simp
next
  case (Cons d ds)
  obtain r s' where d: "deleteRun api now d s = (r, s')" by fastforce
  then have "distinctKeys s'" using deleteRun_distinct [OF Cons.prems, of api now d] by simp
  then show ?case using Cons d by (auto split: sum.split)
qed

lemma enforceMax_keeps:
  assumes "distinctKeys s"
  shows "distinctKeys (snd (enforceMaxFlowRunsByPhase api now tn ns ph m s))"
    and "x \<in> set (allRuns s) \<Longrightarrow> retained x \<Longrightarrow>
           x \<in> set (allRuns (snd (enforceMaxFlowRunsByPhase api now tn ns ph m s)))"
proof -
  obtain r s' where p: "performRequest api (\<lambda>s. s) () s = (r, s')" by fastforce
  then have s': "s' = s\<lparr>as_requests := Suc (as_requests s)\<rparr>"
    by (auto simp: performRequest_def Let_def split: apiOutcome.splits)
  then have d: "distinctKeys s'" using assms by (simp add: distinctKeys_def)
  show "distinctKeys (snd (enforceMaxFlowRunsByPhase api now tn ns ph m s))"
    using d deleteRuns_distinct by (auto simp: enforceMaxFlowRunsByPhase_def p Let_def split: sum.split)
  assume x: "x \<in> set (allRuns s)" "retained x"
  have "\<not> sameRun x c" if "c \<in> set (take n (sort_key completionKey (matchingRuns tn ns ph s)))" for c n
  proof -
    have "c \<in> set (matchingRuns tn ns ph s)" using set_take_subset that by fastforce
    then have "c \<in> set (allRuns s)" "\<not> retained c" by (auto simp: matchingRuns_def gcCandidate_def)
    then show ?thesis using distinctKeys_eq [OF assms x(1)] x(2) by blast
  qed
  then show "x \<in> set (allRuns (snd (enforceMaxFlowRunsByPhase api now tn ns ph m s)))"
    using deleteRuns_keeps [of x s'] x(1) s'
    by (auto simp: enforceMaxFlowRunsByPhase_def p Let_def split: sum.split)
qed

lemma enforcePolicy_keeps:
  assumes "distinctKeys s"
  shows "distinctKeys (snd (enforceFlowRunGCPolicy api now tn ns gc s))"
    and "x \<in> set (allRuns s) \<Longrightarrow> retained x \<Longrightarrow>
           x \<in> set (allRuns (snd (enforceFlowRunGCPolicy api now tn ns gc s)))"
  using enforceMax_keeps assms
  by (auto simp: enforceFlowRunGCPolicy_def split: option.split sum.split prod.split)
    (metis snd_conv)+

lemma gcExpire_keeps:
  "x \<in> set (allRuns s) \<Longrightarrow> \<not> sameRun x fr \<Longrightarrow> x \<in> set (allRuns (snd (gcExpire api now ttl fr s)))"
  using deleteRun_keeps [of x s fr api now]
  by (auto simp: gcExpire_def Let_def split: option.split sum.split prod.split)

lemma afterDelete_filter:
  "\<forall>x \<in> set xs. fr_finalizers x = [] \<Longrightarrow>
     List.map_filter (afterDelete now fr) xs = filter (\<lambda>x. \<not> sameRun x fr) xs"
  by (induction xs) (simp_all add: List.map_filter_simps afterDelete_def)

lemma deleteRuns_accepted:
  assumes "\<forall>n. api n = Accepted" and "\<forall>x \<in> set (allRuns s). fr_finalizers x = []"
  shows "fst (deleteRuns api now ds s) = Inr () \<and>
         allRuns (snd (deleteRuns api now ds s)) = filter (\<lambda>x. \<forall>d \<in> set ds. \<not> sameRun x d) (allRuns s)"
  using assms(2)
proof (induction ds arbitrary: s)
  case Nil
  then show ?case by simp
next
  case (Cons d ds)
  let ?s = "removeRun now d (s\<lparr>as_requests := Suc (as_requests s)\<rparr>)"
  have d: "deleteRun api now d s = (Inr (), ?s)"
    using assms(1) by (simp add: deleteRun_def performRequest_def Let_def)
  have runs: "allRuns ?s = filter (\<lambda>x. \<not> sameRun x d) (allRuns s)"
    using Cons.prems by (simp add: allRuns_removeRun afterDelete_filter)
  have "\<forall>x \<in> set (allRuns ?s). fr_finalizers x = []" using Cons.prems runs by simp
  from Cons.IH [OF this] show ?case
    by (simp add: d runs)
qed

section \<open>Properties\<close>

text \<open>C38: garbage collection never deletes a FlowRun that carries the retain annotation, whatever the trigger
  policy, the TTL and the answers of the API server.\<close>

theorem reconcileGC_keeps_retained:
  assumes "distinctKeys s" and "fr \<in> set (allRuns s)" and "x \<in> set (allRuns s)" and "retained x"
  shows "x \<in> set (allRuns (snd (reconcileGC api now cfg policyOf fr s)))"
proof (cases "retained fr")
  case True
  then show ?thesis using assms(3) by (simp add: reconcileGC_def)
next
  case False
  then have other: "\<not> sameRun x fr" using distinctKeys_eq [OF assms(1,3,2)] assms(4) by blast
  define p where "p = (case triggerPolicy policyOf fr of
                   None \<Rightarrow> (Inr (), s)
                 | Some (triggerName, gc) \<Rightarrow> enforceFlowRunGCPolicy api now triggerName (fr_namespace fr) gc s)"
  have "x \<in> set (allRuns (snd p))"
    using enforcePolicy_keeps(2) [OF assms(1,3,4)] assms(3) by (auto simp: p_def split: option.split prod.split)
  then show ?thesis
    using False gcExpire_keeps [OF _ other]
    by (auto simp: reconcileGC_def p_def [symmetric] split: sum.split prod.split)
qed

text \<open>With no finalizers pending and an API server that answers, the count cap leaves exactly
  \<open>min\<close> of the cap and the number of matching runs, keeps the most recently completed ones, and touches no
  run that does not match the trigger, the phase and the retain annotation.\<close>

theorem enforceMaxFlowRunsByPhase_cap:
  assumes "\<forall>n. api n = Accepted" and "distinctKeys s" and "\<forall>x \<in> set (allRuns s). fr_finalizers x = []"
    and "0 \<le> limit" and "int (length (matchingRuns tn ns ph s)) < 2 ^ 31"
  shows "int (length (matchingRuns tn ns ph (snd (enforceMaxFlowRunsByPhase api now tn ns ph limit s)))) =
           min limit (int (length (matchingRuns tn ns ph s)))
     \<and> (\<forall>x \<in> set (matchingRuns tn ns ph s). \<forall>y \<in> set (matchingRuns tn ns ph s).
          x \<notin> set (allRuns (snd (enforceMaxFlowRunsByPhase api now tn ns ph limit s))) \<longrightarrow>
          y \<in> set (allRuns (snd (enforceMaxFlowRunsByPhase api now tn ns ph limit s))) \<longrightarrow>
          completionKey x \<le> completionKey y)
     \<and> filter (\<lambda>x. \<not> gcCandidate tn ns ph x) (allRuns (snd (enforceMaxFlowRunsByPhase api now tn ns ph limit s))) =
       filter (\<lambda>x. \<not> gcCandidate tn ns ph x) (allRuns s)"
proof -
  let ?M = "matchingRuns tn ns ph s"
  let ?S = "sort_key completionKey ?M"
  let ?s' = "snd (enforceMaxFlowRunsByPhase api now tn ns ph limit s)"
  define k where "k = (if int (length ?M) \<le> limit then 0 else length ?M - nat limit)"
  define D where "D = take k ?S"
  have D: "set D \<subseteq> set ?M" unfolding D_def using set_take_subset by fastforce
  have w: "wrap32 (int (length ?M)) = int (length ?M)" using assms(5) by (simp add: wrap32_id)
  have w2: "nat (wrap32 (int (length ?M) - limit)) = k" if "\<not> int (length ?M) \<le> limit"
    using assms(4,5) that by (simp add: wrap32_id k_def)
  let ?s1 = "s\<lparr>as_requests := Suc (as_requests s)\<rparr>"
  have fin: "\<forall>x \<in> set (allRuns ?s1). fr_finalizers x = []" using assms(3) by simp
  have s': "?s' = (if int (length ?M) \<le> limit then ?s1 else snd (deleteRuns api now D ?s1))"
    using assms(1) w w2 by (simp add: enforceMaxFlowRunsByPhase_def performRequest_def Let_def D_def)
  have "D = []" if "int (length ?M) \<le> limit" using that by (simp add: D_def k_def)
  then have runs: "allRuns ?s' = filter (\<lambda>x. \<forall>d \<in> set D. \<not> sameRun x d) (allRuns s)"
    using deleteRuns_accepted [OF assms(1) fin, THEN conjunct2, of now D] by (simp add: s')
  have inM: "x \<in> set ?M \<Longrightarrow> x \<in> set (allRuns s)" for x by (simp add: matchingRuns_def)
  have notin: "(\<forall>d \<in> set D. \<not> sameRun x d) \<longleftrightarrow> x \<notin> set D" if "x \<in> set (allRuns s)" for x
    using distinctKeys_eq [OF assms(2) that] D inM by (auto simp: sameRun_def)
  have runs': "allRuns ?s' = filter (\<lambda>x. x \<notin> set D) (allRuns s)"
    unfolding runs by (rule filter_cong) (simp_all add: notin)
  have dist: "distinct (allRuns s)" using assms(2) by (simp add: distinctKeys_def distinct_map)
  then have distM: "distinct ?M" by (simp add: matchingRuns_def)
  have M': "matchingRuns tn ns ph ?s' = filter (\<lambda>x. x \<notin> set D) ?M"
    by (simp add: matchingRuns_def runs' conj_commute)
  have "set (filter (\<lambda>x. x \<notin> set D) ?M) = set (drop k ?S)"
  proof -
    have "set ?M = set (take k ?S) \<union> set (drop k ?S)" by (metis append_take_drop_id set_append set_sort)
    moreover have "set (take k ?S) \<inter> set (drop k ?S) = {}"
      using distM by (simp add: set_take_disj_set_drop_if_distinct)
    ultimately show ?thesis by (auto simp: D_def)
  qed
  then have "length (filter (\<lambda>x. x \<notin> set D) ?M) = length (drop k ?S)"
    using distM by (metis distinct_card distinct_drop distinct_filter distinct_sort)
  then have len: "int (length (matchingRuns tn ns ph ?s')) = min limit (int (length ?M))"
    unfolding M' using assms(4) by (simp add: k_def min_def)
  have old: "completionKey x \<le> completionKey y" if "x \<in> set D" "y \<in> set ?M" "y \<notin> set D" for x y
  proof -
    have "sorted (map completionKey (take k ?S @ drop k ?S))" by simp
    then have "\<forall>a \<in> set (take k ?S). \<forall>b \<in> set (drop k ?S). completionKey a \<le> completionKey b"
      unfolding map_append sorted_append by auto
    moreover have "y \<in> set (drop k ?S)"
      using that(2,3) by (metis D_def Un_iff append_take_drop_id set_append set_sort)
    ultimately show ?thesis using that(1) D_def by blast
  qed
  have "filter (\<lambda>x. \<not> gcCandidate tn ns ph x) (allRuns ?s') = filter (\<lambda>x. \<not> gcCandidate tn ns ph x) (allRuns s)"
    unfolding runs' using D by (auto simp: matchingRuns_def intro!: filter_cong)
  then show ?thesis using len old runs' inM by auto
qed

text \<open>An expiry is exact: with no count cap in force, a finished run whose TTL (its own, else its trigger's,
  else the operator's) is positive is kept until its completion time plus the TTL, the reconciler being
  told to come back after exactly the time that is left, and its deletion is requested from then on.\<close>

theorem reconcileGC_ttl:
  assumes "\<not> retained fr" and "st_completionTime (fr_status fr) = Some c" and "0 < gcTTL cfg policyOf fr"
    and "case triggerPolicy policyOf fr of None \<Rightarrow> True
         | Some (_, gc) \<Rightarrow> gp_maxSucceeded gc = None \<and> gp_maxFailed gc = None"
  shows "(now < c + gcTTL cfg policyOf fr \<longrightarrow>
            reconcileGC api now cfg policyOf fr s = (Inr (c + gcTTL cfg policyOf fr - now), s) \<and>
            0 < c + gcTTL cfg policyOf fr - now) \<and>
         (c + gcTTL cfg policyOf fr \<le> now \<longrightarrow>
            snd (reconcileGC api now cfg policyOf fr s) = snd (deleteRun api now fr s))"
proof -
  have e: "reconcileGC api now cfg policyOf fr s = gcExpire api now (gcTTL cfg policyOf fr) fr s"
    using assms(1,4)
    by (cases "triggerPolicy policyOf fr") (auto simp: reconcileGC_def enforceFlowRunGCPolicy_def)
  show ?thesis
    unfolding e using assms(2,3) by (simp add: gcExpire_def Let_def case_prod_unfold split: sum.split)
qed

text \<open>A TTL of zero in the trigger's policy does not delete the run at once; it switches the expiry off,
  and the run is kept.\<close>

theorem reconcileGC_zero_ttl_keeps:
  assumes "st_phase (fr_status fr) = FlowRunPhaseSucceeded" and "frs_ttlAfterFinished (fr_spec fr) = None"
    and "triggerPolicy policyOf fr = Some (tn, gc)" and "gp_ttlAfterSucceeded gc = Some 0"
    and "gp_maxSucceeded gc = None" and "gp_maxFailed gc = None"
  shows "reconcileGC api now cfg policyOf fr s = (Inr 0, s)"
  using assms
  by (simp add: reconcileGC_def gcExpire_def gcTTL_def enforceFlowRunGCPolicy_def Let_def)

section \<open>Examples\<close>

definition exampleRun :: "string \<Rightarrow> time \<Rightarrow> smap \<Rightarrow> flowRun" where
  "exampleRun name completed annotations =
     \<lparr>fr_name = name, fr_namespace = ''ns'', fr_uid = name, fr_generation = 1, fr_deletionTimestamp = None,
      fr_labels = [(labelTrigger, ''t''), (''kubezap.io/phase'', ''Succeeded'')], fr_annotations = annotations,
      fr_finalizers = [],
      fr_spec = \<lparr>frs_flowRef = ''f'', frs_params = [], frs_triggerRef = None, frs_triggerData = None,
                 frs_ttlAfterFinished = None\<rparr>,
      fr_status = \<lparr>st_observedGeneration = 1, st_phase = FlowRunPhaseSucceeded, st_conditions = [],
                   st_startTime = None, st_completionTime = Some completed, st_steps = [],
                   st_message = Txt [], st_durationMillis = None\<rparr>\<rparr>"

definition exampleStore :: apiState where
  "exampleStore = \<lparr>as_run = Some (exampleRun ''a'' 10 []),
     as_others = [exampleRun ''b'' 20 [], exampleRun ''c'' 5 [(retainAnnotation, ''true'')]], as_requests = 0\<rparr>"

definition examplePolicyOf :: "string \<Rightarrow> string \<Rightarrow> apiError + flowRunGCPolicy option" where
  "examplePolicyOf ns n = Inr (Some \<lparr>gp_maxSucceeded = None, gp_maxFailed = None,
     gp_ttlAfterSucceeded = Some (if n = ''t'' then 0 else 7), gp_ttlAfterFailed = None\<rparr>)"

lemmas gc_example_defs = exampleRun_def exampleStore_def examplePolicyOf_def retainAnnotation_def labelTrigger_def

lemma exampleStore_distinct: "distinctKeys exampleStore"
  by (simp add: distinctKeys_def allRuns_def runKey_def gc_example_defs)

theorem reconcileGC_keeps_retained_witness:
  "exampleRun ''c'' 5 [(retainAnnotation, ''true'')] \<in>
     set (allRuns (snd (reconcileGC (\<lambda>n. Accepted) 100 \<lparr>gc_ttlSucceeded = 1, gc_ttlFailed = 1\<rparr>
       (\<lambda>ns n. Inl NotFound) (exampleRun ''a'' 10 []) exampleStore)))"
  by (rule reconcileGC_keeps_retained [OF exampleStore_distinct])
    (simp_all add: allRuns_def retained_def gc_example_defs)

theorem enforceMaxFlowRunsByPhase_cap_witness:
  "length (matchingRuns ''t'' ''ns'' FlowRunPhaseSucceeded
     (snd (enforceMaxFlowRunsByPhase (\<lambda>n. Accepted) 100 ''t'' ''ns'' FlowRunPhaseSucceeded 1 exampleStore))) = 1"
proof -
  have m: "matchingRuns ''t'' ''ns'' FlowRunPhaseSucceeded exampleStore = [exampleRun ''a'' 10 [], exampleRun ''b'' 20 []]"
    by (simp add: matchingRuns_def allRuns_def gcCandidate_def retained_def gc_example_defs)
  have f: "\<forall>x \<in> set (allRuns exampleStore). fr_finalizers x = []" by (simp add: allRuns_def gc_example_defs)
  show ?thesis
    using enforceMaxFlowRunsByPhase_cap [of "\<lambda>n. Accepted", OF _ exampleStore_distinct f,
        of 1 "''t''" "''ns''" FlowRunPhaseSucceeded 100] m by simp
qed

theorem reconcileGC_ttl_witness:
  "reconcileGC (\<lambda>n. Accepted) 12 \<lparr>gc_ttlSucceeded = 5, gc_ttlFailed = 1\<rparr> (\<lambda>ns n. Inl NotFound)
     (exampleRun ''a'' 10 []) exampleStore = (Inr 3, exampleStore)"
  using reconcileGC_ttl [of "exampleRun ''a'' 10 []" 10 "\<lparr>gc_ttlSucceeded = 5, gc_ttlFailed = 1\<rparr>"
      "\<lambda>ns n. Inl NotFound" 12 "\<lambda>n. Accepted" exampleStore]
  by (simp add: retained_def gcTTL_def triggerPolicy_def exampleRun_def retainAnnotation_def labelTrigger_def)

theorem reconcileGC_zero_ttl_keeps_witness:
  "reconcileGC (\<lambda>n. Accepted) 1000 \<lparr>gc_ttlSucceeded = 5, gc_ttlFailed = 1\<rparr> examplePolicyOf
     (exampleRun ''a'' 10 []) exampleStore = (Inr 0, exampleStore)"
  using reconcileGC_zero_ttl_keeps [of "exampleRun ''a'' 10 []" examplePolicyOf "''t''"]
  by (simp add: triggerPolicy_def gc_example_defs)

end
