(* ===== verification/FlowRunReconcile.thy ===== *)
theory FlowRunReconcile
  imports WhenConditions PublishStep GarbageCollection
begin

text \<open>
  The FlowRun state machine: \<^verbatim>\<open>FlowRunReconciler.Reconcile\<close> and \<^verbatim>\<open>executeStep\<close>
  (\<^verbatim>\<open>internal/controller/flowrun_controller.go\<close> lines 217 to 820). One reconcile reads the stored FlowRun,
  moves it to Running, settles the steps that need no I/O, executes one wave of ready steps or rechecks
  a wait step, and finishes the run when nothing is left. The steps of a wave run in goroutines; the
  model runs them one after the other and collects their statuses in the order of the wave, as the code
  does after its barrier. Spans, metrics and log lines are left out; where the code reads the clock twice for
  one event (a completion time and the duration next to it) the model reads it once.

  The state holds the API server, the caches and, for the theorems, the names of the steps executed
  and the calls they made. The record \<open>reconEnv\<close> holds what the code reads from outside.
\<close>

section \<open>Environment and state\<close>

datatype clockRead =
    CkCancel | CkGC | CkStart | CkOrphan | CkFinish | CkSkip string | CkWaitStart string
  | CkWaitCheck string | CkWaitRemaining string | CkWaitFirst string | CkWaitDone string
  | CkStepBegin string | CkStepEnd string | CkStepDuration string

record ('a, 'p) reconEnv =
  ev_api :: apiBehaviour
  ev_now :: "clockRead \<Rightarrow> time"
  ev_setCondition :: conditionSetter
  ev_codec :: codec
  ev_flow :: "string \<Rightarrow> string \<Rightarrow> apiError + flowSpec"
  ev_gcPolicy :: "string \<Rightarrow> string \<Rightarrow> apiError + flowRunGCPolicy option"
  ev_cel :: "('a, 'p) celLib"
  ev_parseDuration :: "string \<Rightarrow> duration result"
  ev_http :: "string \<Rightarrow> duration option \<Rightarrow> httpEnv"
  ev_publish :: "string \<Rightarrow> duration option \<Rightarrow> publishEnv"

record reconConfig =
  rc_http :: httpConfig
  rc_when :: whenConfig
  rc_gc :: gcConfig
  rc_executionTimeout :: duration

record 'p reconState =
  rs_api :: apiState
  rs_celCache :: "string \<rightharpoonup> 'p"
  rs_publish :: publishState
  rs_calls :: "(string \<times> executeRequest) list"
  rs_executed :: "string list"

abbreviation runStatus :: "flowRun \<Rightarrow> flowRunStatus" where
  "runStatus fr \<equiv> fr_status fr"

definition setSteps :: "stepRunStatus list \<Rightarrow> flowRun \<Rightarrow> flowRun" where
  "setSteps steps fr = fr\<lparr>fr_status := (fr_status fr)\<lparr>st_steps := steps\<rparr>\<rparr>"

definition putStep :: "stepRunStatus \<Rightarrow> flowRun \<Rightarrow> flowRun" where
  "putStep ss fr = setSteps (upsertStepStatus (st_steps (fr_status fr)) ss) fr"

text \<open>Requests of the reconciler, on the reconcile state.\<close>

definition persist :: "('a, 'p) reconEnv \<Rightarrow> flowRun \<Rightarrow> 'p reconState \<Rightarrow> (apiError + flowRun) \<times> 'p reconState" where
  "persist env fr s =
     (case updateStatus (ev_api env) fr (rs_api s) of (r, a) \<Rightarrow> (r, s\<lparr>rs_api := a\<rparr>))"

definition failRun ::
  "('a, 'p) reconEnv \<Rightarrow> flowRun \<Rightarrow> msg \<Rightarrow> 'p reconState \<Rightarrow> (apiError + ctrlResult) \<times> 'p reconState" where
  "failRun env fr m s =
     (case failFlowRun (ev_api env) (ev_setCondition env) (ev_now env CkFinish) fr m (rs_api s) of
        (Inl e, a) \<Rightarrow> (Inl e, s\<lparr>rs_api := a\<rparr>)
      | (Inr _, a) \<Rightarrow> (Inr Done, s\<lparr>rs_api := a\<rparr>))"

definition cancelRun ::
  "('a, 'p) reconEnv \<Rightarrow> flowRun \<Rightarrow> msg \<Rightarrow> 'p reconState \<Rightarrow> (apiError + ctrlResult) \<times> 'p reconState" where
  "cancelRun env fr m s =
     (case cancelFlowRun (ev_api env) (ev_setCondition env) (ev_now env CkCancel) fr m (rs_api s) of
        (Inl e, a) \<Rightarrow> (Inl e, s\<lparr>rs_api := a\<rparr>)
      | (Inr _, a) \<Rightarrow> (Inr Done, s\<lparr>rs_api := a\<rparr>))"

section \<open>Executing a step\<close>

definition transformResults ::
  "codec \<Rightarrow> smap \<Rightarrow> stepResultsMap \<Rightarrow> triggerData option \<Rightarrow> smap \<Rightarrow> smap" where
  "transformResults cd mappings stepResults triggerData params =
     foldl (\<lambda>m (k, v). AList.update k (substituteVars cd v stepResults triggerData params) m) [] mappings"

definition runningStatus :: "flowStep \<Rightarrow> time \<Rightarrow> stepRunStatus" where
  "runningStatus step now =
     (newStepStatus (fs_name step))\<lparr>ss_phase := StepPhaseRunning, ss_startTime := Some now, ss_attempts := 1\<rparr>"

text \<open>The second component is the transport error, if the executor was unreachable.\<close>

definition executeStep ::
  "('a, 'p) reconEnv \<Rightarrow> reconConfig \<Rightarrow> duration option \<Rightarrow> flowStep \<Rightarrow> flowRun \<Rightarrow> stepResultsMap \<Rightarrow> smap \<Rightarrow>
   'p reconState \<Rightarrow> (stepRunStatus \<times> msg option) \<times> 'p reconState" where
  "executeStep env cfg ctx step fr stepResults params s =
     (let name = fs_name step;
          td = frs_triggerData (fr_spec fr);
          s1 = s\<lparr>rs_executed := rs_executed s @ [name]\<rparr>;
          st0 = runningStatus step (ev_now env (CkStepBegin name));
          st1 = st0\<lparr>ss_completionTime := Some (ev_now env (CkStepEnd name))\<rparr>;
          failed = (\<lambda>st m. st\<lparr>ss_phase := StepPhaseFailed, ss_message := m\<rparr>)
      in if sa_type (fs_action step) = stepActionHTTP then
           (case executeHTTPStep (rc_http cfg) (ev_http env name ctx) step stepResults td params
                   (fr_namespace fr) (ps_cache (rs_publish s1)) of
              (run, cache') \<Rightarrow>
                (let st2 = (if hr_attempts run > 0 then st1\<lparr>ss_attempts := int (hr_attempts run)\<rparr> else st1);
                     s2 = s1\<lparr>rs_publish := (rs_publish s1)\<lparr>ps_cache := cache'\<rparr>,
                             rs_calls := rs_calls s1 @ map (\<lambda>q. (name, q)) (hr_calls run)\<rparr>
                 in case hr_outcome run of
                      Inl (TransportError m) \<Rightarrow> ((st2, Some m), s2)
                    | Inl (StepError m) \<Rightarrow> ((failed st2 m, None), s2)
                    | Inr (results, m) \<Rightarrow>
                        ((st2\<lparr>ss_phase := StepPhaseSucceeded, ss_message := m,
                              ss_results := mapsToResults results\<rparr>, None), s2)))
         else if sa_type (fs_action step) = stepActionTransform then
           (case sa_transform (fs_action step) of
              None \<Rightarrow>
                ((failed st1 (Fmt ''step %q has type=transform but no transform spec'' [Txt name]), None), s1)
            | Some mappings \<Rightarrow>
                ((st1\<lparr>ss_phase := StepPhaseSucceeded,
                      ss_results := mapsToResults (transformResults (ev_codec env) mappings stepResults td params)\<rparr>,
                  None), s1))
         else if sa_type (fs_action step) = stepActionPublish then
           (case executePublishStep (ev_publish env name ctx) fr step td stepResults params (rs_publish s1) of
              ((attempts, outcome), p') \<Rightarrow>
                (let st2 = (if attempts > 0 then st1\<lparr>ss_attempts := int attempts\<rparr> else st1);
                     s2 = s1\<lparr>rs_publish := p'\<rparr>
                 in case outcome of
                      Inl m \<Rightarrow> ((failed st2 m, None), s2)
                    | Inr results \<Rightarrow>
                        ((st2\<lparr>ss_phase := StepPhaseSucceeded, ss_results := mapsToResults results\<rparr>, None), s2)))
         else ((failed st1 (Fmt ''unknown step action type: %q'' [Txt (sa_type (fs_action step))]), None), s1))"

section \<open>Wait steps\<close>

text \<open>The remaining time and the updated status, or an error.\<close>

definition executeWaitStep ::
  "('a, 'p) reconEnv \<Rightarrow> flowRun \<Rightarrow> flowStep \<Rightarrow> stepRunStatus \<Rightarrow> (duration \<times> stepRunStatus) result" where
  "executeWaitStep env fr step ss =
     (case sa_wait (fs_action step) of
        None \<Rightarrow> Inl (Fmt ''wait step %q has no wait config'' [Txt (fs_name step)])
      | Some text \<Rightarrow>
          (case ev_parseDuration env text of
             Inl e \<Rightarrow> Inl (Fmt ''wait step %q: invalid duration %q: %w'' [Txt (fs_name step), Txt text, e])
           | Inr d \<Rightarrow>
               (case (case findStepStatus (st_steps (fr_status fr)) (fs_name step) of
                        None \<Rightarrow> None | Some x \<Rightarrow> ss_resumeAfter x) of
                  Some resume \<Rightarrow>
                    if ev_now env (CkWaitCheck (fs_name step)) < resume then
                      Inr (resume - ev_now env (CkWaitRemaining (fs_name step)),
                           ss\<lparr>ss_resumeAfter := Some resume, ss_phase := StepPhaseWaiting\<rparr>)
                    else Inr (0, ss)
                | None \<Rightarrow>
                    Inr (d, ss\<lparr>ss_resumeAfter := Some (ev_now env (CkWaitFirst (fs_name step)) + d),
                               ss_phase := StepPhaseWaiting\<rparr>))))"

definition tolerated :: "flowSpec \<Rightarrow> flowStep \<Rightarrow> bool" where
  "tolerated flow step \<longleftrightarrow>
     fs_onFailure step = OnFailureActionContinue \<or> fl_failurePolicy flow = FailurePolicyContinue"

definition waitBarrier ::
  "('a, 'p) reconEnv \<Rightarrow> flowSpec \<Rightarrow> flowStep \<Rightarrow> flowRun \<Rightarrow> 'p reconState \<Rightarrow>
   (apiError + ctrlResult) \<times> 'p reconState" where
  "waitBarrier env flow step fr s =
     (let name = fs_name step;
          start = (case findStepStatus (st_steps (fr_status fr)) name of
                     Some x \<Rightarrow> (case ss_startTime x of Some t \<Rightarrow> t | None \<Rightarrow> ev_now env (CkWaitStart name))
                   | None \<Rightarrow> ev_now env (CkWaitStart name));
          ss = (newStepStatus name)\<lparr>ss_startTime := Some start, ss_attempts := 1\<rparr>;
          completed = Some (ev_now env (CkWaitDone name))
      in case executeWaitStep env fr step ss of
           Inl e \<Rightarrow>
             (case persist env (putStep (ss\<lparr>ss_phase := StepPhaseFailed, ss_message := e,
                                            ss_completionTime := completed\<rparr>) fr) s of
                (Inl err, s') \<Rightarrow> (Inl err, s')
              | (Inr fr', s') \<Rightarrow>
                  if tolerated flow step then (Inr Requeue, s')
                  else failRun env fr' (Fmt ''step %q failed: %s'' [Txt name, e]) s')
         | Inr (remaining, ss') \<Rightarrow>
             if remaining > 0 then
               (case persist env (putStep ss' fr) s of
                  (Inl err, s') \<Rightarrow> (Inl err, s')
                | (Inr _, s') \<Rightarrow> (Inr (RequeueAfter remaining), s'))
             else
               (case persist env (putStep (ss'\<lparr>ss_phase := StepPhaseSucceeded,
                                               ss_completionTime := completed\<rparr>) fr) s of
                  (Inl err, s') \<Rightarrow> (Inl err, s')
                | (Inr _, s') \<Rightarrow> (Inr Requeue, s')))"

section \<open>Steps that need no I/O\<close>

definition settledStatus :: "string \<Rightarrow> stepPhase \<Rightarrow> msg \<Rightarrow> time \<Rightarrow> stepRunStatus" where
  "settledStatus name phase m now =
     (newStepStatus name)\<lparr>ss_phase := phase, ss_message := m, ss_completionTime := Some now\<rparr>"

datatype inlineOutcome = InlineReturn "apiError + ctrlResult" | InlineDone flowRun bool

definition policyContinues :: "flowSpec \<Rightarrow> bool" where
  "policyContinues flow \<longleftrightarrow> fl_failurePolicy flow = FailurePolicyContinue"

definition readyStep :: "flowSpec \<Rightarrow> flowRun \<Rightarrow> flowStep \<Rightarrow> bool" where
  "readyStep flow fr step \<longleftrightarrow>
     dependenciesMet step (st_steps (fr_status fr)) (fl_steps flow) (policyContinues flow)"

fun inlineLoop ::
  "('a, 'p) reconEnv \<Rightarrow> reconConfig \<Rightarrow> flowSpec \<Rightarrow> stepResultsMap \<Rightarrow> smap \<Rightarrow> flowStep list \<Rightarrow> flowRun \<Rightarrow> bool \<Rightarrow>
   'p reconState \<Rightarrow> inlineOutcome \<times> 'p reconState" where
  "inlineLoop env cfg flow stepResults params [] fr skippedAny s = (InlineDone fr skippedAny, s)"
| "inlineLoop env cfg flow stepResults params (step # steps) fr skippedAny s =
     (let name = fs_name step; now = ev_now env (CkSkip name)
      in if \<not> readyStep flow fr step \<or> \<not> notStarted (findStepStatus (st_steps (fr_status fr)) name) then
           inlineLoop env cfg flow stepResults params steps fr skippedAny s
         else if allDepsSkipped step (st_steps (fr_status fr)) then
           inlineLoop env cfg flow stepResults params steps
             (putStep (settledStatus name StepPhaseSkipped (Txt ''all runAfter dependencies were skipped'') now) fr)
             True s
         else if fs_when step = [] then
           inlineLoop env cfg flow stepResults params steps fr skippedAny s
         else
           (case evaluateWhen (ev_codec env) (ev_cel env) (rc_when cfg) (fs_when step) stepResults
                   (st_steps (fr_status fr)) (frs_triggerData (fr_spec fr)) params (rs_celCache s) of
              (Inl err, cache) \<Rightarrow>
                (case persist env
                        (putStep (settledStatus name StepPhaseFailed
                                    (Fmt ''when expression error: %v'' [err]) now) fr)
                        (s\<lparr>rs_celCache := cache\<rparr>) of
                   (Inl e, s') \<Rightarrow> (InlineReturn (Inl e), s')
                 | (Inr fr', s') \<Rightarrow>
                     if tolerated flow step then
                       inlineLoop env cfg flow stepResults params steps fr' True s'
                     else (case failRun env fr'
                                  (Fmt ''step %q when expression error: %v'' [Txt name, err]) s' of
                         (r, s'') \<Rightarrow> (InlineReturn r, s'')))
            | (Inr run, cache) \<Rightarrow>
                (let s' = s\<lparr>rs_celCache := cache\<rparr>
                 in if \<not> run then
                      inlineLoop env cfg flow stepResults params steps
                        (putStep (settledStatus name StepPhaseSkipped
                                    (Txt ''when condition evaluated to false'') now) fr) True s'
                    else inlineLoop env cfg flow stepResults params steps fr skippedAny s')))"

section \<open>Waves\<close>

definition inWave :: "flowSpec \<Rightarrow> flowRun \<Rightarrow> flowStep \<Rightarrow> bool" where
  "inWave flow fr step \<longleftrightarrow>
     readyStep flow fr step \<and>
     (let existing = findStepStatus (st_steps (fr_status fr)) (fs_name step)
      in notStarted existing \<or>
         (sa_type (fs_action step) = stepActionWait \<and>
          (case existing of Some x \<Rightarrow> ss_phase x = StepPhaseWaiting | None \<Rightarrow> False)))"

definition collectWave :: "flowSpec \<Rightarrow> flowRun \<Rightarrow> flowStep list" where
  "collectWave flow fr = filter (inWave flow fr) (fl_steps flow)"

record stepResult =
  sr_status :: stepRunStatus
  sr_fatal :: "msg option"
  sr_requeueAfter :: duration

definition executorTransportBackoff :: duration where
  "executorTransportBackoff = 5 * second"

definition waveResult :: "flowSpec \<Rightarrow> flowStep \<Rightarrow> stepRunStatus \<times> msg option \<Rightarrow> stepResult" where
  "waveResult flow step executed =
     (case executed of
        (ss, Some m) \<Rightarrow>
          \<lparr>sr_status = (newStepStatus (fs_name step))\<lparr>ss_phase := StepPhaseRunning\<rparr>, sr_fatal = None,
           sr_requeueAfter = executorTransportBackoff\<rparr>
      | (ss, None) \<Rightarrow>
          \<lparr>sr_status = ss,
           sr_fatal = (if ss_phase ss = StepPhaseFailed \<and> \<not> tolerated flow step
                       then Some (Fmt ''step %q failed: %s'' [Txt (fs_name step), ss_message ss]) else None),
           sr_requeueAfter = 0\<rparr>)"

fun runWave ::
  "('a, 'p) reconEnv \<Rightarrow> reconConfig \<Rightarrow> duration option \<Rightarrow> flowSpec \<Rightarrow> flowRun \<Rightarrow> stepResultsMap \<Rightarrow> smap \<Rightarrow>
   flowStep list \<Rightarrow> 'p reconState \<Rightarrow> stepResult list \<times> 'p reconState" where
  "runWave env cfg ctx flow fr stepResults params [] s = ([], s)"
| "runWave env cfg ctx flow fr stepResults params (step # steps) s =
     (case executeStep env cfg ctx step fr stepResults params s of
        (executed, s1) \<Rightarrow>
          (case runWave env cfg ctx flow fr stepResults params steps s1 of
             (rest, s2) \<Rightarrow> (waveResult flow step executed # rest, s2)))"

definition withDuration :: "('a, 'p) reconEnv \<Rightarrow> stepRunStatus \<Rightarrow> stepRunStatus" where
  "withDuration env ss =
     (if stepTerminal (ss_phase ss)
      then ss\<lparr>ss_durationMillis := Some (millis (ev_now env (CkStepDuration (ss_name ss))))\<rparr> else ss)"

definition applyResults :: "('a, 'p) reconEnv \<Rightarrow> stepResult list \<Rightarrow> flowRun \<Rightarrow> flowRun" where
  "applyResults env results fr = foldl (\<lambda>fr r. putStep (withDuration env (sr_status r)) fr) fr results"

fun firstFatal :: "stepResult list \<Rightarrow> msg option" where
  "firstFatal [] = None"
| "firstFatal (r # rs) = (case sr_fatal r of Some m \<Rightarrow> Some m | None \<Rightarrow> firstFatal rs)"

definition dispatchWave ::
  "('a, 'p) reconEnv \<Rightarrow> reconConfig \<Rightarrow> duration option \<Rightarrow> flowSpec \<Rightarrow> stepResultsMap \<Rightarrow> smap \<Rightarrow>
   flowStep list \<Rightarrow> flowRun \<Rightarrow> 'p reconState \<Rightarrow> (apiError + ctrlResult) \<times> 'p reconState" where
  "dispatchWave env cfg ctx flow stepResults params wave fr s =
     (case runWave env cfg ctx flow fr stepResults params wave s of
        (results, s1) \<Rightarrow>
          (let transportRequeue = foldl max 0 (map sr_requeueAfter results)
           in if transportRequeue > 0 then (Inr (RequeueAfter transportRequeue), s1)
              else (case persist env (applyResults env results fr) s1 of
                  (Inl e, s2) \<Rightarrow> (Inl e, s2)
                | (Inr fr', s2) \<Rightarrow>
                    (case firstFatal results of
                       Some m \<Rightarrow> failRun env fr' m s2
                     | None \<Rightarrow> (Inr Requeue, s2)))))"

section \<open>Completion\<close>

text \<open>The first failed status, in status order, that a step of the Flow does not tolerate.\<close>

fun fatalFailure :: "flowSpec \<Rightarrow> stepRunStatus list \<Rightarrow> msg option" where
  "fatalFailure flow [] = None"
| "fatalFailure flow (ss # sss) =
     (if ss_phase ss = StepPhaseFailed \<and>
         list_ex (\<lambda>step. fs_name step = ss_name ss \<and> \<not> tolerated flow step) (fl_steps flow)
      then Some (Fmt ''step %q failed: %s'' [Txt (ss_name ss), ss_message ss])
      else fatalFailure flow sss)"

definition succeededRun :: "conditionSetter \<Rightarrow> time \<Rightarrow> flowRun \<Rightarrow> flowRun" where
  "succeededRun setCond now fr =
     (let fr1 = fr\<lparr>fr_status := (fr_status fr)\<lparr>st_phase := FlowRunPhaseSucceeded,
                                              st_completionTime := Some now\<rparr>\<rparr>;
          fr2 = setFlowRunCondition setCond fr1
                  \<lparr>cond_type = ''Succeeded'', cond_status = ''True'', cond_reason = ''FlowRunSucceeded'',
                   cond_message = Txt ''FlowRun completed successfully'', cond_lastTransitionTime = Some now,
                   cond_observedGeneration = 0\<rparr>
      in fr2\<lparr>fr_status := (fr_status fr2)\<lparr>st_durationMillis := durationSince now fr\<rparr>\<rparr>)"

definition completeRun ::
  "('a, 'p) reconEnv \<Rightarrow> flowSpec \<Rightarrow> flowRun \<Rightarrow> 'p reconState \<Rightarrow> (apiError + ctrlResult) \<times> 'p reconState" where
  "completeRun env flow fr s =
     (case fatalFailure flow (st_steps (fr_status fr)) of
        Some m \<Rightarrow> failRun env fr m s
      | None \<Rightarrow>
          (case persist env (succeededRun (ev_setCondition env) (ev_now env CkFinish) fr) s of
             (Inl e, s') \<Rightarrow> (Inl e, s')
           | (Inr fr', s') \<Rightarrow>
               (let fr2 = fr'\<lparr>fr_labels := AList.update ''kubezap.io/phase'' ''Succeeded'' (fr_labels fr')\<rparr>
                in case updateMeta (ev_api env) (dropFinalizer fr2) (rs_api s') of
                     (Inl e, a) \<Rightarrow> (Inl e, s'\<lparr>rs_api := a\<rparr>)
                   | (Inr _, a) \<Rightarrow> (Inr Done, s'\<lparr>rs_api := a\<rparr>))))"

section \<open>Reconcile\<close>

definition stepResultsOf :: "stepRunStatus list \<Rightarrow> stepResultsMap" where
  "stepResultsOf statuses =
     foldl (\<lambda>m ss. if (ss_phase ss = StepPhaseSucceeded \<or> ss_phase ss = StepPhaseSkipped) \<and> ss_results ss \<noteq> []
                   then AList.update (ss_name ss) (resultsToMap (ss_results ss)) m else m) [] statuses"

definition allStepsTerminal :: "flowSpec \<Rightarrow> flowRun \<Rightarrow> bool" where
  "allStepsTerminal flow fr \<longleftrightarrow>
     list_all (\<lambda>step. case findStepStatus (st_steps (fr_status fr)) (fs_name step) of
                        None \<Rightarrow> False | Some x \<Rightarrow> stepTerminal (ss_phase x)) (fl_steps flow)"

definition anyStepRunning :: "flowSpec \<Rightarrow> flowRun \<Rightarrow> bool" where
  "anyStepRunning flow fr \<longleftrightarrow>
     list_ex (\<lambda>step. case findStepStatus (st_steps (fr_status fr)) (fs_name step) of
                       None \<Rightarrow> False
                     | Some x \<Rightarrow> ss_phase x = StepPhaseRunning \<or> ss_phase x = StepPhaseWaiting) (fl_steps flow)"

definition ioWave ::
  "('a, 'p) reconEnv \<Rightarrow> reconConfig \<Rightarrow> duration option \<Rightarrow> flowSpec \<Rightarrow> stepResultsMap \<Rightarrow> smap \<Rightarrow> bool \<Rightarrow>
   flowRun \<Rightarrow> 'p reconState \<Rightarrow> (apiError + ctrlResult) \<times> 'p reconState" where
  "ioWave env cfg ctx flow stepResults params anyRunning fr s =
     (let wave = collectWave flow fr
      in if wave = [] then
           (if anyRunning then (Inr (RequeueAfter (5 * second)), s) else completeRun env flow fr s)
         else case filter (\<lambda>step. sa_type (fs_action step) = stepActionWait) wave of
             step # _ \<Rightarrow> waitBarrier env flow step fr s
           | [] \<Rightarrow> dispatchWave env cfg ctx flow stepResults params wave fr s)"

definition reconcileSteps ::
  "('a, 'p) reconEnv \<Rightarrow> reconConfig \<Rightarrow> flowSpec \<Rightarrow> flowRun \<Rightarrow> 'p reconState \<Rightarrow>
   (apiError + ctrlResult) \<times> 'p reconState" where
  "reconcileSteps env cfg flow fr s =
     (let stepResults = stepResultsOf (st_steps (fr_status fr));
          ctx = (case fl_timeout flow of Some d \<Rightarrow> if d > 0 then Some d else None | None \<Rightarrow> None)
      in case resolveFlowParams (ev_codec env) (fl_params flow) (frs_params (fr_spec fr)) stepResults
                (frs_triggerData (fr_spec fr)) of
           Inl paramErr \<Rightarrow> failRun env fr paramErr s
         | Inr params \<Rightarrow>
             if allStepsTerminal flow fr then completeRun env flow fr s
             else (case inlineLoop env cfg flow stepResults params (fl_steps flow) fr False s of
                 (InlineReturn r, s1) \<Rightarrow> (r, s1)
               | (InlineDone fr1 True, s1) \<Rightarrow>
                   (case persist env fr1 s1 of
                      (Inl e, s2) \<Rightarrow> (Inl e, s2)
                    | (Inr _, s2) \<Rightarrow>
                        (case getRun (ev_api env) (rs_api s2) of
                           (Inl e, a) \<Rightarrow> (if e = NotFound then Inr Done else Inl e, s2\<lparr>rs_api := a\<rparr>)
                         | (Inr _, a) \<Rightarrow> (Inr Requeue, s2\<lparr>rs_api := a\<rparr>)))
               | (InlineDone fr1 False, s1) \<Rightarrow>
                   ioWave env cfg ctx flow stepResults params (anyStepRunning flow fr) fr1 s1))"

definition startedRun :: "conditionSetter \<Rightarrow> time \<Rightarrow> flowRun \<Rightarrow> flowRun" where
  "startedRun setCond now fr =
     setFlowRunCondition setCond
       (fr\<lparr>fr_status := (fr_status fr)\<lparr>st_phase := FlowRunPhaseRunning, st_startTime := Some now\<rparr>\<rparr>)
       \<lparr>cond_type = ''Running'', cond_status = ''True'', cond_reason = ''FlowRunRunning'',
        cond_message = Txt ''FlowRun is running'', cond_lastTransitionTime = Some now,
        cond_observedGeneration = 0\<rparr>"

definition startRun ::
  "('a, 'p) reconEnv \<Rightarrow> flowRun \<Rightarrow> 'p reconState \<Rightarrow> (apiError + flowRun) \<times> 'p reconState" where
  "startRun env fr s =
     (if st_phase (fr_status fr) = FlowRunPhaseUnset \<or> st_phase (fr_status fr) = FlowRunPhasePending then
        (case (if containsString (fr_finalizers fr) executingFinalizer then (Inr fr, rs_api s)
               else updateMeta (ev_api env)
                      (fr\<lparr>fr_finalizers := fr_finalizers fr @ [executingFinalizer]\<rparr>) (rs_api s)) of
           (Inl e, a) \<Rightarrow> (Inl e, s\<lparr>rs_api := a\<rparr>)
         | (Inr fr1, a) \<Rightarrow>
             persist env (startedRun (ev_setCondition env) (ev_now env CkStart) fr1) (s\<lparr>rs_api := a\<rparr>))
      else (Inr fr, s))"

definition timedOut :: "('a, 'p) reconEnv \<Rightarrow> reconConfig \<Rightarrow> flowRun \<Rightarrow> bool" where
  "timedOut env cfg fr \<longleftrightarrow>
     rc_executionTimeout cfg > 0 \<and>
     (case st_startTime (fr_status fr) of
        None \<Rightarrow> False | Some t \<Rightarrow> ev_now env CkOrphan - t > rc_executionTimeout cfg)"

text \<open>A duration in a message stands for its rendering by \<^verbatim>\<open>time.Duration.String\<close>.\<close>

definition durationMsg :: "duration \<Rightarrow> msg" where
  "durationMsg d = Fmt ''%s'' [Txt (showInt d)]"

definition timeoutMsg :: "('a, 'p) reconEnv \<Rightarrow> reconConfig \<Rightarrow> flowRun \<Rightarrow> msg" where
  "timeoutMsg env cfg fr =
     (let running = (case st_startTime (fr_status fr) of None \<Rightarrow> 0 | Some t \<Rightarrow> ev_now env CkOrphan - t)
      in Fmt ''execution timeout exceeded (running for %s, limit %s)''
           [durationMsg (running div second * second), durationMsg (rc_executionTimeout cfg)])"

definition cancelRequested :: "flowRun \<Rightarrow> bool" where
  "cancelRequested fr \<longleftrightarrow> map_of (fr_annotations fr) ''kubezap.io/cancel'' = Some ''true''"

definition reconcileActive ::
  "('a, 'p) reconEnv \<Rightarrow> reconConfig \<Rightarrow> flowRun \<Rightarrow> 'p reconState \<Rightarrow> (apiError + ctrlResult) \<times> 'p reconState" where
  "reconcileActive env cfg fr s =
     (case ev_flow env (fr_namespace fr) (frs_flowRef (fr_spec fr)) of
        Inl e \<Rightarrow>
          if e = NotFound then
            failRun env fr (Txt (''Flow not found: '' @ frs_flowRef (fr_spec fr))) s
          else (Inl e, s)
      | Inr flow \<Rightarrow>
          (case startRun env fr (s\<lparr>rs_publish := (rs_publish s)\<lparr>ps_cache := Map.empty\<rparr>\<rparr>) of
             (Inl e, s1) \<Rightarrow> (Inl e, s1)
           | (Inr fr1, s1) \<Rightarrow>
               if timedOut env cfg fr1 then
                 failRun env fr1 (timeoutMsg env cfg fr1) s1
               else reconcileSteps env cfg flow fr1 s1))"

definition Reconcile ::
  "('a, 'p) reconEnv \<Rightarrow> reconConfig \<Rightarrow> 'p reconState \<Rightarrow> (apiError + ctrlResult) \<times> 'p reconState" where
  "Reconcile env cfg s =
     (case getRun (ev_api env) (rs_api s) of
        (Inl e, a) \<Rightarrow> (if e = NotFound then Inr Done else Inl e, s\<lparr>rs_api := a\<rparr>)
      | (Inr fr, a) \<Rightarrow>
          (let s1 = s\<lparr>rs_api := a\<rparr>; phase = st_phase (fr_status fr)
           in if fr_deletionTimestamp fr \<noteq> None \<and> phase = FlowRunPhaseRunning then
                cancelRun env fr (Txt ''FlowRun deleted while running'') s1
              else if phase = FlowRunPhaseRunning \<and> cancelRequested fr then
                cancelRun env fr (Txt ''FlowRun cancelled via kubezap.io/cancel annotation'') s1
              else if runTerminal phase then
                (case reconcileGC (ev_api env) (ev_now env CkGC) (rc_gc cfg) (ev_gcPolicy env) fr a of
                   (Inl e, a') \<Rightarrow> (Inl e, s1\<lparr>rs_api := a'\<rparr>)
                 | (Inr requeue, a') \<Rightarrow>
                     (if requeue > 0 then Inr (RequeueAfter requeue) else Inr Done, s1\<lparr>rs_api := a'\<rparr>))
              else reconcileActive env cfg fr s1))"

end
