(* ===== verification/FlowRunInvariants.thy ===== *)
theory FlowRunInvariants
  imports FlowRunReconcile
begin

text \<open>
  The invariants of the FlowRun state machine: how the stored FlowRun may change in one reconcile, which
  steps are executed, when a run succeeds, and that reconciling makes progress. The statements
  hold for every behaviour of the API server, the executor, the brokers and the clock unless they say
  otherwise.
\<close>

section \<open>Evolution of a status\<close>

text \<open>A terminal run is frozen, a run never returns to Pending, and a terminal step is frozen.\<close>

definition statusEvolves :: "flowRunStatus \<Rightarrow> flowRunStatus \<Rightarrow> bool" where
  "statusEvolves a b \<longleftrightarrow>
     (runTerminal (st_phase a) \<longrightarrow> b = a) \<and>
     (st_phase b \<in> {FlowRunPhaseUnset, FlowRunPhasePending} \<longrightarrow> st_phase b = st_phase a) \<and>
     (\<forall>n x. findStepStatus (st_steps a) n = Some x \<longrightarrow> stepTerminal (ss_phase x) \<longrightarrow>
        findStepStatus (st_steps b) n = Some x)"

lemma statusEvolves_refl [simp]: "statusEvolves a a"
  by (simp add: statusEvolves_def)

lemma statusEvolvesI:
  assumes "runTerminal (st_phase a) \<Longrightarrow> b = a"
    and "st_phase b = FlowRunPhaseUnset \<or> st_phase b = FlowRunPhasePending \<Longrightarrow> st_phase b = st_phase a"
    and "\<And>n x. findStepStatus (st_steps a) n = Some x \<Longrightarrow> stepTerminal (ss_phase x) \<Longrightarrow>
           findStepStatus (st_steps b) n = Some x"
  shows "statusEvolves a b"
  using assms unfolding statusEvolves_def by blast

lemma statusEvolvesD:
  assumes "statusEvolves a b"
  shows "runTerminal (st_phase a) \<Longrightarrow> b = a"
    and "st_phase b = FlowRunPhaseUnset \<or> st_phase b = FlowRunPhasePending \<Longrightarrow> st_phase b = st_phase a"
    and "findStepStatus (st_steps a) n = Some x \<Longrightarrow> stepTerminal (ss_phase x) \<Longrightarrow>
           findStepStatus (st_steps b) n = Some x"
  using assms unfolding statusEvolves_def by blast+

lemma statusEvolves_trans:
  assumes "statusEvolves a b" and "statusEvolves b c"
  shows "statusEvolves a c"
proof (rule statusEvolvesI)
  show "c = a" if "runTerminal (st_phase a)"
    using statusEvolvesD(1) [OF assms(1) that] statusEvolvesD(1) [OF assms(2)] that by simp
  show "st_phase c = st_phase a" if "st_phase c = FlowRunPhaseUnset \<or> st_phase c = FlowRunPhasePending"
    using statusEvolvesD(2) [OF assms(2) that] statusEvolvesD(2) [OF assms(1)] that by simp
  show "findStepStatus (st_steps c) n = Some x" if "findStepStatus (st_steps a) n = Some x" "stepTerminal (ss_phase x)"
    for n x
    using statusEvolvesD(3) [OF assms(2) statusEvolvesD(3) [OF assms(1) that] that(2)] .
qed

text \<open>The finalizer guards a running run: it is stored before the phase becomes Running.\<close>

definition guarded :: "flowRun \<Rightarrow> bool" where
  "guarded fr \<longleftrightarrow>
     (st_phase (fr_status fr) = FlowRunPhaseRunning \<longrightarrow> containsString (fr_finalizers fr) executingFinalizer)"

definition runEvolves :: "flowRun \<Rightarrow> flowRun \<Rightarrow> bool" where
  "runEvolves a b \<longleftrightarrow>
     statusEvolves (fr_status a) (fr_status b) \<and> fr_spec b = fr_spec a \<and> fr_uid b = fr_uid a \<and>
     (guarded a \<longrightarrow> guarded b)"

definition storeEvolves :: "apiState \<Rightarrow> apiState \<Rightarrow> bool" where
  "storeEvolves s s' \<longleftrightarrow>
     (case as_run s' of None \<Rightarrow> True | Some b \<Rightarrow> (\<exists>a. as_run s = Some a \<and> runEvolves a b))"

lemma runEvolves_refl [simp]: "runEvolves a a"
  by (simp add: runEvolves_def)

lemma runEvolves_trans: "runEvolves a b \<Longrightarrow> runEvolves b c \<Longrightarrow> runEvolves a c"
  by (auto simp: runEvolves_def intro: statusEvolves_trans)

lemma storeEvolves_refl [simp]: "storeEvolves s s"
  by (simp add: storeEvolves_def split: option.split)

lemma storeEvolves_trans:
  assumes "storeEvolves s s'" and "storeEvolves s' s''"
  shows "storeEvolves s s''"
proof (cases "as_run s''")
  case None
  then show ?thesis by (simp add: storeEvolves_def)
next
  case (Some c)
  then obtain b where b: "as_run s' = Some b" "runEvolves b c" using assms(2) by (auto simp: storeEvolves_def)
  then obtain a where a: "as_run s = Some a" "runEvolves a b" using assms(1) by (auto simp: storeEvolves_def)
  then show ?thesis using Some b runEvolves_trans [OF a(2) b(2)] by (simp add: storeEvolves_def)
qed

section \<open>The local object\<close>

text \<open>The object a reconcile works on is an allowed evolution of the stored one and is not terminal; once it
  is Running the stored object carries the finalizer.\<close>

definition active :: "flowRun \<Rightarrow> apiState \<Rightarrow> bool" where
  "active fr s \<longleftrightarrow>
     \<not> runTerminal (st_phase (fr_status fr)) \<and>
     (\<exists>a. as_run s = Some a \<and> statusEvolves (fr_status a) (fr_status fr) \<and>
        (guarded a \<longrightarrow> st_phase (fr_status fr) = FlowRunPhaseRunning \<longrightarrow>
           containsString (fr_finalizers a) executingFinalizer))"

lemma active_not_terminal: "active fr s \<Longrightarrow> \<not> runTerminal (st_phase (fr_status fr))"
  by (simp add: active_def)

lemma performRequest_snd:
  "snd (performRequest api change answer s) = s\<lparr>as_requests := Suc (as_requests s)\<rparr> \<or>
   snd (performRequest api change answer s) = change (s\<lparr>as_requests := Suc (as_requests s)\<rparr>)"
  by (auto simp: performRequest_def Let_def split: apiOutcome.split)

lemma performRequest_Inr:
  "performRequest api change answer s = (Inr r, s') \<Longrightarrow>
     r = answer \<and> s' = change (s\<lparr>as_requests := Suc (as_requests s)\<rparr>)"
  by (auto simp: performRequest_def Let_def split: apiOutcome.splits)

lemma updateStatus_evolves:
  assumes "as_run s = Some a" and "statusEvolves (fr_status a) (fr_status fr)"
    and "guarded a \<longrightarrow> st_phase (fr_status fr) = FlowRunPhaseRunning \<longrightarrow>
           containsString (fr_finalizers a) executingFinalizer"
  shows "storeEvolves s (snd (updateStatus api fr s))"
proof -
  let ?b = "a\<lparr>fr_status := fr_status fr\<rparr>"
  have "runEvolves a ?b" using assms(2,3) by (auto simp: runEvolves_def guarded_def)
  moreover have "as_run (snd (updateStatus api fr s)) \<in> {Some a, Some ?b}"
    using performRequest_snd [of api "\<lambda>s. s\<lparr>as_run := Some ?b\<rparr>" fr s] assms(1)
    by (auto simp: updateStatus_def)
  ultimately show ?thesis using assms(1) by (auto simp: storeEvolves_def)
qed

lemma updateStatus_Inr:
  assumes "updateStatus api fr s = (Inr fr', s')" and "as_run s = Some a"
  shows "fr' = fr \<and> as_run s' = Some (a\<lparr>fr_status := fr_status fr\<rparr>)"
  using assms by (auto simp: updateStatus_def dest!: performRequest_Inr)

lemma updateMeta_evolves:
  assumes "as_run s = Some a"
    and "st_phase (fr_status a) = FlowRunPhaseRunning \<longrightarrow> containsString (fr_finalizers fr) executingFinalizer"
  shows "storeEvolves s (snd (updateMeta api fr s))"
proof -
  let ?b = "a\<lparr>fr_labels := fr_labels fr, fr_annotations := fr_annotations fr, fr_finalizers := fr_finalizers fr\<rparr>"
  let ?f = "\<lambda>s. s\<lparr>as_run := (if fr_deletionTimestamp a \<noteq> None \<and> fr_finalizers fr = [] then None else Some ?b)\<rparr>"
  have b: "runEvolves a ?b" using assms(2) by (simp add: runEvolves_def guarded_def)
  have "as_run (snd (updateMeta api fr s)) \<in> {Some a, Some ?b, None}"
    using performRequest_snd [of api ?f "fr\<lparr>fr_status := fr_status a\<rparr>" s] assms(1)
    by (auto simp: updateMeta_def Let_def)
  then show ?thesis using assms(1) b by (auto simp: storeEvolves_def)
qed

lemma updateMeta_Inr:
  assumes "updateMeta api fr s = (Inr fr', s')" and "as_run s = Some a"
  shows "fr' = fr\<lparr>fr_status := fr_status a\<rparr> \<and>
     (as_run s' = None \<or> (\<exists>b. as_run s' = Some b \<and> fr_status b = fr_status a \<and> fr_finalizers b = fr_finalizers fr))"
  using assms
  by (cases "fr_deletionTimestamp a \<noteq> None \<and> fr_finalizers fr = []")
    (auto simp: updateMeta_def Let_def dest!: performRequest_Inr)

lemma finishedRun_simps [simp]:
  "st_phase (fr_status (finishedRun setCond now phase reason m fr)) = phase"
  "st_steps (fr_status (finishedRun setCond now phase reason m fr)) = st_steps (fr_status fr)"
  "fr_finalizers (finishedRun setCond now phase reason m fr) = fr_finalizers fr"
  by (simp_all add: finishedRun_def setFlowRunCondition_def Let_def)

lemma active_finish:
  assumes "active fr s" and "as_run s = Some a" and "st_steps b = st_steps (fr_status fr)"
    and "st_phase b \<noteq> FlowRunPhaseUnset" and "st_phase b \<noteq> FlowRunPhasePending"
  shows "statusEvolves (fr_status a) b"
proof (rule statusEvolvesI)
  have ev: "statusEvolves (fr_status a) (fr_status fr)" and nt: "\<not> runTerminal (st_phase (fr_status fr))"
    using assms(1,2) by (auto simp: active_def)
  show "b = fr_status a" if "runTerminal (st_phase (fr_status a))"
    using statusEvolvesD(1) [OF ev that] nt that by simp
  show "st_phase b = st_phase (fr_status a)" if "st_phase b = FlowRunPhaseUnset \<or> st_phase b = FlowRunPhasePending"
    using that assms(4,5) by simp
  show "findStepStatus (st_steps b) n = Some x"
    if "findStepStatus (st_steps (fr_status a)) n = Some x" "stepTerminal (ss_phase x)" for n x
    using statusEvolvesD(3) [OF ev that] assms(3) by simp
qed

lemma finishFlowRun_evolves:
  assumes "active fr s" and "runTerminal phase"
  shows "storeEvolves s (snd (finishFlowRun api setCond now fr phase reason m s))"
proof -
  let ?fr = "finishedRun setCond now phase reason m fr"
  obtain a where a: "as_run s = Some a" using assms(1) by (auto simp: active_def)
  have p: "phase \<noteq> FlowRunPhaseUnset" "phase \<noteq> FlowRunPhasePending" "phase \<noteq> FlowRunPhaseRunning"
    using assms(2) by auto
  then have st: "statusEvolves (fr_status a) (fr_status ?fr)"
    using active_finish [OF assms(1) a, of "fr_status ?fr"] by simp
  have e1: "storeEvolves s (snd (updateStatus api ?fr s))"
    using updateStatus_evolves [OF a st] p by simp
  obtain r s' where u: "updateStatus api ?fr s = (r, s')" by fastforce
  show ?thesis
  proof (cases r)
    case (Inl e)
    then show ?thesis using e1 u by (simp add: finishFlowRun_def)
  next
    case (Inr fr')
    then have s': "as_run s' = Some (a\<lparr>fr_status := fr_status ?fr\<rparr>)" using updateStatus_Inr u a by blast
    have "storeEvolves s' (snd (updateMeta api (dropFinalizer fr') s'))"
      using updateMeta_evolves [OF s'] p by simp
    then have "storeEvolves s (snd (updateMeta api (dropFinalizer fr') s'))"
      using e1 u storeEvolves_trans by simp
    then show ?thesis using u Inr by (auto simp: finishFlowRun_def split: sum.split prod.split)
  qed
qed

lemma failRun_api:
  "rs_api (snd (failRun env fr m s)) =
     snd (finishFlowRun (ev_api env) (ev_setCondition env) (ev_now env CkFinish) fr FlowRunPhaseFailed
            ''FlowRunFailed'' m (rs_api s))"
  by (simp add: failRun_def failFlowRun_def case_prod_unfold split: sum.split)

lemma cancelRun_api:
  "rs_api (snd (cancelRun env fr m s)) =
     snd (finishFlowRun (ev_api env) (ev_setCondition env) (ev_now env CkCancel) fr FlowRunPhaseCancelled
            ''FlowRunCancelled'' m (rs_api s))"
  by (simp add: cancelRun_def cancelFlowRun_def case_prod_unfold split: sum.split)

lemma failRun_evolves: "active fr (rs_api s) \<Longrightarrow> storeEvolves (rs_api s) (rs_api (snd (failRun env fr m s)))"
  unfolding failRun_api by (rule finishFlowRun_evolves) simp_all

lemma cancelRun_evolves: "active fr (rs_api s) \<Longrightarrow> storeEvolves (rs_api s) (rs_api (snd (cancelRun env fr m s)))"
  unfolding cancelRun_api by (rule finishFlowRun_evolves) simp_all

lemma updateStatus_active:
  assumes "active fr s" and "updateStatus api fr s = (Inr fr', s')"
  shows "fr' = fr \<and> active fr s'"
proof -
  obtain a where a: "as_run s = Some a" using assms(1) by (auto simp: active_def)
  from updateStatus_Inr [OF assms(2) a] show ?thesis using assms(1) by (simp add: active_def guarded_def)
qed

lemma persist_frame:
  "rs_executed (snd (persist env fr s)) = rs_executed s" "rs_celCache (snd (persist env fr s)) = rs_celCache s"
  by (simp_all add: persist_def case_prod_unfold)

section \<open>Step statuses\<close>

definition openStep :: "flowRun \<Rightarrow> string \<Rightarrow> bool" where
  "openStep fr n \<longleftrightarrow>
     (case findStepStatus (st_steps (fr_status fr)) n of None \<Rightarrow> True | Some x \<Rightarrow> \<not> stepTerminal (ss_phase x))"

definition openStored :: "apiState \<Rightarrow> string \<Rightarrow> bool" where
  "openStored s n \<longleftrightarrow> (case as_run s of None \<Rightarrow> True | Some a \<Rightarrow> openStep a n)"

lemma openStepI: "(\<And>x. findStepStatus (st_steps (fr_status fr)) n = Some x \<Longrightarrow> \<not> stepTerminal (ss_phase x)) \<Longrightarrow> openStep fr n"
  by (simp add: openStep_def split: option.split)

lemma notStarted_openStep:
  "notStarted (findStepStatus (st_steps (fr_status fr)) n) \<Longrightarrow> openStep fr n"
  by (auto simp: notStarted_def openStep_def split: option.splits)

lemma inWave_openStep: "inWave flow fr step \<Longrightarrow> openStep fr (fs_name step)"
  by (auto simp: inWave_def Let_def openStep_def notStarted_def split: option.splits)

lemma active_openStored:
  assumes "active fr s" and "openStep fr n"
  shows "openStored s n"
proof -
  obtain a where a: "as_run s = Some a" "statusEvolves (fr_status a) (fr_status fr)"
    using assms(1) by (auto simp: active_def)
  have "openStep a n"
    using assms(2) statusEvolvesD(3) [OF a(2), of n] by (auto simp: openStep_def split: option.splits)
  then show ?thesis using a(1) by (simp add: openStored_def)
qed

lemma putStep_simps [simp]:
  "st_phase (fr_status (putStep ss fr)) = st_phase (fr_status fr)"
  "findStepStatus (st_steps (fr_status (putStep ss fr))) n =
     (if n = ss_name ss then Some ss else findStepStatus (st_steps (fr_status fr)) n)"
  "fr_finalizers (putStep ss fr) = fr_finalizers fr" "fr_spec (putStep ss fr) = fr_spec fr"
  by (simp_all add: putStep_def setSteps_def steps.find_upsert)

lemma active_putStep:
  assumes "active fr s" and "openStored s (ss_name ss)"
  shows "active (putStep ss fr) s"
proof -
  obtain a where a: "as_run s = Some a" "statusEvolves (fr_status a) (fr_status fr)"
    "guarded a \<longrightarrow> st_phase (fr_status fr) = FlowRunPhaseRunning \<longrightarrow>
       containsString (fr_finalizers a) executingFinalizer"
    and nt: "\<not> runTerminal (st_phase (fr_status fr))"
    using assms(1) by (auto simp: active_def)
  have "statusEvolves (fr_status a) (fr_status (putStep ss fr))"
  proof (rule statusEvolvesI)
    show "fr_status (putStep ss fr) = fr_status a" if "runTerminal (st_phase (fr_status a))"
      using statusEvolvesD(1) [OF a(2) that] nt that by simp
    show "st_phase (fr_status (putStep ss fr)) = st_phase (fr_status a)"
      if "st_phase (fr_status (putStep ss fr)) = FlowRunPhaseUnset \<or>
          st_phase (fr_status (putStep ss fr)) = FlowRunPhasePending"
      using statusEvolvesD(2) [OF a(2)] that by simp
    show "findStepStatus (st_steps (fr_status (putStep ss fr))) n = Some x"
      if "findStepStatus (st_steps (fr_status a)) n = Some x" "stepTerminal (ss_phase x)" for n x
      using statusEvolvesD(3) [OF a(2) that] that assms(2) a(1) by (auto simp: openStored_def openStep_def)
  qed
  then show ?thesis using a nt by (auto simp: active_def)
qed

lemma settledStatus_simps [simp]:
  "ss_name (settledStatus n ph m now) = n" "ss_phase (settledStatus n ph m now) = ph"
  by (simp_all add: settledStatus_def newStepStatus_def)

section \<open>The inline loop\<close>

text \<open>What one iteration of the loop does.\<close>

lemma inlineLoop_ConsE:
  fixes s :: "'p reconState" and env :: "('a, 'p) reconEnv" and cfg :: reconConfig and flow :: flowSpec
    and sr :: stepResultsMap and ps :: smap
  defines "loop \<equiv> inlineLoop env cfg flow sr ps"
    and "eval \<equiv> \<lambda>step fr (s :: 'p reconState). evaluateWhen (ev_codec env) (ev_cel env) (rc_when cfg) (fs_when step) sr
                   (st_steps (fr_status fr)) (frs_triggerData (fr_spec fr)) ps (rs_celCache s)"
    and "fresh \<equiv> \<lambda>step fr. readyStep flow fr step \<and> notStarted (findStepStatus (st_steps (fr_status fr)) (fs_name step))"
  obtains
    (pass) "loop (step # steps) fr sk s = loop steps fr sk s"
      "fresh step fr \<Longrightarrow> \<not> allDepsSkipped step (st_steps (fr_status fr)) \<and> fs_when step = []"
  | (skip) m c where "fresh step fr"
      "loop (step # steps) fr sk s =
         loop steps (putStep (settledStatus (fs_name step) StepPhaseSkipped m (ev_now env (CkSkip (fs_name step)))) fr)
           True (s\<lparr>rs_celCache := c\<rparr>)"
      "c = rs_celCache s \<or> eval step fr s = (Inr False, c)"
  | (hold) c where "fresh step fr" "\<not> allDepsSkipped step (st_steps (fr_status fr))" "fs_when step \<noteq> []"
      "eval step fr s = (Inr True, c)"
      "loop (step # steps) fr sk s = loop steps fr sk (s\<lparr>rs_celCache := c\<rparr>)"
  | (error) err c where "fresh step fr" "eval step fr s = (Inl err, c)"
      "loop (step # steps) fr sk s =
         (case persist env (putStep (settledStatus (fs_name step) StepPhaseFailed
                   (Fmt ''when expression error: %v'' [err]) (ev_now env (CkSkip (fs_name step)))) fr)
                 (s\<lparr>rs_celCache := c\<rparr>) of
            (Inl e, s') \<Rightarrow> (InlineReturn (Inl e), s')
          | (Inr fr', s') \<Rightarrow>
              if tolerated flow step then loop steps fr' True s'
              else (case failRun env fr' (Fmt ''step %q when expression error: %v'' [Txt (fs_name step), err]) s' of
                      (r, s'') \<Rightarrow> (InlineReturn r, s'')))"
proof (cases "fresh step fr")
  case False
  then show ?thesis using pass by (auto simp: loop_def fresh_def Let_def)
next
  case fresh: True
  show ?thesis
  proof (cases "allDepsSkipped step (st_steps (fr_status fr))")
    case True
    then show ?thesis using skip [of "Txt ''all runAfter dependencies were skipped''" "rs_celCache s"] fresh
      by (simp add: loop_def fresh_def Let_def)
  next
    case nskip: False
    show ?thesis
    proof (cases "fs_when step = []")
      case True
      then show ?thesis using pass nskip fresh by (simp add: loop_def fresh_def Let_def)
    next
      case False
      obtain r c where e: "eval step fr s = (r, c)" by fastforce
      consider err where "r = Inl err" | "r = Inr True" | "r = Inr False" by (cases r) auto
      then show ?thesis
      proof cases
        case 1
        then show ?thesis
          using error e fresh nskip False unfolding loop_def eval_def fresh_def by (simp add: Let_def)
      next
        case 2
        then show ?thesis using hold e fresh nskip False by (simp add: loop_def eval_def fresh_def Let_def)
      next
        case 3
        then show ?thesis
          using skip [of "Txt ''when condition evaluated to false''" c] e fresh nskip False
          by (simp add: loop_def eval_def fresh_def Let_def)
      qed
    qed
  qed
qed

declare inlineLoop.simps(2) [simp del]

section \<open>Waves and wait steps\<close>

lemma executeStep_frame:
  "rs_api (snd (executeStep env cfg ctx step fr sr ps s)) = rs_api s"
  "rs_executed (snd (executeStep env cfg ctx step fr sr ps s)) = rs_executed s @ [fs_name step]"
  by (simp_all add: executeStep_def Let_def case_prod_unfold split: sum.split stepError.split option.split)

lemma executeStep_status:
  "ss_name (fst (fst (executeStep env cfg ctx step fr sr ps s))) = fs_name step"
  "snd (fst (executeStep env cfg ctx step fr sr ps s)) = None \<Longrightarrow>
     stepTerminal (ss_phase (fst (fst (executeStep env cfg ctx step fr sr ps s))))"
  by (auto simp: executeStep_def Let_def case_prod_unfold runningStatus_def split: sum.split stepError.split option.split)

lemma waveResult_name:
  "ss_name (fst x) = fs_name step \<Longrightarrow> ss_name (sr_status (waveResult flow step x)) = fs_name step"
  by (auto simp: waveResult_def case_prod_unfold split: option.split)

lemma withDuration_simps [simp]:
  "ss_name (withDuration env ss) = ss_name ss" "ss_phase (withDuration env ss) = ss_phase ss"
  by (simp_all add: withDuration_def)

lemma runWave_frame:
  "rs_api (snd (runWave env cfg ctx flow fr sr ps wave s)) = rs_api s \<and>
   rs_executed (snd (runWave env cfg ctx flow fr sr ps wave s)) = rs_executed s @ map fs_name wave \<and>
   map (\<lambda>r. ss_name (sr_status r)) (fst (runWave env cfg ctx flow fr sr ps wave s)) = map fs_name wave"
proof (induction wave arbitrary: s)
  case Nil
  then show ?case by simp
next
  case (Cons step wave)
  obtain x s1 where x: "executeStep env cfg ctx step fr sr ps s = (x, s1)" by fastforce
  have "rs_api s1 = rs_api s" "rs_executed s1 = rs_executed s @ [fs_name step]" "ss_name (fst x) = fs_name step"
    using executeStep_frame [of env cfg ctx step fr sr ps s] executeStep_status(1) [of env cfg ctx step fr sr ps s] x
    by simp_all
  then show ?case using Cons [of s1] x by (simp add: case_prod_unfold waveResult_name)
qed

lemma applyResults_simps:
  "applyResults env [] fr = fr"
  "applyResults env (r # rs) fr = applyResults env rs (putStep (withDuration env (sr_status r)) fr)"
  by (simp_all add: applyResults_def)

lemma getRun_frame:
  "as_run (snd (getRun api s)) = as_run s" "fst (getRun api s) = Inr fr \<Longrightarrow> as_run s = Some fr"
  by (auto simp: getRun_def performRequest_def Let_def split: apiOutcome.splits option.splits)

definition runSettled :: "flowSpec \<Rightarrow> flowRun \<Rightarrow> bool" where
  "runSettled flow fr \<longleftrightarrow>
     allStepsTerminal flow fr \<or> (collectWave flow fr = [] \<and> \<not> anyStepRunning flow fr)"

lemma inlineLoop_unchanged:
  "inlineLoop env cfg flow sr ps steps fr sk s = (InlineDone fr1 False, s1) \<Longrightarrow> fr1 = fr \<and> \<not> sk"
proof (induction steps arbitrary: fr sk s)
  case Nil
  then show ?case by simp
next
  case (Cons step steps)
  show ?case
  proof (cases rule: inlineLoop_ConsE
      [where env = env and cfg = cfg and flow = flow and sr = sr and ps = ps and step = step and steps = steps
         and fr = fr and sk = sk and s = s])
    case pass
    then show ?thesis using Cons.IH [OF trans [OF pass(1) [symmetric] Cons.prems]] by simp
  next
    case (skip m c)
    then show ?thesis using Cons.IH [OF trans [OF skip(2) [symmetric] Cons.prems]] by simp
  next
    case (hold c)
    then show ?thesis using Cons.IH [OF trans [OF hold(5) [symmetric] Cons.prems]] by simp
  next
    case (error err c)
    from trans [OF error(3) [symmetric] Cons.prems] show ?thesis
      using Cons.IH [of _ True] by (auto simp: case_prod_unfold split: sum.splits if_splits)
  qed
qed

section \<open>Relations that the step engine keeps\<close>

text \<open>
  The interface between the step engine and the API server: \<open>ok fr s\<close> says that the local object \<open>fr\<close>
  may be written to the store \<open>s\<close>, and \<open>R\<close> relates the store before and after. The engine touches the
  store only through the requests named here, so what they keep, a whole reconcile of the steps keeps.
\<close>

locale run_relation =
  fixes ok :: "flowRun \<Rightarrow> apiState \<Rightarrow> bool" and R :: "apiState \<Rightarrow> apiState \<Rightarrow> bool"
  assumes R_same: "as_run s' = as_run s \<Longrightarrow> R s s'"
    and R_trans: "R s s' \<Longrightarrow> R s' s'' \<Longrightarrow> R s s''"
    and ok_open: "ok fr s \<Longrightarrow> openStep fr n \<Longrightarrow> openStored s n"
    and ok_put: "ok fr s \<Longrightarrow> openStored s (ss_name ss) \<Longrightarrow> ok (putStep ss fr) s"
    and ok_update: "ok fr s \<Longrightarrow> R s (snd (updateStatus api fr s))"
    and ok_updated: "ok fr s \<Longrightarrow> updateStatus api fr s = (Inr fr', s') \<Longrightarrow> fr' = fr \<and> ok fr s'"
    and ok_fail: "ok fr s \<Longrightarrow> R s (snd (failFlowRun api setCond now fr m s))"
begin

lemma R_refl [simp]: "R s s"
  by (simp add: R_same)

lemma put_open: "ok fr s \<Longrightarrow> openStep fr (ss_name ss) \<Longrightarrow> ok (putStep ss fr) s"
  by (rule ok_put [OF _ ok_open])

lemma persist_R:
  assumes "ok fr (rs_api s)"
  shows "R (rs_api s) (rs_api (snd (persist env fr s)))"
    and "persist env fr s = (Inr fr', s') \<Longrightarrow> fr' = fr \<and> ok fr (rs_api s')"
proof -
  show "R (rs_api s) (rs_api (snd (persist env fr s)))"
    using ok_update [OF assms] by (simp add: persist_def case_prod_unfold)
  assume "persist env fr s = (Inr fr', s')"
  then have "updateStatus (ev_api env) fr (rs_api s) = (Inr fr', rs_api s')"
    by (auto simp: persist_def split: prod.splits)
  from ok_updated [OF assms this] show "fr' = fr \<and> ok fr (rs_api s')" .
qed

lemma failRun_R: "ok fr (rs_api s) \<Longrightarrow> R (rs_api s) (rs_api (snd (failRun env fr m s)))"
  using ok_fail by (simp add: failRun_def case_prod_unfold split: sum.split)

lemma inlineLoop_R:
  assumes "ok fr (rs_api s)"
  shows "R (rs_api s) (rs_api (snd (inlineLoop env cfg flow sr ps steps fr sk s))) \<and>
     (case fst (inlineLoop env cfg flow sr ps steps fr sk s) of
        InlineReturn r \<Rightarrow> True
      | InlineDone fr1 sk1 \<Rightarrow> ok fr1 (rs_api (snd (inlineLoop env cfg flow sr ps steps fr sk s))))"
  using assms
proof (induction steps arbitrary: fr sk s)
  case Nil
  then show ?case by (simp add: R_same)
next
  case (Cons step steps)
  have put: "ok (putStep (settledStatus (fs_name step) ph m t) fr) (rs_api s)"
    if "notStarted (findStepStatus (st_steps (fr_status fr)) (fs_name step))" for ph m t
    using put_open [OF Cons.prems] notStarted_openStep [OF that] by simp
  show ?case
  proof (cases rule: inlineLoop_ConsE
      [where env = env and cfg = cfg and flow = flow and sr = sr and ps = ps and step = step and steps = steps
         and fr = fr and sk = sk and s = s])
    case pass
    show ?thesis unfolding pass(1) by (rule Cons.IH [OF Cons.prems])
  next
    case (skip m c)
    show ?thesis unfolding skip(2) using Cons.IH [of _ "s\<lparr>rs_celCache := c\<rparr>"] put skip(1) by simp
  next
    case (hold c)
    show ?thesis unfolding hold(5) using Cons.IH [of _ "s\<lparr>rs_celCache := c\<rparr>"] Cons.prems by simp
  next
    case (error err c)
    let ?fr = "putStep (settledStatus (fs_name step) StepPhaseFailed
                   (Fmt ''when expression error: %v'' [err]) (ev_now env (CkSkip (fs_name step)))) fr"
    let ?s = "s\<lparr>rs_celCache := c\<rparr>"
    have a: "ok ?fr (rs_api ?s)" using put error(1) by simp
    obtain r s' where p: "persist env ?fr ?s = (r, s')" by fastforce
    have e: "R (rs_api s) (rs_api s')" using persist_R(1) [OF a, of env] p by simp
    show ?thesis
    proof (cases r)
      case (Inl x)
      then show ?thesis using error(3) p e by simp
    next
      case (Inr fr')
      then have f: "ok fr' (rs_api s')" using persist_R(2) [OF a] p by blast
      show ?thesis
      proof (cases "tolerated flow step")
        case True
        then have l: "inlineLoop env cfg flow sr ps (step # steps) fr sk s =
            inlineLoop env cfg flow sr ps steps fr' True s'" using error(3) p Inr by simp
        show ?thesis unfolding l using Cons.IH [OF f, of True] R_trans [OF e] by simp
      next
        case False
        then show ?thesis
          using error(3) p Inr R_trans [OF e failRun_R [OF f, of env]]
          by (simp add: case_prod_unfold)
      qed
    qed
  qed
qed

lemma applyResults_ok:
  "ok fr s \<Longrightarrow> \<forall>n \<in> set (map (\<lambda>r. ss_name (sr_status r)) rs). openStored s n \<Longrightarrow>
     ok (applyResults env rs fr) s"
  by (induction rs arbitrary: fr) (simp_all add: applyResults_simps ok_put)

lemma persist_then_R:
  assumes "ok fr (rs_api s)"
    and "\<And>s'. ok fr (rs_api s') \<Longrightarrow> R (rs_api s') (rs_api (snd (k fr s')))"
  shows "R (rs_api s)
     (rs_api (snd (case persist env fr s of (Inl e, s') \<Rightarrow> (Inl e, s') | (Inr fr', s') \<Rightarrow> k fr' s')))"
proof -
  obtain r s' where p: "persist env fr s = (r, s')" by fastforce
  have e: "R (rs_api s) (rs_api s')" using persist_R(1) [OF assms(1), of env] p by simp
  show ?thesis
  proof (cases r)
    case (Inl x)
    then show ?thesis using p e by simp
  next
    case (Inr fr')
    then have "fr' = fr \<and> ok fr (rs_api s')" using persist_R(2) [OF assms(1)] p by blast
    then show ?thesis using p Inr R_trans [OF e assms(2)] by simp
  qed
qed

lemma dispatchWave_R:
  assumes "ok fr (rs_api s)" and "\<forall>step \<in> set wave. openStep fr (fs_name step)"
  shows "R (rs_api s) (rs_api (snd (dispatchWave env cfg ctx flow sr ps wave fr s)))"
proof -
  obtain rs s1 where w: "runWave env cfg ctx flow fr sr ps wave s = (rs, s1)" by fastforce
  have f: "rs_api s1 = rs_api s" "map (\<lambda>r. ss_name (sr_status r)) rs = map fs_name wave"
    using runWave_frame [of env cfg ctx flow fr sr ps wave s] w by simp_all
  have a: "ok (applyResults env rs fr) (rs_api s1)"
    using applyResults_ok [of fr "rs_api s" rs env] assms ok_open f by auto
  have "R (rs_api s1)
      (rs_api (snd (case persist env (applyResults env rs fr) s1 of
         (Inl e, s2) \<Rightarrow> (Inl e, s2)
       | (Inr fr', s2) \<Rightarrow>
           (case firstFatal rs of Some m \<Rightarrow> failRun env fr' m s2 | None \<Rightarrow> (Inr Requeue, s2)))))"
    by (rule persist_then_R [OF a]) (simp add: failRun_R split: option.split)
  then show ?thesis using w f by (simp add: dispatchWave_def Let_def)
qed

lemma executeWaitStep_name:
  "executeWaitStep env fr step ss = Inr (d, ss') \<Longrightarrow> ss_name ss' = ss_name ss"
  by (auto simp: executeWaitStep_def split: option.splits sum.splits if_splits)

lemma waitBarrier_R:
  assumes "ok fr (rs_api s)" and "openStep fr (fs_name step)"
  shows "R (rs_api s) (rs_api (snd (waitBarrier env flow step fr s)))"
proof -
  have put: "ok (putStep ss fr) (rs_api s)" if "ss_name ss = fs_name step" for ss
    using put_open [OF assms(1)] assms(2) that by simp
  show ?thesis
    unfolding waitBarrier_def Let_def
    by (auto split: sum.split intro!: persist_then_R put failRun_R
        dest: executeWaitStep_name)
qed

text \<open>A reconcile of the steps either keeps the relation, or completes the run at a state where every step is
  terminal, or nothing is ready or running.\<close>

lemma ioWave_R:
  assumes "ok fr (rs_api s)"
  shows "R (rs_api s) (rs_api (snd (ioWave env cfg ctx flow sr ps anyRunning fr s))) \<or>
     collectWave flow fr = [] \<and> \<not> anyRunning \<and>
     ioWave env cfg ctx flow sr ps anyRunning fr s = completeRun env flow fr s"
proof -
  have w: "\<forall>step \<in> set (collectWave flow fr). openStep fr (fs_name step)"
    by (auto simp: collectWave_def intro: inWave_openStep)
  show ?thesis
  proof (cases "filter (\<lambda>step. sa_type (fs_action step) = stepActionWait) (collectWave flow fr)")
    case Nil
    then show ?thesis
      using dispatchWave_R [OF assms w, of env] R_same by (simp add: ioWave_def Let_def)
  next
    case (Cons step rest)
    then have "step \<in> set (collectWave flow fr)" by (metis filter_eq_ConsD in_set_conv_decomp)
    then show ?thesis using Cons waitBarrier_R [OF assms, of _ env flow] w by (auto simp: ioWave_def Let_def)
  qed
qed

lemma reconcileSteps_R:
  assumes "ok fr (rs_api s)"
  shows "R (rs_api s) (rs_api (snd (reconcileSteps env cfg flow fr s))) \<or>
     (\<exists>s1. ok fr (rs_api s1) \<and> R (rs_api s) (rs_api s1) \<and> runSettled flow fr \<and>
        reconcileSteps env cfg flow fr s = completeRun env flow fr s1)"
proof (cases "resolveFlowParams (ev_codec env) (fl_params flow) (frs_params (fr_spec fr))
    (stepResultsOf (st_steps (fr_status fr))) (frs_triggerData (fr_spec fr))")
  case (Inl e)
  then show ?thesis using failRun_R [OF assms, of env] by (simp add: reconcileSteps_def Let_def)
next
  case (Inr ps)
  let ?l = "inlineLoop env cfg flow (stepResultsOf (st_steps (fr_status fr))) ps (fl_steps flow) fr False s"
  obtain r s1 where l: "?l = (r, s1)" by fastforce
  have e: "R (rs_api s) (rs_api s1)"
    and d: "\<And>fr1 b. r = InlineDone fr1 b \<Longrightarrow> ok fr1 (rs_api s1)"
    using inlineLoop_R [OF assms, of env cfg flow "stepResultsOf (st_steps (fr_status fr))" ps "fl_steps flow" False]
      l by auto
  have p: "R (rs_api s) (snd (getRun (ev_api env) (rs_api (snd (persist env fr1 s1)))))"
      "R (rs_api s) (rs_api (snd (persist env fr1 s1)))" if "r = InlineDone fr1 b" for fr1 b
    using R_trans [OF e persist_R(1) [OF d [OF that], of env]] R_trans [OF _ R_same [OF getRun_frame(1)]] by blast+
  show ?thesis
  proof (cases "allStepsTerminal flow fr")
    case True
    then show ?thesis using Inr assms R_same by (auto simp: reconcileSteps_def runSettled_def)
  next
    case False
    show ?thesis
    proof (cases r)
      case (InlineReturn x)
      then show ?thesis using False Inr l e by (simp add: reconcileSteps_def)
    next
      case (InlineDone fr1 b)
      show ?thesis
      proof (cases b)
        case True
        then show ?thesis using False Inr l InlineDone p [OF InlineDone]
          by (auto simp: reconcileSteps_def Let_def case_prod_unfold split: sum.split)
      next
        case nb: False
        then have l2: "?l = (InlineDone fr1 False, s1)" using l InlineDone by simp
        have "fr1 = fr" using inlineLoop_unchanged [OF l2] by simp
        then show ?thesis
          using False Inr l InlineDone nb ioWave_R [OF d [OF InlineDone], of env cfg _ flow _ ps "anyStepRunning flow fr"]
            R_trans [OF e] e d [OF InlineDone]
          by (fastforce simp: reconcileSteps_def Let_def runSettled_def)
      qed
    qed
  qed
qed

end

section \<open>Completion and start\<close>

lemma succeededRun_simps [simp]:
  "st_phase (fr_status (succeededRun setCond now fr)) = FlowRunPhaseSucceeded"
  "st_steps (fr_status (succeededRun setCond now fr)) = st_steps (fr_status fr)"
  by (simp_all add: succeededRun_def setFlowRunCondition_def Let_def)

lemma completeRun_evolves:
  assumes "active fr (rs_api s)"
  shows "storeEvolves (rs_api s) (rs_api (snd (completeRun env flow fr s)))"
proof -
  let ?fr = "succeededRun (ev_setCondition env) (ev_now env CkFinish) fr"
  obtain a where a: "as_run (rs_api s) = Some a" using assms by (auto simp: active_def)
  obtain r s' where u: "updateStatus (ev_api env) ?fr (rs_api s) = (r, s')" by fastforce
  have st: "statusEvolves (fr_status a) (fr_status ?fr)"
    using active_finish [OF assms a, of "fr_status ?fr"] by simp
  then have e: "storeEvolves (rs_api s) s'" using updateStatus_evolves [OF a st, of "ev_api env"] u by simp
  have "storeEvolves s' (snd (updateMeta (ev_api env) fr' s'))" if "r = Inr x" for x fr'
    using updateMeta_evolves updateStatus_Inr [OF _ a] u that by fastforce
  then show ?thesis
    using u e failRun_evolves [OF assms, of env] storeEvolves_trans [OF e]
    by (auto simp: completeRun_def persist_def Let_def case_prod_unfold split: option.split sum.split)
qed

interpretation evolution: run_relation active storeEvolves
proof
  show "storeEvolves s s'" if "as_run s' = as_run s" for s s'
    using that by (simp add: storeEvolves_def split: option.split)
  show "storeEvolves s s''" if "storeEvolves s s'" "storeEvolves s' s''" for s s' s''
    using that by (rule storeEvolves_trans)
  show "openStored s n" if "active fr s" "openStep fr n" for fr s n
    using that by (rule active_openStored)
  show "active (putStep ss fr) s" if "active fr s" "openStored s (ss_name ss)" for fr s ss
    using that by (rule active_putStep)
  show "storeEvolves s (snd (updateStatus api fr s))" if "active fr s" for api fr s
    using that updateStatus_evolves by (auto simp: active_def)
  show "fr' = fr \<and> active fr s'" if "active fr s" "updateStatus api fr s = (Inr fr', s')" for api fr s fr' s'
    using updateStatus_active [OF that] .
  show "storeEvolves s (snd (failFlowRun api setCond now fr m s))" if "active fr s" for api setCond now fr m s
    unfolding failFlowRun_def using finishFlowRun_evolves [OF that] by simp
qed

lemma reconcileSteps_evolves:
  assumes "active fr (rs_api s)"
  shows "storeEvolves (rs_api s) (rs_api (snd (reconcileSteps env cfg flow fr s)))"
  using evolution.reconcileSteps_R [OF assms, of env cfg flow] completeRun_evolves storeEvolves_trans by metis

lemma startedRun_simps [simp]:
  "st_phase (fr_status (startedRun setCond now fr)) = FlowRunPhaseRunning"
  "st_steps (fr_status (startedRun setCond now fr)) = st_steps (fr_status fr)"
  "fr_finalizers (startedRun setCond now fr) = fr_finalizers fr"
  "fr_spec (startedRun setCond now fr) = fr_spec fr"
  by (simp_all add: startedRun_def setFlowRunCondition_def)

text \<open>A freshly read FlowRun that is not terminal is active.\<close>

lemma active_read:
  "as_run s = Some fr \<Longrightarrow> \<not> runTerminal (st_phase (fr_status fr)) \<Longrightarrow> active fr s"
  by (simp add: active_def guarded_def)

lemma startedRun_active:
  assumes "as_run s = Some a" and "fr_status a = fr_status fr" and "\<not> runTerminal (st_phase (fr_status fr))"
    and "containsString (fr_finalizers a) executingFinalizer"
  shows "active (startedRun setCond now fr) s"
proof -
  have "active fr s" using assms by (simp add: active_def)
  from active_finish [OF this assms(1), of "fr_status (startedRun setCond now fr)"]
  show ?thesis using assms by (simp add: active_def)
qed

lemma startRun_evolves:
  assumes "as_run (rs_api s) = Some fr" and "\<not> runTerminal (st_phase (fr_status fr))"
  shows "storeEvolves (rs_api s) (rs_api (snd (startRun env fr s)))"
    and "startRun env fr s = (Inr fr1, s1) \<Longrightarrow> active fr1 (rs_api s1)"
proof -
  let ?fr = "fr\<lparr>fr_finalizers := fr_finalizers fr @ [executingFinalizer]\<rparr>"
  let ?st = "startedRun (ev_setCondition env) (ev_now env CkStart)"
  have fin: "containsString (fr_finalizers ?fr) executingFinalizer" by (simp add: containsString_def)
  have goal: "storeEvolves (rs_api s) (rs_api (snd (startRun env fr s))) \<and>
      (\<forall>fr1 s1. startRun env fr s = (Inr fr1, s1) \<longrightarrow> active fr1 (rs_api s1))"
  proof (cases "st_phase (fr_status fr) = FlowRunPhaseUnset \<or> st_phase (fr_status fr) = FlowRunPhasePending")
    case False
    then show ?thesis using active_read [OF assms] by (simp add: startRun_def)
  next
    case start: True
    show ?thesis
    proof (cases "containsString (fr_finalizers fr) executingFinalizer")
      case True
      then have "startRun env fr s = persist env (?st fr) s" using start by (simp add: startRun_def)
      moreover have "active (?st fr) (rs_api s)" using startedRun_active [OF assms(1) refl assms(2) True] .
      ultimately show ?thesis using evolution.persist_R [of "?st fr" s env] by metis
    next
      case False
      obtain r a where u: "updateMeta (ev_api env) ?fr (rs_api s) = (r, a)" by fastforce
      have e: "storeEvolves (rs_api s) a"
        using updateMeta_evolves [OF assms(1), of ?fr "ev_api env"] u fin by simp
      show ?thesis
      proof (cases r)
        case (Inl x)
        then show ?thesis using start False u e by (auto simp: startRun_def)
      next
        case (Inr fr2)
        have m: "fr2 = ?fr" "as_run a = None \<or> (\<exists>b. as_run a = Some b \<and> fr_status b = fr_status fr \<and>
             fr_finalizers b = fr_finalizers ?fr)"
          using updateMeta_Inr [OF _ assms(1)] u Inr by force+
        have eq: "startRun env fr s = persist env (?st ?fr) (s\<lparr>rs_api := a\<rparr>)"
          using start False u Inr m(1) by (simp add: startRun_def)
        from m(2) show ?thesis
        proof
          assume "as_run a = None"
          then show ?thesis using eq e by (simp add: persist_def updateStatus_def)
        next
          assume "\<exists>b. as_run a = Some b \<and> fr_status b = fr_status fr \<and> fr_finalizers b = fr_finalizers ?fr"
          then have "active (?st ?fr) (rs_api (s\<lparr>rs_api := a\<rparr>))"
            using startedRun_active [of a _ ?fr] assms(2) fin by auto
          from evolution.persist_R [OF this, of env] show ?thesis
            using eq storeEvolves_trans [OF e] by auto
        qed
      qed
    qed
  qed
  show "storeEvolves (rs_api s) (rs_api (snd (startRun env fr s)))" using goal by blast
  show "active fr1 (rs_api s1)" if "startRun env fr s = (Inr fr1, s1)" using goal that by blast
qed

section \<open>Garbage collection\<close>

text \<open>Garbage collection changes nothing of the stored run but its deletion mark, and the object disappears
  only when no finalizer holds it.\<close>

definition onlyMarks :: "apiState \<Rightarrow> apiState \<Rightarrow> bool" where
  "onlyMarks s s' \<longleftrightarrow>
     (case as_run s of
        None \<Rightarrow> as_run s' = None
      | Some a \<Rightarrow> (as_run s' = None \<and> fr_finalizers a = []) \<or>
                  (\<exists>d. as_run s' = Some (a\<lparr>fr_deletionTimestamp := d\<rparr>)))"

lemma onlyMarks_refl [simp]:
  assumes "as_run s' = as_run s"
  shows "onlyMarks s s'"
proof -
  have "\<exists>d. a = a\<lparr>fr_deletionTimestamp := d\<rparr>" for a :: flowRun by (rule exI [of _ "fr_deletionTimestamp a"]) simp
  then show ?thesis using assms by (simp add: onlyMarks_def split: option.split)
qed

lemma onlyMarks_trans: "onlyMarks s s' \<Longrightarrow> onlyMarks s' s'' \<Longrightarrow> onlyMarks s s''"
  by (auto simp: onlyMarks_def split: option.splits)

lemma onlyMarks_evolves:
  assumes "onlyMarks s s'"
  shows "storeEvolves s s'"
proof -
  have "runEvolves a (a\<lparr>fr_deletionTimestamp := d\<rparr>)" for a d by (simp add: runEvolves_def guarded_def)
  then show ?thesis using assms by (auto simp: onlyMarks_def storeEvolves_def split: option.splits)
qed

lemma removeRun_onlyMarks: "onlyMarks s (removeRun now fr s)"
proof (cases "as_run s")
  case None
  then show ?thesis by (simp add: onlyMarks_def removeRun_def)
next
  case (Some a)
  have "\<exists>d. markDeleted now a = a\<lparr>fr_deletionTimestamp := d\<rparr>" "\<exists>d. a = a\<lparr>fr_deletionTimestamp := d\<rparr>"
    by (auto simp: markDeleted_def intro: exI [of _ "fr_deletionTimestamp a"])
  then show ?thesis using Some by (auto simp: onlyMarks_def removeRun_def afterDelete_def)
qed

lemma deleteRun_onlyMarks: "onlyMarks s (snd (deleteRun api now fr s))"
proof -
  have "onlyMarks (s\<lparr>as_requests := n\<rparr>) t \<Longrightarrow> onlyMarks s t" for n t by (simp add: onlyMarks_def)
  then show ?thesis
    using deleteRun_effect [of api now fr s] removeRun_onlyMarks by (metis onlyMarks_refl apiState.select_convs(1)
        apiState.surjective apiState.update_convs(3))
qed

lemma deleteRuns_onlyMarks: "onlyMarks s (snd (deleteRuns api now frs s))"
proof (induction frs arbitrary: s)
  case Nil
  then show ?case by simp
next
  case (Cons fr frs)
  obtain r s' where d: "deleteRun api now fr s = (r, s')" by fastforce
  have "onlyMarks s s'" using deleteRun_onlyMarks [of s api now fr] d by simp
  then show ?case using Cons [of s'] d onlyMarks_trans by (auto split: sum.split)
qed

lemma enforceMax_onlyMarks: "onlyMarks s (snd (enforceMaxFlowRunsByPhase api now tn ns ph m s))"
proof -
  obtain r s' where p: "performRequest api (\<lambda>s. s) () s = (r, s')" by fastforce
  then have "as_run s' = as_run s" by (auto simp: performRequest_def Let_def split: apiOutcome.splits)
  then have "onlyMarks s s'" by simp
  then show ?thesis
    using p onlyMarks_trans [OF _ deleteRuns_onlyMarks]
    by (auto simp: enforceMaxFlowRunsByPhase_def Let_def split: sum.split)
qed

lemma enforcePolicy_onlyMarks: "onlyMarks s (snd (enforceFlowRunGCPolicy api now tn ns gc s))"
  using enforceMax_onlyMarks onlyMarks_trans [OF enforceMax_onlyMarks enforceMax_onlyMarks]
  by (auto simp: enforceFlowRunGCPolicy_def case_prod_unfold split: option.split sum.split)

lemma gcExpire_onlyMarks: "onlyMarks s (snd (gcExpire api now ttl fr s))"
  using deleteRun_onlyMarks
  by (auto simp: gcExpire_def Let_def case_prod_unfold split: option.split sum.split)

lemma reconcileGC_onlyMarks: "onlyMarks s (snd (reconcileGC api now cfg policyOf fr s))"
  using enforcePolicy_onlyMarks gcExpire_onlyMarks onlyMarks_trans [OF enforcePolicy_onlyMarks gcExpire_onlyMarks]
  by (auto simp: reconcileGC_def case_prod_unfold split: option.split sum.split)

section \<open>Reconcile\<close>

lemma reconcileActive_evolves:
  assumes "as_run (rs_api s) = Some fr" and "\<not> runTerminal (st_phase (fr_status fr))"
  shows "storeEvolves (rs_api s) (rs_api (snd (reconcileActive env cfg fr s)))"
proof (cases "ev_flow env (fr_namespace fr) (frs_flowRef (fr_spec fr))")
  case (Inl e)
  then show ?thesis using failRun_evolves [OF active_read [OF assms], of env] by (simp add: reconcileActive_def)
next
  case (Inr flow)
  let ?s = "s\<lparr>rs_publish := (rs_publish s)\<lparr>ps_cache := Map.empty\<rparr>\<rparr>"
  obtain r s1 where st: "startRun env fr ?s = (r, s1)" by fastforce
  have e: "storeEvolves (rs_api s) (rs_api s1)" and a: "\<And>fr1. r = Inr fr1 \<Longrightarrow> active fr1 (rs_api s1)"
    using startRun_evolves [of ?s fr env] assms st by auto
  show ?thesis
  proof (cases r)
    case (Inl x)
    then show ?thesis using Inr st e by (simp add: reconcileActive_def)
  next
    case fr1: (Inr fr1)
    from storeEvolves_trans [OF e reconcileSteps_evolves [OF a [OF fr1], of env]]
      storeEvolves_trans [OF e failRun_evolves [OF a [OF fr1], of env]]
    show ?thesis using Inr st fr1 by (simp add: reconcileActive_def)
  qed
qed

lemma Reconcile_storeEvolves: "storeEvolves (rs_api s) (rs_api (snd (Reconcile env cfg s)))"
proof -
  obtain r a where g: "getRun (ev_api env) (rs_api s) = (r, a)" by fastforce
  have run: "as_run a = as_run (rs_api s)" using getRun_frame(1) [of "ev_api env" "rs_api s"] g by simp
  then have ga: "storeEvolves (rs_api s) t" if "storeEvolves a t" for t
    using that by (cases "as_run t") (simp_all add: storeEvolves_def)
  show ?thesis
  proof (cases r)
    case (Inl e)
    then show ?thesis using g run ga [OF storeEvolves_refl] by (simp add: Reconcile_def)
  next
    case (Inr fr)
    let ?s = "s\<lparr>rs_api := a\<rparr>"
    have fr: "as_run a = Some fr" using getRun_frame(2) [of "ev_api env" "rs_api s"] g Inr run by simp
    have c: "storeEvolves a (rs_api (snd (cancelRun env fr m ?s)))" if "st_phase (fr_status fr) = FlowRunPhaseRunning" for m
      using cancelRun_evolves [of fr ?s env m] active_read [OF fr] that by simp
    have gc: "storeEvolves a (snd (reconcileGC (ev_api env) (ev_now env CkGC) (rc_gc cfg) (ev_gcPolicy env) fr a))"
      by (rule onlyMarks_evolves [OF reconcileGC_onlyMarks])
    show ?thesis
      using g Inr ga c gc reconcileActive_evolves [of ?s fr env cfg] fr
      by (auto simp: Reconcile_def Let_def case_prod_unfold split: sum.split)
  qed
qed

end
