(* ===== verification/FlowRunOutcome.thy ===== *)
theory FlowRunOutcome
  imports FlowRunInvariants
begin

text \<open>
  What the terminal phases of a FlowRun mean: a run is Cancelled only on request, and a run is Succeeded
  only when no step is left that could run and no failed step is fatal. With an acyclic Flow that
  means that every step has settled.
\<close>

section \<open>New outcomes\<close>

definition keepsOutcome :: "apiState \<Rightarrow> apiState \<Rightarrow> bool" where
  "keepsOutcome s s' \<longleftrightarrow>
     (case as_run s' of
        None \<Rightarrow> True
      | Some b \<Rightarrow> st_phase (fr_status b) \<in> {FlowRunPhaseSucceeded, FlowRunPhaseCancelled} \<longrightarrow>
                  (\<exists>a. as_run s = Some a \<and> st_phase (fr_status a) = st_phase (fr_status b)))"

lemma keepsOutcomeI:
  assumes "as_run s' = as_run s \<or> as_run s' = None \<or>
     (\<exists>b. as_run s' = Some b \<and> st_phase (fr_status b) \<notin> {FlowRunPhaseSucceeded, FlowRunPhaseCancelled}) \<or>
     (\<exists>a b. as_run s = Some a \<and> as_run s' = Some b \<and> fr_status b = fr_status a)"
  shows "keepsOutcome s s'"
  using assms by (auto simp: keepsOutcome_def split: option.split)

lemma keepsOutcome_trans: "keepsOutcome s s' \<Longrightarrow> keepsOutcome s' s'' \<Longrightarrow> keepsOutcome s s''"
  by (cases "as_run s''"; cases "as_run s'") (auto simp: keepsOutcome_def)

lemma updateStatus_cases:
  "as_run (snd (updateStatus api fr s)) = as_run s \<or>
   (\<exists>a. as_run s = Some a \<and> as_run (snd (updateStatus api fr s)) = Some (a\<lparr>fr_status := fr_status fr\<rparr>))"
proof (cases "as_run s")
  case None
  then show ?thesis by (simp add: updateStatus_def)
next
  case (Some a)
  then show ?thesis
    using performRequest_snd [of api "\<lambda>s. s\<lparr>as_run := Some (a\<lparr>fr_status := fr_status fr\<rparr>)\<rparr>" fr s]
    by (auto simp: updateStatus_def)
qed

lemma updateMeta_cases:
  "as_run (snd (updateMeta api fr s)) = as_run s \<or> as_run (snd (updateMeta api fr s)) = None \<or>
   (\<exists>a b. as_run s = Some a \<and> as_run (snd (updateMeta api fr s)) = Some b \<and> fr_status b = fr_status a)"
proof (cases "as_run s")
  case None
  then show ?thesis by (simp add: updateMeta_def)
next
  case (Some a)
  then show ?thesis
    using performRequest_snd [of api _ "fr\<lparr>fr_status := fr_status a\<rparr>" s]
    by (auto simp: updateMeta_def performRequest_def Let_def split: apiOutcome.split)
qed

lemma status_then_meta:
  assumes "as_run s' = Some b" and "as_run s' = as_run u \<or> (\<exists>f. s' = snd (updateMeta api f u))"
  shows "\<exists>c. as_run u = Some c \<and> fr_status b = fr_status c"
  using assms(2)
proof
  assume "as_run s' = as_run u"
  then show ?thesis using assms(1) by (intro exI [of _ b]) simp
next
  assume "\<exists>f. s' = snd (updateMeta api f u)"
  then obtain f where "s' = snd (updateMeta api f u)" by blast
  then show ?thesis using updateMeta_cases [of api f u] assms(1) by (cases "as_run u") auto
qed

lemma updateStatus_outcome:
  "st_phase (fr_status fr) \<notin> {FlowRunPhaseSucceeded, FlowRunPhaseCancelled} \<Longrightarrow>
     keepsOutcome s (snd (updateStatus api fr s))"
  using updateStatus_cases [of api fr s] by (intro keepsOutcomeI) auto

lemma updateMeta_outcome: "keepsOutcome s (snd (updateMeta api fr s))"
  using updateMeta_cases [of api fr s] by (intro keepsOutcomeI) auto

lemma failFlowRun_outcome: "keepsOutcome s (snd (failFlowRun api setCond now fr m s))"
proof -
  let ?fr = "finishedRun setCond now FlowRunPhaseFailed ''FlowRunFailed'' m fr"
  have "keepsOutcome s (snd (updateStatus api ?fr s))" by (rule updateStatus_outcome) simp
  then show ?thesis
    using keepsOutcome_trans [OF _ updateMeta_outcome]
    by (simp add: failFlowRun_def finishFlowRun_def case_prod_unfold split: sum.split)
qed

interpretation outcome: run_relation active keepsOutcome
proof
  show "keepsOutcome s s'" if "as_run s' = as_run s" for s s'
    using that by (simp add: keepsOutcomeI)
  show "keepsOutcome s s''" if "keepsOutcome s s'" "keepsOutcome s' s''" for s s' s''
    using that by (rule keepsOutcome_trans)
  show "openStored s n" if "active fr s" "openStep fr n" for fr s n
    using that by (rule active_openStored)
  show "active (putStep ss fr) s" if "active fr s" "openStored s (ss_name ss)" for fr s ss
    using that by (rule active_putStep)
  show "keepsOutcome s (snd (updateStatus api fr s))" if "active fr s" for api fr s
    by (rule updateStatus_outcome) (use active_not_terminal [OF that] in auto)
  show "fr' = fr \<and> active fr s'" if "active fr s" "updateStatus api fr s = (Inr fr', s')" for api fr s fr' s'
    using updateStatus_active [OF that] .
  show "keepsOutcome s (snd (failFlowRun api setCond now fr m s))" if "active fr s" for api setCond now fr m s
    by (rule failFlowRun_outcome)
qed

lemma startRun_outcome: "keepsOutcome (rs_api s) (rs_api (snd (startRun env fr s)))"
proof -
  have p: "keepsOutcome a (rs_api (snd (persist env (startedRun c t f) (s\<lparr>rs_api := a\<rparr>))))" for a c t f
    using updateStatus_outcome [of "startedRun c t f" a "ev_api env"] by (simp add: persist_def case_prod_unfold)
  have q: "keepsOutcome (rs_api s) (rs_api (snd (persist env (startedRun c t f) s)))" for c t f
    using updateStatus_outcome [of "startedRun c t f" "rs_api s" "ev_api env"] by (simp add: persist_def case_prod_unfold)
  show ?thesis
    using keepsOutcome_trans [OF updateMeta_outcome p] updateMeta_outcome q
    by (auto simp: startRun_def case_prod_unfold split: sum.split)
qed

section \<open>How a reconcile of a run that is not terminal ends\<close>

lemma reconcileActive_outcome:
  assumes "as_run (rs_api s) = Some fr" and "\<not> runTerminal (st_phase (fr_status fr))"
  shows "keepsOutcome (rs_api s) (rs_api (snd (reconcileActive env cfg fr s))) \<or>
    (\<exists>flow fr1 s2. ev_flow env (fr_namespace fr) (frs_flowRef (fr_spec fr)) = Inr flow \<and>
       active fr1 (rs_api s2) \<and> runSettled flow fr1 \<and> reconcileActive env cfg fr s = completeRun env flow fr1 s2)"
proof (cases "ev_flow env (fr_namespace fr) (frs_flowRef (fr_spec fr))")
  case (Inl e)
  then show ?thesis
    using outcome.failRun_R [OF active_read [OF assms], of env] by (simp add: reconcileActive_def)
next
  case (Inr flow)
  let ?s = "s\<lparr>rs_publish := (rs_publish s)\<lparr>ps_cache := Map.empty\<rparr>\<rparr>"
  obtain r s1 where st: "startRun env fr ?s = (r, s1)" by fastforce
  have o: "keepsOutcome (rs_api s) (rs_api s1)" using startRun_outcome [of ?s env fr] st by simp
  show ?thesis
  proof (cases r)
    case (Inl x)
    then show ?thesis using Inr st o by (simp add: reconcileActive_def)
  next
    case fr1: (Inr fr1)
    then have a: "active fr1 (rs_api s1)" using startRun_evolves(2) [of ?s fr env] assms st by simp
    show ?thesis
      using outcome.reconcileSteps_R [OF a, of env cfg flow] outcome.failRun_R [OF a, of env] keepsOutcome_trans [OF o]
        Inr st fr1 by (auto simp: reconcileActive_def)
  qed
qed

lemma completeRun_outcome:
  assumes "active fr (rs_api s)" and "as_run (rs_api (snd (completeRun env flow fr s))) = Some b"
  shows "st_phase (fr_status b) \<noteq> FlowRunPhaseCancelled"
    and "st_phase (fr_status b) = FlowRunPhaseSucceeded \<Longrightarrow>
           fatalFailure flow (st_steps (fr_status fr)) = None \<and> st_steps (fr_status b) = st_steps (fr_status fr)"
proof -
  obtain a where a: "as_run (rs_api s) = Some a" "\<not> runTerminal (st_phase (fr_status a))"
    using assms(1) statusEvolvesD(1) by (fastforce simp: active_def)
  have "st_phase (fr_status b) \<noteq> FlowRunPhaseCancelled \<and> (st_phase (fr_status b) = FlowRunPhaseSucceeded \<longrightarrow>
           fatalFailure flow (st_steps (fr_status fr)) = None \<and> st_steps (fr_status b) = st_steps (fr_status fr))"
  proof (cases "fatalFailure flow (st_steps (fr_status fr))")
    case (Some m)
    then have "keepsOutcome (rs_api s) (rs_api (snd (completeRun env flow fr s)))"
      using outcome.failRun_R [OF assms(1), of env] by (simp add: completeRun_def)
    then show ?thesis using assms(2) a by (auto simp: keepsOutcome_def)
  next
    case None
    let ?fr = "succeededRun (ev_setCondition env) (ev_now env CkFinish) fr"
    let ?u = "updateStatus (ev_api env) ?fr (rs_api s)"
    have u: "as_run (snd ?u) = Some a \<or> as_run (snd ?u) = Some (a\<lparr>fr_status := fr_status ?fr\<rparr>)"
      using updateStatus_cases [of "ev_api env" ?fr "rs_api s"] a(1) by auto
    have "as_run (rs_api (snd (completeRun env flow fr s))) = as_run (snd ?u) \<or>
        (\<exists>f. rs_api (snd (completeRun env flow fr s)) = snd (updateMeta (ev_api env) f (snd ?u)))"
      using None by (auto simp: completeRun_def persist_def Let_def case_prod_unfold split: sum.split)
    then have "\<exists>c. as_run (snd ?u) = Some c \<and> fr_status b = fr_status c"
      by (rule status_then_meta [OF assms(2)])
    then show ?thesis using u None a by auto
  qed
  then show "st_phase (fr_status b) \<noteq> FlowRunPhaseCancelled"
    and "st_phase (fr_status b) = FlowRunPhaseSucceeded \<Longrightarrow>
           fatalFailure flow (st_steps (fr_status fr)) = None \<and> st_steps (fr_status b) = st_steps (fr_status fr)"
    by blast+
qed

lemma cancelRun_not_succeeded:
  assumes "active fr (rs_api s)" and "as_run (rs_api (snd (cancelRun env fr m s))) = Some b"
  shows "st_phase (fr_status b) \<noteq> FlowRunPhaseSucceeded"
proof -
  let ?fr = "finishedRun (ev_setCondition env) (ev_now env CkCancel) FlowRunPhaseCancelled ''FlowRunCancelled'' m fr"
  let ?u = "updateStatus (ev_api env) ?fr (rs_api s)"
  obtain a where a: "as_run (rs_api s) = Some a" "\<not> runTerminal (st_phase (fr_status a))"
    using assms(1) statusEvolvesD(1) by (fastforce simp: active_def)
  have u: "as_run (snd ?u) = Some a \<or> as_run (snd ?u) = Some (a\<lparr>fr_status := fr_status ?fr\<rparr>)"
    using updateStatus_cases [of "ev_api env" ?fr "rs_api s"] a(1) by auto
  have "as_run (rs_api (snd (cancelRun env fr m s))) = as_run (snd ?u) \<or>
      (\<exists>f. rs_api (snd (cancelRun env fr m s)) = snd (updateMeta (ev_api env) f (snd ?u)))"
    by (auto simp: cancelRun_api finishFlowRun_def case_prod_unfold split: sum.split)
  then have "\<exists>c. as_run (snd ?u) = Some c \<and> fr_status b = fr_status c"
    by (rule status_then_meta [OF assms(2)])
  then show ?thesis using u a by auto
qed

section \<open>Settled runs\<close>

text \<open>The outcome of a step that does not stop its successors.\<close>

definition stepSettled :: "flowSpec \<Rightarrow> stepRunStatus list \<Rightarrow> flowStep \<Rightarrow> bool" where
  "stepSettled flow statuses step \<longleftrightarrow>
     (case findStepStatus statuses (fs_name step) of
        None \<Rightarrow> False
      | Some x \<Rightarrow> ss_phase x = StepPhaseSucceeded \<or> ss_phase x = StepPhaseSkipped \<or>
                  (ss_phase x = StepPhaseFailed \<and> tolerated flow step))"

text \<open>A Flow without cycles: names are unique and every dependency is a step of smaller rank.\<close>

definition rankedFlow :: "(string \<Rightarrow> nat) \<Rightarrow> flowSpec \<Rightarrow> bool" where
  "rankedFlow rank flow \<longleftrightarrow>
     distinct (map fs_name (fl_steps flow)) \<and>
     list_all (\<lambda>step. list_all (\<lambda>dep. dep \<in> fs_name ` set (fl_steps flow) \<and> rank dep < rank (fs_name step))
                        (fs_runAfter step)) (fl_steps flow)"

lemma fatalFailure_None:
  assumes "fatalFailure flow sss = None" and "ss \<in> set sss" and "ss_phase ss = StepPhaseFailed"
    and "step \<in> set (fl_steps flow)" and "fs_name step = ss_name ss"
  shows "tolerated flow step"
  using assms(1,2)
proof (induction sss)
  case Nil
  then show ?case by simp
next
  case (Cons x xs)
  then show ?case using assms(3-5) by (auto simp: list_ex_iff split: if_splits)
qed

lemma terminal_settled:
  assumes "fatalFailure flow statuses = None" and "step \<in> set (fl_steps flow)"
    and "findStepStatus statuses (fs_name step) = Some x" and "stepTerminal (ss_phase x)"
  shows "stepSettled flow statuses step"
  using assms fatalFailure_None [OF assms(1) _ _ assms(2)] findStepStatus_Some_in [OF assms(3)]
  by (auto simp: stepSettled_def stepTerminal_def)

lemma settled_depSatisfied:
  assumes "distinct (map fs_name (fl_steps flow))" and "step \<in> set (fl_steps flow)" and "stepSettled flow statuses step"
  shows "depSatisfied statuses (fl_steps flow) (policyContinues flow) (fs_name step)"
  using assms(3) findFlowStep_distinct [OF assms(1,2)]
  by (auto simp: stepSettled_def depSatisfied_def tolerated_def policyContinues_def Let_def split: option.splits)

lemma blocked_settled:
  assumes "rankedFlow rank flow" and "collectWave flow fr = []" and "\<not> anyStepRunning flow fr"
    and "fatalFailure flow (st_steps (fr_status fr)) = None" and "step \<in> set (fl_steps flow)"
  shows "stepSettled flow (st_steps (fr_status fr)) step"
  using assms(5)
proof (induction "rank (fs_name step)" arbitrary: step rule: less_induct)
  case less
  have "depSatisfied (st_steps (fr_status fr)) (fl_steps flow) (policyContinues flow) dep"
    if "dep \<in> set (fs_runAfter step)" for dep
  proof -
    have "dep \<in> fs_name ` set (fl_steps flow)" "rank dep < rank (fs_name step)"
      using assms(1) less.prems that by (auto simp: rankedFlow_def list_all_iff)
    then obtain d where d: "d \<in> set (fl_steps flow)" "dep = fs_name d" "rank dep < rank (fs_name step)" by auto
    then show ?thesis using settled_depSatisfied less.hyps assms(1) by (auto simp: rankedFlow_def)
  qed
  then have ready: "readyStep flow fr step" by (simp add: readyStep_def dependenciesMet_iff list_all_iff)
  have "\<not> inWave flow fr step" using assms(2) less.prems by (simp add: collectWave_def filter_empty_conv)
  then obtain x where x: "findStepStatus (st_steps (fr_status fr)) (fs_name step) = Some x"
      "ss_phase x \<noteq> StepPhaseUnset" "ss_phase x \<noteq> StepPhasePending"
    using ready by (auto simp: inWave_def Let_def notStarted_def split: option.splits)
  then have "stepTerminal (ss_phase x)"
    using assms(3) less.prems by (cases "ss_phase x") (auto simp: anyStepRunning_def list_ex_iff split: option.splits)
  then show ?case using terminal_settled [OF assms(4) less.prems x(1)] by simp
qed

lemma runSettled_settled:
  assumes "rankedFlow rank flow" and "runSettled flow fr"
    and "fatalFailure flow (st_steps (fr_status fr)) = None" and "step \<in> set (fl_steps flow)"
  shows "stepSettled flow (st_steps (fr_status fr)) step"
proof (cases "allStepsTerminal flow fr")
  case True
  then show ?thesis
    using terminal_settled [OF assms(3,4)] assms(4) by (auto simp: allStepsTerminal_def list_all_iff split: option.splits)
next
  case False
  then show ?thesis using blocked_settled [OF assms(1) _ _ assms(3,4)] assms(2) by (simp add: runSettled_def)
qed

section \<open>Properties\<close>

abbreviation afterRead :: "('a, 'p) reconEnv \<Rightarrow> 'p reconState \<Rightarrow> 'p reconState" where
  "afterRead env s \<equiv> s\<lparr>rs_api := snd (getRun (ev_api env) (rs_api s))\<rparr>"

lemma Reconcile_cases:
  assumes "as_run (rs_api s) = Some a"
  obtains
    (unread) e where "Reconcile env cfg s = (e, afterRead env s)"
  | (cancel) m where "st_phase (fr_status a) = FlowRunPhaseRunning" "fr_deletionTimestamp a \<noteq> None \<or> cancelRequested a"
      "Reconcile env cfg s = cancelRun env a m (afterRead env s)"
  | (collect) r where "runTerminal (st_phase (fr_status a))"
      "Reconcile env cfg s = (r, s\<lparr>rs_api := snd (reconcileGC (ev_api env) (ev_now env CkGC) (rc_gc cfg) (ev_gcPolicy env) a
         (snd (getRun (ev_api env) (rs_api s))))\<rparr>)"
  | (act) "\<not> runTerminal (st_phase (fr_status a))" "as_run (rs_api (afterRead env s)) = Some a"
      "st_phase (fr_status a) \<noteq> FlowRunPhaseRunning \<or> fr_deletionTimestamp a = None \<and> \<not> cancelRequested a"
      "Reconcile env cfg s = reconcileActive env cfg a (afterRead env s)"
proof (cases "fst (getRun (ev_api env) (rs_api s))")
  case (Inl e)
  then have "Reconcile env cfg s = (if e = NotFound then Inr Done else Inl e, afterRead env s)"
    by (simp add: Reconcile_def case_prod_unfold)
  then show ?thesis by (rule unread)
next
  case (Inr fr)
  then have fr: "fr = a" using getRun_frame(2) [OF Inr] assms by simp
  let ?gc = "reconcileGC (ev_api env) (ev_now env CkGC) (rc_gc cfg) (ev_gcPolicy env) a
         (snd (getRun (ev_api env) (rs_api s)))"
  consider (c1) "fr_deletionTimestamp a \<noteq> None \<and> st_phase (fr_status a) = FlowRunPhaseRunning"
    | (c2) "\<not> (fr_deletionTimestamp a \<noteq> None \<and> st_phase (fr_status a) = FlowRunPhaseRunning)"
        "st_phase (fr_status a) = FlowRunPhaseRunning \<and> cancelRequested a"
    | (c3) "runTerminal (st_phase (fr_status a))"
    | (c4) "\<not> runTerminal (st_phase (fr_status a))"
        "st_phase (fr_status a) \<noteq> FlowRunPhaseRunning \<or> fr_deletionTimestamp a = None \<and> \<not> cancelRequested a"
    by argo
  then show ?thesis
  proof cases
    case c1
    then show ?thesis using cancel Inr fr by (simp add: Reconcile_def case_prod_unfold Let_def)
  next
    case c2
    then show ?thesis using cancel Inr fr by (simp add: Reconcile_def case_prod_unfold Let_def)
  next
    case c3
    then have nr: "st_phase (fr_status a) \<noteq> FlowRunPhaseRunning" by auto
    obtain r t where gc: "?gc = (r, t)" by fastforce
    have "Reconcile env cfg s = (case r of Inl e \<Rightarrow> Inl e
        | Inr d \<Rightarrow> if d > 0 then Inr (RequeueAfter d) else Inr Done, s\<lparr>rs_api := snd ?gc\<rparr>)"
      using Inr fr nr c3 gc by (simp add: Reconcile_def case_prod_unfold Let_def split: sum.split)
    then show ?thesis using collect c3 by blast
  next
    case c4
    then have "Reconcile env cfg s = reconcileActive env cfg a (afterRead env s)"
      using Inr fr by (auto simp: Reconcile_def case_prod_unfold Let_def)
    then show ?thesis using act c4 getRun_frame(1) [of "ev_api env" "rs_api s"] assms by simp
  qed
qed


text \<open>C5: a FlowRun becomes Succeeded only when all the work of the Flow is done. If the Flow has no
  dependency cycle and a reconcile stores the phase Succeeded, then every step of the Flow has
  a status that is Succeeded, Skipped, or Failed with a failure that the step or the Flow tolerates.\<close>

theorem Reconcile_succeeds_only_when_settled:
  assumes "as_run (rs_api s) = Some a" and "as_run (rs_api (snd (Reconcile env cfg s))) = Some b"
    and "st_phase (fr_status b) = FlowRunPhaseSucceeded" and "st_phase (fr_status a) \<noteq> FlowRunPhaseSucceeded"
    and "ev_flow env (fr_namespace a) (frs_flowRef (fr_spec a)) = Inr flow" and "rankedFlow rank flow"
  shows "list_all (stepSettled flow (st_steps (fr_status b))) (fl_steps flow)"
proof (cases rule: Reconcile_cases [OF assms(1), of env cfg, case_names unread cancel collect act])
  case (unread e)
  then show ?thesis using assms getRun_frame(1) [of "ev_api env" "rs_api s"] by simp
next
  case (cancel m)
  have "active a (rs_api (afterRead env s))" using cancel(1) assms(1) getRun_frame(1) [of "ev_api env" "rs_api s"]
    by (simp add: active_read)
  then show ?thesis using cancelRun_not_succeeded assms(2,3) cancel(3) by metis
next
  case (collect r)
  then show ?thesis
    using assms reconcileGC_onlyMarks [of "snd (getRun (ev_api env) (rs_api s))" "ev_api env" "ev_now env CkGC" "rc_gc cfg"
        "ev_gcPolicy env" a] getRun_frame(1) [of "ev_api env" "rs_api s"] by (auto simp: onlyMarks_def)
next
  case act
  let ?s = "afterRead env s"
  have "\<not> keepsOutcome (rs_api ?s) (rs_api (snd (reconcileActive env cfg a ?s)))"
    using assms act by (auto simp: keepsOutcome_def)
  then obtain fr1 s2 where c: "active fr1 (rs_api s2)" "runSettled flow fr1"
      "reconcileActive env cfg a ?s = completeRun env flow fr1 s2"
    using reconcileActive_outcome [OF act(2,1), of env cfg] assms(5) by auto
  have f: "fatalFailure flow (st_steps (fr_status fr1)) = None" "st_steps (fr_status b) = st_steps (fr_status fr1)"
    using completeRun_outcome(2) [OF c(1) _ assms(3), of env flow] assms(2) act(4) c(3) by simp_all
  show ?thesis using runSettled_settled [OF assms(6) c(2) f(1)] f(2) by (simp add: list_all_iff)
qed

section \<open>Examples\<close>

definition exampleTransform :: "string \<Rightarrow> string list \<Rightarrow> flowStep" where
  "exampleTransform name deps =
     \<lparr>fs_name = name, fs_runAfter = deps, fs_when = [],
      fs_action = \<lparr>sa_type = stepActionTransform, sa_http = None, sa_transform = Some [], sa_publish = None, sa_wait = None\<rparr>,
      fs_retryPolicy = None, fs_timeout = None, fs_onFailure = OnFailureUnset\<rparr>"

definition exampleFlow :: "flowStep list \<Rightarrow> flowSpec" where
  "exampleFlow steps =
     \<lparr>fl_timeout = None, fl_failurePolicy = FailurePolicyUnset, fl_params = [], fl_steps = steps\<rparr>"

definition exampleReconEnv :: "apiBehaviour \<Rightarrow> flowStep list \<Rightarrow> (string, string) reconEnv" where
  "exampleReconEnv api steps =
     \<lparr>ev_api = api, ev_now = (\<lambda>c. 1000),
      ev_setCondition = (\<lambda>cs c. c # filter (\<lambda>x. cond_type x \<noteq> cond_type c) cs),
      ev_codec = exampleCodec, ev_flow = (\<lambda>ns n. Inr (exampleFlow steps)), ev_gcPolicy = (\<lambda>ns n. Inr None),
      ev_cel = exampleCel, ev_parseDuration = (\<lambda>t. Inr 5), ev_http = (\<lambda>n d. exampleEnv),
      ev_publish = (\<lambda>n d. examplePublishEnv)\<rparr>"

definition exampleReconConfig :: reconConfig where
  "exampleReconConfig =
     \<lparr>rc_http = exampleConfig, rc_when = \<lparr>wc_celEnv = True, wc_disableCELCache = False, wc_celCostLimit = 0\<rparr>,
      rc_gc = \<lparr>gc_ttlSucceeded = 0, gc_ttlFailed = 0\<rparr>, rc_executionTimeout = 0\<rparr>"

definition exampleActiveRun :: "flowRunPhase \<Rightarrow> time option \<Rightarrow> stepRunStatus list \<Rightarrow> flowRun" where
  "exampleActiveRun phase deletion statuses =
     \<lparr>fr_name = ''r'', fr_namespace = ''ns'', fr_uid = ''u'', fr_generation = 1, fr_deletionTimestamp = deletion,
      fr_labels = [], fr_annotations = [], fr_finalizers = (if phase = FlowRunPhaseUnset then [] else [executingFinalizer]),
      fr_spec = \<lparr>frs_flowRef = ''f'', frs_params = [], frs_triggerRef = None, frs_triggerData = None,
                 frs_ttlAfterFinished = None\<rparr>,
      fr_status = \<lparr>st_observedGeneration = 0, st_phase = phase, st_conditions = [], st_startTime = None,
                   st_completionTime = None, st_steps = statuses, st_message = Txt [], st_durationMillis = None\<rparr>\<rparr>"

definition exampleReconState :: "flowRun \<Rightarrow> string reconState" where
  "exampleReconState fr =
     \<lparr>rs_api = \<lparr>as_run = Some fr, as_others = [], as_requests = 0\<rparr>, rs_celCache = Map.empty,
      rs_publish = \<lparr>ps_kafka = exampleKafkaState, ps_cache = Map.empty, ps_sent = []\<rparr>, rs_calls = [], rs_executed = []\<rparr>"

lemmas recon_example_defs =
  exampleTransform_def exampleFlow_def exampleReconEnv_def exampleReconConfig_def exampleActiveRun_def
  exampleReconState_def

text \<open>Requests when the API server answers.\<close>

lemma accepted_requests:
  assumes "\<forall>n. api n = Accepted"
  shows "performRequest api change answer s = (Inr answer, change (s\<lparr>as_requests := Suc (as_requests s)\<rparr>))"
  using assms by (simp add: performRequest_def Let_def)

abbreviation exampleDeleted :: flowRun where
  "exampleDeleted \<equiv> (exampleActiveRun FlowRunPhaseRunning (Some 7) [])\<lparr>fr_finalizers := [executingFinalizer, ''other'']\<rparr>"

abbreviation exampleFinished :: flowRun where
  "exampleFinished \<equiv> exampleActiveRun FlowRunPhaseRunning None [settledStatus ''a'' StepPhaseSucceeded (Txt []) 3]"


theorem Reconcile_succeeds_only_when_settled_witness:
  "\<exists>b. as_run (rs_api (snd (Reconcile (exampleReconEnv (\<lambda>n. Accepted) [exampleTransform ''a'' []]) exampleReconConfig
          (exampleReconState exampleFinished)))) = Some b \<and>
     st_phase (fr_status b) = FlowRunPhaseSucceeded \<and>
     list_all (stepSettled (exampleFlow [exampleTransform ''a'' []]) (st_steps (fr_status b))) [exampleTransform ''a'' []]"
proof -
  let ?steps = "[exampleTransform ''a'' []]"
  have "\<exists>b. as_run (rs_api (snd (Reconcile (exampleReconEnv (\<lambda>n. Accepted) ?steps) exampleReconConfig
           (exampleReconState exampleFinished)))) = Some b \<and> st_phase (fr_status b) = FlowRunPhaseSucceeded"
    by (simp add: Reconcile_def getRun_def accepted_requests reconcileActive_def startRun_def timedOut_def
        reconcileSteps_def resolveFlowParams_def allStepsTerminal_def completeRun_def persist_def
        succeededRun_def updateStatus_def updateMeta_def dropFinalizer_def removeString_def containsString_def
        executingFinalizer_def settledStatus_def newStepStatus_def cancelRequested_def
        setFlowRunCondition_def recon_example_defs Let_def)
  then obtain b where b: "as_run (rs_api (snd (Reconcile (exampleReconEnv (\<lambda>n. Accepted) ?steps) exampleReconConfig
           (exampleReconState exampleFinished)))) = Some b" "st_phase (fr_status b) = FlowRunPhaseSucceeded" by blast
  have "list_all (stepSettled (exampleFlow ?steps) (st_steps (fr_status b))) (fl_steps (exampleFlow ?steps))"
    by (rule Reconcile_succeeds_only_when_settled [OF _ b, where rank = "\<lambda>n. 0" and a = exampleFinished])
      (simp_all add: recon_example_defs rankedFlow_def)
  then show ?thesis using b by (auto simp: exampleFlow_def)
qed

text \<open>Without the acyclicity hypothesis the run succeeds with steps that never ran. A Flow whose two steps wait
  for each other is reported as Succeeded by the first reconcile, no step is executed and no step has a status.\<close>

theorem Reconcile_cyclic_flow_succeeds:
  "let s' = snd (Reconcile (exampleReconEnv (\<lambda>n. Accepted) [exampleTransform ''a'' [''b''], exampleTransform ''b'' [''a'']])
                  exampleReconConfig (exampleReconState (exampleActiveRun FlowRunPhaseUnset None [])))
   in map_option (\<lambda>b. (st_phase (fr_status b), st_steps (fr_status b))) (as_run (rs_api s')) =
        Some (FlowRunPhaseSucceeded, []) \<and> rs_executed s' = []"
  by (simp add: Reconcile_def getRun_def accepted_requests reconcileActive_def startRun_def timedOut_def
      reconcileSteps_def resolveFlowParams_def allStepsTerminal_def completeRun_def persist_def
      succeededRun_def startedRun_def updateStatus_def updateMeta_def dropFinalizer_def removeString_def containsString_def
      executingFinalizer_def cancelRequested_def inlineLoop.simps(2) readyStep_def dependenciesMet_def depSatisfied_def
      ioWave_def collectWave_def inWave_def anyStepRunning_def setFlowRunCondition_def recon_example_defs Let_def)

end
