(* ===== verification/FlowRunHistory.thy ===== *)
theory FlowRunHistory
  imports FlowRunOutcome
begin

text \<open>
  Histories: sequences of reconciles, each with its own environment and configuration, interleaved with
  users who delete or annotate the FlowRun and with restarts of the controller that lose its caches. A
  controller that crashes in the middle of a reconcile is a reconcile whose remaining requests are
  rejected. The reads of the model return the latest stored object.
\<close>

section \<open>Events\<close>

datatype ('a, 'p) event =
    Reconciled "('a, 'p) reconEnv" reconConfig
  | UserDeletes time
  | UserAnnotates smap
  | Restarted

definition withRun :: "'p reconState \<Rightarrow> flowRun option \<Rightarrow> 'p reconState" where
  "withRun s r = s\<lparr>rs_api := (rs_api s)\<lparr>as_run := r\<rparr>\<rparr>"

inductive history :: "('a, 'p) event list \<Rightarrow> 'p reconState \<Rightarrow> 'p reconState \<Rightarrow> bool" where
  start: "history [] s s"
| reconcile: "history es s s' \<Longrightarrow> history (es @ [Reconciled env cfg]) s (snd (Reconcile env cfg s'))"
| deletes: "history es s s' \<Longrightarrow> as_run (rs_api s') = Some fr \<Longrightarrow>
    history (es @ [UserDeletes now]) s (s'\<lparr>rs_api := removeRun now fr (rs_api s')\<rparr>)"
| annotates: "history es s s' \<Longrightarrow> as_run (rs_api s') = Some fr \<Longrightarrow>
    history (es @ [UserAnnotates m]) s (withRun s' (Some (fr\<lparr>fr_annotations := m\<rparr>)))"
| restart: "history es s s' \<Longrightarrow>
    history (es @ [Restarted]) s
      (s'\<lparr>rs_celCache := Map.empty, rs_publish := (rs_publish s')\<lparr>ps_kafka := emptyKafka, ps_cache := Map.empty\<rparr>\<rparr>)"

lemma annotates_evolves:
  "as_run (rs_api s) = Some fr \<Longrightarrow> storeEvolves (rs_api s) (rs_api (withRun s (Some (fr\<lparr>fr_annotations := m\<rparr>))))"
  by (simp add: storeEvolves_def withRun_def runEvolves_def guarded_def)

lemma history_evolves: "history es s s' \<Longrightarrow> storeEvolves (rs_api s) (rs_api s')"
proof (induction rule: history.induct)
  case (start s)
  then show ?case by simp
next
  case (reconcile es s s' env cfg)
  then show ?case using storeEvolves_trans Reconcile_storeEvolves by blast
next
  case (deletes es s s' fr now)
  then show ?case using storeEvolves_trans onlyMarks_evolves [OF removeRun_onlyMarks] by fastforce
next
  case (annotates es s s' fr m)
  then show ?case using storeEvolves_trans annotates_evolves by blast
next
  case (restart es s s')
  then show ?case by simp
qed

section \<open>Properties\<close>

text \<open>C1: the life of a FlowRun. In every history, with every behaviour of the API server, the clock, the executor
  and the brokers: a terminal run never changes its status again, a run that has left Pending never
  returns to it, the status of a terminal step is never overwritten, the spec is untouched, and a run
  whose executing finalizer was stored with the phase Running keeps it for as long as it is Running.\<close>

theorem history_status_monotone:
  assumes "history es s s'" and "as_run (rs_api s) = Some a" and "as_run (rs_api s') = Some b"
  shows "(runTerminal (st_phase (fr_status a)) \<longrightarrow> fr_status b = fr_status a) \<and>
     (st_phase (fr_status b) \<in> {FlowRunPhaseUnset, FlowRunPhasePending} \<longrightarrow>
        st_phase (fr_status b) = st_phase (fr_status a)) \<and>
     (\<forall>n x. findStepStatus (st_steps (fr_status a)) n = Some x \<longrightarrow> stepTerminal (ss_phase x) \<longrightarrow>
        findStepStatus (st_steps (fr_status b)) n = Some x) \<and>
     fr_spec b = fr_spec a \<and>
     (guarded a \<longrightarrow> st_phase (fr_status b) = FlowRunPhaseRunning \<longrightarrow>
        containsString (fr_finalizers b) executingFinalizer)"
proof -
  have "runEvolves a b" using history_evolves [OF assms(1)] assms(2,3) by (simp add: storeEvolves_def)
  then show ?thesis unfolding runEvolves_def statusEvolves_def guarded_def by blast
qed

text \<open>A terminal run keeps the finalizers it has.\<close>

definition heldRun :: "apiState \<Rightarrow> bool" where
  "heldRun s \<longleftrightarrow>
     (case as_run s of
        None \<Rightarrow> False
      | Some a \<Rightarrow> runTerminal (st_phase (fr_status a)) \<and> containsString (fr_finalizers a) executingFinalizer)"

lemma onlyMarks_held: "onlyMarks s s' \<Longrightarrow> heldRun s \<Longrightarrow> heldRun s'"
  by (auto simp: onlyMarks_def heldRun_def containsString_def split: option.splits)

lemma Reconcile_held:
  assumes "heldRun (rs_api s)"
  shows "heldRun (rs_api (snd (Reconcile env cfg s)))"
proof -
  obtain a where a: "as_run (rs_api s) = Some a" "runTerminal (st_phase (fr_status a))"
    using assms by (auto simp: heldRun_def split: option.splits)
  let ?g = "snd (getRun (ev_api env) (rs_api s))"
  have g: "as_run ?g = as_run (rs_api s)" by (rule getRun_frame(1))
  show ?thesis
  proof (cases rule: Reconcile_cases [OF a(1), of env cfg, case_names unread cancel collect act])
    case (unread e)
    then show ?thesis using assms g by (simp add: heldRun_def)
  next
    case (cancel m)
    then show ?thesis using a by simp
  next
    case (collect r)
    have "heldRun ?g" using assms g by (simp add: heldRun_def)
    then show ?thesis using collect onlyMarks_held [OF reconcileGC_onlyMarks] by simp
  next
    case act
    then show ?thesis using a by simp
  qed
qed

text \<open>A run that is terminal while the executing finalizer is still on it keeps the finalizer for ever, so a
  deletion of it never completes: no later reconcile, deletion, annotation or restart removes the
  object. The witness reaches this state: the status update is accepted and the metadata update
  that should remove the finalizer is rejected.\<close>

theorem history_finalizer_stuck:
  assumes "history es s s'" and "heldRun (rs_api s)"
  shows "heldRun (rs_api s')"
  using assms
proof (induction rule: history.induct)
  case (start s)
  then show ?case by simp
next
  case (reconcile es s s' env cfg)
  then show ?case by (simp add: Reconcile_held)
next
  case (deletes es s s' fr now)
  then show ?case using onlyMarks_held [OF removeRun_onlyMarks] by simp
next
  case (annotates es s s' fr m)
  then show ?case by (simp add: heldRun_def withRun_def)
next
  case (restart es s s')
  then show ?case by simp
qed

section \<open>Examples\<close>

definition exampleConflict :: apiBehaviour where
  "exampleConflict n = (if n = 2 then Rejected Conflict else Accepted)"

abbreviation exampleStuck :: "string reconState" where
  "exampleStuck \<equiv> snd (Reconcile (exampleReconEnv exampleConflict []) exampleReconConfig
     (exampleReconState (exampleActiveRun FlowRunPhaseRunning (Some 7) [])))"

lemma exampleStuck_held: "heldRun (rs_api exampleStuck)"
  by (simp add: Reconcile_def getRun_def performRequest_def exampleConflict_def cancelRun_def cancelFlowRun_def
      finishFlowRun_def updateStatus_def updateMeta_def dropFinalizer_def removeString_def containsString_def
      executingFinalizer_def finishedRun_def setFlowRunCondition_def recon_example_defs heldRun_def Let_def)

theorem history_finalizer_stuck_witness:
  "heldRun (rs_api exampleStuck) \<and>
   heldRun (rs_api (snd (Reconcile (exampleReconEnv (\<lambda>n. Accepted) []) exampleReconConfig exampleStuck)))"
proof
  show "heldRun (rs_api exampleStuck)" by (rule exampleStuck_held)
  show "heldRun (rs_api (snd (Reconcile (exampleReconEnv (\<lambda>n. Accepted) []) exampleReconConfig exampleStuck)))"
    by (rule history_finalizer_stuck [OF history.reconcile [OF history.start] exampleStuck_held])
qed

theorem history_status_monotone_witness:
  "\<exists>b. as_run (rs_api exampleStuck) = Some b \<and> fr_spec b = fr_spec (exampleActiveRun FlowRunPhaseRunning (Some 7) [])"
proof -
  obtain b where b: "as_run (rs_api exampleStuck) = Some b"
    using exampleStuck_held by (auto simp: heldRun_def split: option.splits)
  have a: "as_run (rs_api (exampleReconState (exampleActiveRun FlowRunPhaseRunning (Some 7) []))) =
      Some (exampleActiveRun FlowRunPhaseRunning (Some 7) [])" by (simp add: exampleReconState_def)
  show ?thesis using history_status_monotone [OF history.reconcile [OF history.start] a b] b by blast
qed

end
