(* ===== verification/FlowRunExecution.thy ===== *)
theory FlowRunExecution
  imports FlowRunHistory
begin

text \<open>
  Which steps a reconcile executes, that a step is executed at most once while the status updates are
  accepted, and that reconciling ends: every accepted reconcile settles a step or finishes the run.
\<close>

section \<open>The steps a reconcile executes\<close>

text \<open>A step may be executed: its dependencies are met and not all skipped, it has not started, it is not a
  wait step, and its conditions hold.\<close>

definition mayExecute ::
  "('a, 'p) reconEnv \<Rightarrow> reconConfig \<Rightarrow> flowSpec \<Rightarrow> smap \<Rightarrow> flowRun \<Rightarrow> flowStep \<Rightarrow> bool" where
  "mayExecute env cfg flow params fr step \<longleftrightarrow>
     dependenciesMet step (st_steps (fr_status fr)) (fl_steps flow) (policyContinues flow) \<and>
     notStarted (findStepStatus (st_steps (fr_status fr)) (fs_name step)) \<and>
     \<not> allDepsSkipped step (st_steps (fr_status fr)) \<and>
     sa_type (fs_action step) \<noteq> stepActionWait \<and>
     list_all (\<lambda>e. evalExpression (ev_cel env) (rc_when cfg)
         (whenActivation (ev_codec env) (stepResultsOf (st_steps (fr_status fr))) (st_steps (fr_status fr))
            (frs_triggerData (fr_spec fr)) params) e = Inr True) (fs_when step)"

lemma evaluateWhen_sound:
  assumes "cacheSound lib cfg cache" and "evaluateWhen cd lib cfg whens sr ss td ps cache = (r, c)"
  shows "cacheSound lib cfg c"
    and "r = Inr True \<Longrightarrow> list_all (\<lambda>e. evalExpression lib cfg (whenActivation cd sr ss td ps) e = Inr True) whens"
  using evaluateWhenLoop_sound [OF assms(1), of "whenActivation cd sr ss td ps" whens] assms
  by (auto simp: evaluateWhen_def allHold_True_iff [symmetric] split: if_splits)

lemma inlineLoop_frame: "rs_executed (snd (inlineLoop env cfg flow sr ps steps fr sk s)) = rs_executed s"
proof (induction steps arbitrary: fr sk s)
  case Nil
  then show ?case by simp
next
  case (Cons step steps)
  have f: "rs_executed (snd (failRun env x m t)) = rs_executed t" for x m t
    by (simp add: failRun_def case_prod_unfold split: sum.split)
  show ?case
  proof (cases rule: inlineLoop_ConsE
      [where env = env and cfg = cfg and flow = flow and sr = sr and ps = ps and step = step and steps = steps
         and fr = fr and sk = sk and s = s])
    case pass
    then show ?thesis by (simp only: Cons.IH)
  next
    case (skip m c)
    then show ?thesis by (simp add: Cons.IH)
  next
    case (hold c)
    then show ?thesis by (simp add: Cons.IH)
  next
    case (error err c)
    then show ?thesis by (simp add: Cons.IH f persist_frame case_prod_unfold split: sum.split)
  qed
qed

lemma inlineLoop_conditions:
  assumes "inlineLoop env cfg flow sr ps steps fr sk s = (InlineDone fr1 False, s1)"
    and "cacheSound (ev_cel env) (rc_when cfg) (rs_celCache s)"
  shows "\<forall>step \<in> set steps. readyStep flow fr step \<longrightarrow>
     notStarted (findStepStatus (st_steps (fr_status fr)) (fs_name step)) \<longrightarrow>
     \<not> allDepsSkipped step (st_steps (fr_status fr)) \<and>
     list_all (\<lambda>e. evalExpression (ev_cel env) (rc_when cfg) (whenActivation (ev_codec env) sr (st_steps (fr_status fr))
            (frs_triggerData (fr_spec fr)) ps) e = Inr True) (fs_when step)"
  using assms
proof (induction steps arbitrary: s sk)
  case Nil
  then show ?case by simp
next
  case (Cons step steps)
  show ?case
  proof (cases rule: inlineLoop_ConsE
      [where env = env and cfg = cfg and flow = flow and sr = sr and ps = ps and step = step and steps = steps
         and fr = fr and sk = sk and s = s])
    case pass
    then show ?thesis using Cons.IH [OF trans [OF pass(1) [symmetric] Cons.prems(1)] Cons.prems(2)] by auto
  next
    case (skip m c)
    then show ?thesis using inlineLoop_unchanged [OF trans [OF skip(2) [symmetric] Cons.prems(1)]] by simp
  next
    case (hold c)
    note ev = evaluateWhen_sound [OF Cons.prems(2) hold(4)]
    then have "cacheSound (ev_cel env) (rc_when cfg) (rs_celCache (s\<lparr>rs_celCache := c\<rparr>))" by simp
    from Cons.IH [OF trans [OF hold(5) [symmetric] Cons.prems(1)] this] show ?thesis using hold(2) ev(2) by auto
  next
    case (error err c)
    from trans [OF error(3) [symmetric] Cons.prems(1)] show ?thesis
      by (auto simp: case_prod_unfold split: sum.splits if_splits dest: inlineLoop_unchanged)
  qed
qed

lemma waitBarrier_frame: "rs_executed (snd (waitBarrier env flow step fr s)) = rs_executed s"
  by (simp add: waitBarrier_def Let_def failRun_def persist_frame case_prod_unfold split: sum.split)

lemma completeRun_frame: "rs_executed (snd (completeRun env flow fr s)) = rs_executed s"
  by (simp add: completeRun_def Let_def failRun_def persist_frame case_prod_unfold split: sum.split option.split)

lemma dispatchWave_executed:
  "rs_executed (snd (dispatchWave env cfg ctx flow sr ps wave fr s)) = rs_executed s @ map fs_name wave"
  using runWave_frame [of env cfg ctx flow fr sr ps wave s]
  by (simp add: dispatchWave_def Let_def failRun_def persist_frame case_prod_unfold split: sum.split option.split)

text \<open>The wave of a reconcile, empty unless the wave is dispatched.\<close>

lemma ioWave_executed:
  obtains wave where "rs_executed (snd (ioWave env cfg ctx flow sr ps anyRunning fr s)) = rs_executed s @ map fs_name wave"
    and "wave = [] \<or> wave = collectWave flow fr \<and>
           list_all (\<lambda>step. sa_type (fs_action step) \<noteq> stepActionWait) wave \<and>
           ioWave env cfg ctx flow sr ps anyRunning fr s = dispatchWave env cfg ctx flow sr ps wave fr s"
proof (cases "filter (\<lambda>step. sa_type (fs_action step) = stepActionWait) (collectWave flow fr)")
  case Nil
  then have "list_all (\<lambda>step. sa_type (fs_action step) \<noteq> stepActionWait) (collectWave flow fr)"
    by (simp add: filter_empty_conv list_all_iff)
  then show ?thesis
    using Nil that [of "collectWave flow fr"] dispatchWave_executed [of env cfg ctx flow sr ps _ fr s]
      completeRun_frame [of env flow fr s] by (auto simp: ioWave_def Let_def)
next
  case (Cons step rest)
  then have "collectWave flow fr \<noteq> []" by auto
  then show ?thesis using Cons that [of "[]"] waitBarrier_frame [of env flow step fr s] by (simp add: ioWave_def Let_def)
qed

lemma startRun_local:
  assumes "as_run (rs_api s) = Some fr"
  shows "rs_executed (snd (startRun env fr s)) = rs_executed s" "rs_celCache (snd (startRun env fr s)) = rs_celCache s"
    and "startRun env fr s = (Inr fr1, s1) \<Longrightarrow> st_steps (fr_status fr1) = st_steps (fr_status fr) \<and> fr_spec fr1 = fr_spec fr"
proof -
  show "rs_executed (snd (startRun env fr s)) = rs_executed s" "rs_celCache (snd (startRun env fr s)) = rs_celCache s"
    by (simp_all add: startRun_def persist_frame case_prod_unfold split: sum.split)
  have p: "persist env f t = (Inr f1, t1) \<Longrightarrow> f1 = f" for f t f1 t1
    by (auto simp: persist_def updateStatus_def split: option.splits prod.splits dest: performRequest_Inr)
  have m: "updateMeta (ev_api env) f (rs_api s) = (Inr f1, t) \<Longrightarrow> f1 = f\<lparr>fr_status := fr_status fr\<rparr>" for f f1 t
    using updateMeta_Inr [OF _ assms] by blast
  show "startRun env fr s = (Inr fr1, s1) \<Longrightarrow> st_steps (fr_status fr1) = st_steps (fr_status fr) \<and> fr_spec fr1 = fr_spec fr"
    by (auto simp: startRun_def split: if_splits prod.splits sum.splits dest!: p m)
qed

text \<open>The wave executed by a reconcile of the steps.\<close>

definition executedWave ::
  "('a, 'p) reconEnv \<Rightarrow> reconConfig \<Rightarrow> flowSpec \<Rightarrow> flowRun \<Rightarrow> 'p reconState \<Rightarrow> 'p reconState \<Rightarrow> flowStep list \<Rightarrow> bool" where
  "executedWave env cfg flow fr s s' wave \<longleftrightarrow>
     rs_executed s' = rs_executed s @ map fs_name wave \<and>
     (wave = [] \<or>
      wave = collectWave flow fr \<and>
      (\<exists>ps. resolveFlowParams (ev_codec env) (fl_params flow) (frs_params (fr_spec fr))
              (stepResultsOf (st_steps (fr_status fr))) (frs_triggerData (fr_spec fr)) = Inr ps \<and>
            list_all (mayExecute env cfg flow ps fr) wave))"

lemma executedWave_empty: "rs_executed s' = rs_executed s \<Longrightarrow> executedWave env cfg flow fr s s' []"
  by (simp add: executedWave_def)

lemma inWave_mayExecute:
  assumes "step \<in> set (collectWave flow fr)" and "sa_type (fs_action step) \<noteq> stepActionWait"
  shows "step \<in> set (fl_steps flow) \<and> readyStep flow fr step \<and>
     notStarted (findStepStatus (st_steps (fr_status fr)) (fs_name step))"
  using assms by (auto simp: collectWave_def inWave_def Let_def)

lemma reconcileSteps_executed:
  assumes "cacheSound (ev_cel env) (rc_when cfg) (rs_celCache s)"
  shows "\<exists>wave. executedWave env cfg flow fr s (snd (reconcileSteps env cfg flow fr s)) wave"
proof (cases "resolveFlowParams (ev_codec env) (fl_params flow) (frs_params (fr_spec fr))
    (stepResultsOf (st_steps (fr_status fr))) (frs_triggerData (fr_spec fr))")
  case (Inl e)
  then have "rs_executed (snd (reconcileSteps env cfg flow fr s)) = rs_executed s"
    by (simp add: reconcileSteps_def Let_def failRun_def case_prod_unfold split: sum.split)
  then show ?thesis using executedWave_empty by blast
next
  case (Inr ps)
  let ?l = "inlineLoop env cfg flow (stepResultsOf (st_steps (fr_status fr))) ps (fl_steps flow) fr False s"
  let ?r = "reconcileSteps env cfg flow fr s"
  obtain r s1 where l: "?l = (r, s1)" by fastforce
  have s1: "rs_executed s1 = rs_executed s"
    using inlineLoop_frame [of env cfg flow "stepResultsOf (st_steps (fr_status fr))" ps "fl_steps flow" fr False s] l by simp
  show ?thesis
  proof (cases "\<not> allStepsTerminal flow fr \<and> (\<exists>fr1. r = InlineDone fr1 False)")
    case False
    have "rs_executed (snd ?r) = rs_executed s"
    proof (cases r)
      case (InlineReturn x)
      then show ?thesis using Inr l s1 completeRun_frame [of env flow fr s] by (simp add: reconcileSteps_def Let_def)
    next
      case (InlineDone fr1 b)
      then show ?thesis using Inr l s1 completeRun_frame [of env flow fr s] False
        by (cases b) (auto simp: reconcileSteps_def persist_frame case_prod_unfold Let_def split: sum.split)
    qed
    then show ?thesis using executedWave_empty by blast
  next
    case True
    then obtain fr1 where "r = InlineDone fr1 False" by blast
    then have l2: "?l = (InlineDone fr1 False, s1)" using l by simp
    have fr1: "fr1 = fr" using inlineLoop_unchanged [OF l2] by simp
    note cond = inlineLoop_conditions [OF l2 assms]
    let ?ctx = "case fl_timeout flow of Some d \<Rightarrow> if d > 0 then Some d else None | None \<Rightarrow> None"
    let ?io = "ioWave env cfg ?ctx flow (stepResultsOf (st_steps (fr_status fr))) ps (anyStepRunning flow fr) fr s1"
    have r: "?r = ?io" using Inr l2 fr1 True by (simp add: reconcileSteps_def)
    obtain wave where w: "rs_executed (snd ?io) = rs_executed s1 @ map fs_name wave"
      "wave = [] \<or> wave = collectWave flow fr \<and> list_all (\<lambda>step. sa_type (fs_action step) \<noteq> stepActionWait) wave \<and>
        ?io = dispatchWave env cfg ?ctx flow (stepResultsOf (st_steps (fr_status fr))) ps wave fr s1"
      by (rule ioWave_executed)
    have "list_all (mayExecute env cfg flow ps fr) wave"
    proof -
      have "mayExecute env cfg flow ps fr step" if "step \<in> set wave" for step
      proof -
        have "wave = collectWave flow fr" "sa_type (fs_action step) \<noteq> stepActionWait"
          using w(2) that by (auto simp: list_all_iff)
        then show ?thesis using inWave_mayExecute [of step flow fr] cond that
          by (simp add: mayExecute_def readyStep_def)
      qed
      then show ?thesis by (simp add: list_all_iff)
    qed
    then have "executedWave env cfg flow fr s (snd ?r) wave" using w s1 Inr by (auto simp: executedWave_def r)
    then show ?thesis by blast
  qed
qed

lemma executedWave_cong:
  assumes "st_steps (fr_status fr1) = st_steps (fr_status fr)" and "fr_spec fr1 = fr_spec fr"
    and "rs_executed s1 = rs_executed s"
  shows "executedWave env cfg flow fr1 s1 = executedWave env cfg flow fr s"
proof -
  have "inWave flow fr1 = inWave flow fr" using assms by (intro ext) (simp add: inWave_def readyStep_def)
  moreover have "mayExecute env cfg flow ps fr1 = mayExecute env cfg flow ps fr" for ps
    using assms by (intro ext) (simp add: mayExecute_def)
  ultimately show ?thesis using assms by (intro ext) (simp add: executedWave_def collectWave_def)
qed

lemma failRun_frame: "rs_executed (snd (failRun env fr m s)) = rs_executed s"
  by (simp add: failRun_def case_prod_unfold split: sum.split)

lemma cancelRun_frame: "rs_executed (snd (cancelRun env fr m s)) = rs_executed s"
  by (simp add: cancelRun_def case_prod_unfold split: sum.split)

lemma reconcileActive_executed:
  assumes "as_run (rs_api s) = Some fr" and "ev_flow env (fr_namespace fr) (frs_flowRef (fr_spec fr)) = Inr flow"
    and "cacheSound (ev_cel env) (rc_when cfg) (rs_celCache s)"
  shows "\<exists>wave. executedWave env cfg flow fr s (snd (reconcileActive env cfg fr s)) wave"
proof -
  let ?s = "s\<lparr>rs_publish := (rs_publish s)\<lparr>ps_cache := Map.empty\<rparr>\<rparr>"
  obtain r s1 where st: "startRun env fr ?s = (r, s1)" by fastforce
  have a: "as_run (rs_api ?s) = Some fr" using assms(1) by simp
  have s1: "rs_executed s1 = rs_executed s" "rs_celCache s1 = rs_celCache s" using startRun_local(1,2) [OF a, of env] st by simp_all
  show ?thesis
  proof (cases "\<exists>fr1. r = Inr fr1 \<and> \<not> timedOut env cfg fr1")
    case True
    then obtain fr1 where fr1: "r = Inr fr1" "\<not> timedOut env cfg fr1" by blast
    then have "executedWave env cfg flow fr1 s1 = executedWave env cfg flow fr s"
      using startRun_local(3) [OF a, of env fr1 s1] st s1 by (intro executedWave_cong) simp_all
    moreover have "reconcileActive env cfg fr s = reconcileSteps env cfg flow fr1 s1"
      using assms(2) st fr1 by (simp add: reconcileActive_def)
    ultimately show ?thesis using reconcileSteps_executed [of env cfg s1 flow fr1] assms(3) s1(2) by simp
  next
    case False
    then have "rs_executed (snd (reconcileActive env cfg fr s)) = rs_executed s"
      using assms(2) st s1(1) by (cases r) (auto simp: reconcileActive_def failRun_frame)
    then show ?thesis using executedWave_empty by blast
  qed
qed

lemma Reconcile_executedWave:
  assumes "as_run (rs_api s) = Some a" and "ev_flow env (fr_namespace a) (frs_flowRef (fr_spec a)) = Inr flow"
    and "cacheSound (ev_cel env) (rc_when cfg) (rs_celCache s)"
  shows "\<exists>wave. executedWave env cfg flow a s (snd (Reconcile env cfg s)) wave \<and>
     (wave = [] \<or> \<not> runTerminal (st_phase (fr_status a)) \<and>
        (st_phase (fr_status a) \<noteq> FlowRunPhaseRunning \<or> fr_deletionTimestamp a = None \<and> \<not> cancelRequested a) \<and>
        Reconcile env cfg s = reconcileActive env cfg a (afterRead env s))"
proof (cases rule: Reconcile_cases [OF assms(1), of env cfg, case_names unread cancel collect act])
  case (unread e)
  then show ?thesis using executedWave_empty [of "snd (Reconcile env cfg s)" s env cfg flow a] by fastforce
next
  case (cancel m)
  then show ?thesis
    using executedWave_empty [of "snd (Reconcile env cfg s)" s env cfg flow a] cancelRun_frame [of env a m "afterRead env s"]
    by fastforce
next
  case (collect r)
  then show ?thesis using executedWave_empty [of "snd (Reconcile env cfg s)" s env cfg flow a] by fastforce
next
  case act
  have "cacheSound (ev_cel env) (rc_when cfg) (rs_celCache (afterRead env s))" using assms(3) by simp
  from reconcileActive_executed [OF act(2) assms(2) this]
  obtain wave where "executedWave env cfg flow a (afterRead env s) (snd (Reconcile env cfg s)) wave" using act(4) by auto
  then have "executedWave env cfg flow a s (snd (Reconcile env cfg s)) wave" by (simp add: executedWave_def)
  then show ?thesis using act by blast
qed

text \<open>C4: which steps a reconcile executes. Every executed step belongs to the Flow, has all its dependencies met in
  the stored status and not all of them skipped, has not been started before, is not a wait step,
  and has conditions that all evaluate to true on the stored results; and nothing is executed for a run that
  is terminal or whose cancellation has been requested while Running.\<close>

theorem Reconcile_executes_only_ready:
  assumes "as_run (rs_api s) = Some a" and "ev_flow env (fr_namespace a) (frs_flowRef (fr_spec a)) = Inr flow"
    and "cacheSound (ev_cel env) (rc_when cfg) (rs_celCache s)"
  shows "\<exists>wave. rs_executed (snd (Reconcile env cfg s)) = rs_executed s @ map fs_name wave \<and>
     set wave \<subseteq> set (fl_steps flow) \<and>
     (wave \<noteq> [] \<longrightarrow>
        \<not> runTerminal (st_phase (fr_status a)) \<and>
        (st_phase (fr_status a) = FlowRunPhaseRunning \<longrightarrow> fr_deletionTimestamp a = None \<and> \<not> cancelRequested a) \<and>
        (\<exists>ps. resolveFlowParams (ev_codec env) (fl_params flow) (frs_params (fr_spec a))
                (stepResultsOf (st_steps (fr_status a))) (frs_triggerData (fr_spec a)) = Inr ps \<and>
              list_all (mayExecute env cfg flow ps a) wave))"
proof -
  obtain wave where w: "executedWave env cfg flow a s (snd (Reconcile env cfg s)) wave"
    "wave = [] \<or> \<not> runTerminal (st_phase (fr_status a)) \<and>
        (st_phase (fr_status a) \<noteq> FlowRunPhaseRunning \<or> fr_deletionTimestamp a = None \<and> \<not> cancelRequested a)"
    using Reconcile_executedWave [OF assms] by blast
  have "set (collectWave flow a) \<subseteq> set (fl_steps flow)" by (auto simp: collectWave_def)
  then show ?thesis using w unfolding executedWave_def by (intro exI [of _ wave]) auto
qed

section \<open>Examples\<close>

abbreviation exampleSteps :: "flowStep list" where
  "exampleSteps \<equiv> [exampleTransform ''a'' [], exampleTransform ''b'' [''a'']]"

abbreviation exampleFresh :: flowRun where
  "exampleFresh \<equiv> exampleActiveRun FlowRunPhaseUnset None []"

abbreviation exampleQuietEnv :: "(string, string) reconEnv" where
  "exampleQuietEnv \<equiv> exampleReconEnv (\<lambda>n. Accepted) exampleSteps"

lemma exampleFirstWave:
  "rs_executed (snd (Reconcile exampleQuietEnv exampleReconConfig (exampleReconState exampleFresh))) = [''a'']"
  by (simp add: Reconcile_def getRun_def accepted_requests reconcileActive_def startRun_def timedOut_def
      reconcileSteps_def resolveFlowParams_def allStepsTerminal_def persist_def stepAction_defs
      startedRun_def updateStatus_def updateMeta_def containsString_def cancelRequested_def
      inlineLoop.simps(2) readyStep_def dependenciesMet_def depSatisfied_def allDepsSkipped_def notStarted_def
      ioWave_def collectWave_def inWave_def anyStepRunning_def setFlowRunCondition_def recon_example_defs Let_def
      dispatchWave_executed)

theorem Reconcile_executes_only_ready_witness:
  "\<exists>wave. rs_executed (snd (Reconcile exampleQuietEnv exampleReconConfig (exampleReconState exampleFresh))) =
       map fs_name wave \<and> map fs_name wave = [''a''] \<and> set wave \<subseteq> set exampleSteps"
proof -
  have c: "cacheSound (ev_cel exampleQuietEnv) (rc_when exampleReconConfig) (rs_celCache (exampleReconState exampleFresh))"
    by (simp add: cacheSound_def exampleReconState_def)
  have "\<exists>wave. rs_executed (snd (Reconcile exampleQuietEnv exampleReconConfig (exampleReconState exampleFresh))) =
      rs_executed (exampleReconState exampleFresh) @ map fs_name wave \<and> set wave \<subseteq> set (fl_steps (exampleFlow exampleSteps))"
    using Reconcile_executes_only_ready [OF _ _ c, of exampleFresh "exampleFlow exampleSteps"]
    by (auto simp: exampleReconState_def exampleReconEnv_def)
  then obtain wave where "rs_executed (snd (Reconcile exampleQuietEnv exampleReconConfig (exampleReconState exampleFresh))) =
      map fs_name wave" "set wave \<subseteq> set exampleSteps"
    by (auto simp: exampleReconState_def exampleFlow_def)
  then show ?thesis using exampleFirstWave by (intro exI [of _ wave]) simp
qed

end
