(* ===== verification/FlowRunProgress.thy ===== *)
theory FlowRunProgress
  imports FlowRunExecution
begin

text \<open>
  What holds while the environment cooperates, that is, every API request is accepted and the executor
  is reachable: no step is executed twice, and reconciling ends. Each accepted reconcile settles at least
  one more step or finishes the run, so a run is finished after at most one more reconcile than the Flow
  has steps.
\<close>

section \<open>Dispatch\<close>

lemma reconcileSteps_dispatch:
  assumes "active fr (rs_api s)"
  shows "rs_executed (snd (reconcileSteps env cfg flow fr s)) = rs_executed s \<or>
     (\<exists>ctx sr ps s2. active fr (rs_api s2) \<and> rs_executed s2 = rs_executed s \<and>
        reconcileSteps env cfg flow fr s = dispatchWave env cfg ctx flow sr ps (collectWave flow fr) fr s2)"
proof (cases "resolveFlowParams (ev_codec env) (fl_params flow) (frs_params (fr_spec fr))
    (stepResultsOf (st_steps (fr_status fr))) (frs_triggerData (fr_spec fr))")
  case (Inl e)
  then show ?thesis by (simp add: reconcileSteps_def Let_def failRun_frame)
next
  case (Inr ps)
  let ?l = "inlineLoop env cfg flow (stepResultsOf (st_steps (fr_status fr))) ps (fl_steps flow) fr False s"
  obtain r s1 where l: "?l = (r, s1)" by fastforce
  have s1: "rs_executed s1 = rs_executed s"
    using inlineLoop_frame [of env cfg flow "stepResultsOf (st_steps (fr_status fr))" ps "fl_steps flow" fr False s] l by simp
  show ?thesis
  proof (cases "\<not> allStepsTerminal flow fr \<and> (\<exists>fr1. r = InlineDone fr1 False)")
    case False
    show ?thesis
    proof (cases r)
      case (InlineReturn x)
      then show ?thesis using Inr l s1 completeRun_frame [of env flow fr s] by (simp add: reconcileSteps_def Let_def)
    next
      case (InlineDone fr1 b)
      then show ?thesis using Inr l s1 completeRun_frame [of env flow fr s] False
        by (cases b) (auto simp: reconcileSteps_def persist_frame case_prod_unfold Let_def split: sum.split)
    qed
  next
    case True
    then obtain fr1 where "r = InlineDone fr1 False" by blast
    then have l2: "?l = (InlineDone fr1 False, s1)" using l by simp
    have fr1: "fr1 = fr" using inlineLoop_unchanged [OF l2] by simp
    have a: "active fr (rs_api s1)"
      using evolution.inlineLoop_R [OF assms, of env cfg flow "stepResultsOf (st_steps (fr_status fr))" ps
          "fl_steps flow" False] l2 fr1 by simp
    let ?ctx = "case fl_timeout flow of Some d \<Rightarrow> if d > 0 then Some d else None | None \<Rightarrow> None"
    let ?sr = "stepResultsOf (st_steps (fr_status fr))"
    let ?io = "ioWave env cfg ?ctx flow ?sr ps (anyStepRunning flow fr) fr s1"
    have r: "reconcileSteps env cfg flow fr s = ?io" using Inr l2 fr1 True by (simp add: reconcileSteps_def)
    obtain wave where w: "rs_executed (snd ?io) = rs_executed s1 @ map fs_name wave"
      "wave = [] \<or> wave = collectWave flow fr \<and> list_all (\<lambda>step. sa_type (fs_action step) \<noteq> stepActionWait) wave \<and>
        ?io = dispatchWave env cfg ?ctx flow ?sr ps wave fr s1"
      by (rule ioWave_executed)
    then show ?thesis using r s1 a by (cases "wave = []") auto
  qed
qed

lemma reconcileActive_dispatch:
  assumes "as_run (rs_api s) = Some fr" and "\<not> runTerminal (st_phase (fr_status fr))"
    and "ev_flow env (fr_namespace fr) (frs_flowRef (fr_spec fr)) = Inr flow"
  shows "rs_executed (snd (reconcileActive env cfg fr s)) = rs_executed s \<or>
     (\<exists>ctx sr ps fr1 s2. active fr1 (rs_api s2) \<and> rs_executed s2 = rs_executed s \<and>
        st_steps (fr_status fr1) = st_steps (fr_status fr) \<and>
        reconcileActive env cfg fr s = dispatchWave env cfg ctx flow sr ps (collectWave flow fr1) fr1 s2)"
proof -
  let ?s = "s\<lparr>rs_publish := (rs_publish s)\<lparr>ps_cache := Map.empty\<rparr>\<rparr>"
  obtain r s1 where st: "startRun env fr ?s = (r, s1)" by fastforce
  have a: "as_run (rs_api ?s) = Some fr" using assms(1) by simp
  have s1: "rs_executed s1 = rs_executed s" using startRun_local(1) [OF a, of env] st by simp
  show ?thesis
  proof (cases "\<exists>fr1. r = Inr fr1 \<and> \<not> timedOut env cfg fr1")
    case True
    then obtain fr1 where fr1: "r = Inr fr1" "\<not> timedOut env cfg fr1" by blast
    have "reconcileActive env cfg fr s = reconcileSteps env cfg flow fr1 s1"
      using assms(3) st fr1 by (simp add: reconcileActive_def)
    moreover have "active fr1 (rs_api s1)" using startRun_evolves(2) [OF a assms(2)] st fr1 by simp
    moreover have "st_steps (fr_status fr1) = st_steps (fr_status fr)"
      using startRun_local(3) [OF a, of env fr1 s1] st fr1 by simp
    ultimately show ?thesis using reconcileSteps_dispatch [of fr1 s1 env cfg flow] s1 by metis
  next
    case False
    then show ?thesis using assms(3) st s1 by (cases r) (auto simp: reconcileActive_def failRun_frame)
  qed
qed

section \<open>A cooperating environment\<close>

definition reachesExecutor :: "('a, 'p) reconEnv \<Rightarrow> reconConfig \<Rightarrow> flowSpec \<Rightarrow> bool" where
  "reachesExecutor env cfg flow \<longleftrightarrow>
     (\<forall>step \<in> set (fl_steps flow). \<forall>ctx fr sr ps s. snd (fst (executeStep env cfg ctx step fr sr ps s)) = None)"

definition accepts :: "('a, 'p) reconEnv \<Rightarrow> bool" where
  "accepts env \<longleftrightarrow> (\<forall>n. ev_api env n = Accepted)"

lemma updateStatus_accepted:
  "accepts env \<Longrightarrow> as_run s = Some a \<Longrightarrow>
     updateStatus (ev_api env) fr s =
       (Inr fr, s\<lparr>as_requests := Suc (as_requests s), as_run := Some (a\<lparr>fr_status := fr_status fr\<rparr>)\<rparr>)"
  by (simp add: accepts_def updateStatus_def performRequest_def)

lemma persist_accepted:
  assumes "accepts env" and "as_run (rs_api s) = Some a"
  obtains s' where "persist env fr s = (Inr fr, s')" "as_run (rs_api s') = Some (a\<lparr>fr_status := fr_status fr\<rparr>)"
    "rs_executed s' = rs_executed s"
  using updateStatus_accepted [OF assms, of fr] by (simp add: persist_def)

lemma runWave_settles:
  assumes "reachesExecutor env cfg flow" and "set wave \<subseteq> set (fl_steps flow)"
  shows "list_all (\<lambda>r. sr_requeueAfter r = 0 \<and> stepTerminal (ss_phase (sr_status r)))
    (fst (runWave env cfg ctx flow fr sr ps wave s))"
  using assms(2)
proof (induction wave arbitrary: s)
  case Nil
  then show ?case by simp
next
  case (Cons step wave)
  obtain x s1 where x: "executeStep env cfg ctx step fr sr ps s = (x, s1)" by fastforce
  have "snd x = None" using assms(1) Cons.prems x by (auto simp: reachesExecutor_def) (metis fst_conv)
  moreover from this have "stepTerminal (ss_phase (fst x))"
    using executeStep_status(2) [of env cfg ctx step fr sr ps s] x by simp
  ultimately show ?case using Cons.IH [of s1] Cons.prems x
    by (cases x) (simp add: case_prod_unfold waveResult_def)
qed

lemma foldl_max_zero: "list_all (\<lambda>x. f x = (0 :: int)) xs \<Longrightarrow> foldl max 0 (map f xs) = 0"
  by (induction xs) auto

lemma applyResults_closed:
  assumes "list_all (\<lambda>r. stepTerminal (ss_phase (sr_status r))) rs"
    and "\<not> openStep fr n \<or> n \<in> set (map (\<lambda>r. ss_name (sr_status r)) rs)"
  shows "\<not> openStep (applyResults env rs fr) n"
  using assms
proof (induction rs arbitrary: fr)
  case Nil
  then show ?case by (simp add: applyResults_simps)
next
  case (Cons r rs)
  let ?fr = "putStep (withDuration env (sr_status r)) fr"
  have "\<not> openStep ?fr n \<or> n \<in> set (map (\<lambda>r. ss_name (sr_status r)) rs)"
    using Cons.prems by (auto simp: openStep_def)
  then show ?case using Cons by (simp add: applyResults_simps)
qed

definition idle :: "flowRun \<Rightarrow> bool" where
  "idle fr \<longleftrightarrow> (\<forall>n x. findStepStatus (st_steps (fr_status fr)) n = Some x \<longrightarrow>
     ss_phase x \<noteq> StepPhaseRunning \<and> ss_phase x \<noteq> StepPhaseWaiting)"

lemma idle_putStep: "idle fr \<Longrightarrow> stepTerminal (ss_phase ss) \<Longrightarrow> idle (putStep ss fr)"
  by (auto simp: idle_def stepTerminal_def)

lemma applyResults_idle:
  "list_all (\<lambda>r. stepTerminal (ss_phase (sr_status r))) rs \<Longrightarrow> idle fr \<Longrightarrow> idle (applyResults env rs fr)"
  by (induction rs arbitrary: fr) (simp_all add: applyResults_simps idle_putStep)

lemma storeEvolves_closed:
  assumes "storeEvolves s s'" and "as_run s = Some a" and "as_run s' = Some b" and "\<not> openStep a n"
  shows "\<not> openStep b n"
proof -
  have ev: "statusEvolves (fr_status a) (fr_status b)" using assms(1-3) by (simp add: storeEvolves_def runEvolves_def)
  show ?thesis using assms(4) statusEvolvesD(3) [OF ev, of n] by (auto simp: openStep_def split: option.splits)
qed

text \<open>After an accepted wave the statuses of all its steps are stored as terminal. The store after the status
  update is \<open>t\<close>; a fatal failure then fails the run.\<close>

lemma dispatchWave_stored:
  assumes "accepts env" and "reachesExecutor env cfg flow" and "active fr (rs_api s)"
    and "set wave \<subseteq> set (fl_steps flow)" and "\<forall>step \<in> set wave. openStep fr (fs_name step)"
  obtains t fr' where "active fr' (rs_api t)"
    and "as_run (rs_api t) \<noteq> None"
    and "\<forall>b. as_run (rs_api t) = Some b \<longrightarrow> fr_status b = fr_status fr'"
    and "\<forall>n. openStep fr' n \<longrightarrow> openStep fr n"
    and "\<forall>step \<in> set wave. \<not> openStep fr' (fs_name step)"
    and "idle fr \<longrightarrow> idle fr'"
    and "dispatchWave env cfg ctx flow sr ps wave fr s = (Inr Requeue, t) \<or>
         (\<exists>m. dispatchWave env cfg ctx flow sr ps wave fr s = failRun env fr' m t)"
proof -
  obtain rs s1 where w: "runWave env cfg ctx flow fr sr ps wave s = (rs, s1)" by fastforce
  have f: "rs_api s1 = rs_api s" "map (\<lambda>r. ss_name (sr_status r)) rs = map fs_name wave"
    using runWave_frame [of env cfg ctx flow fr sr ps wave s] w by simp_all
  have settled: "list_all (\<lambda>r. sr_requeueAfter r = 0 \<and> stepTerminal (ss_phase (sr_status r))) rs"
    using runWave_settles [OF assms(2,4), of ctx fr sr ps s] w by simp
  then have z: "foldl max 0 (map sr_requeueAfter rs) = 0"
    by (intro foldl_max_zero) (simp add: list_all_iff)
  let ?fr = "applyResults env rs fr"
  have a: "active ?fr (rs_api s1)"
    using evolution.applyResults_ok [of fr "rs_api s" rs env] assms(3,5) active_openStored f by auto
  then obtain x where x: "as_run (rs_api s1) = Some x" by (auto simp: active_def)
  obtain t where t: "persist env ?fr s1 = (Inr ?fr, t)" "as_run (rs_api t) = Some (x\<lparr>fr_status := fr_status ?fr\<rparr>)"
    by (rule persist_accepted [OF assms(1) x, of ?fr])
  have term_rs: "list_all (\<lambda>r. stepTerminal (ss_phase (sr_status r))) rs" using settled by (simp add: list_all_iff)
  have closed: "\<not> openStep ?fr n" if "\<not> openStep fr n \<or> n \<in> set (map fs_name wave)" for n
    using applyResults_closed [OF term_rs, of fr n env] that f(2) by (metis list.map_comp)
  show ?thesis
  proof
    show "active ?fr (rs_api t)" using evolution.persist_R(2) [OF a t(1)] by simp
    show "as_run (rs_api t) \<noteq> None" using t(2) by simp
    show "\<forall>b. as_run (rs_api t) = Some b \<longrightarrow> fr_status b = fr_status ?fr" using t(2) by auto
    show "\<forall>n. openStep ?fr n \<longrightarrow> openStep fr n" using closed by blast
    show "\<forall>step \<in> set wave. \<not> openStep ?fr (fs_name step)" using closed by simp
    show "idle fr \<longrightarrow> idle ?fr" using applyResults_idle [OF term_rs] by blast
    show "dispatchWave env cfg ctx flow sr ps wave fr s = (Inr Requeue, t) \<or>
         (\<exists>m. dispatchWave env cfg ctx flow sr ps wave fr s = failRun env ?fr m t)"
      using w z t(1) by (cases "firstFatal rs") (auto simp: dispatchWave_def Let_def)
  qed
qed

lemma dispatchWave_closes:
  assumes "accepts env" and "reachesExecutor env cfg flow" and "active fr (rs_api s)"
    and "as_run (rs_api (snd (dispatchWave env cfg ctx flow sr ps (collectWave flow fr) fr s))) = Some b"
    and "step \<in> set (collectWave flow fr)"
  shows "\<not> openStep b (fs_name step)"
proof -
  have w: "set (collectWave flow fr) \<subseteq> set (fl_steps flow)"
    "\<forall>step \<in> set (collectWave flow fr). openStep fr (fs_name step)"
    by (auto simp: collectWave_def intro: inWave_openStep)
  obtain t fr' where t: "active fr' (rs_api t)" "as_run (rs_api t) \<noteq> None"
    "\<forall>b. as_run (rs_api t) = Some b \<longrightarrow> fr_status b = fr_status fr'"
    "\<forall>step \<in> set (collectWave flow fr). \<not> openStep fr' (fs_name step)"
    "dispatchWave env cfg ctx flow sr ps (collectWave flow fr) fr s = (Inr Requeue, t) \<or>
     (\<exists>m. dispatchWave env cfg ctx flow sr ps (collectWave flow fr) fr s = failRun env fr' m t)"
    by (rule dispatchWave_stored [OF assms(1-3) w, of ctx sr ps])
  obtain c where c: "as_run (rs_api t) = Some c" using t(2) by auto
  then have nc: "\<not> openStep c (fs_name step)" using t(3,4) assms(5) by (simp add: openStep_def)
  from t(5) have "storeEvolves (rs_api t) (rs_api (snd (dispatchWave env cfg ctx flow sr ps (collectWave flow fr) fr s)))"
    using failRun_evolves [OF t(1), of env] by auto
  then show ?thesis using storeEvolves_closed [OF _ c assms(4) nc] by simp
qed

section \<open>At most once\<close>

lemma Reconcile_absent:
  assumes "as_run (rs_api s) = None"
  shows "snd (Reconcile env cfg s) = afterRead env s"
proof (cases "fst (getRun (ev_api env) (rs_api s))")
  case (Inl e)
  then show ?thesis by (simp add: Reconcile_def case_prod_unfold)
next
  case (Inr fr)
  then show ?thesis using getRun_frame(2) [OF Inr] assms by simp
qed

definition quietEvent :: "flowSpec \<Rightarrow> ('a, 'p) event \<Rightarrow> bool" where
  "quietEvent flow e \<longleftrightarrow>
     (case e of
        Reconciled env cfg \<Rightarrow> accepts env \<and> reachesExecutor env cfg flow \<and> (\<forall>ns n. ev_flow env ns n = Inr flow)
      | _ \<Rightarrow> True)"

definition executedOnce :: "'p reconState \<Rightarrow> bool" where
  "executedOnce s \<longleftrightarrow> distinct (rs_executed s) \<and>
     (case as_run (rs_api s) of None \<Rightarrow> True | Some a \<Rightarrow> \<forall>n \<in> set (rs_executed s). \<not> openStep a n)"

lemma executedOnce_frame:
  assumes "executedOnce s" and "rs_executed s' = rs_executed s" and "storeEvolves (rs_api s) (rs_api s')"
  shows "executedOnce s'"
proof (cases "as_run (rs_api s')")
  case None
  then show ?thesis using assms(1,2) by (simp add: executedOnce_def)
next
  case (Some b)
  then obtain a where a: "as_run (rs_api s) = Some a" using assms(3) by (auto simp: storeEvolves_def)
  then show ?thesis
    using assms(1,2) storeEvolves_closed [OF assms(3) a Some] Some by (simp add: executedOnce_def)
qed

lemma Reconcile_executedOnce:
  assumes "executedOnce s" and "accepts env" and "reachesExecutor env cfg flow" and "\<forall>ns n. ev_flow env ns n = Inr flow"
    and "distinct (map fs_name (fl_steps flow))"
  shows "executedOnce (snd (Reconcile env cfg s))"
proof (cases "rs_executed (snd (Reconcile env cfg s)) = rs_executed s")
  case True
  then show ?thesis using executedOnce_frame [OF assms(1)] Reconcile_storeEvolves by blast
next
  case False
  let ?s = "afterRead env s" and ?r = "snd (Reconcile env cfg s)"
  have "as_run (rs_api s) \<noteq> None"
  proof
    assume "as_run (rs_api s) = None"
    from Reconcile_absent [OF this, of env cfg] show False using False by simp
  qed
  then obtain a where a: "as_run (rs_api s) = Some a" by auto
  have act: "\<not> runTerminal (st_phase (fr_status a)) \<and> as_run (rs_api ?s) = Some a \<and>
      Reconcile env cfg s = reconcileActive env cfg a ?s"
  proof (cases rule: Reconcile_cases [OF a, of env cfg, case_names unread cancel collect act])
    case (unread e)
    then show ?thesis using False by simp
  next
    case (cancel m)
    then show ?thesis using False cancelRun_frame [of env a m ?s] by simp
  next
    case (collect r)
    then show ?thesis using False by simp
  next
    case act
    then show ?thesis by blast
  qed
  have "ev_flow env (fr_namespace a) (frs_flowRef (fr_spec a)) = Inr flow" using assms(4) by simp
  from reconcileActive_dispatch [OF conjunct1 [OF conjunct2 [OF act]] conjunct1 [OF act] this, of cfg]
  have "\<exists>ctx sr ps fr1 s2. active fr1 (rs_api s2) \<and> rs_executed s2 = rs_executed s \<and>
      st_steps (fr_status fr1) = st_steps (fr_status a) \<and>
      Reconcile env cfg s = dispatchWave env cfg ctx flow sr ps (collectWave flow fr1) fr1 s2"
    using False act by simp
  then obtain ctx sr ps fr1 s2 where
    d: "active fr1 (rs_api s2)" "rs_executed s2 = rs_executed s" "st_steps (fr_status fr1) = st_steps (fr_status a)"
      "Reconcile env cfg s = dispatchWave env cfg ctx flow sr ps (collectWave flow fr1) fr1 s2"
    by blast
  let ?w = "collectWave flow fr1"
  have ex: "rs_executed ?r = rs_executed s @ map fs_name ?w" using dispatchWave_executed [of env cfg ctx flow sr ps ?w fr1 s2] d(2,4) by simp
  have op: "openStep a n" if n: "n \<in> set (map fs_name ?w)" for n
  proof -
    obtain step where "n = fs_name step" "inWave flow fr1 step" using n by (auto simp: collectWave_def)
    then show ?thesis using inWave_openStep [of flow fr1 step] d(3) by (simp add: openStep_def)
  qed
  have old: "\<not> openStep a n" if "n \<in> set (rs_executed s)" for n using assms(1) a that by (simp add: executedOnce_def)
  have "distinct (map fs_name ?w)" unfolding collectWave_def by (rule distinct_map_filter [OF assms(5)])
  then have "distinct (rs_executed ?r)" using ex op old assms(1) by (auto simp: executedOnce_def)
  moreover have "\<not> openStep b n" if b: "as_run (rs_api ?r) = Some b" and n: "n \<in> set (rs_executed ?r)" for b n
  proof (cases "n \<in> set (rs_executed s)")
    case True
    show ?thesis by (rule storeEvolves_closed [OF Reconcile_storeEvolves a b old [OF True]])
  next
    case False
    then obtain step where st: "step \<in> set ?w" "n = fs_name step" using n ex by auto
    have "as_run (rs_api (snd (dispatchWave env cfg ctx flow sr ps ?w fr1 s2))) = Some b" using b d(4) by simp
    from dispatchWave_closes [OF assms(2,3) d(1) this st(1)] show ?thesis using st(2) by simp
  qed
  ultimately show ?thesis by (simp add: executedOnce_def split: option.split)
qed

text \<open>C3: a step is executed at most once. In a history of reconciles whose requests are accepted and whose
  executor is reachable, interleaved with deletions, annotations and restarts of the controller, no
  step of a Flow with unique names is executed twice.\<close>

theorem history_executes_at_most_once:
  assumes "history es s s'" and "list_all (quietEvent flow) es" and "rs_executed s = []"
    and "distinct (map fs_name (fl_steps flow))"
  shows "distinct (rs_executed s')"
proof -
  have "executedOnce s'"
    using assms(1-3)
  proof (induction rule: history.induct)
    case (start s)
    then show ?case by (simp add: executedOnce_def split: option.split)
  next
    case (reconcile es s s' env cfg)
    then show ?case using Reconcile_executedOnce [OF _ _ _ _ assms(4), of s' env cfg] by (simp add: quietEvent_def)
  next
    case (deletes es s s' fr now)
    then show ?case
      using executedOnce_frame [of s' "s'\<lparr>rs_api := removeRun now fr (rs_api s')\<rparr>"] onlyMarks_evolves [OF removeRun_onlyMarks]
      by simp
  next
    case (annotates es s s' fr m)
    then show ?case
      using executedOnce_frame [of s' "withRun s' (Some (fr\<lparr>fr_annotations := m\<rparr>))"] annotates_evolves [OF annotates.hyps(2), of m]
      by (simp add: withRun_def)
  next
    case (restart es s s')
    then have "executedOnce s'" by simp
    then show ?case by (rule executedOnce_frame) simp_all
  qed
  then show ?thesis by (simp add: executedOnce_def)
qed

section \<open>Progress\<close>

definition finished :: "apiState \<Rightarrow> bool" where
  "finished s \<longleftrightarrow> (case as_run s of None \<Rightarrow> True | Some b \<Rightarrow> runTerminal (st_phase (fr_status b)))"

definition advances :: "flowSpec \<Rightarrow> flowRun \<Rightarrow> flowRun \<Rightarrow> bool" where
  "advances flow a b \<longleftrightarrow> (\<forall>n. openStep b n \<longrightarrow> openStep a n) \<and>
     (\<exists>step \<in> set (fl_steps flow). openStep a (fs_name step) \<and> \<not> openStep b (fs_name step))"

lemma updateMeta_finished: "finished s \<Longrightarrow> finished (snd (updateMeta api fr s))"
  using updateMeta_cases [of api fr s] by (cases "as_run s") (auto simp: finished_def)

lemma finishFlowRun_finished:
  assumes "accepts env" and "as_run s = Some a" and "runTerminal phase"
  shows "finished (snd (finishFlowRun (ev_api env) setCond now fr phase reason m s))"
proof -
  let ?fr = "finishedRun setCond now phase reason m fr"
  have "finished (snd (updateStatus (ev_api env) ?fr s))"
    using updateStatus_accepted [OF assms(1,2)] assms(3) by (simp add: finished_def)
  then show ?thesis
    using updateStatus_accepted [OF assms(1,2), of ?fr] updateMeta_finished
    by (simp add: finishFlowRun_def case_prod_unfold split: sum.split)
qed

lemma failRun_finished: "accepts env \<Longrightarrow> as_run (rs_api s) = Some a \<Longrightarrow> finished (rs_api (snd (failRun env fr m s)))"
  by (simp add: failRun_api finishFlowRun_finished)

lemma cancelRun_finished: "accepts env \<Longrightarrow> as_run (rs_api s) = Some a \<Longrightarrow> finished (rs_api (snd (cancelRun env fr m s)))"
  by (simp add: cancelRun_api finishFlowRun_finished)

lemma completeRun_finished:
  assumes "accepts env" and "as_run (rs_api s) = Some a"
  shows "finished (rs_api (snd (completeRun env flow fr s)))"
proof (cases "fatalFailure flow (st_steps (fr_status fr))")
  case (Some m)
  then show ?thesis using failRun_finished [OF assms] by (simp add: completeRun_def)
next
  case None
  let ?fr = "succeededRun (ev_setCondition env) (ev_now env CkFinish) fr"
  obtain s' where s': "persist env ?fr s = (Inr ?fr, s')" "as_run (rs_api s') = Some (a\<lparr>fr_status := fr_status ?fr\<rparr>)"
    by (rule persist_accepted [OF assms, of ?fr])
  then have "finished (rs_api s')" by (simp add: finished_def)
  then show ?thesis
    using None s'(1) updateMeta_finished by (simp add: completeRun_def Let_def case_prod_unfold split: sum.split)
qed

lemma inlineLoop_progress:
  assumes "accepts env" and "active fr (rs_api s)" and "idle fr"
  shows "case inlineLoop env cfg flow sr ps steps fr sk s of
      (InlineReturn r, s') \<Rightarrow> finished (rs_api s')
    | (InlineDone fr1 sk1, s') \<Rightarrow> idle fr1 \<and> (\<forall>n. openStep fr1 n \<longrightarrow> openStep fr n) \<and>
        (sk1 \<longrightarrow> sk \<or> (\<exists>step \<in> set steps. openStep fr (fs_name step) \<and> \<not> openStep fr1 (fs_name step)))"
  using assms(2,3)
proof (induction steps arbitrary: fr sk s)
  case Nil
  then show ?case by simp
next
  case (Cons step steps)
  have put: "active (putStep (settledStatus (fs_name step) ph m t) fr) (rs_api s)"
    "idle (putStep (settledStatus (fs_name step) ph m t) fr)"
    "openStep fr (fs_name step)" "\<not> openStep (putStep (settledStatus (fs_name step) ph m t) fr) (fs_name step)"
    "openStep (putStep (settledStatus (fs_name step) ph m t) fr) n \<Longrightarrow> openStep fr n"
    if "notStarted (findStepStatus (st_steps (fr_status fr)) (fs_name step))" "stepTerminal ph" for ph m t n
    using evolution.put_open [OF Cons.prems(1)] notStarted_openStep [OF that(1)] idle_putStep [OF Cons.prems(2)] that(2)
    by (auto simp: openStep_def split: if_splits)
  show ?case
  proof (cases rule: inlineLoop_ConsE
      [where env = env and cfg = cfg and flow = flow and sr = sr and ps = ps and step = step and steps = steps
         and fr = fr and sk = sk and s = s])
    case pass
    show ?thesis unfolding pass(1) using Cons.IH [OF Cons.prems, of sk]
      by (auto split: prod.splits inlineOutcome.splits)
  next
    case (skip m c)
    let ?fr = "putStep (settledStatus (fs_name step) StepPhaseSkipped m (ev_now env (CkSkip (fs_name step)))) fr"
    have n: "notStarted (findStepStatus (st_steps (fr_status fr)) (fs_name step))" using skip(1) by simp
    have a: "active ?fr (rs_api (s\<lparr>rs_celCache := c\<rparr>))" using put(1) [OF n] by simp
    show ?thesis
      unfolding skip(2) using Cons.IH [OF a put(2) [OF n], of True] put(3-5) [OF n, of StepPhaseSkipped]
      by (auto split: prod.splits inlineOutcome.splits)
  next
    case (hold c)
    have a: "active fr (rs_api (s\<lparr>rs_celCache := c\<rparr>))" using Cons.prems by simp
    show ?thesis unfolding hold(5) using Cons.IH [OF a Cons.prems(2), of sk]
      by (auto split: prod.splits inlineOutcome.splits)
  next
    case (error err c)
    let ?fr = "putStep (settledStatus (fs_name step) StepPhaseFailed
                   (Fmt ''when expression error: %v'' [err]) (ev_now env (CkSkip (fs_name step)))) fr"
    have n: "notStarted (findStepStatus (st_steps (fr_status fr)) (fs_name step))" using error(1) by simp
    have a: "active ?fr (rs_api (s\<lparr>rs_celCache := c\<rparr>))" using put(1) [OF n] by simp
    then obtain x where x: "as_run (rs_api (s\<lparr>rs_celCache := c\<rparr>)) = Some x" by (auto simp: active_def)
    obtain t where t: "persist env ?fr (s\<lparr>rs_celCache := c\<rparr>) = (Inr ?fr, t)"
        "as_run (rs_api t) = Some (x\<lparr>fr_status := fr_status ?fr\<rparr>)"
      by (rule persist_accepted [OF assms(1) x, of ?fr])
    have at: "active ?fr (rs_api t)" using evolution.persist_R(2) [OF a t(1)] by simp
    show ?thesis
    proof (cases "tolerated flow step")
      case True
      then have l: "inlineLoop env cfg flow sr ps (step # steps) fr sk s = inlineLoop env cfg flow sr ps steps ?fr True t"
        using error(3) t(1) by simp
      show ?thesis
        unfolding l using Cons.IH [OF at put(2) [OF n], of True] put(3-5) [OF n, of StepPhaseFailed]
        by (auto split: prod.splits inlineOutcome.splits)
    next
      case False
      then show ?thesis using error(3) t failRun_finished [OF assms(1) t(2)] by (simp add: case_prod_unfold)
    qed
  qed
qed

text \<open>What one cooperating reconcile achieves from the run \<open>a\<close>.\<close>

definition progressed :: "flowSpec \<Rightarrow> flowRun \<Rightarrow> apiState \<Rightarrow> bool" where
  "progressed flow a s \<longleftrightarrow> finished s \<or> (\<exists>b. as_run s = Some b \<and> idle b \<and> advances flow a b)"

definition noWaitSteps :: "flowSpec \<Rightarrow> bool" where
  "noWaitSteps flow \<longleftrightarrow> list_all (\<lambda>step. sa_type (fs_action step) \<noteq> stepActionWait) (fl_steps flow)"

lemma status_cong:
  assumes "fr_status b = fr_status fr"
  shows "openStep b n = openStep fr n" "idle b = idle fr"
  using assms by (simp_all add: openStep_def idle_def)

lemma dispatchWave_progress:
  assumes "accepts env" and "reachesExecutor env cfg flow" and "active fr (rs_api s)" and "idle fr"
    and "collectWave flow fr \<noteq> []"
  shows "progressed flow fr (rs_api (snd (dispatchWave env cfg ctx flow sr ps (collectWave flow fr) fr s)))"
proof -
  let ?d = "dispatchWave env cfg ctx flow sr ps (collectWave flow fr) fr s"
  have w: "set (collectWave flow fr) \<subseteq> set (fl_steps flow)"
    "\<forall>step \<in> set (collectWave flow fr). openStep fr (fs_name step)"
    by (auto simp: collectWave_def intro: inWave_openStep)
  obtain t fr' where t: "as_run (rs_api t) \<noteq> None"
    "\<forall>b. as_run (rs_api t) = Some b \<longrightarrow> fr_status b = fr_status fr'"
    "\<forall>n. openStep fr' n \<longrightarrow> openStep fr n"
    "\<forall>step \<in> set (collectWave flow fr). \<not> openStep fr' (fs_name step)"
    "idle fr \<longrightarrow> idle fr'" "?d = (Inr Requeue, t) \<or> (\<exists>m. ?d = failRun env fr' m t)"
    by (rule dispatchWave_stored [OF assms(1-3) w, of ctx sr ps])
  obtain b where b: "as_run (rs_api t) = Some b" using t(1) by auto
  then have fb: "fr_status b = fr_status fr'" using t(2) by blast
  from t(6) show ?thesis
  proof
    assume d: "?d = (Inr Requeue, t)"
    have "hd (collectWave flow fr) \<in> set (collectWave flow fr)" using assms(5) by simp
    then have "advances flow fr b"
      unfolding advances_def using w t(3,4) status_cong(1) [OF fb] by blast
    then show ?thesis using d b t(5) assms(4) status_cong(2) [OF fb] by (simp add: progressed_def)
  next
    assume "\<exists>m. ?d = failRun env fr' m t"
    then show ?thesis using failRun_finished [OF assms(1) b] by (auto simp: progressed_def)
  qed
qed

lemma reconcileSteps_progress:
  assumes "accepts env" and "reachesExecutor env cfg flow" and "noWaitSteps flow" and "active fr (rs_api s)" and "idle fr"
  shows "progressed flow fr (rs_api (snd (reconcileSteps env cfg flow fr s)))"
proof (cases "resolveFlowParams (ev_codec env) (fl_params flow) (frs_params (fr_spec fr))
    (stepResultsOf (st_steps (fr_status fr))) (frs_triggerData (fr_spec fr))")
  case (Inl e)
  obtain a where "as_run (rs_api s) = Some a" using assms(4) by (auto simp: active_def)
  from failRun_finished [OF assms(1) this] show ?thesis using Inl by (simp add: reconcileSteps_def Let_def progressed_def)
next
  case (Inr ps)
  let ?sr = "stepResultsOf (st_steps (fr_status fr))"
  let ?l = "inlineLoop env cfg flow ?sr ps (fl_steps flow) fr False s"
  obtain r s1 where l: "?l = (r, s1)" by fastforce
  note pr = inlineLoop_progress [OF assms(1,4,5), where cfg = cfg and flow = flow and sr = ?sr and ps = ps
      and steps = "fl_steps flow" and sk = False, unfolded l]
  note act = evolution.inlineLoop_R [OF assms(4), of env cfg flow ?sr ps "fl_steps flow" False, unfolded l]
  obtain a where a: "as_run (rs_api s) = Some a" using assms(4) by (auto simp: active_def)
  show ?thesis
  proof (cases "allStepsTerminal flow fr")
    case True
    then show ?thesis using Inr completeRun_finished [OF assms(1) a]
      by (simp add: reconcileSteps_def progressed_def)
  next
    case nt: False
    show ?thesis
    proof (cases r)
      case (InlineReturn x)
      then show ?thesis using nt Inr l pr by (simp add: reconcileSteps_def progressed_def)
    next
      case (InlineDone fr1 b)
      have a1: "active fr1 (rs_api s1)" using act InlineDone by simp
      then obtain x where x: "as_run (rs_api s1) = Some x" by (auto simp: active_def)
      show ?thesis
      proof (cases b)
        case True
        obtain t where t: "persist env fr1 s1 = (Inr fr1, t)" "as_run (rs_api t) = Some (x\<lparr>fr_status := fr_status fr1\<rparr>)"
          by (rule persist_accepted [OF assms(1) x, of fr1])
        let ?b = "x\<lparr>fr_status := fr_status fr1\<rparr>"
        have "as_run (rs_api (snd (reconcileSteps env cfg flow fr s))) = Some ?b"
          using nt Inr l InlineDone True t getRun_frame(1) [of "ev_api env" "rs_api t"]
          by (simp add: reconcileSteps_def Let_def case_prod_unfold split: sum.split)
        moreover have "idle ?b" "advances flow fr ?b"
          using pr InlineDone True status_cong [of ?b fr1] by (simp_all add: advances_def)
        ultimately show ?thesis by (simp add: progressed_def)
      next
        case False
        then have l2: "?l = (InlineDone fr1 False, s1)" using l InlineDone by simp
        have fr1: "fr1 = fr" using inlineLoop_unchanged [OF l2] by simp
        have "\<not> anyStepRunning flow fr"
          using assms(5) by (auto simp: anyStepRunning_def list_ex_iff idle_def split: option.splits)
        moreover have "filter (\<lambda>step. sa_type (fs_action step) = stepActionWait) (collectWave flow fr) = []"
          using assms(3) by (auto simp: noWaitSteps_def collectWave_def filter_empty_conv list_all_iff)
        ultimately show ?thesis
          using nt Inr l2 fr1 completeRun_finished [OF assms(1) x] a1 dispatchWave_progress [OF assms(1,2) _ assms(5)]
          by (auto simp: reconcileSteps_def ioWave_def progressed_def Let_def)
      qed
    qed
  qed
qed

lemma startRun_accepted:
  assumes "accepts env" and "as_run (rs_api s) = Some fr"
  shows "\<exists>fr1 s1. startRun env fr s = (Inr fr1, s1)"
proof (cases "containsString (fr_finalizers fr) executingFinalizer")
  case True
  then show ?thesis
    using updateStatus_accepted [OF assms] by (simp add: startRun_def persist_def)
next
  case False
  then show ?thesis
    using assms by (simp add: startRun_def persist_def updateMeta_def updateStatus_def accepts_def accepted_requests)
qed

lemma reconcileActive_progress:
  assumes "accepts env" and "reachesExecutor env cfg flow" and "noWaitSteps flow"
    and "ev_flow env (fr_namespace fr) (frs_flowRef (fr_spec fr)) = Inr flow"
    and "as_run (rs_api s) = Some fr" and "\<not> runTerminal (st_phase (fr_status fr))" and "idle fr"
  shows "progressed flow fr (rs_api (snd (reconcileActive env cfg fr s)))"
proof -
  let ?s = "s\<lparr>rs_publish := (rs_publish s)\<lparr>ps_cache := Map.empty\<rparr>\<rparr>"
  have r: "as_run (rs_api ?s) = Some fr" using assms(5) by simp
  obtain fr1 s1 where st: "startRun env fr ?s = (Inr fr1, s1)" using startRun_accepted [OF assms(1) r] by blast
  have a: "active fr1 (rs_api s1)" using startRun_evolves(2) [OF r assms(6) st] .
  then obtain x where x: "as_run (rs_api s1) = Some x" by (auto simp: active_def)
  have same: "st_steps (fr_status fr1) = st_steps (fr_status fr)" using startRun_local(3) [OF r st] by simp
  then have "idle fr1" using assms(7) by (simp add: idle_def)
  then have "progressed flow fr1 (rs_api (snd (reconcileSteps env cfg flow fr1 s1)))"
    by (rule reconcileSteps_progress [OF assms(1-3) a])
  then have "progressed flow fr (rs_api (snd (reconcileSteps env cfg flow fr1 s1)))"
    using same by (simp add: progressed_def advances_def openStep_def)
  then show ?thesis
    using assms(4) st failRun_finished [OF assms(1) x] by (simp add: reconcileActive_def progressed_def)
qed

lemma onlyMarks_finished: "onlyMarks s s' \<Longrightarrow> finished s \<Longrightarrow> finished s'"
  by (auto simp: onlyMarks_def finished_def split: option.splits)

lemma getRun_accepted: "accepts env \<Longrightarrow> as_run s = Some a \<Longrightarrow> fst (getRun (ev_api env) s) = Inr a"
  by (simp add: accepts_def getRun_def accepted_requests)

lemma Reconcile_progress:
  assumes "accepts env" and "reachesExecutor env cfg flow" and "noWaitSteps flow" and "\<forall>ns n. ev_flow env ns n = Inr flow"
    and "as_run (rs_api s) = Some a" and "idle a"
  shows "progressed flow a (rs_api (snd (Reconcile env cfg s)))"
proof -
  let ?s = "afterRead env s"
  have x: "as_run (rs_api ?s) = Some a" using getRun_frame(1) [of "ev_api env" "rs_api s"] assms(5) by simp
  consider (t) "runTerminal (st_phase (fr_status a))"
    | (c) m where "Reconcile env cfg s = cancelRun env a m ?s"
    | (r) "\<not> runTerminal (st_phase (fr_status a))" "Reconcile env cfg s = reconcileActive env cfg a ?s"
  proof (cases "runTerminal (st_phase (fr_status a))")
    case True
    then show ?thesis by (rule t)
  next
    case False
    then have "Reconcile env cfg s = reconcileActive env cfg a ?s \<or> (\<exists>m. Reconcile env cfg s = cancelRun env a m ?s)"
      using getRun_accepted [OF assms(1,5)] by (auto simp: Reconcile_def case_prod_unfold Let_def)
    then show ?thesis using False c r by blast
  qed
  then show ?thesis
  proof cases
    case t
    then have "runEvolves a b" if "as_run (rs_api (snd (Reconcile env cfg s))) = Some b" for b
      using Reconcile_storeEvolves [of s env cfg] that assms(5) by (simp add: storeEvolves_def)
    then have "finished (rs_api (snd (Reconcile env cfg s)))"
      using t statusEvolvesD(1) by (fastforce simp: finished_def runEvolves_def split: option.split)
    then show ?thesis by (simp add: progressed_def)
  next
    case (c m)
    then show ?thesis using cancelRun_finished [OF assms(1) x] by (simp add: progressed_def)
  next
    case r
    then show ?thesis using reconcileActive_progress [OF assms(1-3) _ x r(1) assms(6)] assms(4) by simp
  qed
qed

section \<open>Bounded completion\<close>

definition openCount :: "flowSpec \<Rightarrow> flowRun \<Rightarrow> nat" where
  "openCount flow fr = length (filter (\<lambda>step. openStep fr (fs_name step)) (fl_steps flow))"

lemma advances_openCount:
  assumes "advances flow a b"
  shows "openCount flow b < openCount flow a"
proof -
  have "length (filter P xs) < length (filter Q xs)"
    if "\<forall>x. P x \<longrightarrow> Q x" "\<exists>x \<in> set xs. Q x \<and> \<not> P x" for P Q :: "flowStep \<Rightarrow> bool" and xs
    using that(2)
  proof (induction xs)
    case (Cons x xs)
    have "length (filter P xs) \<le> length (filter Q xs)" using that(1) by (induction xs) auto
    then show ?case using Cons that(1) by auto
  qed simp
  then show ?thesis using assms by (simp add: openCount_def advances_def)
qed

definition reconcileAll :: "(('a, 'p) reconEnv \<times> reconConfig) list \<Rightarrow> 'p reconState \<Rightarrow> 'p reconState" where
  "reconcileAll es s = foldl (\<lambda>s (env, cfg). snd (Reconcile env cfg s)) s es"

lemma reconcileAll_finished: "finished (rs_api s) \<Longrightarrow> finished (rs_api (reconcileAll es s))"
proof (induction es arbitrary: s)
  case Nil
  then show ?case by (simp add: reconcileAll_def)
next
  case (Cons e es)
  have f: "finished (rs_api (snd (Reconcile (fst e) (snd e) s)))"
  proof (cases "as_run (rs_api (snd (Reconcile (fst e) (snd e) s)))")
    case (Some b)
    then obtain a where "as_run (rs_api s) = Some a" "statusEvolves (fr_status a) (fr_status b)"
      using Reconcile_storeEvolves [of s "fst e" "snd e"] by (auto simp: storeEvolves_def runEvolves_def)
    then show ?thesis using Cons.prems Some statusEvolvesD(1) by (fastforce simp: finished_def)
  qed (simp add: finished_def)
  show ?case using Cons.IH [OF f] by (simp add: reconcileAll_def case_prod_unfold)
qed

text \<open>C2: reconciling ends. Let a Flow without wait steps be executed by reconciles whose requests are accepted and
  whose executor is reachable. Then after more reconciles than the Flow has steps, the FlowRun is Succeeded, Failed
  or Cancelled, or no longer exists, whatever the steps return and whenever users cancel.\<close>

theorem reconcile_completes:
  assumes "list_all (\<lambda>(env, cfg). accepts env \<and> reachesExecutor env cfg flow \<and> (\<forall>ns n. ev_flow env ns n = Inr flow)) es"
    and "noWaitSteps flow" and "as_run (rs_api s) = Some a" and "idle a" and "length (fl_steps flow) < length es"
  shows "finished (rs_api (reconcileAll es s))"
proof -
  have "openCount flow a < length es \<Longrightarrow> finished (rs_api (reconcileAll es s))"
    using assms(1,3,4)
  proof (induction es arbitrary: s a)
    case (Cons e es)
    obtain env cfg where e: "e = (env, cfg)" by fastforce
    let ?s = "snd (Reconcile env cfg s)"
    have all: "reconcileAll (e # es) s = reconcileAll es ?s" by (simp add: reconcileAll_def e)
    have "progressed flow a (rs_api ?s)" 
      using Reconcile_progress [OF _ _ assms(2) _ Cons.prems(3,4), of env cfg] Cons.prems(2) e by simp
    then consider "finished (rs_api ?s)" | b where "as_run (rs_api ?s) = Some b" "idle b" "advances flow a b"
      by (auto simp: progressed_def)
    then show ?case
    proof cases
      case 1
      then show ?thesis unfolding all by (rule reconcileAll_finished)
    next
      case 2
      have "openCount flow b < length es" using advances_openCount [OF 2(3)] Cons.prems(1) by simp
      then show ?thesis unfolding all using Cons.IH [OF _ _ 2(1,2)] Cons.prems(2) by simp
    qed
  qed simp
  moreover have "openCount flow a \<le> length (fl_steps flow)" by (simp add: openCount_def)
  ultimately show ?thesis using assms(5) by simp
qed

section \<open>Examples\<close>

lemma exampleQuiet:
  "accepts exampleQuietEnv" "reachesExecutor exampleQuietEnv exampleReconConfig (exampleFlow exampleSteps)"
  "\<forall>ns n. ev_flow exampleQuietEnv ns n = Inr (exampleFlow exampleSteps)"
  by (simp_all add: accepts_def reachesExecutor_def executeStep_def recon_example_defs stepAction_defs Let_def)

theorem history_executes_at_most_once_witness:
  "distinct (rs_executed (snd (Reconcile exampleQuietEnv exampleReconConfig (exampleReconState exampleFresh))))"
  using history_executes_at_most_once [OF history.reconcile [OF history.start], of "exampleFlow exampleSteps"
      exampleQuietEnv exampleReconConfig "exampleReconState exampleFresh"] exampleQuiet
  by (simp add: quietEvent_def exampleReconState_def exampleFlow_def exampleTransform_def)

theorem reconcile_completes_witness:
  "finished (rs_api (reconcileAll (replicate 3 (exampleQuietEnv, exampleReconConfig)) (exampleReconState exampleFresh)))"
proof (rule reconcile_completes [of "exampleFlow exampleSteps" _ _ exampleFresh])
  show "list_all (\<lambda>(env, cfg). accepts env \<and> reachesExecutor env cfg (exampleFlow exampleSteps) \<and>
      (\<forall>ns n. ev_flow env ns n = Inr (exampleFlow exampleSteps))) (replicate 3 (exampleQuietEnv, exampleReconConfig))"
    using exampleQuiet by (simp add: list_all_iff)
  show "noWaitSteps (exampleFlow exampleSteps)"
    by (simp add: noWaitSteps_def exampleFlow_def exampleTransform_def stepAction_defs)
  show "as_run (rs_api (exampleReconState exampleFresh)) = Some exampleFresh" by (simp add: exampleReconState_def)
  show "idle exampleFresh" by (simp add: idle_def exampleActiveRun_def)
  show "length (fl_steps (exampleFlow exampleSteps)) < length (replicate 3 (exampleQuietEnv, exampleReconConfig))"
    by (simp add: exampleFlow_def)
qed

end
