(* ===== verification/FlowValidation.thy ===== *)
theory FlowValidation
  imports FlowRunOutcome
begin

text \<open>
  The Flow controller (\<^verbatim>\<open>internal/controller/flow_controller.go\<close>): \<^verbatim>\<open>validateFlowSpec\<close> and the reconcile that
  publishes its verdict as the \<^verbatim>\<open>Ready\<close> condition. \<^verbatim>\<open>time.ParseDuration\<close> is the argument \<open>parseDuration\<close>, as
  in the FlowRun controller.
\<close>

section \<open>Validation\<close>

fun checkNames :: "flowStep list \<Rightarrow> string list \<Rightarrow> msg option" where
  "checkNames [] seen = None"
| "checkNames (step # steps) seen =
     (if fs_name step \<in> set seen then
        Some (Fmt ''duplicate step name %q: all step names must be unique'' [Txt (fs_name step)])
      else checkNames steps (fs_name step # seen))"

fun checkRunAfter :: "string \<Rightarrow> string list \<Rightarrow> string list \<Rightarrow> msg option" where
  "checkRunAfter name [] stepNames = None"
| "checkRunAfter name (dep # deps) stepNames =
     (if dep \<notin> set stepNames then
        Some (Fmt ''step %q has runAfter reference to unknown step %q'' [Txt name, Txt dep])
      else checkRunAfter name deps stepNames)"

definition checkAction :: "(string \<Rightarrow> duration result) \<Rightarrow> flowStep \<Rightarrow> msg option" where
  "checkAction parseDuration step =
     (let name = Txt (fs_name step); action = fs_action step; ty = sa_type action
      in if ty = stepActionHTTP then
           (case sa_http action of
              None \<Rightarrow> Some (Fmt ''step %q has type=http but action.http is not set'' [name])
            | Some h \<Rightarrow>
                if ha_url h = [] \<and> ha_integrationRef h = None then
                  Some (Fmt ''step %q has type=http but action.http.url is empty'' [name])
                else None)
         else if ty = stepActionTransform then None
         else if ty = stepActionPublish then
           (case sa_publish action of
              None \<Rightarrow> Some (Fmt ''step %q has type=publish but action.publish is not set'' [name])
            | Some p \<Rightarrow>
                if pa_integrationRef p = [] then
                  Some (Fmt ''step %q has type=publish but action.publish.integrationRef.name is empty'' [name])
                else if pa_topic p = [] then
                  Some (Fmt ''step %q has type=publish but action.publish.topic is empty'' [name])
                else None)
         else if ty = stepActionWait then
           (case sa_wait action of
              None \<Rightarrow> Some (Fmt ''step %q has type=wait but action.wait is not set'' [name])
            | Some d \<Rightarrow>
                if d = [] then Some (Fmt ''step %q has type=wait but action.wait.duration is empty'' [name])
                else (case parseDuration d of
                    Inl err \<Rightarrow>
                      Some (Fmt ''step %q has type=wait but action.wait.duration %q is not a valid Go duration: %w''
                              [name, Txt d, err])
                  | Inr _ \<Rightarrow> None))
         else Some (Fmt ''step %q has unknown action type %q: must be one of http, transform, publish, wait''
                      [name, Txt ty]))"

fun checkSteps :: "(string \<Rightarrow> duration result) \<Rightarrow> flowStep list \<Rightarrow> string list \<Rightarrow> msg option" where
  "checkSteps parseDuration [] stepNames = None"
| "checkSteps parseDuration (step # steps) stepNames =
     (case checkRunAfter (fs_name step) (fs_runAfter step) stepNames of
        Some e \<Rightarrow> Some e
      | None \<Rightarrow>
          (case checkAction parseDuration step of
             Some e \<Rightarrow> Some e
           | None \<Rightarrow> checkSteps parseDuration steps stepNames))"

definition validateFlowSpec :: "(string \<Rightarrow> duration result) \<Rightarrow> flowSpec \<Rightarrow> msg option" where
  "validateFlowSpec parseDuration spec =
     (if fl_steps spec = [] then Some (Txt ''spec.steps must contain at least one step'')
      else case checkNames (fl_steps spec) [] of
          Some e \<Rightarrow> Some e
        | None \<Rightarrow> checkSteps parseDuration (fl_steps spec) (map fs_name (fl_steps spec)))"

section \<open>Reconcile\<close>

record flowObject =
  fo_generation :: int
  fo_spec :: flowSpec
  fo_conditions :: "condition list"

definition readyCondition :: "int \<Rightarrow> msg option \<Rightarrow> condition" where
  "readyCondition generation err =
     (case err of
        Some e \<Rightarrow> \<lparr>cond_type = ''Ready'', cond_status = ''False'', cond_reason = ''InvalidSpec'', cond_message = e,
                    cond_lastTransitionTime = None, cond_observedGeneration = generation\<rparr>
      | None \<Rightarrow> \<lparr>cond_type = ''Ready'', cond_status = ''True'', cond_reason = ''FlowReady'',
                    cond_message = Txt ''Flow is valid and ready'', cond_lastTransitionTime = None,
                    cond_observedGeneration = generation\<rparr>)"

text \<open>The Flow read, the status update, and the stored Flow.\<close>

definition reconcileFlow ::
  "(string \<Rightarrow> duration result) \<Rightarrow> conditionSetter \<Rightarrow> apiError option \<Rightarrow> apiOutcome \<Rightarrow> flowObject option \<Rightarrow>
   (apiError + ctrlResult) \<times> flowObject option" where
  "reconcileFlow parseDuration setCond getError update stored =
     (case (getError, stored) of
        (Some e, _) \<Rightarrow> (if e = NotFound then Inr Done else Inl e, stored)
      | (None, None) \<Rightarrow> (Inr Done, stored)
      | (None, Some flow) \<Rightarrow>
          (let flow' = flow\<lparr>fo_conditions := setCond (fo_conditions flow)
                              (readyCondition (fo_generation flow) (validateFlowSpec parseDuration (fo_spec flow)))\<rparr>
           in case update of
                Accepted \<Rightarrow> (Inr Done, Some flow')
              | Rejected e \<Rightarrow> (Inl e, stored)
              | AnswerLost e \<Rightarrow> (Inl e, Some flow')))"

section \<open>What validation guarantees\<close>

definition actionOk :: "(string \<Rightarrow> duration result) \<Rightarrow> stepAction \<Rightarrow> bool" where
  "actionOk parseDuration action \<longleftrightarrow>
     (sa_type action = ''http'' \<and> (\<exists>h. sa_http action = Some h \<and> (ha_url h \<noteq> [] \<or> (\<exists>i. ha_integrationRef h = Some i)))) \<or>
     sa_type action = ''transform'' \<or>
     (sa_type action = ''publish'' \<and> (\<exists>p. sa_publish action = Some p \<and> pa_integrationRef p \<noteq> [] \<and> pa_topic p \<noteq> [])) \<or>
     (sa_type action = ''wait'' \<and> (\<exists>d n. sa_wait action = Some d \<and> d \<noteq> [] \<and> parseDuration d = Inr n))"

lemma first_error_None:
  "(case x of Some e \<Rightarrow> Some e | None \<Rightarrow> y) = None \<longleftrightarrow> x = None \<and> y = None"
  by (cases x) auto

lemma checkNames_None: "checkNames steps seen = None \<longleftrightarrow> distinct (map fs_name steps) \<and> set seen \<inter> fs_name ` set steps = {}"
  by (induction steps arbitrary: seen) auto

lemma checkRunAfter_None: "checkRunAfter name deps stepNames = None \<longleftrightarrow> set deps \<subseteq> set stepNames"
  by (induction deps) auto

lemma checkAction_None: "checkAction parseDuration step = None \<longleftrightarrow> actionOk parseDuration (fs_action step)"
proof -
  note d = checkAction_def actionOk_def stepAction_defs Let_def
  consider (http) "sa_type (fs_action step) = ''http''" | (publish) "sa_type (fs_action step) = ''publish''"
    | (wait) "sa_type (fs_action step) = ''wait''" | (transform) "sa_type (fs_action step) = ''transform''"
    | (other) "sa_type (fs_action step) \<notin> {''http'', ''publish'', ''wait'', ''transform''}" by blast
  then show ?thesis by cases (auto simp: d split: option.split sum.split)
qed

lemma checkSteps_None:
  "checkSteps parseDuration steps stepNames = None \<longleftrightarrow>
     (\<forall>step \<in> set steps. set (fs_runAfter step) \<subseteq> set stepNames \<and> actionOk parseDuration (fs_action step))"
  by (induction steps) (auto simp: first_error_None checkRunAfter_None checkAction_None)

definition wellFormedFlow :: "(string \<Rightarrow> duration result) \<Rightarrow> flowSpec \<Rightarrow> bool" where
  "wellFormedFlow parseDuration spec \<longleftrightarrow>
     fl_steps spec \<noteq> [] \<and> distinct (map fs_name (fl_steps spec)) \<and>
     (\<forall>step \<in> set (fl_steps spec). set (fs_runAfter step) \<subseteq> fs_name ` set (fl_steps spec) \<and>
        actionOk parseDuration (fs_action step))"

lemma validateFlowSpec_None: "validateFlowSpec parseDuration spec = None \<longleftrightarrow> wellFormedFlow parseDuration spec"
  by (auto simp: validateFlowSpec_def wellFormedFlow_def first_error_None checkNames_None checkSteps_None)


abbreviation exampleCycle :: "flowStep list" where
  "exampleCycle \<equiv> [exampleTransform ''a'' [''b''], exampleTransform ''b'' [''a'']]"

lemma exampleCycle_validates: "validateFlowSpec parseDuration (exampleFlow exampleCycle) = None"
  by (simp add: validateFlowSpec_None wellFormedFlow_def actionOk_def exampleFlow_def exampleTransform_def stepAction_defs)


text \<open>Validation does not look for cycles. A Flow whose two steps wait for each other is marked Ready, and the first
  reconcile of a run of it reports Succeeded with no step executed and no step status.\<close>

theorem validated_cyclic_flow_succeeds:
  "validateFlowSpec parseDuration (exampleFlow exampleCycle) = None \<and>
   (let s' = snd (Reconcile (exampleReconEnv (\<lambda>n. Accepted) exampleCycle) exampleReconConfig
                    (exampleReconState (exampleActiveRun FlowRunPhaseUnset None [])))
    in map_option (\<lambda>b. (st_phase (fr_status b), st_steps (fr_status b))) (as_run (rs_api s')) =
         Some (FlowRunPhaseSucceeded, []) \<and> rs_executed s' = [])"
  using exampleCycle_validates Reconcile_cyclic_flow_succeeds by blast

text \<open>A transform step without a transform validates, and always fails.\<close>

lemma validated_transform_fails:
  assumes "sa_type (fs_action step) = ''transform''" "sa_transform (fs_action step) = None"
  shows "checkAction parseDuration step = None \<and>
         ss_phase (fst (fst (executeStep env cfg ctx step fr stepResults params s))) = StepPhaseFailed"
  using assms by (simp add: checkAction_None actionOk_def executeStep_def stepAction_defs Let_def)

end
