(* ===== verification/Encodings.thy ===== *)
theory Encodings
  imports Prelude
begin

text \<open>
  Byte-level library functions of the gateways: \<^verbatim>\<open>base64.StdEncoding.DecodeString\<close>, the inverse of the
  encoder of the prelude, \<^verbatim>\<open>utf8.Valid\<close>, and the header map of \<^verbatim>\<open>net/http\<close> with its canonical keys.
\<close>

section \<open>Base64\<close>

definition base64Val :: "char \<Rightarrow> nat option" where
  "base64Val c =
     (let n = (of_char c :: nat)
      in if 65 \<le> n \<and> n \<le> 90 then Some (n - 65)
         else if 97 \<le> n \<and> n \<le> 122 then Some (n - 71)
         else if 48 \<le> n \<and> n \<le> 57 then Some (n + 4)
         else if n = 43 then Some 62 else if n = 47 then Some 63 else None)"

text \<open>Groups of four digits; padding is allowed in the last group only, and the bits it leaves unused
  are ignored.\<close>

fun base64DecodeLoop :: "string \<Rightarrow> string option" where
  "base64DecodeLoop [] = Some []"
| "base64DecodeLoop (a # b # c # d # rest) =
     (case (base64Val a, base64Val b) of
        (Some va, Some vb) \<Rightarrow>
          if c = CHR ''='' then
            (if d = CHR ''='' \<and> rest = [] then Some [char_of (va * 4 + vb div 16)] else None)
          else (case base64Val c of
              None \<Rightarrow> None
            | Some vc \<Rightarrow>
                if d = CHR ''='' then
                  (if rest = [] then Some [char_of (va * 4 + vb div 16), char_of (vb mod 16 * 16 + vc div 4)]
                   else None)
                else (case base64Val d of
                    None \<Rightarrow> None
                  | Some vd \<Rightarrow>
                      map_option (\<lambda>s. char_of (va * 4 + vb div 16) # char_of (vb mod 16 * 16 + vc div 4)
                                    # char_of (vc mod 4 * 64 + vd) # s) (base64DecodeLoop rest)))
      | _ \<Rightarrow> None)"
| "base64DecodeLoop _ = None"

definition base64Decode :: "string \<Rightarrow> string option" where
  "base64Decode s = base64DecodeLoop (filter (\<lambda>c. c \<noteq> CHR 0x0D \<and> c \<noteq> CHR 0x0A) s)"

section \<open>UTF-8\<close>

definition continuation :: "char \<Rightarrow> bool" where
  "continuation c \<longleftrightarrow> (let n = (of_char c :: nat) in 128 \<le> n \<and> n \<le> 191)"

definition byteIn :: "nat \<Rightarrow> nat \<Rightarrow> char \<Rightarrow> bool" where
  "byteIn lo hi c \<longleftrightarrow> (let n = (of_char c :: nat) in lo \<le> n \<and> n \<le> hi)"

text \<open>The number of bytes after the first one and the range of the second one.\<close>

definition utf8Lead :: "char \<Rightarrow> (nat \<times> nat \<times> nat) option" where
  "utf8Lead c =
     (if byteIn 0 127 c then Some (0, 0, 0)
      else if byteIn 194 223 c then Some (1, 128, 191)
      else if byteIn 224 224 c then Some (2, 160, 191)
      else if byteIn 225 236 c then Some (2, 128, 191)
      else if byteIn 237 237 c then Some (2, 128, 159)
      else if byteIn 238 239 c then Some (2, 128, 191)
      else if byteIn 240 240 c then Some (3, 144, 191)
      else if byteIn 241 243 c then Some (3, 128, 191)
      else if byteIn 244 244 c then Some (3, 128, 143) else None)"

function utf8Valid :: "string \<Rightarrow> bool" where
  "utf8Valid [] = True"
| "utf8Valid (c # s) =
     (case utf8Lead c of
        None \<Rightarrow> False
      | Some (n, lo, hi) \<Rightarrow>
          n \<le> length s \<and> (n = 0 \<or> byteIn lo hi (s ! 0)) \<and> list_all continuation (take (n - 1) (drop 1 s))
          \<and> utf8Valid (drop n s))"
  by pat_completeness auto
termination
  by (relation "measure length") auto

section \<open>Header maps\<close>

text \<open>\<^verbatim>\<open>http.Header\<close>; the keys of a request read by the server are canonical and distinct.\<close>

type_synonym httpHeader = "(string \<times> string list) list"

definition isAlnum :: "char \<Rightarrow> bool" where
  "isAlnum c \<longleftrightarrow> byteIn 48 57 c \<or> byteIn 65 90 c \<or> byteIn 97 122 c"

definition headerFieldByte :: "char \<Rightarrow> bool" where
  "headerFieldByte c \<longleftrightarrow> isAlnum c \<or> c \<in> set ''!#$%&*+-.^_|~'' \<or> byteIn 39 39 c \<or> byteIn 96 96 c"

fun canonLoop :: "bool \<Rightarrow> string \<Rightarrow> string" where
  "canonLoop up [] = []"
| "canonLoop up (c # cs) = (if up then upperChar c else lowerChar c) # canonLoop (c = CHR ''-'') cs"

definition canonicalHeaderKey :: "string \<Rightarrow> string" where
  "canonicalHeaderKey s = (if list_all headerFieldByte s then canonLoop True s else s)"

definition headerGet :: "httpHeader \<Rightarrow> string \<Rightarrow> string" where
  "headerGet h k = (case map_of h (canonicalHeaderKey k) of Some (v # _) \<Rightarrow> v | _ \<Rightarrow> [])"

section \<open>Round trip\<close>

lemma base64Val_alphabet: "k < 64 \<Longrightarrow> base64Val (base64Alphabet ! k) = Some k"
proof -
  have "list_all (\<lambda>k. base64Val (base64Alphabet ! k) = Some k) [0..<64]"
    by (simp add: upt_rec base64Alphabet_def base64Val_def)
  then show "k < 64 \<Longrightarrow> base64Val (base64Alphabet ! k) = Some k" by (simp add: list_all_iff)
qed

lemma base64Val_char: "base64Val (base64Char n) = Some (nat (n mod 64))"
  by (simp add: base64Char_def base64Val_alphabet nat_less_iff)

lemma base64Char_plain: "base64Char n \<noteq> CHR ''=''" "base64Char n \<noteq> CHR 0x0D" "base64Char n \<noteq> CHR 0x0A"
proof -
  have "base64Val (CHR ''='') = None" "base64Val (CHR 0x0D) = None" "base64Val (CHR 0x0A) = None"
    by (simp_all add: base64Val_def)
  then show "base64Char n \<noteq> CHR ''=''" "base64Char n \<noteq> CHR 0x0D" "base64Char n \<noteq> CHR 0x0A"
    using base64Val_char [of n] by force+
qed

lemma base64Encode_no_newline: "filter (\<lambda>c. c \<noteq> CHR 0x0D \<and> c \<noteq> CHR 0x0A) (base64Encode s) = base64Encode s"
  by (induction s rule: base64Encode.induct) (simp_all add: Let_def base64Char_plain)

lemma char_byte: "(of_char c :: nat) < 256"
  using range_nat_of_char by auto

lemma digit_div_mod:
  fixes q r k :: nat
  assumes "r < k"
  shows "(q * k + r) div k = q" "(q * k + r) mod k = r"
  using assms by simp_all

lemma base64_digits:
  fixes a1 a2 b1 b2 c1 c2 :: nat
  assumes "a1 < 64" "a2 < 4" "b1 < 16" "b2 < 16" "c1 < 4" "c2 < 64"
  defines "N \<equiv> ((a1 * 64 + (a2 * 16 + b1)) * 64 + (b2 * 4 + c1)) * 64 + c2"
  shows "N div 262144 mod 64 = a1" "N div 4096 mod 64 = a2 * 16 + b1"
    and "N div 64 mod 64 = b2 * 4 + c1" "N mod 64 = c2"
proof -
  have d64: "N div 64 = (a1 * 64 + (a2 * 16 + b1)) * 64 + (b2 * 4 + c1)" and "N mod 64 = c2"
    unfolding N_def by (rule digit_div_mod, fact)+
  then show "N mod 64 = c2" by simp
  have l3: "b2 * 4 + c1 < 64" and l2: "a2 * 16 + b1 < 64" using assms by linarith+
  have d4096: "N div 4096 = a1 * 64 + (a2 * 16 + b1)"
    using digit_div_mod(1) [OF l3, of "a1 * 64 + (a2 * 16 + b1)"] d64 div_mult2_eq [of N 64 64] by simp
  have d262144: "N div 262144 = a1"
    using digit_div_mod(1) [OF l2, of a1] d4096 div_mult2_eq [of N 4096 64] by simp
  show "N div 64 mod 64 = b2 * 4 + c1" unfolding d64 by (rule digit_div_mod(2) [OF l3])
  show "N div 4096 mod 64 = a2 * 16 + b1" unfolding d4096 by (rule digit_div_mod(2) [OF l2])
  show "N div 262144 mod 64 = a1" unfolding d262144 using assms by simp
qed

lemma base64_bytes:
  fixes a b c :: nat
  assumes "a < 256" "b < 256" "c < 256" and n: "n = int (a * 65536 + b * 256 + c)"
  shows "nat (n div 262144 mod 64) * 4 + nat (n div 4096 mod 64) div 16 = a"
    and "nat (n div 4096 mod 64) mod 16 * 16 + nat (n div 64 mod 64) div 4 = b"
    and "nat (n div 64 mod 64) mod 4 * 64 + nat (n mod 64) = c"
proof -
  define N a1 a2 b1 b2 c1 c2 where "N = a * 65536 + b * 256 + c" and "a1 = a div 4" and "a2 = a mod 4"
    and "b1 = b div 16" and "b2 = b mod 16" and "c1 = c div 64" and "c2 = c mod 64"
  note ds = this
  have a: "a = a1 * 4 + a2" and b: "b = b1 * 16 + b2" and c: "c = c1 * 64 + c2"
    unfolding ds by simp_all
  have lt: "a1 < 64" "a2 < 4" "b1 < 16" "b2 < 16" "c1 < 4" "c2 < 64"
    unfolding ds using assms by (simp_all add: less_mult_imp_div_less)
  have N: "N = ((a1 * 64 + (a2 * 16 + b1)) * 64 + (b2 * 4 + c1)) * 64 + c2"
    unfolding ds(1) unfolding a b c by simp
  note digits = base64_digits [OF lt, folded N]
  have d: "nat (n div numeral k mod 64) = N div numeral k mod 64" for k
    unfolding n ds(1) [symmetric] by (metis nat_int of_nat_numeral zdiv_int zmod_int)
  have d4: "nat (n mod 64) = c2"
    unfolding n ds(1) [symmetric] using digits(4) by (metis nat_int of_nat_numeral zmod_int)
  show "nat (n div 262144 mod 64) * 4 + nat (n div 4096 mod 64) div 16 = a"
    unfolding d digits a using lt by simp
  show "nat (n div 4096 mod 64) mod 16 * 16 + nat (n div 64 mod 64) div 4 = b"
    unfolding d digits b using lt by simp
  show "nat (n div 64 mod 64) mod 4 * 64 + nat (n mod 64) = c"
    unfolding d d4 digits c using lt by simp
qed

lemma base64_chars:
  assumes "n = of_char a * 65536 + of_char b * 256 + of_char c"
  shows "char_of (nat (n div 262144 mod 64) * 4 + nat (n div 4096 mod 64) div 16) = a"
    and "char_of (nat (n div 4096 mod 64) mod 16 * 16 + nat (n div 64 mod 64) div 4) = b"
    and "char_of (nat (n div 64 mod 64) mod 4 * 64 + nat (n mod 64)) = c"
proof -
  have n: "n = int (of_char a * 65536 + of_char b * 256 + of_char c)"
    unfolding assms by (simp add: of_nat_of_char)
  note bytes = base64_bytes [OF char_byte char_byte char_byte n]
  show "char_of (nat (n div 262144 mod 64) * 4 + nat (n div 4096 mod 64) div 16) = a"
    and "char_of (nat (n div 4096 mod 64) mod 16 * 16 + nat (n div 64 mod 64) div 4) = b"
    and "char_of (nat (n div 64 mod 64) mod 4 * 64 + nat (n mod 64)) = c"
    unfolding bytes by simp_all
qed

lemma base64Decode_Encode: "base64Decode (base64Encode s) = Some s"
proof -
  have "base64DecodeLoop (base64Encode s) = Some s"
  proof (induction s rule: base64Encode.induct)
    case (2 a)
    define n :: int where "n = of_char a * 65536"
    have "base64Encode [a] = [base64Char (n div 262144), base64Char (n div 4096), CHR ''='', CHR ''='']"
      by (simp only: base64Encode.simps Let_def n_def)
    moreover have "n = of_char a * 65536 + of_char (CHR 0x00) * 256 + of_char (CHR 0x00)" by (simp add: n_def)
    ultimately show ?case
      using base64_chars(1) [of n a "CHR 0x00" "CHR 0x00"] by (simp add: base64Val_char del: base64Encode.simps)
  next
    case (3 a b)
    define n :: int where "n = of_char a * 65536 + of_char b * 256"
    have "base64Encode [a, b] = [base64Char (n div 262144), base64Char (n div 4096), base64Char (n div 64), CHR ''='']"
      by (simp only: base64Encode.simps Let_def n_def)
    moreover have "n = of_char a * 65536 + of_char b * 256 + of_char (CHR 0x00)" by (simp add: n_def)
    ultimately show ?case
      using base64_chars(1,2) [of n a b "CHR 0x00"] by (simp add: base64Val_char base64Char_plain del: base64Encode.simps)
  next
    case (4 a b c s)
    define n :: int where "n = of_char a * 65536 + of_char b * 256 + of_char c"
    have "base64Encode (a # b # c # s) =
        [base64Char (n div 262144), base64Char (n div 4096), base64Char (n div 64), base64Char n] @ base64Encode s"
      by (simp only: base64Encode.simps Let_def n_def)
    then show ?case
      using base64_chars [OF n_def] 4 by (simp add: base64Val_char base64Char_plain del: base64Encode.simps)
  qed simp
  then show ?thesis by (simp add: base64Decode_def base64Encode_no_newline)
qed

end
