(* ===== verification/ClientAddr.thy ===== *)
theory ClientAddr
  imports NetAddr Encodings
begin

text \<open>
  Requests of the webhook gateway and the address they come from
  (\<^verbatim>\<open>internal/gateway/webhook/accesslog.go\<close>): \<^verbatim>\<open>realClientIP\<close> consults forwarding headers only behind a
  trusted proxy and walks them from the right, past trusted hops. The other pure functions of that
  file are here too: the content-type bucket, the peer port, the trigger name in the path.
\<close>

section \<open>Requests\<close>

text \<open>\<open>rq_bodyError\<close> is the error the body reader returns after the bytes of \<open>rq_body\<close>, if any.\<close>

record httpRequest =
  rq_method :: string
  rq_path :: string
  rq_remoteAddr :: string
  rq_header :: httpHeader
  rq_body :: string
  rq_bodyError :: "string option"
  rq_contentLength :: int

abbreviation header :: "httpRequest \<Rightarrow> string \<Rightarrow> string" where
  "header r k \<equiv> headerGet (rq_header r) k"

text \<open>\<^verbatim>\<open>io.ReadAll(io.LimitReader(r.Body, n))\<close>.\<close>

definition readBody :: "nat \<Rightarrow> httpRequest \<Rightarrow> string + string" where
  "readBody n r =
     (if n \<le> length (rq_body r) then Inr (take n (rq_body r))
      else case rq_bodyError r of None \<Rightarrow> Inr (rq_body r) | Some e \<Rightarrow> Inl e)"

section \<open>Pure helpers of the access log\<close>

definition normalizeContentType :: "string \<Rightarrow> string" where
  "normalizeContentType raw =
     (let media0 = (case strIndex raw '';'' of Some i \<Rightarrow> take i raw | None \<Rightarrow> raw);
          media = toLower (trimSpace media0)
      in if media = [] then []
         else if media = ''application/json'' \<or> hasSuffix media ''+json'' then ''json''
         else if media = ''application/xml'' \<or> media = ''text/xml'' \<or> hasSuffix media ''+xml'' then ''xml''
         else if media = ''application/x-www-form-urlencoded'' then ''form''
         else if hasPrefix media ''text/'' then ''text'' else ''binary'')"

definition sourcePortFromRemoteAddr :: "string \<Rightarrow> int option" where
  "sourcePortFromRemoteAddr remoteAddr =
     (case splitHostPort remoteAddr of None \<Rightarrow> None | Some (_, portStr) \<Rightarrow> parseInt64 portStr)"

definition triggerFromPath :: "string \<Rightarrow> string" where
  "triggerFromPath path =
     (if \<not> hasPrefix path ''/hooks/'' then []
      else (let rest = trimPrefix path ''/hooks/''
            in case strIndex rest ''/'' of Some i \<Rightarrow> take i rest | None \<Rightarrow> rest))"

section \<open>The client address\<close>

definition isTrustedProxy :: "string \<Rightarrow> ipNet list \<Rightarrow> bool" where
  "isTrustedProxy host trustedProxies =
     (case parseIP host of None \<Rightarrow> False | Some ip \<Rightarrow> list_ex (\<lambda>cidr. netContains cidr ip) trustedProxies)"

definition maxForwardedForHops :: nat where "maxForwardedForHops = 32"

text \<open>The walk over the entries, right-most first; the empty string when every entry is blank.\<close>

fun walkForwarded :: "ipNet list \<Rightarrow> string list \<Rightarrow> string \<Rightarrow> string" where
  "walkForwarded trustedProxies [] leftMost = leftMost"
| "walkForwarded trustedProxies (part # parts) leftMost =
     (let entry = trimSpace part
      in if entry = [] then walkForwarded trustedProxies parts leftMost
         else if \<not> isTrustedProxy entry trustedProxies then entry
         else walkForwarded trustedProxies parts entry)"

definition forwardedClient :: "ipNet list \<Rightarrow> string \<Rightarrow> string" where
  "forwardedClient trustedProxies xff =
     walkForwarded trustedProxies (take maxForwardedForHops (rev (splitOn (CHR '','') xff))) []"

definition peerHost :: "httpRequest \<Rightarrow> string" where
  "peerHost r = (case splitHostPort (rq_remoteAddr r) of Some (host, _) \<Rightarrow> host | None \<Rightarrow> rq_remoteAddr r)"

definition realClientIP :: "httpRequest \<Rightarrow> ipNet list \<Rightarrow> string" where
  "realClientIP r trustedProxies =
     (let host = peerHost r; xff = header r ''X-Forwarded-For''; xri = header r ''X-Real-IP''
      in if trustedProxies = [] \<or> \<not> isTrustedProxy host trustedProxies then host
         else if xff \<noteq> [] \<and> forwardedClient trustedProxies xff \<noteq> [] then forwardedClient trustedProxies xff
         else if xri \<noteq> [] \<and> trimSpace xri \<noteq> [] then trimSpace xri
         else host)"

fun parseProxyLoop :: "string list \<Rightarrow> ipNet list \<Rightarrow> ipNet list result" where
  "parseProxyLoop [] out = Inr out"
| "parseProxyLoop (part # parts) out =
     (let cidr = trimSpace part
      in if cidr = [] then parseProxyLoop parts out
         else case parseCIDR cidr of
             None \<Rightarrow> Inl (Fmt ''invalid CIDR %q in --trusted-proxy-cidrs: %w''
                        [Txt cidr, Fmt ''invalid CIDR address: %s'' [Txt cidr]])
           | Some ipNet \<Rightarrow> parseProxyLoop parts (out @ [ipNet]))"

definition ParseTrustedProxyCIDRs :: "string \<Rightarrow> ipNet list result" where
  "ParseTrustedProxyCIDRs raw =
     (if trimSpace raw = [] then Inr [] else parseProxyLoop (splitOn (CHR '','') (trimSpace raw)) [])"

section \<open>Forwarding headers cannot be forged\<close>

lemma splitOn_not_Nil [simp]: "splitOn d s \<noteq> []"
  by (cases s) (auto split: list.split)

lemma splitOn_append: "splitOn d (a @ d # b) = splitOn d a @ splitOn d b"
proof (induction a)
  case (Cons c a)
  then show ?case by (cases "splitOn d a") auto
qed simp

text \<open>An entry the walk stops at.\<close>

definition untrustedEntry :: "ipNet list \<Rightarrow> string \<Rightarrow> bool" where
  "untrustedEntry trustedProxies part \<longleftrightarrow>
     trimSpace part \<noteq> [] \<and> \<not> isTrustedProxy (trimSpace part) trustedProxies"

lemma walkForwarded_append:
  assumes "list_ex (untrustedEntry ps) parts"
  shows "walkForwarded ps (parts @ parts') l = walkForwarded ps parts l'"
    and "walkForwarded ps parts l \<noteq> []"
proof -
  show "walkForwarded ps (parts @ parts') l = walkForwarded ps parts l'"
    using assms by (induction parts arbitrary: l l') (auto simp: untrustedEntry_def Let_def)
  show "walkForwarded ps parts l \<noteq> []"
    using assms by (induction parts arbitrary: l) (auto simp: untrustedEntry_def Let_def)
qed

lemma forwardedClient_suffix:
  assumes "list_ex (untrustedEntry ps) (take maxForwardedForHops (rev (splitOn (CHR '','') post)))"
  shows "forwardedClient ps (pre @ CHR '','' # post) = forwardedClient ps post" "forwardedClient ps post \<noteq> []"
proof -
  let ?p = "rev (splitOn (CHR '','') post)"
  have "take maxForwardedForHops (rev (splitOn (CHR '','') (pre @ CHR '','' # post))) =
      take maxForwardedForHops ?p @ take (maxForwardedForHops - length ?p) (rev (splitOn (CHR '','') pre))"
    by (simp add: splitOn_append)
  then show "forwardedClient ps (pre @ CHR '','' # post) = forwardedClient ps post"
    unfolding forwardedClient_def using walkForwarded_append(1) [OF assms] by simp
  show "forwardedClient ps post \<noteq> []"
    unfolding forwardedClient_def by (rule walkForwarded_append(2) [OF assms])
qed


definition exampleHTTPRequest :: "string \<Rightarrow> httpHeader \<Rightarrow> httpRequest" where
  "exampleHTTPRequest path hdr =
     \<lparr>rq_method = ''POST'', rq_path = path, rq_remoteAddr = ''10.0.0.1:443'', rq_header = hdr, rq_body = ''{}'',
      rq_bodyError = None, rq_contentLength = 2\<rparr>"


end
