(* ===== verification/WebhookAuth.thy ===== *)
theory WebhookAuth
  imports ClientAddr Sha256
begin

text \<open>
  Authentication of webhook requests: the route entry (\<^verbatim>\<open>internal/gateway/webhook/registry.go\<close>),
  \<^verbatim>\<open>authenticateRequest\<close>, \<^verbatim>\<open>verifySlackHMAC\<close> and \<^verbatim>\<open>authFailureReason\<close> (\<^verbatim>\<open>handler.go\<close>) and the OIDC validator
  (\<^verbatim>\<open>oidc.go\<close>). The JWKS cache and the JWT parser are the record \<open>jwtLib\<close>; their errors are strings.
\<close>

section \<open>Route entries\<close>

definition authTypeHMAC :: string where "authTypeHMAC = ''hmac''"
definition authTypeBearer :: string where "authTypeBearer = ''bearer''"
definition authTypeAPIKey :: string where "authTypeAPIKey = ''apiKey''"
definition authTypeIPAllowlist :: string where "authTypeIPAllowlist = ''ipAllowlist''"
definition authTypeOIDC :: string where "authTypeOIDC = ''oidc''"
definition authTypeBasic :: string where "authTypeBasic = ''basic''"
definition authTypeHeaderEquals :: string where "authTypeHeaderEquals = ''header-equals''"

lemmas authType_defs =
  authTypeHMAC_def authTypeBearer_def authTypeAPIKey_def authTypeIPAllowlist_def authTypeOIDC_def
  authTypeBasic_def authTypeHeaderEquals_def

record oidcValidator =
  ov_jwksURL :: string
  ov_issuer :: string
  ov_audience :: string

record routeEntry =
  re_triggerName :: string
  re_triggerNamespace :: string
  re_flowRef :: string
  re_flowNamespace :: string
  re_allowedMethod :: string
  re_authType :: string
  re_hmacSecret :: string
  re_hmacProvider :: string
  re_hmacTimestampToleranceSec :: int
  re_bearerToken :: string
  re_basicUsername :: string
  re_basicPassword :: string
  re_apiKey :: string
  re_apiKeyHeader :: string
  re_ipAllowlist :: "string list"
  re_headerEqualsHeader :: string
  re_headerEqualsValue :: string
  re_oidcValidator :: "oidcValidator option"
  re_maxInvocations :: int
  re_cooldownWindow :: duration
  re_redactHeaders :: "string list"
  re_redactBody :: bool

section \<open>OIDC\<close>

text \<open>The options of \<^verbatim>\<open>jwt.ParseString\<close>; validation of the standard claims is always on.\<close>

record 'k parseOpts =
  po_keySet :: 'k
  po_issuer :: "string option"
  po_audience :: "string option"

record 'k jwtLib =
  jw_get :: "string \<Rightarrow> string + 'k"
  jw_refresh :: "string \<Rightarrow> string + 'k"
  jw_parse :: "'k parseOpts \<Rightarrow> string \<Rightarrow> string option"

definition buildParseOpts :: "oidcValidator \<Rightarrow> 'k \<Rightarrow> 'k parseOpts" where
  "buildParseOpts v keyset =
     \<lparr>po_keySet = keyset, po_issuer = (if ov_issuer v \<noteq> [] then Some (ov_issuer v) else None),
      po_audience = (if ov_audience v \<noteq> [] then Some (ov_audience v) else None)\<rparr>"

text \<open>\<^const>\<open>None\<close> when the token is valid.\<close>

definition validate :: "'k jwtLib \<Rightarrow> oidcValidator \<Rightarrow> string \<Rightarrow> string option" where
  "validate lib v tokenString =
     (case jw_get lib (ov_jwksURL v) of
        Inl err \<Rightarrow> Some (''unable to load JWKS: '' @ err)
      | Inr keyset \<Rightarrow>
          (case jw_parse lib (buildParseOpts v keyset) tokenString of
             None \<Rightarrow> None
           | Some err \<Rightarrow>
               (case jw_refresh lib (ov_jwksURL v) of
                  Inl _ \<Rightarrow> Some (''token validation failed: '' @ err)
                | Inr freshSet \<Rightarrow>
                    (case jw_parse lib (buildParseOpts v freshSet) tokenString of
                       None \<Rightarrow> None
                     | Some retryErr \<Rightarrow> Some (''token validation failed: '' @ retryErr)))))"

section \<open>Authentication\<close>

datatype authOutcome = AuthPanic | AuthResult int string

abbreviation StatusOK :: int where "StatusOK \<equiv> 200"
abbreviation StatusUnauthorized :: int where "StatusUnauthorized \<equiv> 401"
abbreviation StatusForbidden :: int where "StatusForbidden \<equiv> 403"

definition authMsgHMACSignatureMismatch :: string where
  "authMsgHMACSignatureMismatch = ''HMAC signature mismatch''"

definition slackTolerance :: "int \<Rightarrow> int" where
  "slackTolerance toleranceSeconds = (if toleranceSeconds \<le> 0 then 300 else toleranceSeconds)"

text \<open>\<open>nowUnix\<close> is \<^verbatim>\<open>time.Now().Unix()\<close>; the age is an \<^verbatim>\<open>int64\<close> difference.\<close>

definition verifySlackHMAC :: "int \<Rightarrow> httpRequest \<Rightarrow> string \<Rightarrow> string \<Rightarrow> int \<Rightarrow> authOutcome" where
  "verifySlackHMAC nowUnix r body secret toleranceSeconds =
     (let sigHeader = header r ''X-Slack-Signature''; tsHeader = header r ''X-Slack-Request-Timestamp''
      in if sigHeader = [] then AuthResult StatusUnauthorized ''missing X-Slack-Signature header''
         else if tsHeader = [] then AuthResult StatusUnauthorized ''missing X-Slack-Request-Timestamp header''
         else case parseInt64 tsHeader of
             None \<Rightarrow> AuthResult StatusUnauthorized ''invalid X-Slack-Request-Timestamp header''
           | Some ts \<Rightarrow>
               (let tolerance = slackTolerance toleranceSeconds; age = wrap64 (nowUnix - ts)
                in if age > tolerance \<or> age < - tolerance then
                     AuthResult StatusUnauthorized ''X-Slack-Request-Timestamp outside tolerance window''
                   else if sigHeader \<noteq>
                       ''v0='' @ hexEncode (hmacSHA256 secret (''v0:'' @ tsHeader @ '':'' @ body)) then
                     AuthResult StatusUnauthorized authMsgHMACSignatureMismatch
                   else AuthResult StatusOK []))"

text \<open>\<^verbatim>\<open>Request.BasicAuth\<close>.\<close>

definition parseBasicAuth :: "string \<Rightarrow> (string \<times> string) option" where
  "parseBasicAuth auth =
     (if toLower (take 6 auth) \<noteq> ''basic '' then None
      else case base64Decode (drop 6 auth) of
          None \<Rightarrow> None
        | Some c \<Rightarrow> (case strIndex c '':'' of None \<Rightarrow> None | Some i \<Rightarrow> Some (take i c, drop (i + 1) c)))"

definition basicAuth :: "httpRequest \<Rightarrow> (string \<times> string) option" where
  "basicAuth r = (let auth = header r ''Authorization'' in if auth = [] then None else parseBasicAuth auth)"

text \<open>One entry of the allow list: a network, or a plain address. A client address that does not parse
  is the nil address, which no network contains and no parsed address equals.\<close>

definition allowsIP :: "netIP option \<Rightarrow> string \<Rightarrow> bool" where
  "allowsIP ip cidr =
     (case parseCIDR cidr of
        None \<Rightarrow> (case (parseIP cidr, ip) of (Some allowedIP, Some i) \<Rightarrow> norm4 allowedIP = norm4 i | _ \<Rightarrow> False)
      | Some ipNet \<Rightarrow> (case ip of Some i \<Rightarrow> netContains ipNet i | None \<Rightarrow> False))"

definition authenticateRequest ::
  "'k jwtLib \<Rightarrow> int \<Rightarrow> httpRequest \<Rightarrow> string \<Rightarrow> routeEntry \<Rightarrow> ipNet list \<Rightarrow> authOutcome" where
  "authenticateRequest lib nowUnix r body entry trustedProxies =
     (let authType = re_authType entry; unauthorized = AuthResult StatusUnauthorized; ok = AuthResult StatusOK [];
          authHeader = header r ''Authorization''
      in if authType = authTypeHMAC then
           (if re_hmacProvider entry = ''slack'' then
              verifySlackHMAC nowUnix r body (re_hmacSecret entry) (re_hmacTimestampToleranceSec entry)
            else (let sigHeader = header r ''X-Hub-Signature-256''
                  in if sigHeader = [] then unauthorized ''missing X-Hub-Signature-256 header''
                     else if sigHeader \<noteq> ''sha256='' @ hexEncode (hmacSHA256 (re_hmacSecret entry) body) then
                       unauthorized authMsgHMACSignatureMismatch
                     else ok))
         else if authType = authTypeBearer then
           (if authHeader = [] then unauthorized ''missing Authorization header''
            else if authHeader \<noteq> ''Bearer '' @ re_bearerToken entry then unauthorized ''invalid bearer token''
            else ok)
         else if authType = authTypeAPIKey then
           (let headerName = (if re_apiKeyHeader entry = [] then ''X-Api-Key'' else re_apiKeyHeader entry);
                val = header r headerName
            in if val = [] then unauthorized ''missing API key header''
               else if val \<noteq> re_apiKey entry then unauthorized ''invalid API key'' else ok)
         else if authType = authTypeOIDC then
           (if authHeader = [] \<or> \<not> hasPrefix authHeader ''Bearer '' then
              unauthorized ''{\"error\":\"unauthorized\",\"reason\":\"missing Bearer token\"}''
            else case re_oidcValidator entry of
                None \<Rightarrow> AuthPanic
              | Some v \<Rightarrow>
                  (case validate lib v (trimPrefix authHeader ''Bearer '') of
                     Some err \<Rightarrow> unauthorized (''{\"error\":\"unauthorized\",\"reason\":\"'' @ err @ ''\"}'')
                   | None \<Rightarrow> ok))
         else if authType = authTypeBasic then
           (case basicAuth r of
              None \<Rightarrow> unauthorized ''missing or malformed Basic auth credentials''
            | Some (username, password) \<Rightarrow>
                if username \<noteq> re_basicUsername entry \<or> password \<noteq> re_basicPassword entry then
                  unauthorized ''invalid Basic auth credentials''
                else ok)
         else if authType = authTypeIPAllowlist then
           (if list_ex (allowsIP (parseIP (realClientIP r trustedProxies))) (re_ipAllowlist entry) then ok
            else AuthResult StatusForbidden ''source IP not in allowlist'')
         else if authType = authTypeHeaderEquals then
           (if re_headerEqualsHeader entry = [] then
              unauthorized ''header-equals auth misconfigured: no header name''
            else (let val = header r (re_headerEqualsHeader entry)
                  in if val = [] then unauthorized ''missing required header''
                     else if val \<noteq> re_headerEqualsValue entry then unauthorized ''invalid header value'' else ok))
         else if authType = [] then ok
         else unauthorized ''authentication type not implemented'')"

definition authFailureReason :: "string \<Rightarrow> string \<Rightarrow> string" where
  "authFailureReason authType m =
     (let other = (if m = ''authentication type not implemented'' then ''not_implemented'' else ''unknown'')
      in if authType = authTypeHMAC then
           (if m = ''missing X-Hub-Signature-256 header'' \<or> m = ''missing X-Slack-Signature header'' then ''missing_signature''
            else if m = ''missing X-Slack-Request-Timestamp header'' then ''missing_timestamp''
            else if m = ''invalid X-Slack-Request-Timestamp header'' then ''invalid_timestamp''
            else if m = ''X-Slack-Request-Timestamp outside tolerance window'' then ''timestamp_out_of_tolerance''
            else if m = authMsgHMACSignatureMismatch then ''invalid_signature'' else other)
         else if authType = authTypeBearer then
           (if m = ''missing Authorization header'' then ''missing_token''
            else if m = ''invalid bearer token'' then ''invalid_token'' else other)
         else if authType = authTypeAPIKey then
           (if m = ''missing API key header'' then ''missing_api_key''
            else if m = ''invalid API key'' then ''invalid_api_key'' else other)
         else if authType = authTypeOIDC then
           (if strContains m ''missing Bearer token'' then ''missing_token'' else ''invalid_token'')
         else if authType = authTypeBasic then
           (if m = ''missing or malformed Basic auth credentials'' then ''missing_credentials''
            else if m = ''invalid Basic auth credentials'' then ''invalid_credentials'' else other)
         else if authType = authTypeIPAllowlist then ''ip_not_allowed''
         else if authType = authTypeHeaderEquals then
           (if m = ''header-equals auth misconfigured: no header name'' then ''misconfigured''
            else if m = ''missing required header'' then ''missing_header''
            else if m = ''invalid header value'' then ''invalid_header'' else other)
         else other)"

section \<open>What authentication promises\<close>

text \<open>A token is accepted when it parses, with the configured issuer and audience, under the cached key
  set or, failing that, under a refreshed one.\<close>

definition tokenAccepted :: "'k jwtLib \<Rightarrow> oidcValidator \<Rightarrow> string \<Rightarrow> bool" where
  "tokenAccepted lib v token \<longleftrightarrow>
     (\<exists>cached. jw_get lib (ov_jwksURL v) = Inr cached \<and>
       (jw_parse lib (buildParseOpts v cached) token = None \<or>
        (\<exists>fresh. jw_refresh lib (ov_jwksURL v) = Inr fresh \<and> jw_parse lib (buildParseOpts v fresh) token = None)))"

lemma validate_None: "validate lib v token = None \<longleftrightarrow> tokenAccepted lib v token"
  by (auto simp: validate_def tokenAccepted_def split: sum.splits option.splits)

inductive authorised ::
  "'k jwtLib \<Rightarrow> int \<Rightarrow> httpRequest \<Rightarrow> string \<Rightarrow> routeEntry \<Rightarrow> ipNet list \<Rightarrow> bool"
  for lib nowUnix r body entry trustedProxies where
  no_auth: "re_authType entry = [] \<Longrightarrow> authorised lib nowUnix r body entry trustedProxies"
| github: "re_authType entry = ''hmac'' \<Longrightarrow> re_hmacProvider entry \<noteq> ''slack'' \<Longrightarrow>
    header r ''X-Hub-Signature-256'' = ''sha256='' @ hexEncode (hmacSHA256 (re_hmacSecret entry) body) \<Longrightarrow>
    authorised lib nowUnix r body entry trustedProxies"
| slack: "re_authType entry = ''hmac'' \<Longrightarrow> re_hmacProvider entry = ''slack'' \<Longrightarrow>
    header r ''X-Slack-Request-Timestamp'' = text \<Longrightarrow> parseInt64 text = Some sent \<Longrightarrow>
    \<bar>nowUnix - sent\<bar> \<le> slackTolerance (re_hmacTimestampToleranceSec entry) \<Longrightarrow>
    header r ''X-Slack-Signature'' =
      ''v0='' @ hexEncode (hmacSHA256 (re_hmacSecret entry) (''v0:'' @ text @ '':'' @ body)) \<Longrightarrow>
    authorised lib nowUnix r body entry trustedProxies"
| bearer: "re_authType entry = ''bearer'' \<Longrightarrow> header r ''Authorization'' = ''Bearer '' @ re_bearerToken entry \<Longrightarrow>
    authorised lib nowUnix r body entry trustedProxies"
| api_key: "re_authType entry = ''apiKey'' \<Longrightarrow> re_apiKey entry \<noteq> [] \<Longrightarrow>
    header r (if re_apiKeyHeader entry = [] then ''X-Api-Key'' else re_apiKeyHeader entry) = re_apiKey entry \<Longrightarrow>
    authorised lib nowUnix r body entry trustedProxies"
| oidc: "re_authType entry = ''oidc'' \<Longrightarrow> header r ''Authorization'' = ''Bearer '' @ token \<Longrightarrow>
    re_oidcValidator entry = Some v \<Longrightarrow> tokenAccepted lib v token \<Longrightarrow>
    authorised lib nowUnix r body entry trustedProxies"
| basic: "re_authType entry = ''basic'' \<Longrightarrow> basicAuth r = Some (re_basicUsername entry, re_basicPassword entry) \<Longrightarrow>
    authorised lib nowUnix r body entry trustedProxies"
| allow_list: "re_authType entry = ''ipAllowlist'' \<Longrightarrow> cidr \<in> set (re_ipAllowlist entry) \<Longrightarrow>
    allowsIP (parseIP (realClientIP r trustedProxies)) cidr \<Longrightarrow>
    authorised lib nowUnix r body entry trustedProxies"
| header_equals: "re_authType entry = ''header-equals'' \<Longrightarrow> re_headerEqualsHeader entry \<noteq> [] \<Longrightarrow>
    re_headerEqualsValue entry \<noteq> [] \<Longrightarrow> header r (re_headerEqualsHeader entry) = re_headerEqualsValue entry \<Longrightarrow>
    authorised lib nowUnix r body entry trustedProxies"

lemma parseInt64_range: "parseInt64 s = Some n \<Longrightarrow> int64 n"
  by (auto simp: parseInt64_def Let_def split: if_splits)

lemma slack_age:
  assumes "0 \<le> now" "now < 2 ^ 62" "int64 sent" "tol < 2 ^ 62" "0 \<le> tol"
  shows "(\<not> (wrap64 (now - sent) > tol \<or> wrap64 (now - sent) < - tol)) \<longleftrightarrow> \<bar>now - sent\<bar> \<le> tol"
proof (cases "int64 (now - sent)")
  case True
  then show ?thesis by (auto simp: wrap64_id)
next
  case False
  then have "now - sent \<ge> 2 ^ 63" using assms by (auto simp: int64_def)
  moreover have "now - sent < 2 ^ 63 + 2 ^ 62" using assms by (auto simp: int64_def)
  ultimately have "(now - sent - 2 ^ 63 + 2 ^ 64) mod 2 ^ 64 = now - sent - 2 ^ 63"
    by (subst mod_add_self2) simp
  moreover have "now - sent + 2 ^ 63 = now - sent - 2 ^ 63 + 2 ^ 64" by simp
  ultimately have m: "(now - sent + 2 ^ 63) mod 2 ^ 64 = now - sent - 2 ^ 63" by (simp only:)
  have "wrap64 (now - sent) = now - sent - 2 ^ 64" unfolding wrap64_def m by simp
  then show ?thesis using assms \<open>now - sent \<ge> 2 ^ 63\<close> \<open>now - sent < 2 ^ 63 + 2 ^ 62\<close> by auto
qed

lemma slack_authorised:
  assumes "0 \<le> now" "now < 2 ^ 62" "re_hmacTimestampToleranceSec entry < 2 ^ 31"
    and "re_authType entry = ''hmac''" "re_hmacProvider entry = ''slack''"
  shows "verifySlackHMAC now r body (re_hmacSecret entry) (re_hmacTimestampToleranceSec entry) = AuthResult 200 []
    \<longleftrightarrow> authorised lib now r body entry ps"
proof (cases "parseInt64 (header r ''X-Slack-Request-Timestamp'')")
  case None
  then show ?thesis using assms by (auto simp: verifySlackHMAC_def Let_def authorised.simps)
next
  case (Some sent)
  have ts: "header r ''X-Slack-Request-Timestamp'' \<noteq> []" using Some by (auto simp: parseInt64_def Let_def hasPrefix_def)
  let ?tol = "slackTolerance (re_hmacTimestampToleranceSec entry)"
  have "0 \<le> ?tol" "?tol < 2 ^ 62" using assms(3) by (auto simp: slackTolerance_def)
  then have age: "(\<not> (wrap64 (now - sent) > ?tol \<or> wrap64 (now - sent) < - ?tol)) \<longleftrightarrow> \<bar>now - sent\<bar> \<le> ?tol"
    by (intro slack_age [OF assms(1,2) parseInt64_range [OF Some]])
  show ?thesis
    using assms(4,5) ts unfolding verifySlackHMAC_def Let_def Some option.case authorised.simps
    using age Some by auto
qed

lemma plain_authorised:
  assumes "\<not> (re_authType entry = ''hmac'' \<and> re_hmacProvider entry = ''slack'')"
  shows "authenticateRequest lib nowUnix r body entry ps = AuthResult 200 [] \<longleftrightarrow>
    authorised lib nowUnix r body entry ps"
proof -
  note d = authenticateRequest_def authType_defs Let_def authorised.simps
  consider (hmac) "re_authType entry = ''hmac''" "re_hmacProvider entry \<noteq> ''slack''"
    | (bearer) "re_authType entry = ''bearer''" | (key) "re_authType entry = ''apiKey''"
    | (oidc) "re_authType entry = ''oidc''" | (basic) "re_authType entry = ''basic''"
    | (allow) "re_authType entry = ''ipAllowlist''" | (equals) "re_authType entry = ''header-equals''"
    | (other) "re_authType entry \<notin> {''hmac'', ''bearer'', ''apiKey'', ''oidc'', ''basic'', ''ipAllowlist'', ''header-equals''}"
    using assms by blast
  then show ?thesis
  proof cases
    case oidc
    show ?thesis
    proof (cases "\<exists>token. header r ''Authorization'' = ''Bearer '' @ token")
      case True
      then obtain token where t: "header r ''Authorization'' = ''Bearer '' @ token" by blast
      have "trimPrefix (''Bearer '' @ token) ''Bearer '' = token" "hasPrefix (''Bearer '' @ token) ''Bearer ''"
        by (simp_all only: trimPrefix_append hasPrefix_append)
      then show ?thesis using oidc t
        by (cases "re_oidcValidator entry") (simp_all add: d validate_None [symmetric] split: option.split)
    next
      case False
      then show ?thesis using oidc by (auto simp: d hasPrefix_iff)
    qed
  qed (simp_all add: d list_ex_iff split: option.split, auto?)
qed

definition authAnswer :: "authOutcome \<Rightarrow> bool" where
  "authAnswer x \<longleftrightarrow> (case x of AuthPanic \<Rightarrow> True | AuthResult code m \<Rightarrow> (code = 200 \<and> m = []) \<or> code = 401 \<or> code = 403)"

lemma authAnswer_simps [simp]:
  "authAnswer AuthPanic" "authAnswer (AuthResult 200 [])" "authAnswer (AuthResult 401 m)" "authAnswer (AuthResult 403 m)"
  by (simp_all add: authAnswer_def)

lemma authAnswerI:
  "authAnswer x \<Longrightarrow> authAnswer y \<Longrightarrow> authAnswer (if c then x else y)"
  "authAnswer x \<Longrightarrow> (\<And>v. authAnswer (f v)) \<Longrightarrow> authAnswer (case opt of None \<Rightarrow> x | Some v \<Rightarrow> f v)"
  "(\<And>a b. authAnswer (g a b)) \<Longrightarrow> authAnswer (case p of (a, b) \<Rightarrow> g a b)"
  by (auto split: option.split prod.split)

lemma verifySlackHMAC_answer: "authAnswer (verifySlackHMAC now r body secret tol)"
  unfolding verifySlackHMAC_def Let_def by (intro authAnswerI authAnswer_simps)

lemma authenticateRequest_answer: "authAnswer (authenticateRequest lib nowUnix r body entry ps)"
  unfolding authenticateRequest_def Let_def by (intro authAnswerI authAnswer_simps verifySlackHMAC_answer)

lemma authenticateRequest_authorised:
  assumes "0 \<le> nowUnix" "nowUnix < 2 ^ 62" "re_hmacTimestampToleranceSec entry < 2 ^ 31"
  shows "authenticateRequest lib nowUnix r body entry ps = AuthResult 200 [] \<longleftrightarrow>
           authorised lib nowUnix r body entry ps"
proof (cases "re_authType entry = ''hmac'' \<and> re_hmacProvider entry = ''slack''")
  case True
  then have "authenticateRequest lib nowUnix r body entry ps =
      verifySlackHMAC nowUnix r body (re_hmacSecret entry) (re_hmacTimestampToleranceSec entry)"
    by (simp add: authenticateRequest_def authType_defs)
  then show ?thesis
    using slack_authorised [OF assms, of r body lib ps] True by simp
next
  case False
  then show ?thesis using plain_authorised [OF False, of lib nowUnix r body ps] by blast
qed

text \<open>C9: authentication accepts exactly the authorised requests: a GitHub or Slack signature over the
  received body under the configured secret (Slack: within the tolerance of the clock, with no way
  around it through 64-bit overflow), the exact bearer token, API key, Basic credentials or header
  value, a JWT valid under the provider's keys, or an address of the allow list. Everything else,
  unknown types included, is answered with 401 or 403, or ends in a recovered panic.\<close>

theorem authenticateRequest_iff_authorised:
  assumes "0 \<le> nowUnix" "nowUnix < 2 ^ 62" "re_hmacTimestampToleranceSec entry < 2 ^ 31"
  shows "(authenticateRequest lib nowUnix r body entry ps = AuthResult 200 [] \<longleftrightarrow>
            authorised lib nowUnix r body entry ps) \<and>
         authAnswer (authenticateRequest lib nowUnix r body entry ps)"
  using authenticateRequest_authorised [OF assms] authenticateRequest_answer by blast

end
