(* ===== verification/WebhookRoutes.thy ===== *)
theory WebhookRoutes
  imports WebhookAuth
begin

text \<open>
  The route registry (\<^verbatim>\<open>internal/gateway/webhook/registry.go\<close>) and the cooldown tracker
  (\<^verbatim>\<open>internal/gateway/webhook/handler.go\<close>). Both are guarded by a mutex in the code, so each operation is
  one step on the state. The locale \<open>route_table\<close> is what the handler and the watcher rely on.
\<close>

section \<open>Registry\<close>

record routeRegistry =
  rr_routes :: "(string \<times> routeEntry) list"
  rr_synced :: bool

definition newRouteRegistry :: routeRegistry where
  "newRouteRegistry = \<lparr>rr_routes = [], rr_synced = False\<rparr>"

definition normalizePath :: "string \<Rightarrow> string" where
  "normalizePath path0 =
     (let path = trimSpace path0
      in if \<not> hasPrefix path ''/hooks/'' then ''/hooks/'' @ trimPrefix path ''/'' else path)"

definition redactNonEmpty :: "string \<Rightarrow> string" where
  "redactNonEmpty s = (if s = [] then [] else ''[REDACTED]'')"

text \<open>The copy of an entry that may be logged.\<close>

definition redactedForLog :: "routeEntry \<Rightarrow> routeEntry" where
  "redactedForLog e =
     e\<lparr>re_hmacSecret := redactNonEmpty (re_hmacSecret e), re_bearerToken := redactNonEmpty (re_bearerToken e),
       re_basicPassword := redactNonEmpty (re_basicPassword e), re_apiKey := redactNonEmpty (re_apiKey e),
       re_headerEqualsValue := redactNonEmpty (re_headerEqualsValue e)\<rparr>"

definition Register :: "string \<Rightarrow> routeEntry \<Rightarrow> routeRegistry \<Rightarrow> routeRegistry" where
  "Register path entry r =
     r\<lparr>rr_routes := AList.update (normalizePath path)
                     (entry\<lparr>re_allowedMethod := toUpper (re_allowedMethod entry)\<rparr>) (rr_routes r)\<rparr>"

definition Deregister :: "string \<Rightarrow> routeRegistry \<Rightarrow> routeRegistry" where
  "Deregister path r = r\<lparr>rr_routes := AList.delete (normalizePath path) (rr_routes r)\<rparr>"

definition Lookup :: "string \<Rightarrow> routeRegistry \<Rightarrow> routeEntry option" where
  "Lookup path r = map_of (rr_routes r) (normalizePath path)"

definition MarkSynced :: "routeRegistry \<Rightarrow> routeRegistry" where
  "MarkSynced r = r\<lparr>rr_synced := True\<rparr>"

definition IsSynced :: "routeRegistry \<Rightarrow> bool" where
  "IsSynced r = rr_synced r"

section \<open>Contract\<close>

text \<open>A table keyed by the class of a path: an entry is found under every path of its class.\<close>

locale route_table =
  fixes same :: "'p \<Rightarrow> 'p \<Rightarrow> bool"
    and register :: "'p \<Rightarrow> 'e \<Rightarrow> 't \<Rightarrow> 't"
    and deregister :: "'p \<Rightarrow> 't \<Rightarrow> 't"
    and find :: "'p \<Rightarrow> 't \<Rightarrow> 'e option"
    and stored :: "'e \<Rightarrow> 'e"
  assumes same_sym: "same p q \<Longrightarrow> same q p"
    and find_register: "find q (register p e t) = (if same p q then Some (stored e) else find q t)"
    and find_deregister: "find q (deregister p t) = (if same p q then None else find q t)"
    and stored_idem: "stored (stored e) = stored e"
begin

lemma find_reregister: "find q (register p e (register p e' t)) = find q (register p e t)"
  by (simp add: find_register)

lemma find_deregister_register: "find q (deregister p (register p e t)) = find q (deregister p t)"
  by (simp add: find_register find_deregister)

lemma find_stable:
  "\<not> same p q \<Longrightarrow> find q (register p e t) = find q t" "\<not> same p q \<Longrightarrow> find q (deregister p t) = find q t"
  by (simp_all add: find_register find_deregister)

end

lemma upperChar_idem [simp]: "upperChar (upperChar c) = upperChar c"
proof -
  have "(of_char c :: nat) < 256" using range_nat_of_char by auto
  then show ?thesis by (auto simp: upperChar_def Let_def)
qed

lemma toUpper_idem [simp]: "toUpper (toUpper s) = toUpper s"
  by (simp add: toUpper_def)

definition samePath :: "string \<Rightarrow> string \<Rightarrow> bool" where
  "samePath p q \<longleftrightarrow> normalizePath p = normalizePath q"

interpretation routes: route_table samePath Register Deregister Lookup
  "\<lambda>e. e\<lparr>re_allowedMethod := toUpper (re_allowedMethod e)\<rparr>"
  by unfold_locales
    (auto simp: samePath_def Register_def Deregister_def Lookup_def update_conv' delete_conv')

lemma trimSpace_fix:
  assumes "s = [] \<or> \<not> isSpace (hd s) \<and> \<not> isSpace (last s)"
  shows "trimSpace s = s"
proof (cases s rule: rev_cases)
  case (snoc ys y)
  then have "\<not> isSpace (last s)" using assms by auto
  then have y: "\<not> isSpace y" using snoc by simp
  have "dropWhile isSpace s = s" using assms by (cases s) auto
  then show ?thesis using y by (simp add: trimSpace_def snoc)
qed (simp add: trimSpace_def)

lemma trimSpace_ends: "trimSpace s = [] \<or> \<not> isSpace (hd (trimSpace s)) \<and> \<not> isSpace (last (trimSpace s))"
proof (cases "trimSpace s = []")
  case False
  let ?t = "dropWhile isSpace s"
  have "trimSpace s = rev (dropWhile isSpace (rev ?t))" by (simp add: trimSpace_def)
  then have l: "\<not> isSpace (last (trimSpace s))"
    using False hd_dropWhile [of isSpace "rev ?t"] by (simp add: last_rev)
  obtain zs where z: "?t = trimSpace s @ zs"
    unfolding trimSpace_def by (metis rev_append rev_rev_ident takeWhile_dropWhile_id)
  then have "hd ?t = hd (trimSpace s)" "?t \<noteq> []" using False by auto
  then show ?thesis using l hd_dropWhile [of isSpace s] by auto
qed simp

lemma trimSpace_idem [simp]: "trimSpace (trimSpace s) = trimSpace s"
  by (rule trimSpace_fix) (rule trimSpace_ends)

lemma normalizePath_idem [simp]: "normalizePath (normalizePath p) = normalizePath p"
proof (cases "hasPrefix (trimSpace p) ''/hooks/''")
  case True
  then show ?thesis by (simp add: normalizePath_def Let_def)
next
  case False
  let ?n = "''/hooks/'' @ trimPrefix (trimSpace p) ''/''"
  have "last ?n = CHR ''/'' \<or> last ?n = last (trimSpace p) \<and> trimSpace p \<noteq> []"
    by (cases "trimSpace p") (auto simp: trimPrefix_def hasPrefix_def)
  then have "\<not> isSpace (last ?n)" using trimSpace_ends [of p] by (auto simp: isSpace_def)
  then have "trimSpace ?n = ?n" by (intro trimSpace_fix) (simp add: isSpace_def)
  then show ?thesis using False by (simp add: normalizePath_def Let_def del: append_Cons)
qed

section \<open>Cooldown\<close>

type_synonym cooldownTracker = "(string \<times> time list) list"

definition timestampsOf :: "cooldownTracker \<Rightarrow> string \<Rightarrow> time list" where
  "timestampsOf ct path = (case map_of ct path of None \<Rightarrow> [] | Some ts \<Rightarrow> ts)"

definition allow :: "time \<Rightarrow> string \<Rightarrow> int \<Rightarrow> duration \<Rightarrow> cooldownTracker \<Rightarrow> bool \<times> cooldownTracker" where
  "allow now path maxInvocations window ct =
     (if maxInvocations \<le> 0 then (True, ct)
      else (let cutoff = now - window;
                pruned = filter (\<lambda>ts. ts > cutoff) (timestampsOf ct path)
            in if wrap32 (int (length pruned)) \<ge> maxInvocations then (False, AList.update path pruned ct)
               else (True, AList.update path (pruned @ [now]) ct)))"

text \<open>A sequence of requests on one path: the times of those that were let through, in order.\<close>

fun allowAll :: "time list \<Rightarrow> string \<Rightarrow> int \<Rightarrow> duration \<Rightarrow> cooldownTracker \<Rightarrow> time list" where
  "allowAll [] path maxInv window ct = []"
| "allowAll (t # ts) path maxInv window ct =
     (case allow t path maxInv window ct of
        (ok, ct') \<Rightarrow> (if ok then [t] else []) @ allowAll ts path maxInv window ct')"

lemma timestampsOf_update: "timestampsOf (AList.update p ts ct) q = (if q = p then ts else timestampsOf ct q)"
  by (simp add: timestampsOf_def update_conv')

lemma allow_other: "q \<noteq> path \<Longrightarrow> timestampsOf (snd (allow now path m w ct)) q = timestampsOf ct q"
  by (simp add: allow_def Let_def timestampsOf_update)

text \<open>At most \<open>m\<close> of the times of \<open>xs\<close> lie in any window of length \<open>w\<close>.\<close>

definition windowBounded :: "int \<Rightarrow> duration \<Rightarrow> time list \<Rightarrow> bool" where
  "windowBounded m w xs \<longleftrightarrow> (\<forall>a. int (length (filter (\<lambda>s. a < s \<and> s \<le> a + w) xs)) \<le> m)"

lemma filter_length_mono: "(\<And>x. x \<in> set xs \<Longrightarrow> P x \<Longrightarrow> Q x) \<Longrightarrow> length (filter P xs) \<le> length (filter Q xs)"
  by (induction xs) auto

lemma windowBounded_snoc:
  assumes "windowBounded m w xs" and "int (length (filter (\<lambda>s. s > t - w) xs)) < m"
  shows "windowBounded m w (xs @ [t])"
  unfolding windowBounded_def
proof
  fix a
  show "int (length (filter (\<lambda>s. a < s \<and> s \<le> a + w) (xs @ [t]))) \<le> m"
  proof (cases "a < t \<and> t \<le> a + w")
    case True
    then have "length (filter (\<lambda>s. a < s \<and> s \<le> a + w) xs) \<le> length (filter (\<lambda>s. s > t - w) xs)"
      by (intro filter_length_mono) auto
    then show ?thesis using assms(2) True by simp
  next
    case False
    then show ?thesis using assms(1) by (auto simp: windowBounded_def)
  qed
qed

lemma windowBounded_recent:
  assumes "windowBounded m w xs" and "\<And>s. s \<in> set xs \<Longrightarrow> s \<le> t"
  shows "int (length (filter (\<lambda>s. s > t - w) xs)) \<le> m"
proof -
  have "filter (\<lambda>s. s > t - w) xs = filter (\<lambda>s. t - w < s \<and> s \<le> t - w + w) xs"
    using assms(2) by (intro filter_cong) auto
  then show ?thesis using assms(1) unfolding windowBounded_def by metis
qed

lemma allowAll_bounded:
  assumes "0 < m" "m < 2 ^ 31" and pos: "0 < w"
    and "sorted ts" "\<And>t. t \<in> set ts \<Longrightarrow> start \<le> t" "\<And>s. s \<in> set xs \<Longrightarrow> s \<le> start"
    and "timestampsOf ct path = filter (\<lambda>s. s > c) xs" "c \<le> start - w" "windowBounded m w xs"
  shows "windowBounded m w (xs @ allowAll ts path m w ct)"
  using assms(4-9)
proof (induction ts arbitrary: start xs ct c)
  case (Cons t ts)
  have t: "start \<le> t" using Cons.prems by simp
  have le: "s \<le> t" if "s \<in> set xs" for s using Cons.prems(3) [OF that] t by simp
  have pruned: "filter (\<lambda>s. s > t - w) (timestampsOf ct path) = filter (\<lambda>s. s > t - w) xs" (is "_ = ?p")
    unfolding Cons.prems(4) filter_filter using Cons.prems(5) t by (intro filter_cong) auto
  have len: "int (length ?p) \<le> m" by (rule windowBounded_recent [OF Cons.prems(6) le])
  have wrap: "wrap32 (int (length ?p)) = int (length ?p)" using len assms(2) by (intro wrap32_id) auto
  have later: "\<And>u. u \<in> set ts \<Longrightarrow> t \<le> u" and sorted: "sorted ts" using Cons.prems(1) by auto
  show ?case
  proof (cases "int (length ?p) \<ge> m")
    case True
    then have a: "allow t path m w ct = (False, AList.update path ?p ct)"
      using assms(1) by (simp add: allow_def Let_def pruned wrap)
    show ?thesis unfolding allowAll.simps a
      using Cons.IH [OF sorted later le _ _ Cons.prems(6), of "AList.update path ?p ct" "t - w"]
      by (simp add: timestampsOf_update)
  next
    case False
    then have a: "allow t path m w ct = (True, AList.update path (?p @ [t]) ct)"
      using assms(1) by (simp add: allow_def Let_def pruned wrap)
    have b: "windowBounded m w (xs @ [t])" by (rule windowBounded_snoc [OF Cons.prems(6)]) (use False in simp)
    have "windowBounded m w ((xs @ [t]) @ allowAll ts path m w (AList.update path (?p @ [t]) ct))"
      using pos
      by (intro Cons.IH [OF sorted later _ _ _ b, where c = "t - w"]) (auto simp: timestampsOf_update dest: le)
    then show ?thesis unfolding allowAll.simps a by simp
  qed
qed simp

text \<open>C22: the cooldown of a route bounds the requests let through in every sliding window: whatever
  requests arrive on a path, in the order of a clock that does not run backwards, at most
  \<open>maxInvocations\<close> of those accepted since the tracker was empty lie in any interval of the length of
  the window.\<close>

theorem cooldown_window_bound:
  assumes "0 < maxInvocations" "maxInvocations < 2 ^ 31" "sorted arrivals" "timestampsOf ct path = []"
  shows "int (length (filter (\<lambda>t. a < t \<and> t \<le> a + window) (allowAll arrivals path maxInvocations window ct)))
           \<le> maxInvocations"
proof (cases "0 < window")
  case True
  have "windowBounded maxInvocations window ([] @ allowAll arrivals path maxInvocations window ct)"
  proof (cases arrivals)
    case Nil
    then show ?thesis using assms(1) by (simp add: windowBounded_def)
  next
    case (Cons t ts)
    show ?thesis
      using assms(1) Cons
      by (intro allowAll_bounded [OF assms(1,2) True assms(3), where start = t and c = "t - window"])
        (use assms(3,4) in \<open>auto simp: windowBounded_def\<close>)
  qed
  then show ?thesis by (simp add: windowBounded_def)
next
  case False
  then have "filter (\<lambda>t. a < t \<and> t \<le> a + window) xs = []" for xs by (auto simp: filter_empty_conv)
  then show ?thesis using assms(1) by simp
qed

theorem cooldown_window_bound_witness:
  "allowAll [0, 1, 2, 11, 12] ''/hooks/a'' 2 10 [] = [0, 1, 11, 12] \<and>
   int (length (filter (\<lambda>t. 1 < t \<and> t \<le> 1 + 10) (allowAll [0, 1, 2, 11, 12] ''/hooks/a'' 2 10 []))) \<le> 2"
proof
  show "allowAll [0, 1, 2, 11, 12] ''/hooks/a'' 2 10 [] = [0, 1, 11, 12]"
    by (simp add: allow_def timestampsOf_def wrap32_def)
  show "int (length (filter (\<lambda>t. 1 < t \<and> t \<le> 1 + 10) (allowAll [0, 1, 2, 11, 12] ''/hooks/a'' 2 10 []))) \<le> 2"
    by (rule cooldown_window_bound) (simp_all add: timestampsOf_def)
qed

end
