(* ===== verification/Redact.thy ===== *)
theory Redact
  imports Encodings
begin

text \<open>
  Redaction of headers and bodies before they are stored in a FlowRun
  (\<^verbatim>\<open>internal/gateway/redact/redact.go\<close>), shared by all gateways.
\<close>

definition Placeholder :: string where "Placeholder = ''[REDACTED]''"

definition BuiltInHeaders :: "string list" where
  "BuiltInHeaders =
     [''Authorization'', ''X-Api-Key'', ''Cookie'', ''Set-Cookie'', ''X-Auth-Token'', ''Proxy-Authorization'',
      ''X-Webhook-Secret'', ''X-Hub-Signature'', ''X-Hub-Signature-256'', ''X-Amz-Security-Token'']"

text \<open>Membership in the set \<^verbatim>\<open>toRedact\<close>.\<close>

definition toRedact :: "string list \<Rightarrow> string \<Rightarrow> bool" where
  "toRedact redactExtra k \<longleftrightarrow> toLower k \<in> set (map toLower BuiltInHeaders @ map toLower redactExtra)"

definition Headers :: "httpHeader \<Rightarrow> string list \<Rightarrow> smap" where
  "Headers headers redactExtra =
     map (\<lambda>(k, vals). (k, if toRedact redactExtra k then Placeholder else joinStr '','' vals)) headers"

definition Body :: "string \<Rightarrow> bool \<Rightarrow> string" where
  "Body body redactBody = (if redactBody then Placeholder else body)"

definition StringMap :: "smap \<Rightarrow> string list \<Rightarrow> smap" where
  "StringMap hdrs redactExtra =
     map (\<lambda>(k, v). (k, if toRedact redactExtra k then Placeholder else v)) hdrs"

section \<open>Redacted values do not flow\<close>

text \<open>Two header maps that differ at most in the values of names to redact.\<close>

definition sameVisible :: "string list \<Rightarrow> (string \<times> 'v) list \<Rightarrow> (string \<times> 'v) list \<Rightarrow> bool" where
  "sameVisible extra h h' \<longleftrightarrow> list_all2 (\<lambda>(k, v) (k', v'). k = k' \<and> (toRedact extra k \<or> v = v')) h h'"

lemma sameVisible_map:
  assumes "sameVisible extra h h'"
  shows "map (\<lambda>(k, v). (k, if toRedact extra k then p else f v)) h =
         map (\<lambda>(k, v). (k, if toRedact extra k then p else f v)) h'"
  using assms unfolding sameVisible_def by (induction rule: list_all2_induct) auto

lemma Headers_sameVisible: "sameVisible extra h h' \<Longrightarrow> Headers h extra = Headers h' extra"
  unfolding Headers_def by (rule sameVisible_map)

lemma StringMap_sameVisible: "sameVisible extra h h' \<Longrightarrow> StringMap h extra = StringMap h' extra"
  unfolding StringMap_def by (rule sameVisible_map)

lemma map_of_map_key: "map_of (map (\<lambda>(k, v). (k, f k v)) m) k = map_option (f k) (map_of m k)"
  by (induction m) auto

lemma map_of_Headers:
  "map_of (Headers h extra) k =
     map_option (\<lambda>vals. if toRedact extra k then Placeholder else joinStr '','' vals) (map_of h k)"
  unfolding Headers_def by (rule map_of_map_key)

lemma map_of_StringMap:
  "map_of (StringMap m extra) k = map_option (\<lambda>v. if toRedact extra k then Placeholder else v) (map_of m k)"
  unfolding StringMap_def by (rule map_of_map_key)

lemma toRedact_mono: "toRedact extra k \<Longrightarrow> toRedact (extra @ more) k"
  by (auto simp: toRedact_def)

lemma StringMap_idem: "StringMap (StringMap m extra) extra = StringMap m extra"
  by (auto simp: StringMap_def)

end
