(* ===== verification/TriggerTypes.thy ===== *)
theory TriggerTypes
  imports IntegrationTypes
begin

text \<open>
  The Trigger resource (\<^verbatim>\<open>api/v1alpha1/trigger_types.go\<close>): the specification of each event source, the
  authentication of webhooks, and the status the controllers keep. Names of objects in a namespace
  are the record \<open>namespacedName\<close>.
\<close>

record namespacedName =
  nn_namespace :: string
  nn_name :: string

section \<open>Webhooks\<close>

record hmacConfig =
  hm_secretRef :: keySelector
  hm_provider :: string
  hm_timestampToleranceSeconds :: int

record oidcConfig =
  oi_issuer :: string
  oi_audience :: string

record apiKeyConfig =
  ak_secretRef :: keySelector
  ak_header :: string

record headerEqualsConfig =
  he_header :: string
  he_secretRef :: keySelector

record webhookBasicAuth =
  wb_secretRef :: string
  wb_usernameKey :: string
  wb_passwordKey :: string

text \<open>\<^verbatim>\<open>BearerConfig\<close> has one field, the selector of the token; \<^verbatim>\<open>IPAllowlistConfig\<close> the list of networks.\<close>

record webhookAuth =
  wa_type :: string
  wa_hmac :: "hmacConfig option"
  wa_bearer :: "keySelector option"
  wa_oidc :: "oidcConfig option"
  wa_basic :: "webhookBasicAuth option"
  wa_apiKey :: "apiKeyConfig option"
  wa_ipAllowlist :: "string list option"
  wa_headerEquals :: "headerEqualsConfig option"

record webhookRateLimit =
  wr_maxRequests :: int
  wr_window :: duration

record webhookTrigger =
  wt_path :: string
  wt_method :: string
  wt_auth :: "webhookAuth option"
  wt_rateLimit :: "webhookRateLimit option"
  wt_redactHeaders :: "string list"
  wt_redactBody :: bool

section \<open>Other sources\<close>

record cronTrigger =
  ct_schedule :: string
  ct_timezone :: string

record cooldownPolicy =
  cp_maxInvocations :: int
  cp_window :: "duration option"

record kafkaTrigger =
  kk_integrationRef :: string
  kk_topic :: string
  kk_consumerGroup :: string

record amqpExchangeSpec =
  ax_name :: string
  ax_type :: string

record amqpTrigger =
  at_integrationRef :: string
  at_topic :: string
  at_routingKey :: string
  at_exchange :: "amqpExchangeSpec option"

record natsTrigger =
  nt_integrationRef :: string
  nt_subject :: string

record pluginTrigger =
  pt_integrationRef :: string
  pt_config :: smap

text \<open>\<^verbatim>\<open>metav1.LabelSelector\<close>: equality requirements and set requirements.\<close>

record labelRequirement =
  lr_key :: string
  lr_operator :: string
  lr_values :: "string list"

record labelSelector =
  ls_matchLabels :: smap
  ls_matchExpressions :: "labelRequirement list"

record resourceTrigger =
  rt_apiVersion :: string
  rt_kind :: string
  rt_namespace :: string
  rt_labelSelector :: "labelSelector option"
  rt_events :: "string list"
  rt_watchFields :: "string list"
  rt_cooldown :: "duration option"

section \<open>Trigger\<close>

record triggerSpec =
  ts_type :: string
  ts_enabled :: bool
  ts_webhook :: "webhookTrigger option"
  ts_cron :: "cronTrigger option"
  ts_kafka :: "kafkaTrigger option"
  ts_amqp :: "amqpTrigger option"
  ts_nats :: "natsTrigger option"
  ts_plugin :: "pluginTrigger option"
  ts_resource :: "resourceTrigger option"
  ts_flowRef :: string
  ts_event :: string
  ts_cooldown :: "cooldownPolicy option"
  ts_flowRunGC :: "flowRunGCPolicy option"

record triggerStatus =
  tt_conditions :: "condition list"
  tt_lastTriggeredTime :: "time option"
  tt_lastResult :: string
  tt_lastError :: string
  tt_currentInvocationCount :: int

record trigger =
  tr_name :: string
  tr_namespace :: string
  tr_generation :: int
  tr_deletionTimestamp :: "time option"
  tr_finalizers :: "string list"
  tr_spec :: triggerSpec
  tr_status :: triggerStatus

definition triggerKey :: "trigger \<Rightarrow> namespacedName" where
  "triggerKey t = \<lparr>nn_namespace = tr_namespace t, nn_name = tr_name t\<rparr>"

definition triggerTypeWebhook :: string where "triggerTypeWebhook = ''webhook''"
definition triggerTypeCron :: string where "triggerTypeCron = ''cron''"

section \<open>FlowRuns created by a trigger\<close>

text \<open>The zero value of \<^verbatim>\<open>TriggerData\<close>.\<close>

definition emptyTriggerData :: triggerData where
  "emptyTriggerData =
     \<lparr>td_eventType = [], td_resourceName = [], td_resourceNamespace = [], td_resourceAPIVersion = [],
      td_resourceKind = [], td_source = [], td_method = [], td_path = [], td_headers = [], td_topic = [],
      td_partition = 0, td_offset = 0, td_key = [], td_keyEncoding = [], td_scheduledTime = None,
      td_body = [], td_bodyTruncated = False, td_bodyEncoding = [], td_contentType = []\<rparr>"

definition emptyRunStatus :: flowRunStatus where
  "emptyRunStatus =
     \<lparr>st_observedGeneration = 0, st_phase = FlowRunPhaseUnset, st_conditions = [], st_startTime = None,
      st_completionTime = None, st_steps = [], st_message = Txt [], st_durationMillis = None\<rparr>"

text \<open>Every event source fills in the same fields of a FlowRun: the labels with the names of the
  trigger, its type and the Flow, and the references of the specification.\<close>

definition triggeredRun ::
  "string \<Rightarrow> string \<Rightarrow> string \<Rightarrow> string \<Rightarrow> string \<Rightarrow> smap \<Rightarrow> triggerData \<Rightarrow> flowRun" where
  "triggeredRun name namespace triggerName triggerType flowRef annotations td =
     \<lparr>fr_name = name, fr_namespace = namespace, fr_uid = [], fr_generation = 0, fr_deletionTimestamp = None,
      fr_labels = [(''kubezap.io/trigger'', triggerName), (''kubezap.io/trigger-type'', triggerType),
                   (''kubezap.io/flow'', flowRef)],
      fr_annotations = annotations, fr_finalizers = [],
      fr_spec = \<lparr>frs_flowRef = flowRef, frs_params = [], frs_triggerRef = Some (triggerName, triggerType),
                 frs_triggerData = Some td, frs_ttlAfterFinished = None\<rparr>,
      fr_status = emptyRunStatus\<rparr>"

end
