(* ===== verification/WebhookHandler.thy ===== *)
theory WebhookHandler
  imports WebhookRoutes Redact TriggerTypes FlowRunStore
begin

text \<open>
  The webhook gateway's request handler, \<^verbatim>\<open>WebhookHandler.ServeHTTP\<close>
  (\<^verbatim>\<open>internal/gateway/webhook/handler.go\<close>), and the access-log line of \<^verbatim>\<open>AccessLogMiddleware\<close>
  (\<^verbatim>\<open>accesslog.go\<close>). A request reads the route registry, passes the cooldown tracker and creates one
  FlowRun. The record \<open>webhookEnv\<close> holds the clock, the random source, the JWT library, the span context
  of the tracer and the API server's answer; metrics and spans are left out.
\<close>

section \<open>State and environment\<close>

datatype webhookClock = CkSlack | CkCooldown | CkRunName

record 'k webhookEnv =
  wv_now :: "webhookClock \<Rightarrow> time"
  wv_random :: "nat \<Rightarrow> string option"
  wv_jwt :: "'k jwtLib"
  wv_span :: "(string \<times> string) option"
  wv_traceCarrier :: smap
  wv_create :: apiOutcome

record webhookHandler =
  wh_trustedProxies :: "ipNet list"
  wh_maxStoredBodyBytes :: int

record gatewayState =
  gw_registry :: routeRegistry
  gw_cooldown :: cooldownTracker
  gw_created :: "flowRun list"

record accessLogFields =
  al_traceID :: string
  al_spanID :: string
  al_triggerNamespace :: string
  al_authType :: string
  al_authResult :: string
  al_authReason :: string
  al_bodyBytes :: nat
  al_flowRunCreated :: bool
  al_flowRunName :: string
  al_flowName :: string

text \<open>The answer written to the client; the body is the JSON object of \<^verbatim>\<open>writeJSON\<close>.\<close>

record webhookResponse =
  ws_status :: int
  ws_allow :: "string option"
  ws_body :: smap

definition defaultMaxStoredBodyBytes :: int where "defaultMaxStoredBodyBytes = 65536"

definition NewWebhookHandler :: "ipNet list \<Rightarrow> int \<Rightarrow> webhookHandler" where
  "NewWebhookHandler trustedProxies maxStoredBodyBytes =
     \<lparr>wh_trustedProxies = trustedProxies,
      wh_maxStoredBodyBytes =
        (if maxStoredBodyBytes \<le> 0 then defaultMaxStoredBodyBytes else maxStoredBodyBytes)\<rparr>"

definition emptyLogFields :: accessLogFields where
  "emptyLogFields = \<lparr>al_traceID = [], al_spanID = [], al_triggerNamespace = [], al_authType = [], al_authResult = [],
     al_authReason = [], al_bodyBytes = 0, al_flowRunCreated = False, al_flowRunName = [], al_flowName = []\<rparr>"

definition setTrace :: "(string \<times> string) option \<Rightarrow> accessLogFields \<Rightarrow> accessLogFields" where
  "setTrace span f = (case span of None \<Rightarrow> f | Some (t, s) \<Rightarrow> f\<lparr>al_traceID := t, al_spanID := s\<rparr>)"

definition setTrigger :: "string \<Rightarrow> string \<Rightarrow> accessLogFields \<Rightarrow> accessLogFields" where
  "setTrigger namespace authType f = f\<lparr>al_triggerNamespace := namespace, al_authType := authType\<rparr>"

definition setAuthResult :: "string \<Rightarrow> string \<Rightarrow> accessLogFields \<Rightarrow> accessLogFields" where
  "setAuthResult result reason f = f\<lparr>al_authResult := result, al_authReason := reason\<rparr>"

definition setBodyBytes :: "nat \<Rightarrow> accessLogFields \<Rightarrow> accessLogFields" where
  "setBodyBytes n f = f\<lparr>al_bodyBytes := n\<rparr>"

definition setFlowRun :: "bool \<Rightarrow> string \<Rightarrow> string \<Rightarrow> accessLogFields \<Rightarrow> accessLogFields" where
  "setFlowRun created name flow f = f\<lparr>al_flowRunCreated := created, al_flowRunName := name, al_flowName := flow\<rparr>"

definition jsonAnswer :: "int \<Rightarrow> smap \<Rightarrow> webhookResponse" where
  "jsonAnswer status body = \<lparr>ws_status = status, ws_allow = None, ws_body = body\<rparr>"

definition errorAnswer :: "int \<Rightarrow> string \<Rightarrow> webhookResponse" where
  "errorAnswer status m = jsonAnswer status [(''error'', m)]"

text \<open>Random bytes are hex-encoded; without random bytes the name gets zeros.\<close>

definition randomHex :: "(nat \<Rightarrow> string option) \<Rightarrow> int \<Rightarrow> string" where
  "randomHex random n =
     (if n \<le> 0 then []
      else case random (nat ((n + 1) div 2)) of
          None \<Rightarrow> replicate (nat n) (CHR ''0'')
        | Some b \<Rightarrow> take (nat n) (hexEncode b))"

section \<open>The FlowRun of a request\<close>

definition maxBody :: nat where "maxBody = 4194304"

definition traceAnnotations :: "smap \<Rightarrow> smap" where
  "traceAnnotations carrier =
     (let get = (\<lambda>k. case map_of carrier k of Some v \<Rightarrow> v | None \<Rightarrow> [])
      in (if get ''traceparent'' \<noteq> [] then [(''kubezap.io/traceparent'', get ''traceparent'')] else []) @
         (if get ''tracestate'' \<noteq> [] then [(''kubezap.io/tracestate'', get ''tracestate'')] else []))"

definition storedBody :: "webhookHandler \<Rightarrow> string \<Rightarrow> string" where
  "storedBody h body = (if int (length body) > wh_maxStoredBodyBytes h then take (nat (wh_maxStoredBodyBytes h)) body else body)"

definition encodeBody :: "string \<Rightarrow> string \<times> string" where
  "encodeBody stored = (if utf8Valid stored then (stored, ''utf8'') else (base64Encode stored, ''base64''))"

definition webhookTriggerData :: "webhookHandler \<Rightarrow> httpRequest \<Rightarrow> routeEntry \<Rightarrow> string \<Rightarrow> triggerData" where
  "webhookTriggerData h r entry body =
     (case encodeBody (storedBody h body) of
        (bodyString, bodyEncoding) \<Rightarrow>
          emptyTriggerData
            \<lparr>td_source := triggerTypeWebhook, td_method := rq_method r, td_path := rq_path r,
             td_headers := Headers (rq_header r) (re_redactHeaders entry),
             td_body := Body bodyString (re_redactBody entry),
             td_bodyTruncated := int (length body) > wh_maxStoredBodyBytes h,
             td_bodyEncoding := (if re_redactBody entry then ''utf8'' else bodyEncoding),
             td_contentType := header r ''Content-Type''\<rparr>)"

definition webhookRun :: "'k webhookEnv \<Rightarrow> webhookHandler \<Rightarrow> httpRequest \<Rightarrow> routeEntry \<Rightarrow> string \<Rightarrow> flowRun" where
  "webhookRun env h r entry body =
     triggeredRun
       (re_triggerName entry @ ''-'' @ showInt (wv_now env CkRunName div 1000000000) @ ''-'' @ randomHex (wv_random env) 8)
       (re_triggerNamespace entry) (re_triggerName entry) triggerTypeWebhook (re_flowRef entry)
       (traceAnnotations (wv_traceCarrier env)) (webhookTriggerData h r entry body)"

text \<open>\<^verbatim>\<open>Create\<close> fails for a name in use; otherwise the answer of the API server decides.\<close>

definition createRun :: "'k webhookEnv \<Rightarrow> flowRun \<Rightarrow> gatewayState \<Rightarrow> apiError option \<times> gatewayState" where
  "createRun env run st =
     (if list_ex (sameRun run) (gw_created st) then (Some AlreadyExists, st)
      else case wv_create env of
          Accepted \<Rightarrow> (None, st\<lparr>gw_created := gw_created st @ [run]\<rparr>)
        | Rejected e \<Rightarrow> (Some e, st)
        | AnswerLost e \<Rightarrow> (Some e, st\<lparr>gw_created := gw_created st @ [run]\<rparr>))"

section \<open>ServeHTTP\<close>

type_synonym served = "(webhookResponse \<times> accessLogFields) \<times> gatewayState"

definition serveAccepted ::
  "'k webhookEnv \<Rightarrow> webhookHandler \<Rightarrow> httpRequest \<Rightarrow> routeEntry \<Rightarrow> string \<Rightarrow> accessLogFields \<Rightarrow> gatewayState \<Rightarrow> served" where
  "serveAccepted env h r entry body f st =
     (let run = webhookRun env h r entry body;
          accepted = (jsonAnswer 202 [(''flowRun'', fr_name run), (''namespace'', re_triggerNamespace entry)],
                      setFlowRun True (fr_name run) (re_flowRef entry) f)
      in case createRun env run st of
           (None, st') \<Rightarrow> (accepted, st')
         | (Some e, st') \<Rightarrow>
             (if e = AlreadyExists then (accepted, st')
              else ((errorAnswer 500 ''unable to create FlowRun'', setFlowRun False [] [] f), st')))"

definition serveLimited ::
  "'k webhookEnv \<Rightarrow> webhookHandler \<Rightarrow> httpRequest \<Rightarrow> routeEntry \<Rightarrow> string \<Rightarrow> accessLogFields \<Rightarrow> gatewayState \<Rightarrow> served" where
  "serveLimited env h r entry body f st =
     (if re_maxInvocations entry > 0 then
        (case allow (wv_now env CkCooldown) (rq_path r) (re_maxInvocations entry) (re_cooldownWindow entry) (gw_cooldown st) of
           (ok, ct) \<Rightarrow>
             (let st' = st\<lparr>gw_cooldown := ct\<rparr>
              in if ok then serveAccepted env h r entry body f st'
                 else ((errorAnswer 429 ''cooldown window exceeded'', f), st')))
      else serveAccepted env h r entry body f st)"

definition serveRoute ::
  "'k webhookEnv \<Rightarrow> webhookHandler \<Rightarrow> httpRequest \<Rightarrow> routeEntry \<Rightarrow> accessLogFields \<Rightarrow> gatewayState \<Rightarrow> served" where
  "serveRoute env h r entry f st =
     (if toUpper (rq_method r) \<noteq> re_allowedMethod entry then
        (((errorAnswer 405 ''method not allowed'')\<lparr>ws_allow := Some (re_allowedMethod entry)\<rparr>, f), st)
      else case readBody (maxBody + 1) r of
          Inl _ \<Rightarrow> ((errorAnswer 500 ''unable to read request body'', f), st)
        | Inr read \<Rightarrow>
            (let bodyTruncated = (length read > maxBody \<or> rq_contentLength r > int maxBody);
                 body = (if length read > maxBody then take maxBody read else read);
                 f1 = setBodyBytes (length body) f
             in if bodyTruncated then ((errorAnswer 413 ''request body exceeds maximum allowed size'', f1), st)
                else case authenticateRequest (wv_jwt env) (wv_now env CkSlack div 1000000000) r body entry
                            (wh_trustedProxies h) of
                    AuthPanic \<Rightarrow> ((errorAnswer 500 ''internal server error'', f1), st)
                  | AuthResult code m \<Rightarrow>
                      if code \<noteq> StatusOK then
                        ((errorAnswer code m,
                          setAuthResult ''failure'' (authFailureReason (re_authType entry) m) f1), st)
                      else serveLimited env h r entry body
                             (setAuthResult (if re_authType entry = [] then ''skipped'' else ''success'') [] f1) st))"

definition ServeHTTP :: "'k webhookEnv \<Rightarrow> webhookHandler \<Rightarrow> httpRequest \<Rightarrow> gatewayState \<Rightarrow> served" where
  "ServeHTTP env h r st =
     (let f = setTrace (wv_span env) emptyLogFields
      in case Lookup (rq_path r) (gw_registry st) of
           None \<Rightarrow> ((errorAnswer 404 ''no trigger registered for this path'', f), st)
         | Some entry \<Rightarrow>
             serveRoute env h r entry (setTrigger (re_triggerNamespace entry) (re_authType entry) f) st)"

section \<open>The access-log line\<close>

datatype logAttr = LStr string string | LInt string int | LBool string bool | LGroup string "logAttr list"

datatype logLevel = LevelInfo | LevelWarn | LevelError

definition accessLog ::
  "(nat \<Rightarrow> string option) \<Rightarrow> httpRequest \<Rightarrow> ipNet list \<Rightarrow> int \<Rightarrow> int \<Rightarrow> accessLogFields \<Rightarrow> logLevel \<times> logAttr list" where
  "accessLog random r trustedProxies status durationMicros f =
     (let authResult = (if al_authResult f = [] then ''skipped'' else al_authResult f);
          level = (if status \<ge> 500 then LevelError
                   else if authResult = ''failure'' \<or> status = 429 then LevelWarn else LevelInfo);
          requestID = (if header r ''X-Request-ID'' = [] then randomHex random 16 else header r ''X-Request-ID'');
          port = (case sourcePortFromRemoteAddr (rq_remoteAddr r) of Some p \<Rightarrow> [LInt ''source_port'' p] | None \<Rightarrow> []);
          requestAttrs =
            [LStr ''method'' (rq_method r), LStr ''path'' (rq_path r), LStr ''trigger'' (triggerFromPath (rq_path r)),
             LStr ''namespace'' (al_triggerNamespace f), LStr ''source_ip'' (realClientIP r trustedProxies)] @ port @
            [LStr ''forwarded_for'' (header r ''X-Forwarded-For''), LStr ''user_agent'' (header r ''User-Agent''),
             LStr ''request_id'' requestID, LStr ''content_type'' (normalizeContentType (header r ''Content-Type'')),
             LInt ''body_bytes'' (int (al_bodyBytes f))];
          authAttrs = [LStr ''type'' (al_authType f), LStr ''result'' authResult] @
            (if authResult = ''failure'' \<and> al_authReason f \<noteq> [] then [LStr ''reason'' (al_authReason f)] else []);
          flowrunAttrs = [LBool ''created'' (al_flowRunCreated f)] @
            (if al_flowRunCreated f
             then (if al_flowRunName f \<noteq> [] then [LStr ''name'' (al_flowRunName f)] else []) @
                  (if al_flowName f \<noteq> [] then [LStr ''flow'' (al_flowName f)] else [])
             else []);
          traceAttrs = (if al_traceID f \<noteq> [] then [LStr ''trace_id'' (al_traceID f), LStr ''span_id'' (al_spanID f)] else [])
      in (level,
          traceAttrs @ [LGroup ''request'' requestAttrs, LGroup ''auth'' authAttrs,
            LGroup ''response'' [LInt ''status_code'' status, LInt ''duration_micros'' durationMicros],
            LGroup ''flowrun'' flowrunAttrs]))"

definition AccessLogMiddleware ::
  "'k webhookEnv \<Rightarrow> webhookHandler \<Rightarrow> httpRequest \<Rightarrow> int \<Rightarrow> gatewayState \<Rightarrow>
   (webhookResponse \<times> (logLevel \<times> logAttr list)) \<times> gatewayState" where
  "AccessLogMiddleware env h r durationMicros st =
     (case ServeHTTP env h r st of
        ((resp, f), st') \<Rightarrow>
          ((resp, accessLog (wv_random env) r (wh_trustedProxies h) (ws_status resp) durationMicros f), st'))"

section \<open>What a created FlowRun tells about its request\<close>

lemma createRun_created:
  "gw_created (snd (createRun env run st)) = gw_created st \<or>
   gw_created (snd (createRun env run st)) = gw_created st @ [run]"
  by (auto simp: createRun_def split: apiOutcome.split)

lemma serveAccepted_created:
  "gw_created (snd (serveAccepted env h r entry body f st)) = gw_created st \<or>
   gw_created (snd (serveAccepted env h r entry body f st)) = gw_created st @ [webhookRun env h r entry body]"
  using createRun_created [of env "webhookRun env h r entry body" st]
  by (auto simp: serveAccepted_def Let_def split: prod.splits option.splits)

text \<open>The request passed the cooldown of its route.\<close>

definition admitted :: "'k webhookEnv \<Rightarrow> httpRequest \<Rightarrow> routeEntry \<Rightarrow> gatewayState \<Rightarrow> bool" where
  "admitted env r entry st \<longleftrightarrow>
     fst (allow (wv_now env CkCooldown) (rq_path r) (re_maxInvocations entry) (re_cooldownWindow entry) (gw_cooldown st))"

lemma serveLimited_created:
  "gw_created (snd (serveLimited env h r entry body f st)) = gw_created st \<or>
   admitted env r entry st \<and>
   gw_created (snd (serveLimited env h r entry body f st)) = gw_created st @ [webhookRun env h r entry body]"
proof (cases "re_maxInvocations entry > 0")
  case True
  obtain ok ct where a: "allow (wv_now env CkCooldown) (rq_path r) (re_maxInvocations entry) (re_cooldownWindow entry)
      (gw_cooldown st) = (ok, ct)" by fastforce
  show ?thesis
    using True serveAccepted_created [of env h r entry body f "st\<lparr>gw_cooldown := ct\<rparr>"]
    by (cases ok) (simp_all add: serveLimited_def admitted_def a Let_def)
next
  case False
  then show ?thesis
    using serveAccepted_created [of env h r entry body f st] by (simp add: serveLimited_def admitted_def allow_def)
qed

lemma readBody_whole:
  assumes "readBody (maxBody + 1) r = Inr bytes" "length bytes \<le> maxBody"
  shows "length (rq_body r) \<le> maxBody \<and> rq_bodyError r = None \<and> bytes = rq_body r"
  using assms by (auto simp: readBody_def split: if_splits option.splits)

abbreviation authenticated :: "'k webhookEnv \<Rightarrow> webhookHandler \<Rightarrow> httpRequest \<Rightarrow> routeEntry \<Rightarrow> authOutcome" where
  "authenticated env h r entry \<equiv>
     authenticateRequest (wv_jwt env) (wv_now env CkSlack div 1000000000) r (rq_body r) entry (wh_trustedProxies h)"

lemma serveRoute_created:
  "gw_created (snd (serveRoute env h r entry f st)) = gw_created st \<or>
   toUpper (rq_method r) = re_allowedMethod entry \<and> length (rq_body r) \<le> maxBody \<and> rq_bodyError r = None \<and>
   authenticated env h r entry = AuthResult 200 [] \<and> admitted env r entry st \<and>
   gw_created (snd (serveRoute env h r entry f st)) = gw_created st @ [webhookRun env h r entry (rq_body r)]"
proof (cases "toUpper (rq_method r) = re_allowedMethod entry \<and> (\<exists>bytes. readBody (maxBody + 1) r = Inr bytes \<and>
    length bytes \<le> maxBody) \<and> rq_contentLength r \<le> int maxBody")
  case True
  then obtain bytes where rd: "readBody (maxBody + 1) r = Inr bytes" "length bytes \<le> maxBody" by blast
  note whole = readBody_whole [OF rd]
  show ?thesis
  proof (cases "authenticated env h r entry")
    case AuthPanic
    then show ?thesis using True rd whole by (simp add: serveRoute_def Let_def)
  next
    case (AuthResult code why)
    have "code = 200 \<Longrightarrow> why = []"
      using authenticateRequest_answer [of "wv_jwt env" "wv_now env CkSlack div 1000000000" r "rq_body r" entry
          "wh_trustedProxies h"] AuthResult by (simp add: authAnswer_def)
    then show ?thesis
      using True rd whole AuthResult serveLimited_created [of env h r entry "rq_body r"]
      by (simp add: serveRoute_def Let_def)
  qed
next
  case False
  then show ?thesis by (cases "readBody (maxBody + 1) r") (auto simp: serveRoute_def Let_def)
qed

lemma ServeHTTP_created:
  assumes "gw_created (snd (ServeHTTP env h r st)) \<noteq> gw_created st"
  obtains entry where "Lookup (rq_path r) (gw_registry st) = Some entry"
    and "toUpper (rq_method r) = re_allowedMethod entry" "length (rq_body r) \<le> maxBody" "rq_bodyError r = None"
    and "authenticated env h r entry = AuthResult 200 []" "admitted env r entry st"
    and "gw_created (snd (ServeHTTP env h r st)) = gw_created st @ [webhookRun env h r entry (rq_body r)]"
proof -
  obtain entry where e: "Lookup (rq_path r) (gw_registry st) = Some entry"
    using assms by (cases "Lookup (rq_path r) (gw_registry st)") (auto simp: ServeHTTP_def)
  define f where "f = setTrigger (re_triggerNamespace entry) (re_authType entry) (setTrace (wv_span env) emptyLogFields)"
  have s: "ServeHTTP env h r st = serveRoute env h r entry f st" by (simp add: ServeHTTP_def e f_def)
  show ?thesis using that [OF e] serveRoute_created [of env h r entry f st] assms unfolding s by metis
qed

lemma ServeHTTP_accepts:
  assumes "Lookup (rq_path r) (gw_registry st) = Some entry" "toUpper (rq_method r) = re_allowedMethod entry"
    and "length (rq_body r) \<le> maxBody" "rq_bodyError r = None" "rq_contentLength r \<le> int maxBody"
    and "authenticated env h r entry = AuthResult 200 []" "admitted env r entry st" "wv_create env = Accepted"
    and "\<not> list_ex (sameRun (webhookRun env h r entry (rq_body r))) (gw_created st)"
  shows "ws_status (fst (fst (ServeHTTP env h r st))) = 202"
    and "gw_created (snd (ServeHTTP env h r st)) = gw_created st @ [webhookRun env h r entry (rq_body r)]"
proof -
  have rd: "readBody (maxBody + 1) r = Inr (rq_body r)" using assms(3,4) by (simp add: readBody_def)
  obtain ok ct where a: "allow (wv_now env CkCooldown) (rq_path r) (re_maxInvocations entry) (re_cooldownWindow entry)
      (gw_cooldown st) = (ok, ct)" by fastforce
  have ok: "ok" using assms(7) a by (simp add: admitted_def)
  note d = ServeHTTP_def serveRoute_def serveLimited_def serveAccepted_def createRun_def jsonAnswer_def Let_def
  show "ws_status (fst (fst (ServeHTTP env h r st))) = 202"
    and "gw_created (snd (ServeHTTP env h r st)) = gw_created st @ [webhookRun env h r entry (rq_body r)]"
    using assms rd a ok by (simp_all add: d)
qed

text \<open>C8: a request makes the gateway create a FlowRun only if its path has a route, its method is the
  route's, its body was read completely and is at most 4 MiB long, its credentials are authorised and
  the cooldown admits it; and then it creates exactly one FlowRun, in the trigger's namespace, for the
  trigger's Flow.\<close>

theorem ServeHTTP_creates_only_authorised:
  assumes "gw_created (snd (ServeHTTP env h r st)) \<noteq> gw_created st"
    and "0 \<le> wv_now env CkSlack" "wv_now env CkSlack < 2 ^ 62"
    and "\<And>e. Lookup (rq_path r) (gw_registry st) = Some e \<Longrightarrow> re_hmacTimestampToleranceSec e < 2 ^ 31"
  shows "\<exists>entry run. Lookup (rq_path r) (gw_registry st) = Some entry \<and>
     toUpper (rq_method r) = re_allowedMethod entry \<and> length (rq_body r) \<le> 4194304 \<and> rq_bodyError r = None \<and>
     authorised (wv_jwt env) (wv_now env CkSlack div 1000000000) r (rq_body r) entry (wh_trustedProxies h) \<and>
     admitted env r entry st \<and> gw_created (snd (ServeHTTP env h r st)) = gw_created st @ [run] \<and>
     fr_namespace run = re_triggerNamespace entry \<and> frs_flowRef (fr_spec run) = re_flowRef entry"
proof -
  from ServeHTTP_created [OF assms(1)] obtain entry where e: "Lookup (rq_path r) (gw_registry st) = Some entry"
    "toUpper (rq_method r) = re_allowedMethod entry" "length (rq_body r) \<le> maxBody" "rq_bodyError r = None"
    "authenticated env h r entry = AuthResult 200 []" "admitted env r entry st"
    "gw_created (snd (ServeHTTP env h r st)) = gw_created st @ [webhookRun env h r entry (rq_body r)]"
    by blast
  have "0 \<le> wv_now env CkSlack div 1000000000" "wv_now env CkSlack div 1000000000 < 2 ^ 62"
    using assms(2,3) by (simp_all add: div_less_iff_less_mult pos_imp_zdiv_nonneg_iff)
  then have "authorised (wv_jwt env) (wv_now env CkSlack div 1000000000) r (rq_body r) entry (wh_trustedProxies h)"
    using authenticateRequest_authorised assms(4) [OF e(1)] e(5) by blast
  then show ?thesis
    using e by (intro exI [of _ entry] exI [of _ "webhookRun env h r entry (rq_body r)"])
      (simp add: webhookRun_def triggeredRun_def maxBody_def)
qed


text \<open>The bytes a Flow reads back from the stored body.\<close>

definition storedBytes :: "triggerData \<Rightarrow> string option" where
  "storedBytes td = (if td_bodyEncoding td = ''base64'' then base64Decode (td_body td) else Some (td_body td))"


section \<open>Cooldown and route names\<close>

text \<open>A route is found under the trimmed path, but the cooldown counts under the path as sent.\<close>

fun allowPaths :: "time \<Rightarrow> string list \<Rightarrow> int \<Rightarrow> duration \<Rightarrow> cooldownTracker \<Rightarrow> bool list" where
  "allowPaths now [] m w ct = []"
| "allowPaths now (p # ps) m w ct = (case allow now p m w ct of (ok, ct') \<Rightarrow> ok # allowPaths now ps m w ct')"

lemma allowPaths_fresh:
  "distinct ps \<Longrightarrow> (\<And>p. p \<in> set ps \<Longrightarrow> timestampsOf ct p = []) \<Longrightarrow> 0 < m \<Longrightarrow>
   allowPaths now ps m w ct = replicate (length ps) True"
proof (induction ps arbitrary: ct)
  case (Cons p ps)
  have a: "allow now p m w ct = (True, AList.update p [now] ct)"
    using Cons.prems by (simp add: allow_def wrap32_def)
  have "timestampsOf (AList.update p [now] ct) q = []" if "q \<in> set ps" for q
    using Cons.prems(1,2) that by (auto simp: timestampsOf_update)
  then have "allowPaths now ps m w (AList.update p [now] ct) = replicate (length ps) True"
    using Cons.IH Cons.prems by simp
  then show ?case by (simp add: a)
qed simp

lemma trimSpace_spaces: "trimSpace (p @ replicate k (CHR '' '')) = trimSpace p"
proof -
  have sp: "dropWhile isSpace (replicate k (CHR '' '') @ xs) = dropWhile isSpace xs" for xs
    by (induction k) (auto simp: isSpace_def)
  show ?thesis
  proof (cases "dropWhile isSpace p = []")
    case True
    then have "\<forall>x \<in> set p. isSpace x" by (simp add: dropWhile_eq_Nil_conv)
    then have "dropWhile isSpace (p @ replicate k (CHR '' '')) = []"
      by (auto simp: dropWhile_eq_Nil_conv isSpace_def)
    then show ?thesis unfolding trimSpace_def True by (simp add: isSpace_def)
  next
    case False
    then have "dropWhile isSpace (p @ replicate k (CHR '' '')) = dropWhile isSpace p @ replicate k (CHR '' '')"
      by (metis dropWhile_append dropWhile_eq_Nil_conv)
    then show ?thesis using sp by (simp add: trimSpace_def)
  qed
qed

text \<open>The cooldown of a route can be avoided. With one request per minute allowed, a second request
  to the same path is rejected, but appending any number of blanks to the path reaches the same route
  with a fresh budget every time.\<close>

theorem cooldown_avoided_by_blanks:
  "\<not> fst (allow now p 1 60000000000 (snd (allow now p 1 60000000000 []))) \<and>
   (\<forall>k. Lookup (p @ replicate k (CHR '' '')) reg = Lookup p reg) \<and>
   allowPaths now (map (\<lambda>k. p @ replicate k (CHR '' '')) [0..<n]) 1 60000000000 [] = replicate n True"
proof (intro conjI allI)
  show "\<not> fst (allow now p 1 60000000000 (snd (allow now p 1 60000000000 [])))"
    by (simp add: allow_def timestampsOf_def wrap32_def)
  show "Lookup (p @ replicate k (CHR '' '')) reg = Lookup p reg" for k
    by (simp add: Lookup_def normalizePath_def trimSpace_spaces)
  have "inj (\<lambda>k. p @ replicate k (CHR '' ''))" by (rule injI) simp
  then have "distinct (map (\<lambda>k. p @ replicate k (CHR '' '')) [0..<n])" by (simp add: distinct_map inj_on_def)
  then show "allowPaths now (map (\<lambda>k. p @ replicate k (CHR '' '')) [0..<n]) 1 60000000000 [] = replicate n True"
    using allowPaths_fresh [of "map (\<lambda>k. p @ replicate k (CHR '' '')) [0..<n]" "[]" 1 now] by (simp add: timestampsOf_def)
qed

section \<open>Examples\<close>

definition exampleEntry :: "string list \<Rightarrow> routeEntry" where
  "exampleEntry redacted =
     \<lparr>re_triggerName = ''t'', re_triggerNamespace = ''ns'', re_flowRef = ''flow'', re_flowNamespace = ''ns'',
      re_allowedMethod = ''POST'', re_authType = ''bearer'', re_hmacSecret = [], re_hmacProvider = [],
      re_hmacTimestampToleranceSec = 0, re_bearerToken = ''s3cret'', re_basicUsername = [], re_basicPassword = [],
      re_apiKey = [], re_apiKeyHeader = [], re_ipAllowlist = [], re_headerEqualsHeader = [], re_headerEqualsValue = [],
      re_oidcValidator = None, re_maxInvocations = 0, re_cooldownWindow = 0, re_redactHeaders = redacted,
      re_redactBody = False\<rparr>"

definition exampleWebhookEnv :: "unit webhookEnv" where
  "exampleWebhookEnv =
     \<lparr>wv_now = (\<lambda>c. 0), wv_random = (\<lambda>n. None),
      wv_jwt = \<lparr>jw_get = (\<lambda>u. Inl []), jw_refresh = (\<lambda>u. Inl []), jw_parse = (\<lambda>p t. Some [])\<rparr>,
      wv_span = None, wv_traceCarrier = [], wv_create = Accepted\<rparr>"

definition exampleGateway :: "string list \<Rightarrow> gatewayState" where
  "exampleGateway redacted =
     \<lparr>gw_registry = \<lparr>rr_routes = [(''/hooks/a'', exampleEntry redacted)], rr_synced = True\<rparr>, gw_cooldown = [],
      gw_created = []\<rparr>"

definition exampleHeaders :: "string \<Rightarrow> httpHeader" where
  "exampleHeaders token = [(''Authorization'', [''Bearer s3cret'']), (''X-Token'', [token])]"

abbreviation exampleHandlerWH :: webhookHandler where
  "exampleHandlerWH \<equiv> NewWebhookHandler [] 0"

lemma canonical_Authorization: "canonicalHeaderKey ''Authorization'' = ''Authorization''"
  by (simp add: canonicalHeaderKey_def headerFieldByte_def isAlnum_def byteIn_def upperChar_def lowerChar_def)

lemma canonical_ContentType: "canonicalHeaderKey ''Content-Type'' = ''Content-Type''"
  by (simp add: canonicalHeaderKey_def headerFieldByte_def isAlnum_def byteIn_def upperChar_def lowerChar_def)

lemma example_route: "Lookup ''/hooks/a'' (gw_registry (exampleGateway red)) = Some (exampleEntry red)"
  by (simp add: Lookup_def exampleGateway_def normalizePath_def trimSpace_def isSpace_def)

lemma example_accepted:
  "gw_created (snd (ServeHTTP exampleWebhookEnv exampleHandlerWH (exampleHTTPRequest ''/hooks/a'' (exampleHeaders token))
     (exampleGateway red))) =
   [webhookRun exampleWebhookEnv exampleHandlerWH (exampleHTTPRequest ''/hooks/a'' (exampleHeaders token))
      (exampleEntry red) ''{}'']"
proof -
  let ?r = "exampleHTTPRequest ''/hooks/a'' (exampleHeaders token)"
  have path: "rq_path ?r = ''/hooks/a''" "rq_body ?r = ''{}''" by (simp_all add: exampleHTTPRequest_def)
  have up: "toUpper ''POST'' = ''POST''" by (simp add: toUpper_def upperChar_def)
  have auth: "authenticated exampleWebhookEnv exampleHandlerWH ?r (exampleEntry red) = AuthResult 200 []"
    by (simp add: authenticateRequest_def authType_defs exampleEntry_def exampleHTTPRequest_def exampleHeaders_def
        headerGet_def canonical_Authorization)
  have "gw_created (snd (ServeHTTP exampleWebhookEnv exampleHandlerWH ?r (exampleGateway red))) =
      gw_created (exampleGateway red) @ [webhookRun exampleWebhookEnv exampleHandlerWH ?r (exampleEntry red) (rq_body ?r)]"
  proof (rule ServeHTTP_accepts(2))
    show "Lookup (rq_path ?r) (gw_registry (exampleGateway red)) = Some (exampleEntry red)"
      by (simp add: path example_route)
    show "authenticated exampleWebhookEnv exampleHandlerWH ?r (exampleEntry red) = AuthResult 200 []" by (rule auth)
  qed (simp_all add: up maxBody_def exampleEntry_def exampleHTTPRequest_def exampleWebhookEnv_def admitted_def allow_def
      exampleGateway_def)
  then show ?thesis by (simp add: path exampleGateway_def)
qed

theorem ServeHTTP_creates_only_authorised_witness:
  "\<exists>entry run. Lookup ''/hooks/a'' (gw_registry (exampleGateway [])) = Some entry \<and>
     authorised (wv_jwt exampleWebhookEnv) 0 (exampleHTTPRequest ''/hooks/a'' (exampleHeaders [])) ''{}'' entry [] \<and>
     gw_created (snd (ServeHTTP exampleWebhookEnv exampleHandlerWH (exampleHTTPRequest ''/hooks/a'' (exampleHeaders []))
       (exampleGateway []))) = [run] \<and> fr_namespace run = ''ns''"
proof -
  let ?r = "exampleHTTPRequest ''/hooks/a'' (exampleHeaders [])"
  have path: "rq_path ?r = ''/hooks/a''" "rq_body ?r = ''{}''" by (simp_all add: exampleHTTPRequest_def)
  have st: "gw_created (exampleGateway []) = []" "wh_trustedProxies exampleHandlerWH = []"
    "wv_now exampleWebhookEnv CkSlack = 0" "re_triggerNamespace (exampleEntry []) = ''ns''"
    by (simp_all add: exampleGateway_def NewWebhookHandler_def exampleWebhookEnv_def exampleEntry_def)
  have "re_hmacTimestampToleranceSec e < 2 ^ 31" if "Lookup (rq_path ?r) (gw_registry (exampleGateway [])) = Some e" for e
    using that by (simp add: path example_route) (auto simp: exampleEntry_def)
  then obtain entry run where "Lookup (rq_path ?r) (gw_registry (exampleGateway [])) = Some entry"
    "authorised (wv_jwt exampleWebhookEnv) (wv_now exampleWebhookEnv CkSlack div 1000000000) ?r (rq_body ?r) entry
       (wh_trustedProxies exampleHandlerWH)"
    "gw_created (snd (ServeHTTP exampleWebhookEnv exampleHandlerWH ?r (exampleGateway []))) =
       gw_created (exampleGateway []) @ [run]"
    "fr_namespace run = re_triggerNamespace entry"
    using ServeHTTP_creates_only_authorised [of exampleWebhookEnv exampleHandlerWH ?r "exampleGateway []"]
    by (auto simp: example_accepted st)
  then show ?thesis using example_route [of "[]"] unfolding path st by (auto simp: st)
qed



theorem authenticateRequest_iff_authorised_witness:
  "authorised (wv_jwt exampleWebhookEnv) 0 (exampleHTTPRequest ''/hooks/a'' (exampleHeaders [])) ''{}'' (exampleEntry []) []"
proof -
  have "authenticateRequest (wv_jwt exampleWebhookEnv) 0 (exampleHTTPRequest ''/hooks/a'' (exampleHeaders [])) ''{}''
      (exampleEntry []) [] = AuthResult 200 []"
    by (simp add: authenticateRequest_def authType_defs exampleEntry_def exampleHTTPRequest_def exampleHeaders_def
        headerGet_def canonical_Authorization)
  then show ?thesis
    using authenticateRequest_iff_authorised [of 0 "exampleEntry []" "wv_jwt exampleWebhookEnv"
        "exampleHTTPRequest ''/hooks/a'' (exampleHeaders [])" "''{}''" "[]"] by (simp add: exampleEntry_def)
qed

end
