(* ===== verification/SecretIndex.thy ===== *)
theory SecretIndex
  imports TriggerTypes
begin

text \<open>
  The reverse index from Secrets to the objects that depend on them
  (\<^verbatim>\<open>internal/gateway/secretindex/secretindex.go\<close>), used by every gateway watcher. The two Go maps are
  association lists, their inner sets lists without duplicates. The locale \<open>dependency_index\<close> states the
  contract over a relation between objects and secrets; the index implements it.
\<close>

section \<open>The index\<close>

type_synonym keySets = "(namespacedName \<times> namespacedName list) list"

record index =
  bySecret :: keySets
  byObject :: keySets

definition newIndex :: index where
  "newIndex = \<lparr>bySecret = [], byObject = []\<rparr>"

text \<open>Reading a missing entry of a Go map gives the nil set.\<close>

definition setOf :: "keySets \<Rightarrow> namespacedName \<Rightarrow> namespacedName list" where
  "setOf m k = (case map_of m k of None \<Rightarrow> [] | Some xs \<Rightarrow> xs)"

fun unlinkAll :: "namespacedName \<Rightarrow> namespacedName list \<Rightarrow> keySets \<Rightarrow> keySets" where
  "unlinkAll objectKey [] m = m"
| "unlinkAll objectKey (s # ss) m =
     (let rest = removeAll objectKey (setOf m s)
      in unlinkAll objectKey ss (if rest = [] then AList.delete s m else AList.update s rest m))"

fun linkAll :: "namespacedName \<Rightarrow> namespacedName list \<Rightarrow> keySets \<Rightarrow> keySets" where
  "linkAll objectKey [] m = m"
| "linkAll objectKey (s # ss) m = linkAll objectKey ss (AList.update s (List.insert objectKey (setOf m s)) m)"

definition Update :: "namespacedName \<Rightarrow> namespacedName list \<Rightarrow> index \<Rightarrow> index" where
  "Update objectKey secretKeys idx =
     (let unlinked = unlinkAll objectKey (setOf (byObject idx) objectKey) (bySecret idx);
          byObj = AList.delete objectKey (byObject idx)
      in if secretKeys = [] then \<lparr>bySecret = unlinked, byObject = byObj\<rparr>
         else \<lparr>bySecret = linkAll objectKey secretKeys unlinked,
               byObject = AList.update objectKey (remdups secretKeys) byObj\<rparr>)"

definition Remove :: "namespacedName \<Rightarrow> index \<Rightarrow> index" where
  "Remove objectKey idx = Update objectKey [] idx"

definition ObjectsFor :: "namespacedName \<Rightarrow> index \<Rightarrow> namespacedName list" where
  "ObjectsFor secretKey idx = setOf (bySecret idx) secretKey"

section \<open>Contract\<close>

text \<open>What a watcher may assume: the index holds a relation, an update replaces the row of one object,
  and a query returns a column.\<close>

locale dependency_index =
  fixes valid :: "'i \<Rightarrow> bool"
    and deps :: "'i \<Rightarrow> ('o \<times> 's) set"
    and update :: "'o \<Rightarrow> 's list \<Rightarrow> 'i \<Rightarrow> 'i"
    and objectsFor :: "'s \<Rightarrow> 'i \<Rightarrow> 'o list"
  assumes valid_update: "valid i \<Longrightarrow> valid (update ob ss i)"
    and deps_update: "valid i \<Longrightarrow> deps (update ob ss i) = {(x, s). x \<noteq> ob \<and> (x, s) \<in> deps i} \<union> {ob} \<times> set ss"
    and objectsFor_deps: "valid i \<Longrightarrow> set (objectsFor s i) = {x. (x, s) \<in> deps i}"
    and objectsFor_distinct: "valid i \<Longrightarrow> distinct (objectsFor s i)"
begin

text \<open>The row of an object after a sequence of updates is its last update, or what it was before.\<close>

fun lastRow :: "('o \<times> 's list) list \<Rightarrow> 'o \<Rightarrow> 's set \<Rightarrow> 's set" where
  "lastRow [] x row = row"
| "lastRow ((ob, ss) # us) x row = lastRow us x (if x = ob then set ss else row)"

abbreviation updates :: "('o \<times> 's list) list \<Rightarrow> 'i \<Rightarrow> 'i" where
  "updates us i \<equiv> fold (\<lambda>(ob, ss). update ob ss) us i"

lemma valid_updates: "valid i \<Longrightarrow> valid (updates us i)"
  by (induction us arbitrary: i) (auto simp: valid_update)

lemma updates_row:
  "valid i \<Longrightarrow> {s. (x, s) \<in> deps (updates us i)} = lastRow us x {s. (x, s) \<in> deps i}"
proof (induction us arbitrary: i)
  case (Cons u us)
  obtain ob ss where u: "u = (ob, ss)" by (cases u)
  have "{s. (x, s) \<in> deps (update ob ss i)} = (if x = ob then set ss else {s. (x, s) \<in> deps i})"
    using Cons.prems by (auto simp: deps_update)
  then show ?case using Cons.IH [OF valid_update [OF Cons.prems], of ob ss] by (simp add: u)
qed simp

lemma objectsFor_updates:
  assumes "valid i"
  shows "x \<in> set (objectsFor s (updates us i)) \<longleftrightarrow> s \<in> lastRow us x {s. (x, s) \<in> deps i}"
  using updates_row [OF assms, of x us] objectsFor_deps [OF valid_updates [OF assms, of us], of s] by auto

end

section \<open>Implementation\<close>

text \<open>The two maps are converse, hold no empty set and no duplicate.\<close>

definition setsOk :: "keySets \<Rightarrow> bool" where
  "setsOk m \<longleftrightarrow> (\<forall>k xs. map_of m k = Some xs \<longrightarrow> xs \<noteq> [] \<and> distinct xs)"

definition indexOk :: "index \<Rightarrow> bool" where
  "indexOk idx \<longleftrightarrow> setsOk (bySecret idx) \<and> setsOk (byObject idx) \<and>
     (\<forall>x s. x \<in> set (setOf (bySecret idx) s) \<longleftrightarrow> s \<in> set (setOf (byObject idx) x))"

definition indexDeps :: "index \<Rightarrow> (namespacedName \<times> namespacedName) set" where
  "indexDeps idx = {(x, s). s \<in> set (setOf (byObject idx) x)}"

lemma setOf_update: "setOf (AList.update k xs m) k' = (if k' = k then xs else setOf m k')"
  by (simp add: setOf_def update_conv')

lemma setOf_delete: "setOf (AList.delete k m) k' = (if k' = k then [] else setOf m k')"
  by (simp add: setOf_def delete_conv')

lemma setsOkI: "(\<And>k xs. map_of m k = Some xs \<Longrightarrow> xs \<noteq> [] \<and> distinct xs) \<Longrightarrow> setsOk m"
  unfolding setsOk_def by blast

lemma setsOkD: "setsOk m \<Longrightarrow> map_of m k = Some xs \<Longrightarrow> xs \<noteq> [] \<and> distinct xs"
  unfolding setsOk_def by blast

lemma setsOk_update: "setsOk m \<Longrightarrow> xs \<noteq> [] \<Longrightarrow> distinct xs \<Longrightarrow> setsOk (AList.update k xs m)"
  by (rule setsOkI) (auto simp: update_conv' split: if_splits dest: setsOkD)

lemma setsOk_delete: "setsOk m \<Longrightarrow> setsOk (AList.delete k m)"
  by (rule setsOkI) (auto simp: delete_conv' split: if_splits dest: setsOkD)

lemma setsOk_distinct: "setsOk m \<Longrightarrow> distinct (setOf m k)"
  by (cases "map_of m k") (auto simp: setOf_def dest: setsOkD)

lemma unlinkAll_sets:
  "set (setOf (unlinkAll ob ss m) s) = set (setOf m s) - (if s \<in> set ss then {ob} else {})"
proof (induction ss arbitrary: m)
  case (Cons x ss)
  have rest: "set (removeAll ob (setOf m x)) = set (setOf m x) - {ob}" by simp
  show ?case
  proof (cases "removeAll ob (setOf m x) = []")
    case True
    then have "set (setOf m x) - {ob} = {}" using rest by simp
    then show ?thesis using True Cons.IH [of "AList.delete x m"] by (auto simp: setOf_delete)
  next
    case False
    then show ?thesis using Cons.IH by (auto simp: Let_def setOf_update)
  qed
qed simp

lemma unlinkAll_ok: "setsOk m \<Longrightarrow> setsOk (unlinkAll ob ss m)"
proof (induction ss arbitrary: m)
  case (Cons s ss)
  have "distinct (removeAll ob (setOf m s))" using Cons.prems by (simp add: setsOk_distinct removeAll_filter_not_eq)
  then show ?case using Cons by (simp add: Let_def setsOk_update setsOk_delete)
qed simp

lemma linkAll_sets:
  "set (setOf (linkAll ob ss m) s) = set (setOf m s) \<union> (if s \<in> set ss then {ob} else {})"
  by (induction ss arbitrary: m) (auto simp: setOf_update)

lemma linkAll_ok: "setsOk m \<Longrightarrow> setsOk (linkAll ob ss m)"
proof (induction ss arbitrary: m)
  case (Cons s ss)
  have "List.insert ob (setOf m s) \<noteq> []" by (metis empty_iff empty_set insertI1 set_insert)
  then show ?case using Cons by (simp add: setsOk_update setsOk_distinct)
qed simp

lemma Update_byObject:
  "setOf (byObject (Update ob ss idx)) x = (if x = ob then remdups ss else setOf (byObject idx) x)"
  by (simp add: Update_def Let_def setOf_update setOf_delete)

lemma Update_bySecret:
  assumes "indexOk idx"
  shows "set (setOf (bySecret (Update ob ss idx)) s) =
         (set (setOf (bySecret idx) s) - {ob}) \<union> (if s \<in> set ss then {ob} else {})"
proof -
  have "ob \<in> set (setOf (bySecret idx) s) \<longleftrightarrow> s \<in> set (setOf (byObject idx) ob)"
    using assms by (simp add: indexOk_def)
  then show ?thesis by (auto simp: Update_def Let_def linkAll_sets unlinkAll_sets split: if_splits)
qed

lemma Update_ok:
  assumes "indexOk idx"
  shows "indexOk (Update ob ss idx)"
proof -
  have "setsOk (bySecret (Update ob ss idx))" "setsOk (byObject (Update ob ss idx))"
    using assms by (auto simp: Update_def Let_def indexOk_def intro!: linkAll_ok unlinkAll_ok setsOk_update setsOk_delete)
  moreover have "x \<in> set (setOf (bySecret (Update ob ss idx)) s) \<longleftrightarrow> s \<in> set (setOf (byObject (Update ob ss idx)) x)"
    for x s
    using assms by (auto simp: Update_bySecret Update_byObject indexOk_def)
  ultimately show ?thesis by (simp add: indexOk_def)
qed

lemma Update_deps: "indexDeps (Update ob ss idx) = {(x, s). x \<noteq> ob \<and> (x, s) \<in> indexDeps idx} \<union> {ob} \<times> set ss"
  by (auto simp: indexDeps_def Update_byObject split: if_splits)

lemma indexOk_new [simp]: "indexOk newIndex"
  by (simp add: indexOk_def newIndex_def setsOk_def setOf_def)

lemma indexDeps_new [simp]: "indexDeps newIndex = {}"
  by (simp add: indexDeps_def newIndex_def setOf_def)

interpretation secrets: dependency_index indexOk indexDeps Update ObjectsFor
proof
  fix i :: index and ob s :: namespacedName and ss :: "namespacedName list"
  assume ok: "indexOk i"
  show "indexOk (Update ob ss i)" by (rule Update_ok [OF ok])
  show "indexDeps (Update ob ss i) = {(x, s). x \<noteq> ob \<and> (x, s) \<in> indexDeps i} \<union> {ob} \<times> set ss"
    by (rule Update_deps)
  show "set (ObjectsFor s i) = {x. (x, s) \<in> indexDeps i}"
    using ok by (auto simp: ObjectsFor_def indexDeps_def indexOk_def)
  show "distinct (ObjectsFor s i)"
    using ok by (auto simp: ObjectsFor_def indexOk_def setsOk_distinct)
qed

text \<open>C33: the index built by any sequence of updates refines the relation between objects and
  secrets: a query for a secret returns, without duplicates, exactly the objects whose last update
  listed that secret, so a Trigger edited to drop a reference, or removed, is no longer returned.\<close>

theorem ObjectsFor_refines_last_update:
  "distinct (ObjectsFor s (fold (\<lambda>(ob, ss). Update ob ss) us newIndex)) \<and>
   set (ObjectsFor s (fold (\<lambda>(ob, ss). Update ob ss) us newIndex)) =
     {ob. \<exists>ss. map_of (rev us) ob = Some ss \<and> s \<in> set ss}"
proof -
  have row: "secrets.lastRow us x row = (case map_of (rev us) x of None \<Rightarrow> row | Some ss \<Rightarrow> set ss)" for x row
    by (induction us arbitrary: row) (auto simp: map_add_def split: option.split)
  have "x \<in> set (ObjectsFor s (fold (\<lambda>(ob, ss). Update ob ss) us newIndex)) \<longleftrightarrow>
      (\<exists>ss. map_of (rev us) x = Some ss \<and> s \<in> set ss)" for x
    using secrets.objectsFor_updates [OF indexOk_new, of x s us] by (simp add: row split: option.split)
  then show ?thesis
    using secrets.objectsFor_distinct [OF secrets.valid_updates [OF indexOk_new, of us]] by auto
qed

end
