(* ===== verification/WebhookWatcher.thy ===== *)
theory WebhookWatcher
  imports WebhookRoutes SecretIndex
begin

text \<open>
  The webhook gateway's watcher (\<^verbatim>\<open>internal/gateway/webhook/watcher.go\<close>): it keeps the route registry in
  step with the Triggers and reprocesses the dependents of a Secret when the Secret changes. The
  events of the informers are delivered one at a time, so a run of the watcher is a sequence of
  events on its state. Reads of Secrets, the OIDC discovery request and the JWKS cache are the record
  \<open>watchEnv\<close>.
\<close>

section \<open>Environment and state\<close>

text \<open>\<open>we_discover\<close> answers the discovery request with an error or a status and a body, \<open>we_jwksURI\<close> decodes
  the body.\<close>

record watchEnv =
  we_secret :: "string \<Rightarrow> string \<Rightarrow> apiError + smap"
  we_discover :: "string \<Rightarrow> msg + int \<times> string"
  we_jwksURI :: "string \<Rightarrow> msg + string"
  we_registerJWKS :: "string \<Rightarrow> msg option"
  we_refreshJWKS :: "string \<Rightarrow> msg option"

record watcherState =
  ww_triggers :: "(namespacedName \<times> trigger) list"
  ww_index :: index
  ww_registry :: routeRegistry

definition newWatcher :: watcherState where
  "newWatcher = \<lparr>ww_triggers = [], ww_index = newIndex, ww_registry = newRouteRegistry\<rparr>"

section \<open>Building a route\<close>

definition secretRefsForTrigger :: "trigger \<Rightarrow> namespacedName list" where
  "secretRefsForTrigger trigger =
     (let one = (\<lambda>name. [\<lparr>nn_namespace = tr_namespace trigger, nn_name = name\<rparr>]);
          opt = (\<lambda>x. case x of None \<Rightarrow> [] | Some name \<Rightarrow> one name)
      in if ts_type (tr_spec trigger) \<noteq> triggerTypeWebhook then []
         else case ts_webhook (tr_spec trigger) of
             None \<Rightarrow> []
           | Some wt \<Rightarrow>
               (case wt_auth wt of
                  None \<Rightarrow> []
                | Some auth \<Rightarrow>
                    if wa_type auth = authTypeHMAC then opt (map_option (\<lambda>c. ks_name (hm_secretRef c)) (wa_hmac auth))
                    else if wa_type auth = authTypeBearer then opt (map_option ks_name (wa_bearer auth))
                    else if wa_type auth = authTypeAPIKey then opt (map_option (\<lambda>c. ks_name (ak_secretRef c)) (wa_apiKey auth))
                    else if wa_type auth = authTypeBasic then opt (map_option wb_secretRef (wa_basic auth))
                    else if wa_type auth = authTypeHeaderEquals then
                      opt (map_option (\<lambda>c. ks_name (he_secretRef c)) (wa_headerEquals auth))
                    else []))"

definition entryRoutePath :: "trigger \<Rightarrow> string" where
  "entryRoutePath trigger =
     (case ts_webhook (tr_spec trigger) of
        None \<Rightarrow> []
      | Some wt \<Rightarrow>
          (let path = trimSpace (wt_path wt)
           in if path = [] then [] else if \<not> hasPrefix path ''/'' then ''/'' @ path else path))"

definition readSecretKey :: "watchEnv \<Rightarrow> string \<Rightarrow> string \<Rightarrow> string \<Rightarrow> string result" where
  "readSecretKey env namespace name key =
     (case we_secret env namespace name of
        Inl err \<Rightarrow> Inl (Fmt ''get secret %s/%s: %w'' [Txt namespace, Txt name, apiErrorMsg err])
      | Inr data \<Rightarrow>
          (case map_of data key of
             None \<Rightarrow> Inl (Fmt ''secret %s/%s does not contain key %q'' [Txt namespace, Txt name, Txt key])
           | Some val \<Rightarrow> Inr val))"

definition discoverJWKSURL :: "watchEnv \<Rightarrow> string \<Rightarrow> string result" where
  "discoverJWKSURL env issuer =
     (let url = trimRightChar (CHR ''/'') issuer @ ''/.well-known/openid-configuration''
      in case we_discover env url of
           Inl err \<Rightarrow> Inl (Fmt ''fetching OIDC discovery document from %s: %w'' [Txt url, err])
         | Inr (status, body) \<Rightarrow>
             if status \<noteq> 200 then Inl (Fmt ''OIDC discovery at %s returned HTTP %d'' [Txt url, Txt (showInt status)])
             else case we_jwksURI env body of
                 Inl err \<Rightarrow> Inl (Fmt ''decoding OIDC discovery document: %w'' [err])
               | Inr uri \<Rightarrow>
                   if uri = [] then Inl (Fmt ''OIDC discovery document at %s missing jwks_uri'' [Txt url])
                   else Inr uri)"

text \<open>A failed first fetch is a soft error: the route is registered all the same.\<close>

datatype jwksError = JwksHard msg | JwksPrewarm msg

definition RegisterJWKSURL :: "watchEnv \<Rightarrow> string \<Rightarrow> jwksError option" where
  "RegisterJWKSURL env jwksURL =
     (case we_registerJWKS env jwksURL of
        Some err \<Rightarrow> Some (JwksHard (Fmt ''registering JWKS URL %s: %w'' [Txt jwksURL, err]))
      | None \<Rightarrow> (case we_refreshJWKS env jwksURL of Some err \<Rightarrow> Some (JwksPrewarm err) | None \<Rightarrow> None))"

definition emptyRouteEntry :: routeEntry where
  "emptyRouteEntry =
     \<lparr>re_triggerName = [], re_triggerNamespace = [], re_flowRef = [], re_flowNamespace = [], re_allowedMethod = [],
      re_authType = [], re_hmacSecret = [], re_hmacProvider = [], re_hmacTimestampToleranceSec = 0, re_bearerToken = [],
      re_basicUsername = [], re_basicPassword = [], re_apiKey = [], re_apiKeyHeader = [], re_ipAllowlist = [],
      re_headerEqualsHeader = [], re_headerEqualsValue = [], re_oidcValidator = None, re_maxInvocations = 0,
      re_cooldownWindow = 0, re_redactHeaders = [], re_redactBody = False\<rparr>"

definition orDefault :: "string \<Rightarrow> string \<Rightarrow> string" where
  "orDefault s d = (if s = [] then d else s)"

text \<open>The part of the entry that does not depend on the authentication type.\<close>

definition baseRouteEntry :: "trigger \<Rightarrow> webhookTrigger \<Rightarrow> routeEntry" where
  "baseRouteEntry trigger wt =
     emptyRouteEntry
       \<lparr>re_triggerName := tr_name trigger, re_triggerNamespace := tr_namespace trigger,
        re_flowRef := ts_flowRef (tr_spec trigger), re_flowNamespace := tr_namespace trigger,
        re_allowedMethod := (if wt_method wt \<noteq> [] then toUpper (wt_method wt) else ''POST''),
        re_redactBody := wt_redactBody wt, re_redactHeaders := wt_redactHeaders wt,
        re_maxInvocations := (case wt_rateLimit wt of None \<Rightarrow> 0 | Some l \<Rightarrow> wr_maxRequests l),
        re_cooldownWindow := (case wt_rateLimit wt of
                                None \<Rightarrow> 0 | Some l \<Rightarrow> if wr_window l = 0 then 60000000000 else wr_window l)\<rparr>"

definition wrapErr :: "string \<Rightarrow> 'a result \<Rightarrow> 'a result" where
  "wrapErr f r = mapErr (\<lambda>e. Fmt f [e]) r"

definition buildAuth :: "watchEnv \<Rightarrow> string \<Rightarrow> webhookAuth \<Rightarrow> routeEntry \<Rightarrow> routeEntry result" where
  "buildAuth env ns auth entry =
     (let read = (\<lambda>name key. readSecretKey env ns name key);
          selected = (\<lambda>sel. read (ks_name sel) (ks_key sel))
      in if wa_type auth = authTypeHMAC then
           (case wa_hmac auth of
              None \<Rightarrow> Inl (Txt ''hmac auth requires hmac config'')
            | Some c \<Rightarrow>
                bindR (wrapErr ''reading HMAC secret: %w'' (selected (hm_secretRef c)))
                  (\<lambda>val. Inr (entry\<lparr>re_hmacSecret := val, re_hmacProvider := orDefault (hm_provider c) ''github'',
                     re_hmacTimestampToleranceSec :=
                       (if hm_timestampToleranceSeconds c \<le> 0 then 300 else hm_timestampToleranceSeconds c)\<rparr>)))
         else if wa_type auth = authTypeBearer then
           (case wa_bearer auth of
              None \<Rightarrow> Inl (Txt ''bearer auth requires bearer config'')
            | Some sel \<Rightarrow>
                bindR (wrapErr ''reading bearer token secret: %w'' (selected sel))
                  (\<lambda>val. Inr (entry\<lparr>re_bearerToken := val\<rparr>)))
         else if wa_type auth = authTypeAPIKey then
           (case wa_apiKey auth of
              None \<Rightarrow> Inl (Txt ''apiKey auth requires apiKey config'')
            | Some c \<Rightarrow>
                bindR (wrapErr ''reading API key secret: %w'' (selected (ak_secretRef c)))
                  (\<lambda>val. Inr (entry\<lparr>re_apiKey := val, re_apiKeyHeader := orDefault (ak_header c) ''X-Api-Key''\<rparr>)))
         else if wa_type auth = authTypeBasic then
           (case wa_basic auth of
              None \<Rightarrow> Inl (Txt ''basic auth requires basic.secretRef'')
            | Some c \<Rightarrow>
                bindR (wrapErr ''reading Basic auth username from secret: %w''
                        (read (wb_secretRef c) (orDefault (wb_usernameKey c) ''username'')))
                  (\<lambda>username.
                    bindR (wrapErr ''reading Basic auth password from secret: %w''
                            (read (wb_secretRef c) (orDefault (wb_passwordKey c) ''password'')))
                      (\<lambda>password. Inr (entry\<lparr>re_basicUsername := username, re_basicPassword := password\<rparr>))))
         else if wa_type auth = authTypeIPAllowlist then
           Inr (entry\<lparr>re_ipAllowlist := (case wa_ipAllowlist auth of None \<Rightarrow> [] | Some cidrs \<Rightarrow> cidrs)\<rparr>)
         else if wa_type auth = authTypeOIDC then
           (case wa_oidc auth of
              None \<Rightarrow> Inl (Txt ''oidc auth requires oidc config'')
            | Some c \<Rightarrow>
                bindR (wrapErr ''discovering OIDC JWKS URL: %w'' (discoverJWKSURL env (oi_issuer c)))
                  (\<lambda>jwksURL.
                    let v = \<lparr>ov_jwksURL = jwksURL, ov_issuer = oi_issuer c, ov_audience = oi_audience c\<rparr>
                    in case RegisterJWKSURL env jwksURL of
                         Some (JwksHard err) \<Rightarrow> Inl (Fmt ''registering OIDC JWKS URL: %w'' [err])
                       | _ \<Rightarrow> Inr (entry\<lparr>re_oidcValidator := Some v\<rparr>)))
         else if wa_type auth = authTypeHeaderEquals then
           (case wa_headerEquals auth of
              None \<Rightarrow> Inl (Txt ''header-equals auth requires headerEquals config'')
            | Some c \<Rightarrow>
                bindR (wrapErr ''reading header-equals secret: %w'' (selected (he_secretRef c)))
                  (\<lambda>val. Inr (entry\<lparr>re_headerEqualsHeader := he_header c, re_headerEqualsValue := val\<rparr>)))
         else Inr entry)"

definition buildRouteEntry :: "watchEnv \<Rightarrow> trigger \<Rightarrow> webhookTrigger \<Rightarrow> routeEntry result" where
  "buildRouteEntry env trigger wt =
     (case wt_auth wt of
        None \<Rightarrow> Inr (baseRouteEntry trigger wt)
      | Some auth \<Rightarrow>
          if wa_type auth = [] then Inr (baseRouteEntry trigger wt)
          else buildAuth env (tr_namespace trigger) auth ((baseRouteEntry trigger wt)\<lparr>re_authType := wa_type auth\<rparr>))"

section \<open>Events\<close>

definition enabledWebhook :: "trigger \<Rightarrow> webhookTrigger option" where
  "enabledWebhook trigger =
     (if ts_type (tr_spec trigger) = triggerTypeWebhook \<and> ts_enabled (tr_spec trigger)
      then ts_webhook (tr_spec trigger) else None)"

definition handleTrigger :: "watchEnv \<Rightarrow> trigger \<Rightarrow> watcherState \<Rightarrow> watcherState" where
  "handleTrigger env trigger w =
     (let key = triggerKey trigger;
          w1 = w\<lparr>ww_triggers := AList.update key trigger (ww_triggers w),
                 ww_index := Update key (secretRefsForTrigger trigger) (ww_index w)\<rparr>
      in case enabledWebhook trigger of
           Some wt \<Rightarrow>
             (case buildRouteEntry env trigger wt of
                Inl _ \<Rightarrow> w1
              | Inr entry \<Rightarrow> w1\<lparr>ww_registry := Register (entryRoutePath trigger) entry (ww_registry w1)\<rparr>)
         | None \<Rightarrow> w1\<lparr>ww_registry := Deregister (entryRoutePath trigger) (ww_registry w1)\<rparr>)"

fun reprocess :: "watchEnv \<Rightarrow> namespacedName list \<Rightarrow> watcherState \<Rightarrow> watcherState" where
  "reprocess env [] w = w"
| "reprocess env (key # keys) w =
     reprocess env keys
       (case map_of (ww_triggers w) key of None \<Rightarrow> w | Some trigger \<Rightarrow> handleTrigger env trigger w)"

definition handleSecretChange :: "watchEnv \<Rightarrow> namespacedName \<Rightarrow> watcherState \<Rightarrow> watcherState" where
  "handleSecretChange env secretKey w = reprocess env (ObjectsFor secretKey (ww_index w)) w"

definition handleDelete :: "trigger \<Rightarrow> watcherState \<Rightarrow> watcherState" where
  "handleDelete trigger w =
     (let key = triggerKey trigger
      in w\<lparr>ww_triggers := AList.delete key (ww_triggers w), ww_index := Remove key (ww_index w),
           ww_registry := Deregister (entryRoutePath trigger) (ww_registry w)\<rparr>)"

text \<open>The deletion event may carry a tombstone instead of the object.\<close>

datatype deletedObject = DeletedTrigger trigger | Tombstone "trigger option" | OtherObject

definition handleDeleteEvent :: "deletedObject \<Rightarrow> watcherState \<Rightarrow> watcherState" where
  "handleDeleteEvent obj w =
     (case obj of
        DeletedTrigger t \<Rightarrow> handleDelete t w
      | Tombstone (Some t) \<Rightarrow> handleDelete t w
      | _ \<Rightarrow> w)"

datatype watchEvent = TriggerSeen trigger | TriggerGone deletedObject | SecretSeen namespacedName

fun watchStep :: "watchEnv \<Rightarrow> watchEvent \<Rightarrow> watcherState \<Rightarrow> watcherState" where
  "watchStep env (TriggerSeen t) w = handleTrigger env t w"
| "watchStep env (TriggerGone obj) w = handleDeleteEvent obj w"
| "watchStep env (SecretSeen k) w = handleSecretChange env k w"

section \<open>The index mirrors the known Triggers\<close>

definition watchInv :: "watcherState \<Rightarrow> bool" where
  "watchInv w \<longleftrightarrow> indexOk (ww_index w) \<and> (\<forall>k t. map_of (ww_triggers w) k = Some t \<longrightarrow> triggerKey t = k) \<and>
     indexDeps (ww_index w) =
       {(k, s). \<exists>t. map_of (ww_triggers w) k = Some t \<and> s \<in> set (secretRefsForTrigger t)}"

lemma watchInvD:
  assumes "watchInv w"
  shows "indexOk (ww_index w)" "map_of (ww_triggers w) k = Some t \<Longrightarrow> triggerKey t = k"
    "indexDeps (ww_index w) = {(k, s). \<exists>t. map_of (ww_triggers w) k = Some t \<and> s \<in> set (secretRefsForTrigger t)}"
  using assms unfolding watchInv_def by blast+

lemma handleTrigger_fields:
  "ww_triggers (handleTrigger env t w) = AList.update (triggerKey t) t (ww_triggers w)"
  "ww_index (handleTrigger env t w) = Update (triggerKey t) (secretRefsForTrigger t) (ww_index w)"
  by (simp_all add: handleTrigger_def Let_def split: option.split sum.split)

lemma handleTrigger_inv:
  assumes "watchInv w"
  shows "watchInv (handleTrigger env t w)"
  unfolding watchInv_def handleTrigger_fields secrets.deps_update [OF watchInvD(1) [OF assms]] watchInvD(3) [OF assms]
proof (intro conjI allI impI)
  show "indexOk (Update (triggerKey t) (secretRefsForTrigger t) (ww_index w))"
    using assms by (simp add: watchInvD(1) Update_ok)
  show "triggerKey t' = k" if "map_of (AList.update (triggerKey t) t (ww_triggers w)) k = Some t'" for k t'
    using that watchInvD(2) [OF assms, of k t'] by (auto simp: update_conv' split: if_splits)
qed (auto simp: update_conv' split: if_splits)

lemma reprocess_inv: "watchInv w \<Longrightarrow> watchInv (reprocess env keys w)"
  by (induction keys arbitrary: w) (auto simp: handleTrigger_inv split: option.split)

lemma handleDelete_fields:
  "ww_triggers (handleDelete t w) = AList.delete (triggerKey t) (ww_triggers w)"
  "ww_index (handleDelete t w) = Remove (triggerKey t) (ww_index w)"
  by (simp_all add: handleDelete_def Let_def)

lemma handleDelete_inv:
  assumes "watchInv w"
  shows "watchInv (handleDelete t w)"
proof -
  have "indexOk (Remove (triggerKey t) (ww_index w))"
    using assms by (simp add: Remove_def watchInvD(1) Update_ok)
  moreover have "triggerKey t' = k" if "map_of (AList.delete (triggerKey t) (ww_triggers w)) k = Some t'" for k t'
    using that watchInvD(2) [OF assms, of k t'] by (simp add: delete_conv' split: if_splits)
  moreover have "indexDeps (Remove (triggerKey t) (ww_index w)) =
      {(k, s). \<exists>t'. map_of (AList.delete (triggerKey t) (ww_triggers w)) k = Some t' \<and> s \<in> set (secretRefsForTrigger t')}"
    unfolding Remove_def secrets.deps_update [OF watchInvD(1) [OF assms]] watchInvD(3) [OF assms]
    by (auto simp: delete_conv' split: if_splits)
  ultimately show ?thesis unfolding watchInv_def handleDelete_fields by blast
qed

lemma watchStep_inv: "watchInv w \<Longrightarrow> watchInv (watchStep env e w)"
  by (cases e) (auto simp: handleTrigger_inv handleSecretChange_def reprocess_inv handleDeleteEvent_def handleDelete_inv
      split: deletedObject.split option.split)

lemma watchInv_new [simp]: "watchInv newWatcher"
  by (simp add: watchInv_def newWatcher_def)

text \<open>Every event may find another answer of the API server: the environment changes with the event.\<close>

abbreviation watchHistory :: "(watchEnv \<times> watchEvent) list \<Rightarrow> watcherState \<Rightarrow> watcherState" where
  "watchHistory es w \<equiv> fold (\<lambda>(env, e). watchStep env e) es w"

lemma watchHistory_inv: "watchInv w \<Longrightarrow> watchInv (watchHistory es w)"
  by (induction es arbitrary: w) (auto simp: watchStep_inv)

text \<open>C28: after any sequence of Trigger and Secret events, the secret index of the watcher holds exactly
  the references of the Triggers it knows: no dependent of a Secret is missed by a later change of the
  Secret, and none is left over from an edited or deleted Trigger.\<close>

theorem watcher_index_complete:
  "set (ObjectsFor s (ww_index (watchHistory es newWatcher))) =
     {k. \<exists>t. map_of (ww_triggers (watchHistory es newWatcher)) k = Some t \<and> triggerKey t = k \<and>
             s \<in> set (secretRefsForTrigger t)}"
proof -
  have inv: "watchInv (watchHistory es newWatcher)" by (rule watchHistory_inv [OF watchInv_new])
  show ?thesis
    unfolding secrets.objectsFor_deps [OF watchInvD(1) [OF inv]] watchInvD(3) [OF inv]
    using watchInvD(2) [OF inv] by auto
qed

section \<open>Secret rotation reaches the routes\<close>

definition registeredEntry :: "routeEntry \<Rightarrow> routeEntry" where
  "registeredEntry e = e\<lparr>re_allowedMethod := toUpper (re_allowedMethod e)\<rparr>"

lemma handleTrigger_route:
  assumes "enabledWebhook t = Some wt" "buildRouteEntry env t wt = Inr entry" "samePath (entryRoutePath t) q"
  shows "Lookup q (ww_registry (handleTrigger env t w)) = Some (registeredEntry entry)"
  using assms by (simp add: handleTrigger_def Let_def routes.find_register registeredEntry_def)

lemma handleTrigger_other_route:
  "\<not> samePath (entryRoutePath t) q \<Longrightarrow> Lookup q (ww_registry (handleTrigger env t w)) = Lookup q (ww_registry w)"
  by (auto simp: handleTrigger_def Let_def routes.find_stable split: option.split sum.split)

lemma handleTrigger_known:
  assumes "map_of (ww_triggers w) (triggerKey t) = Some t"
  shows "map_of (ww_triggers (handleTrigger env t w)) = map_of (ww_triggers w)"
  unfolding handleTrigger_fields update_conv' using assms by (rule fun_upd_idem)

lemma reprocess_route:
  assumes "watchInv w" "map_of (ww_triggers w) key = Some t" "enabledWebhook t = Some wt"
    and "buildRouteEntry env t wt = Inr entry" "samePath (entryRoutePath t) q"
    and "\<And>k t'. map_of (ww_triggers w) k = Some t' \<Longrightarrow> k \<noteq> key \<Longrightarrow> \<not> samePath (entryRoutePath t') q"
    and "key \<in> set keys \<or> Lookup q (ww_registry w) = Some (registeredEntry entry)"
  shows "Lookup q (ww_registry (reprocess env keys w)) = Some (registeredEntry entry)"
  using assms(1,2,6,7)
proof (induction keys arbitrary: w)
  case (Cons k keys)
  show ?case
  proof (cases "map_of (ww_triggers w) k")
    case None
    then have "key \<in> set keys \<or> Lookup q (ww_registry w) = Some (registeredEntry entry)"
      using Cons.prems(2,4) by auto
    then show ?thesis using Cons.IH [OF Cons.prems(1-3)] None by simp
  next
    case (Some t')
    let ?w = "handleTrigger env t' w"
    have known: "map_of (ww_triggers ?w) = map_of (ww_triggers w)"
      using Some watchInvD(2) [OF Cons.prems(1) Some] by (intro handleTrigger_known) simp
    have "key \<in> set keys \<or> Lookup q (ww_registry ?w) = Some (registeredEntry entry)"
    proof (cases "k = key")
      case True
      then have "t' = t" using Some Cons.prems(2) by simp
      then show ?thesis using handleTrigger_route [OF assms(3,4,5)] by simp
    next
      case False
      then have "Lookup q (ww_registry ?w) = Lookup q (ww_registry w)"
        using Cons.prems(3) [OF Some] by (intro handleTrigger_other_route) auto
      then show ?thesis using Cons.prems(4) False by auto
    qed
    then show ?thesis
      using Cons.IH [of ?w] handleTrigger_inv [OF Cons.prems(1)] Cons.prems(2,3) Some by (simp add: known)
  qed
qed simp

lemma secretChange_route:
  assumes "watchInv w" "map_of (ww_triggers w) key = Some t" "enabledWebhook t = Some wt"
    and "buildRouteEntry env t wt = Inr entry" "s \<in> set (secretRefsForTrigger t)" "samePath (entryRoutePath t) q"
    and "\<And>k t'. map_of (ww_triggers w) k = Some t' \<Longrightarrow> k \<noteq> key \<Longrightarrow> \<not> samePath (entryRoutePath t') q"
  shows "Lookup q (ww_registry (handleSecretChange env s w)) = Some (registeredEntry entry)"
proof -
  have "key \<in> set (ObjectsFor s (ww_index w))"
    unfolding secrets.objectsFor_deps [OF watchInvD(1) [OF assms(1)]] watchInvD(3) [OF assms(1)]
    using assms(2,5) by blast
  then show ?thesis
    unfolding handleSecretChange_def by (intro reprocess_route [OF assms(1-4,6,7)]) auto
qed

definition buildsType :: "string \<Rightarrow> routeEntry result \<Rightarrow> bool" where
  "buildsType ty r \<longleftrightarrow> (\<forall>e. r = Inr e \<longrightarrow> re_authType e = ty)"

lemma buildsTypeI:
  "buildsType ty (Inl m)" "re_authType e = ty \<Longrightarrow> buildsType ty (Inr e)"
  "buildsType ty x \<Longrightarrow> buildsType ty y \<Longrightarrow> buildsType ty (if c then x else y)"
  "buildsType ty x \<Longrightarrow> (\<And>v. buildsType ty (f v)) \<Longrightarrow> buildsType ty (case opt of None \<Rightarrow> x | Some v \<Rightarrow> f v)"
  "(\<And>m. buildsType ty (g m)) \<Longrightarrow> (\<And>m. buildsType ty (h m)) \<Longrightarrow>
     buildsType ty (case er of JwksHard m \<Rightarrow> g m | JwksPrewarm m \<Rightarrow> h m)"
  "(\<And>v. buildsType ty (f v)) \<Longrightarrow> buildsType ty (bindR r f)"
  by (auto simp: buildsType_def split: option.split jwksError.split)

lemma buildAuth_type: "buildAuth env ns auth entry = Inr e \<Longrightarrow> re_authType e = re_authType entry"
proof -
  have "buildsType (re_authType entry) (buildAuth env ns auth entry)"
    unfolding buildAuth_def Let_def by (intro buildsTypeI) simp_all
  then show "buildAuth env ns auth entry = Inr e \<Longrightarrow> re_authType e = re_authType entry"
    by (simp add: buildsType_def)
qed

text \<open>A route built from a Trigger carries the configured authentication type: a Trigger that asks for
  authentication never gets an open route.\<close>

lemma buildRouteEntry_type:
  assumes "buildRouteEntry env t wt = Inr e"
  shows "re_authType e = (case wt_auth wt of None \<Rightarrow> [] | Some auth \<Rightarrow> wa_type auth)"
  using assms buildAuth_type [of env "tr_namespace t"]
  by (auto simp: buildRouteEntry_def baseRouteEntry_def emptyRouteEntry_def split: option.splits if_splits)


text \<open>A route outlives its Trigger. When the path of a Trigger is edited, the route of the old path
  is not removed, and deleting the Trigger afterwards removes only the new one: the old path keeps
  being served with the old credentials although no Trigger is left.\<close>

theorem renamed_route_survives_deletion:
  assumes "enabledWebhook t = Some wt" "buildRouteEntry env t wt = Inr entry"
    and "triggerKey t' = triggerKey t" "\<not> samePath (entryRoutePath t') (entryRoutePath t)"
  shows "Lookup (entryRoutePath t) (ww_registry (handleDelete t' (handleTrigger env' t' (handleTrigger env t w)))) =
           Some (registeredEntry entry) \<and>
         map_of (ww_triggers (handleDelete t' (handleTrigger env' t' (handleTrigger env t w)))) (triggerKey t) = None"
proof
  have "Lookup (entryRoutePath t) (ww_registry (handleTrigger env' t' (handleTrigger env t w))) = Some (registeredEntry entry)"
    using handleTrigger_route [OF assms(1,2), of "entryRoutePath t" w] handleTrigger_other_route [OF assms(4)]
    by (simp add: samePath_def)
  then show "Lookup (entryRoutePath t) (ww_registry (handleDelete t' (handleTrigger env' t' (handleTrigger env t w)))) =
      Some (registeredEntry entry)"
    using assms(4) by (simp add: handleDelete_def Let_def routes.find_stable)
  show "map_of (ww_triggers (handleDelete t' (handleTrigger env' t' (handleTrigger env t w)))) (triggerKey t) = None"
    using assms(3) by (simp add: handleDelete_fields delete_conv')
qed

section \<open>Examples\<close>

definition exampleTrigger :: "string \<Rightarrow> trigger" where
  "exampleTrigger path =
     \<lparr>tr_name = ''t'', tr_namespace = ''ns'', tr_generation = 1, tr_deletionTimestamp = None, tr_finalizers = [],
      tr_spec = \<lparr>ts_type = ''webhook'', ts_enabled = True,
        ts_webhook = Some \<lparr>wt_path = path, wt_method = [],
          wt_auth = Some \<lparr>wa_type = ''bearer'', wa_hmac = None, wa_bearer = Some \<lparr>ks_name = ''cred'', ks_key = ''token''\<rparr>,
            wa_oidc = None, wa_basic = None, wa_apiKey = None, wa_ipAllowlist = None, wa_headerEquals = None\<rparr>,
          wt_rateLimit = None, wt_redactHeaders = [], wt_redactBody = False\<rparr>,
        ts_cron = None, ts_kafka = None, ts_amqp = None, ts_nats = None, ts_plugin = None, ts_resource = None,
        ts_flowRef = ''flow'', ts_event = [], ts_cooldown = None, ts_flowRunGC = None\<rparr>,
      tr_status = \<lparr>tt_conditions = [], tt_lastTriggeredTime = None, tt_lastResult = [], tt_lastError = [],
        tt_currentInvocationCount = 0\<rparr>\<rparr>"

definition exampleWatchEnv :: "string \<Rightarrow> watchEnv" where
  "exampleWatchEnv token =
     \<lparr>we_secret = (\<lambda>ns n. Inr [(''token'', token)]), we_discover = (\<lambda>u. Inl (Txt [])), we_jwksURI = (\<lambda>b. Inl (Txt [])),
      we_registerJWKS = (\<lambda>u. None), we_refreshJWKS = (\<lambda>u. None)\<rparr>"

abbreviation exampleWebhook :: "string \<Rightarrow> webhookTrigger" where
  "exampleWebhook path \<equiv> the (ts_webhook (tr_spec (exampleTrigger path)))"

definition exampleBuilt :: "string \<Rightarrow> string \<Rightarrow> routeEntry" where
  "exampleBuilt path token =
     (baseRouteEntry (exampleTrigger path) (exampleWebhook path))\<lparr>re_authType := ''bearer'', re_bearerToken := token\<rparr>"

lemma example_enabled: "enabledWebhook (exampleTrigger path) = Some (exampleWebhook path)"
  by (simp add: enabledWebhook_def exampleTrigger_def triggerTypeWebhook_def)

lemma example_built:
  "buildRouteEntry (exampleWatchEnv token) (exampleTrigger path) (exampleWebhook path) = Inr (exampleBuilt path token)"
  by (simp add: buildRouteEntry_def buildAuth_def exampleTrigger_def exampleWatchEnv_def readSecretKey_def wrapErr_def
      authType_defs exampleBuilt_def)

lemma example_key: "triggerKey (exampleTrigger path) = \<lparr>nn_namespace = ''ns'', nn_name = ''t''\<rparr>"
  by (simp add: triggerKey_def exampleTrigger_def)

lemma example_paths: "entryRoutePath (exampleTrigger ''/a'') = ''/a''" "entryRoutePath (exampleTrigger ''/b'') = ''/b''"
  by (simp_all add: entryRoutePath_def exampleTrigger_def trimSpace_def isSpace_def)

lemma example_known:
  "map_of (ww_triggers (watchHistory [(exampleWatchEnv ''old'', TriggerSeen (exampleTrigger ''/a''))] newWatcher)) k =
     (if k = \<lparr>nn_namespace = ''ns'', nn_name = ''t''\<rparr> then Some (exampleTrigger ''/a'') else None)"
  by (simp add: handleTrigger_fields example_key newWatcher_def)


theorem renamed_route_survives_deletion_witness:
  "Lookup ''/a'' (ww_registry (handleDelete (exampleTrigger ''/b'') (handleTrigger (exampleWatchEnv ''k'') (exampleTrigger ''/b'')
     (handleTrigger (exampleWatchEnv ''k'') (exampleTrigger ''/a'') newWatcher)))) =
   Some (registeredEntry (exampleBuilt ''/a'' ''k''))"
proof -
  have "\<not> samePath (entryRoutePath (exampleTrigger ''/b'')) (entryRoutePath (exampleTrigger ''/a''))"
    unfolding example_paths by (simp add: samePath_def normalizePath_def trimSpace_def isSpace_def trimPrefix_def)
  from renamed_route_survives_deletion [OF example_enabled example_built [of "''k''"] _ this, of "exampleWatchEnv ''k''" newWatcher]
  show ?thesis unfolding example_key example_paths by simp
qed

end
