(* ===== verification/ClientCrl.thy ===== *)
theory ClientCrl
  imports Prelude
begin

text \<open>
  Revocation of client certificates in the webhook gateway (\<^verbatim>\<open>internal/gateway/webhook/crl.go\<close>). The
  watcher publishes the revocation list of a ConfigMap in a shared holder, a ticker reports staleness,
  and every TLS handshake reads the holder. \<^verbatim>\<open>x509.ParseRevocationList\<close> is the argument \<open>parse\<close>; serial
  numbers are optional, as the pointers in the code.
\<close>

section \<open>State and operations\<close>

record revocationList =
  rl_nextUpdate :: time
  rl_revoked :: "int option list"

record crlConfigMap =
  cm_name :: string
  cm_binaryData :: smap
  cm_data :: smap

text \<open>The holder and the values of the three metrics.\<close>

record crlState =
  cs_holder :: "revocationList option"
  cs_parseErrors :: nat
  cs_stale :: "bool option"
  cs_nextUpdate :: "time option"

definition emptyCrlState :: crlState where
  "emptyCrlState = \<lparr>cs_holder = None, cs_parseErrors = 0, cs_stale = None, cs_nextUpdate = None\<rparr>"

definition crlConfigMapKey :: string where "crlConfigMapKey = ''crl.der''"

definition isCRLStale :: "time \<Rightarrow> revocationList \<Rightarrow> bool" where
  "isCRLStale now crl \<longleftrightarrow> now > rl_nextUpdate crl"

definition updateCRLMetrics :: "time \<Rightarrow> revocationList \<Rightarrow> crlState \<Rightarrow> bool \<times> crlState" where
  "updateCRLMetrics now crl st =
     (isCRLStale now crl, st\<lparr>cs_stale := Some (isCRLStale now crl), cs_nextUpdate := Some (rl_nextUpdate crl)\<rparr>)"

definition crlContent :: "crlConfigMap \<Rightarrow> string" where
  "crlContent cm =
     (let get = (\<lambda>m. case map_of m crlConfigMapKey of Some v \<Rightarrow> v | None \<Rightarrow> [])
      in if get (cm_binaryData cm) = [] then get (cm_data cm) else get (cm_binaryData cm))"

definition handleCRLConfigMap ::
  "(string \<Rightarrow> revocationList option) \<Rightarrow> string \<Rightarrow> time \<Rightarrow> crlConfigMap \<Rightarrow> crlState \<Rightarrow> crlState" where
  "handleCRLConfigMap parse crlConfigMapName now cm st =
     (if cm_name cm \<noteq> crlConfigMapName then st
      else if crlContent cm = [] then st\<lparr>cs_parseErrors := Suc (cs_parseErrors st)\<rparr>
      else case parse (crlContent cm) of
          None \<Rightarrow> st\<lparr>cs_parseErrors := Suc (cs_parseErrors st)\<rparr>
        | Some crl \<Rightarrow> snd (updateCRLMetrics now crl (st\<lparr>cs_holder := Some crl\<rparr>)))"

text \<open>One tick of \<^verbatim>\<open>watchCRLStaleness\<close>: whether a line is logged, the new value of \<^verbatim>\<open>wasStale\<close>, the state.\<close>

definition stalenessTick :: "time \<Rightarrow> bool \<Rightarrow> crlState \<Rightarrow> (bool \<times> bool) \<times> crlState" where
  "stalenessTick now wasStale st =
     (case cs_holder st of
        None \<Rightarrow> ((False, wasStale), st)
      | Some crl \<Rightarrow>
          (case updateCRLMetrics now crl st of (stale, st') \<Rightarrow> ((stale \<and> \<not> wasStale, stale), st')))"

text \<open>A verified chain, leaf first: the serial numbers of its certificates.\<close>

type_synonym certChain = "int option list"

definition sameSerial :: "int option \<Rightarrow> int option \<Rightarrow> bool" where
  "sameSerial a b = (case (a, b) of (Some x, Some y) \<Rightarrow> x = y | _ \<Rightarrow> False)"

fun revokedLeaf :: "revocationList \<Rightarrow> certChain list \<Rightarrow> int option" where
  "revokedLeaf crl [] = None"
| "revokedLeaf crl ([] # presented) = revokedLeaf crl presented"
| "revokedLeaf crl ((leaf # rest) # presented) =
     (if list_ex (sameSerial leaf) (rl_revoked crl) then leaf else revokedLeaf crl presented)"

definition VerifyClientCertNotRevoked :: "time \<Rightarrow> crlState \<Rightarrow> certChain list \<Rightarrow> msg option" where
  "VerifyClientCertNotRevoked now st presented =
     (case cs_holder st of
        None \<Rightarrow> None
      | Some crl \<Rightarrow>
          if isCRLStale now crl then
            Some (Fmt ''client certificate rejected: mTLS CRL is stale (nextUpdate %s has passed)''
                    [Txt (rfc3339 (rl_nextUpdate crl))])
          else case revokedLeaf crl presented of
              Some n \<Rightarrow> Some (Fmt ''client certificate rejected: serial %s is revoked'' [Txt (showInt n)])
            | None \<Rightarrow> None)"

section \<open>Fail closed\<close>

lemma revokedLeaf_None:
  "revokedLeaf crl presented = None \<longleftrightarrow>
     (\<forall>n. (\<exists>rest. (Some n # rest) \<in> set presented) \<longrightarrow> Some n \<notin> set (rl_revoked crl))"
proof (induction crl presented rule: revokedLeaf.induct)
  case (3 crl leaf rest presented)
  show ?case
  proof (cases leaf)
    case None
    then have "\<not> list_ex (sameSerial leaf) (rl_revoked crl)" by (simp add: list_ex_iff sameSerial_def)
    then show ?thesis using 3 None by simp
  next
    case (Some n)
    have "list_ex (sameSerial leaf) (rl_revoked crl) \<longleftrightarrow> Some n \<in> set (rl_revoked crl)"
      by (auto simp: list_ex_iff sameSerial_def Some split: option.splits)
    then show ?thesis using 3 Some by auto
  qed
qed auto

definition usableCRL :: "(string \<Rightarrow> revocationList option) \<Rightarrow> string \<Rightarrow> crlConfigMap \<Rightarrow> revocationList option" where
  "usableCRL parse name cm = (if cm_name cm = name \<and> crlContent cm \<noteq> [] then parse (crlContent cm) else None)"

lemma handleCRLConfigMap_holder:
  "cs_holder (handleCRLConfigMap parse name now cm st) =
     (case usableCRL parse name cm of None \<Rightarrow> cs_holder st | Some crl \<Rightarrow> Some crl)"
  by (auto simp: handleCRLConfigMap_def usableCRL_def updateCRLMetrics_def split: option.split)

text \<open>The last list that could be used.\<close>

fun lastUsable :: "(string \<Rightarrow> revocationList option) \<Rightarrow> string \<Rightarrow> (time \<times> crlConfigMap) list \<Rightarrow>
  revocationList option \<Rightarrow> revocationList option" where
  "lastUsable parse name [] crl = crl"
| "lastUsable parse name ((now, cm) # cms) crl =
     lastUsable parse name cms (case usableCRL parse name cm of None \<Rightarrow> crl | Some c \<Rightarrow> Some c)"

abbreviation crlHistory :: "(string \<Rightarrow> revocationList option) \<Rightarrow> string \<Rightarrow> (time \<times> crlConfigMap) list \<Rightarrow>
  crlState \<Rightarrow> crlState" where
  "crlHistory parse name cms st \<equiv> fold (\<lambda>(now, cm). handleCRLConfigMap parse name now cm) cms st"

lemma crlHistory_holder: "cs_holder (crlHistory parse name cms st) = lastUsable parse name cms (cs_holder st)"
  by (induction cms arbitrary: st) (auto simp: handleCRLConfigMap_holder)

lemma lastUsable_Some: "crl \<noteq> None \<Longrightarrow> lastUsable parse name cms crl \<noteq> None"
  by (induction cms arbitrary: crl) (auto split: option.split)

text \<open>C24: certificate revocation fails closed. After any sequence of ConfigMap events a handshake is
  accepted exactly when no usable list was ever seen, or the last usable one has not expired and
  contains the serial number of no presented leaf certificate; an event with missing or malformed
  content never disables a list that was loaded before.\<close>

theorem revocation_fails_closed:
  "(VerifyClientCertNotRevoked now (crlHistory parse name cms emptyCrlState) presented = None \<longleftrightarrow>
     (case lastUsable parse name cms None of
        None \<Rightarrow> True
      | Some crl \<Rightarrow> now \<le> rl_nextUpdate crl \<and>
          (\<forall>n. (\<exists>rest. (Some n # rest) \<in> set presented) \<longrightarrow> Some n \<notin> set (rl_revoked crl)))) \<and>
   (cs_holder st \<noteq> None \<longrightarrow> cs_holder (crlHistory parse name cms st) \<noteq> None)"
proof
  show "VerifyClientCertNotRevoked now (crlHistory parse name cms emptyCrlState) presented = None \<longleftrightarrow>
     (case lastUsable parse name cms None of
        None \<Rightarrow> True
      | Some crl \<Rightarrow> now \<le> rl_nextUpdate crl \<and>
          (\<forall>n. (\<exists>rest. (Some n # rest) \<in> set presented) \<longrightarrow> Some n \<notin> set (rl_revoked crl)))"
    by (auto simp: VerifyClientCertNotRevoked_def crlHistory_holder emptyCrlState_def isCRLStale_def
        revokedLeaf_None [symmetric] split: option.split)
  show "cs_holder st \<noteq> None \<longrightarrow> cs_holder (crlHistory parse name cms st) \<noteq> None"
    using lastUsable_Some by (auto simp: crlHistory_holder)
qed

theorem revocation_fails_closed_witness:
  "\<exists>parse cms. VerifyClientCertNotRevoked 5 (crlHistory parse ''crl'' cms emptyCrlState) [[Some 7]] = None \<and>
     VerifyClientCertNotRevoked 5 (crlHistory parse ''crl'' cms emptyCrlState) [[Some 8]] \<noteq> None \<and>
     cs_holder (crlHistory parse ''crl'' cms emptyCrlState) \<noteq> None"
proof -
  define crl where "crl = \<lparr>rl_nextUpdate = 10, rl_revoked = [Some 8]\<rparr>"
  define parse where "parse s = (if s = ''der'' then Some crl else None)" for s :: string
  define cms where "cms = [(1 :: time, \<lparr>cm_name = ''crl'', cm_binaryData = [], cm_data = [(''crl.der'', ''der'')]\<rparr>),
    (2, \<lparr>cm_name = ''crl'', cm_binaryData = [], cm_data = [(''crl.der'', ''broken'')]\<rparr>)]"
  have last: "lastUsable parse ''crl'' cms None = Some crl"
    by (simp add: cms_def parse_def usableCRL_def crlContent_def crlConfigMapKey_def)
  have holder: "cs_holder (crlHistory parse ''crl'' cms emptyCrlState) = Some crl"
    using crlHistory_holder [of parse "''crl''" cms emptyCrlState] last by (simp add: emptyCrlState_def)
  note verdict = revocation_fails_closed [where now = 5 and parse = parse and name = "''crl''" and cms = cms
      and st = emptyCrlState, unfolded last option.case]
  have "VerifyClientCertNotRevoked 5 (crlHistory parse ''crl'' cms emptyCrlState) [[Some 7]] = None"
    using verdict [where presented = "[[Some 7]]"] by (simp add: crl_def)
  moreover have "VerifyClientCertNotRevoked 5 (crlHistory parse ''crl'' cms emptyCrlState) [[Some 8]] \<noteq> None"
    using verdict [where presented = "[[Some 8]]"] by (simp add: crl_def)
  ultimately show ?thesis using holder by blast
qed

end
