(* ===== verification/CronScheduler.thy ===== *)
theory CronScheduler
  imports TriggerTypes FlowRunStore
begin

text \<open>
  The cron scheduler (\<^verbatim>\<open>internal/controller/cron_scheduler.go\<close>): the table of cron entries, one per
  Trigger, and the job that runs at each tick, which enforces the cooldown in the Trigger's status and
  creates a FlowRun. The cron library is the list of its jobs, identified by consecutive numbers, and
  the check of a schedule, an argument. The status patches send only the fields that changed, and a
  stored time has whole seconds.
\<close>

section \<open>Registered jobs\<close>

record cronJob =
  cj_schedule :: string
  cj_namespace :: string
  cj_name :: string
  cj_flowRef :: string

record cronScheduler =
  cs_entries :: "(string \<times> nat) list"
  cs_jobs :: "(nat \<times> cronJob) list"
  cs_nextID :: nat

definition newCronScheduler :: cronScheduler where
  "newCronScheduler = \<lparr>cs_entries = [], cs_jobs = [], cs_nextID = 1\<rparr>"

definition cronKey :: "trigger \<Rightarrow> string" where
  "cronKey trigger = tr_namespace trigger @ ''/'' @ tr_name trigger"

text \<open>\<^verbatim>\<open>s.cron.Remove(id); delete(s.entries, key)\<close>.\<close>

definition removeEntry :: "string \<Rightarrow> cronScheduler \<Rightarrow> cronScheduler" where
  "removeEntry key s =
     (case map_of (cs_entries s) key of
        None \<Rightarrow> s
      | Some i \<Rightarrow> s\<lparr>cs_jobs := AList.delete i (cs_jobs s), cs_entries := AList.delete key (cs_entries s)\<rparr>)"

definition cronSchedule :: "cronTrigger \<Rightarrow> string" where
  "cronSchedule c =
     (if ct_timezone c \<noteq> [] then ''CRON_TZ='' @ ct_timezone c @ '' '' @ ct_schedule c else ct_schedule c)"

definition registerCron ::
  "(string \<Rightarrow> msg option) \<Rightarrow> trigger \<Rightarrow> cronScheduler \<Rightarrow> msg option \<times> cronScheduler" where
  "registerCron parse trigger s =
     (case ts_cron (tr_spec trigger) of
        None \<Rightarrow> (Some (Fmt ''trigger %s/%s has no cron spec'' [Txt (tr_namespace trigger), Txt (tr_name trigger)]), s)
      | Some c \<Rightarrow>
          (let s1 = removeEntry (cronKey trigger) s; schedule = cronSchedule c
           in case parse schedule of
                Some err \<Rightarrow>
                  (Some (Fmt ''invalid cron schedule %q for trigger %s/%s: %w''
                           [Txt schedule, Txt (tr_namespace trigger), Txt (tr_name trigger), err]), s1)
              | None \<Rightarrow>
                  (None,
                   s1\<lparr>cs_jobs := cs_jobs s1 @
                        [(cs_nextID s1, \<lparr>cj_schedule = schedule, cj_namespace = tr_namespace trigger,
                                          cj_name = tr_name trigger, cj_flowRef = ts_flowRef (tr_spec trigger)\<rparr>)],
                      cs_entries := AList.update (cronKey trigger) (cs_nextID s1) (cs_entries s1),
                      cs_nextID := Suc (cs_nextID s1)\<rparr>)))"

definition deregisterCron :: "string \<Rightarrow> cronScheduler \<Rightarrow> cronScheduler" where
  "deregisterCron key s = removeEntry key s"

section \<open>A tick\<close>

datatype patchPoint = PatchLimited | PatchCount | PatchReset | PatchOpen | PatchSuccess

record cronEnv =
  ce_now :: time
  ce_get :: "apiError option"
  ce_patch :: "patchPoint \<Rightarrow> apiOutcome"
  ce_create :: apiOutcome

text \<open>The stored Trigger and the FlowRuns.\<close>

record cronState =
  cr_trigger :: "trigger option"
  cr_runs :: "flowRun list"

definition wholeSeconds :: "time \<Rightarrow> time" where
  "wholeSeconds t = t div 1000000000 * 1000000000"

text \<open>\<^verbatim>\<open>Status().Patch\<close> with the changes of \<open>change\<close>; the answer is the stored object.\<close>

definition patchTrigger ::
  "cronEnv \<Rightarrow> patchPoint \<Rightarrow> (triggerStatus \<Rightarrow> triggerStatus) \<Rightarrow> cronState \<Rightarrow> (apiError + trigger) \<times> cronState" where
  "patchTrigger env pt change st =
     (case cr_trigger st of
        None \<Rightarrow> (Inl NotFound, st)
      | Some t \<Rightarrow>
          (let t' = t\<lparr>tr_status := change (tr_status t)\<rparr>
           in case ce_patch env pt of
                Accepted \<Rightarrow> (Inr t', st\<lparr>cr_trigger := Some t'\<rparr>)
              | Rejected e \<Rightarrow> (Inl e, st)
              | AnswerLost e \<Rightarrow> (Inl e, st\<lparr>cr_trigger := Some t'\<rparr>)))"

definition createCronRun :: "cronEnv \<Rightarrow> flowRun \<Rightarrow> cronState \<Rightarrow> apiError option \<times> cronState" where
  "createCronRun env run st =
     (if list_ex (sameRun run) (cr_runs st) then (Some AlreadyExists, st)
      else case ce_create env of
          Accepted \<Rightarrow> (None, st\<lparr>cr_runs := cr_runs st @ [run]\<rparr>)
        | Rejected e \<Rightarrow> (Some e, st)
        | AnswerLost e \<Rightarrow> (Some e, st\<lparr>cr_runs := cr_runs st @ [run]\<rparr>))"

definition cronRun :: "cronJob \<Rightarrow> time \<Rightarrow> flowRun" where
  "cronRun job now =
     triggeredRun (cj_name job @ ''-'' @ showInt (now div 1000000000)) (cj_namespace job) (cj_name job) triggerTypeCron
       (cj_flowRef job) [] (emptyTriggerData\<lparr>td_scheduledTime := Some now\<rparr>)"

text \<open>Steps 3 and 4: create the FlowRun, then record the success. \<open>opened\<close> says that the local object
  already carries the time of this tick, so that the patch leaves the stored time alone.\<close>

definition cronCreate :: "cronEnv \<Rightarrow> cronJob \<Rightarrow> bool \<Rightarrow> cronState \<Rightarrow> cronState" where
  "cronCreate env job opened st =
     (case createCronRun env (cronRun job (ce_now env)) st of
        (Some _, st') \<Rightarrow> st'
      | (None, st') \<Rightarrow>
          snd (patchTrigger env PatchSuccess
                 (\<lambda>s. (if opened then s else s\<lparr>tt_lastTriggeredTime := Some (wholeSeconds (ce_now env))\<rparr>)
                       \<lparr>tt_lastResult := ''Success''\<rparr>) st'))"

definition cooldownWindow :: "cooldownPolicy \<Rightarrow> duration" where
  "cooldownWindow p = (case cp_window p of Some w \<Rightarrow> w | None \<Rightarrow> 60000000000)"

definition openWindow :: "time \<Rightarrow> triggerStatus \<Rightarrow> triggerStatus" where
  "openWindow now s = s\<lparr>tt_lastTriggeredTime := Some (wholeSeconds now), tt_currentInvocationCount := 1\<rparr>"

definition cronFire :: "cronEnv \<Rightarrow> cronJob \<Rightarrow> cronState \<Rightarrow> cronState" where
  "cronFire env job st =
     (case (ce_get env, cr_trigger st) of
        (Some _, _) \<Rightarrow> st
      | (None, None) \<Rightarrow> st
      | (None, Some t) \<Rightarrow>
          (case ts_cooldown (tr_spec t) of
             None \<Rightarrow> cronCreate env job False st
           | Some p \<Rightarrow>
               if cp_maxInvocations p \<le> 0 then cronCreate env job False st
               else (let now = ce_now env;
                         proceed = (\<lambda>r. case r of (Inl _, st') \<Rightarrow> st' | (Inr _, st') \<Rightarrow> cronCreate env job True st')
                     in case tt_lastTriggeredTime (tr_status t) of
                          None \<Rightarrow> proceed (patchTrigger env PatchOpen (openWindow now) st)
                        | Some windowStart \<Rightarrow>
                            if now < windowStart + cooldownWindow p then
                              (if tt_currentInvocationCount (tr_status t) \<ge> cp_maxInvocations p then
                                 snd (patchTrigger env PatchLimited (\<lambda>s. s\<lparr>tt_lastResult := ''RateLimited''\<rparr>) st)
                               else proceed (patchTrigger env PatchCount
                                      (\<lambda>s. s\<lparr>tt_currentInvocationCount := wrap32 (tt_currentInvocationCount s + 1)\<rparr>) st))
                            else proceed (patchTrigger env PatchReset (openWindow now) st))))"

section \<open>The cooldown bounds the runs of a window\<close>

text \<open>What the cooldown reads of a Trigger.\<close>

definition cooldownView :: "trigger \<Rightarrow> cooldownPolicy option \<times> time option \<times> int" where
  "cooldownView t = (ts_cooldown (tr_spec t), tt_lastTriggeredTime (tr_status t), tt_currentInvocationCount (tr_status t))"

lemma patchTrigger_cases:
  assumes "cr_trigger st = Some t"
  obtains (refused) e where "patchTrigger env pt f st = (Inl e, st)"
    | (lost) e where "patchTrigger env pt f st = (Inl e, st\<lparr>cr_trigger := Some (t\<lparr>tr_status := f (tr_status t)\<rparr>)\<rparr>)"
    | (ok) "patchTrigger env pt f st = (Inr (t\<lparr>tr_status := f (tr_status t)\<rparr>), st\<lparr>cr_trigger := Some (t\<lparr>tr_status := f (tr_status t)\<rparr>)\<rparr>)"
  using assms by (cases "ce_patch env pt") (auto simp: patchTrigger_def Let_def)

lemma cronCreate_opened:
  assumes "cr_trigger st = Some t"
  shows "\<exists>t'. cr_trigger (cronCreate env job True st) = Some t' \<and> cooldownView t' = cooldownView t"
    and "cr_runs (cronCreate env job True st) = cr_runs st \<or>
      \<not> list_ex (sameRun (cronRun job (ce_now env))) (cr_runs st) \<and>
      cr_runs (cronCreate env job True st) = cr_runs st @ [cronRun job (ce_now env)]"
proof -
  let ?run = "cronRun job (ce_now env)"
  obtain o' st' where c: "createCronRun env ?run st = (o', st')" by fastforce
  then have st': "cr_trigger st' = Some t" and runs: "cr_runs st' = cr_runs st \<or>
      \<not> list_ex (sameRun ?run) (cr_runs st) \<and> cr_runs st' = cr_runs st @ [?run]"
    using assms by (auto simp: createCronRun_def split: if_splits apiOutcome.splits)
  define f where "f = (\<lambda>s :: triggerStatus. s\<lparr>tt_lastResult := ''Success''\<rparr>)"
  have fin: "cronCreate env job True st = (if o' = None then snd (patchTrigger env PatchSuccess f st') else st')"
    by (simp add: cronCreate_def c f_def split: option.split)
  have "cr_runs (cronCreate env job True st) = cr_runs st' \<and>
      (\<exists>t'. cr_trigger (cronCreate env job True st) = Some t' \<and> cooldownView t' = cooldownView t)"
    unfolding fin using st'
    by (cases rule: patchTrigger_cases [OF st', of env PatchSuccess f]) (auto simp: f_def cooldownView_def)
  then show "\<exists>t'. cr_trigger (cronCreate env job True st) = Some t' \<and> cooldownView t' = cooldownView t"
    and "cr_runs (cronCreate env job True st) = cr_runs st \<or> \<not> list_ex (sameRun ?run) (cr_runs st) \<and>
      cr_runs (cronCreate env job True st) = cr_runs st @ [?run]"
    using runs by auto
qed

text \<open>\<open>us\<close> are the times of the runs: never two in one second, since they would have the same name.\<close>

definition cronInv :: "cooldownPolicy \<Rightarrow> cronJob \<Rightarrow> time \<Rightarrow> time list \<Rightarrow> cronState \<Rightarrow> bool" where
  "cronInv p job now us st \<longleftrightarrow>
     cr_runs st = map (cronRun job) us \<and> distinct (map (\<lambda>u. u div 1000000000) us) \<and> (\<forall>u \<in> set us. u \<le> now) \<and>
     (\<exists>t. cr_trigger st = Some t \<and> ts_cooldown (tr_spec t) = Some p \<and>
       (case tt_lastTriggeredTime (tr_status t) of
          None \<Rightarrow> us = []
        | Some start \<Rightarrow> int (length (filter (\<lambda>u. start \<le> u) us)) \<le> tt_currentInvocationCount (tr_status t) \<and>
            tt_currentInvocationCount (tr_status t) \<le> cp_maxInvocations p))"

lemma wholeSeconds_le: "wholeSeconds t \<le> t"
  using div_mult_mod_eq [of t 1000000000] pos_mod_sign [of 1000000000 t] unfolding wholeSeconds_def by linarith

lemma same_second: "wholeSeconds now \<le> u \<Longrightarrow> u \<le> now \<Longrightarrow> u div 1000000000 = now div 1000000000"
  unfolding wholeSeconds_def
  by (metis dual_order.antisym div_mult_self_is_m zdiv_mono1 nonzero_mult_div_cancel_right zero_less_numeral
      zero_neq_numeral)

lemma runs_of_second:
  assumes "distinct (map (\<lambda>u. u div 1000000000) us)" "\<forall>u \<in> set us. u \<le> (now :: time)"
  shows "length (filter (\<lambda>u. wholeSeconds now \<le> u) us) \<le> 1"
    and "\<forall>u \<in> set us. u div 1000000000 \<noteq> now div 1000000000 \<Longrightarrow> filter (\<lambda>u. wholeSeconds now \<le> u) us = []"
proof -
  let ?f = "filter (\<lambda>u. wholeSeconds now \<le> u) us"
  have eq: "u div 1000000000 = now div 1000000000" if "u \<in> set ?f" for u
    using that assms(2) by (intro same_second) auto
  have "distinct (map (\<lambda>u. u div 1000000000) ?f)" using assms(1) by (simp add: distinct_map_filter)
  moreover have "set (map (\<lambda>u. u div 1000000000) ?f) \<subseteq> {now div 1000000000}" using eq by auto
  ultimately have "length (map (\<lambda>u. u div 1000000000) ?f) \<le> 1"
    by (metis card_mono card_1_singleton_iff distinct_card finite.emptyI finite.insertI One_nat_def)
  then show "length ?f \<le> 1" by simp
  show "\<forall>u \<in> set us. u div 1000000000 \<noteq> now div 1000000000 \<Longrightarrow> ?f = []"
    using eq by (fastforce simp: filter_empty_conv)
qed

lemma cronRun_same:
  "u div 1000000000 = now div 1000000000 \<Longrightarrow> sameRun (cronRun job now) (cronRun job u)"
  by (simp add: sameRun_def cronRun_def triggeredRun_def)

lemma cronCreate_inv:
  assumes st: "cr_trigger st = Some t" "cooldownView t = (Some p, Some start, count)"
    and us: "cr_runs st = map (cronRun job) us" "distinct (map (\<lambda>u. u div 1000000000) us)" "\<forall>u \<in> set us. u \<le> ce_now env"
    and count: "count \<le> cp_maxInvocations p" "int (length (filter (\<lambda>u. start \<le> u) us)) \<le> count"
      "\<forall>u \<in> set us. u div 1000000000 \<noteq> ce_now env div 1000000000 \<Longrightarrow>
         int (length (filter (\<lambda>u. start \<le> u) us)) + 1 \<le> count"
  shows "\<exists>us'. cronInv p job (ce_now env) us' (cronCreate env job True st)"
proof -
  let ?st = "cronCreate env job True st"
  obtain t' where t': "cr_trigger ?st = Some t'" "cooldownView t' = (Some p, Some start, count)"
    using cronCreate_opened(1) [OF st(1), of env job] st(2) by auto
  consider (same) "cr_runs ?st = cr_runs st"
    | (new) "\<not> list_ex (sameRun (cronRun job (ce_now env))) (cr_runs st)" "cr_runs ?st = cr_runs st @ [cronRun job (ce_now env)]"
    using cronCreate_opened(2) [OF st(1), of env job] by blast
  then show ?thesis
  proof cases
    case same
    then have "cronInv p job (ce_now env) us ?st"
      using us count(1,2) t' by (auto simp: cronInv_def cooldownView_def)
    then show ?thesis by blast
  next
    case new
    have fresh: "\<forall>u \<in> set us. u div 1000000000 \<noteq> ce_now env div 1000000000"
      using new(1) us(1) cronRun_same by (fastforce simp: list_ex_iff)
    then have "cronInv p job (ce_now env) (us @ [ce_now env]) ?st"
      using us count(1) count(3) [OF fresh] count(2) new(2) t' by (auto simp: cronInv_def cooldownView_def)
    then show ?thesis by blast
  qed
qed

lemma cronInv_us:
  assumes "cronInv p job now us st" "now \<le> now'"
  shows "cr_runs st = map (cronRun job) us" "distinct (map (\<lambda>u. u div 1000000000) us)" "\<forall>u \<in> set us. u \<le> now'"
    and "cronInv p job now' us st"
  using assms by (auto simp: cronInv_def)

lemma cronInv_view:
  assumes "cronInv p job now us st" "cr_trigger st = Some t" "cooldownView t' = cooldownView t"
  shows "cronInv p job now us (st\<lparr>cr_trigger := Some t'\<rparr>)"
  using assms by (auto simp: cronInv_def cooldownView_def split: option.splits)

abbreviation proceed :: "cronEnv \<Rightarrow> cronJob \<Rightarrow> (apiError + trigger) \<times> cronState \<Rightarrow> cronState" where
  "proceed env job r \<equiv> (case r of (Inl _, st') \<Rightarrow> st' | (Inr _, st') \<Rightarrow> cronCreate env job True st')"

lemma proceed_opened:
  assumes inv: "cronInv p job now us st" "now \<le> ce_now env" and t: "cr_trigger st = Some t" "ts_cooldown (tr_spec t) = Some p"
    and pos: "0 < cp_maxInvocations p"
  shows "\<exists>us'. cronInv p job (ce_now env) us' (proceed env job (patchTrigger env pt (openWindow (ce_now env)) st))"
proof -
  let ?now = "ce_now env" and ?t = "t\<lparr>tr_status := openWindow (ce_now env) (tr_status t)\<rparr>"
  note us = cronInv_us [OF inv]
  have view: "cooldownView ?t = (Some p, Some (wholeSeconds ?now), 1)" using t by (simp add: cooldownView_def openWindow_def)
  have lost: "cronInv p job ?now us (st\<lparr>cr_trigger := Some ?t\<rparr>)"
    using us view runs_of_second(1) [OF us(2,3)] pos by (auto simp: cronInv_def cooldownView_def)
  have "\<exists>us'. cronInv p job ?now us' (cronCreate env job True (st\<lparr>cr_trigger := Some ?t\<rparr>))"
    by (rule cronCreate_inv [OF _ view]) (use us runs_of_second [OF us(2,3)] pos in auto)
  then show ?thesis using us(4) lost by (cases rule: patchTrigger_cases [OF t(1), of env pt "openWindow ?now"]) auto
qed

definition countUp :: "triggerStatus \<Rightarrow> triggerStatus" where
  "countUp s = s\<lparr>tt_currentInvocationCount := wrap32 (tt_currentInvocationCount s + 1)\<rparr>"

lemma proceed_counted:
  assumes inv: "cronInv p job now us st" "now \<le> ce_now env" and t: "cr_trigger st = Some t" "ts_cooldown (tr_spec t) = Some p"
    and start: "tt_lastTriggeredTime (tr_status t) = Some start"
    and below: "tt_currentInvocationCount (tr_status t) < cp_maxInvocations p" "cp_maxInvocations p < 2 ^ 31"
  shows "\<exists>us'. cronInv p job (ce_now env) us' (proceed env job (patchTrigger env pt countUp st))"
proof -
  let ?count = "tt_currentInvocationCount (tr_status t)" and ?t = "t\<lparr>tr_status := countUp (tr_status t)\<rparr>"
  note us = cronInv_us [OF inv]
  have bound: "int (length (filter (\<lambda>u. start \<le> u) us)) \<le> ?count" using inv(1) start t by (auto simp: cronInv_def)
  then have "wrap32 (?count + 1) = ?count + 1" using below by (intro wrap32_id) linarith+
  then have view: "cooldownView ?t = (Some p, Some start, ?count + 1)" using t start by (simp add: cooldownView_def countUp_def)
  have lost: "cronInv p job (ce_now env) us (st\<lparr>cr_trigger := Some ?t\<rparr>)"
    using us view bound below by (auto simp: cronInv_def cooldownView_def)
  have "\<exists>us'. cronInv p job (ce_now env) us' (cronCreate env job True (st\<lparr>cr_trigger := Some ?t\<rparr>))"
    by (rule cronCreate_inv [OF _ view]) (use us bound below in auto)
  then show ?thesis using us(4) lost by (cases rule: patchTrigger_cases [OF t(1), of env pt countUp]) auto
qed

lemma cronFire_inv:
  assumes inv: "cronInv p job now us st" "now \<le> ce_now env" and pos: "0 < cp_maxInvocations p" "cp_maxInvocations p < 2 ^ 31"
  shows "\<exists>us'. cronInv p job (ce_now env) us' (cronFire env job st)"
proof (cases "ce_get env")
  case (Some e)
  then show ?thesis using cronInv_us(4) [OF inv] by (auto simp: cronFire_def)
next
  case get: None
  obtain t where t: "cr_trigger st = Some t" "ts_cooldown (tr_spec t) = Some p" using inv by (auto simp: cronInv_def)
  have "\<not> cp_maxInvocations p \<le> 0" using pos(1) by simp
  note d = cronFire_def Let_def get t this countUp_def [symmetric]
  show ?thesis
  proof (cases "tt_lastTriggeredTime (tr_status t)")
    case None
    then show ?thesis using proceed_opened [OF inv t pos(1)] by (simp add: d)
  next
    case (Some start)
    let ?count = "tt_currentInvocationCount (tr_status t)" and ?f = "\<lambda>s :: triggerStatus. s\<lparr>tt_lastResult := ''RateLimited''\<rparr>"
    have "cooldownView (t\<lparr>tr_status := ?f (tr_status t)\<rparr>) = cooldownView t" by (simp add: cooldownView_def)
    then have limited: "\<exists>us'. cronInv p job (ce_now env) us' (snd (patchTrigger env PatchLimited ?f st))"
      using cronInv_us(4) [OF inv] cronInv_view [OF cronInv_us(4) [OF inv] t(1)]
      by (cases rule: patchTrigger_cases [OF t(1), of env PatchLimited ?f]) auto
    consider "ce_now env < start + cooldownWindow p" "?count \<ge> cp_maxInvocations p"
      | "ce_now env < start + cooldownWindow p" "?count < cp_maxInvocations p"
      | "\<not> ce_now env < start + cooldownWindow p" by linarith
    then show ?thesis
      using limited proceed_counted [OF inv t Some _ pos(2), of PatchCount] proceed_opened [OF inv t pos(1), of PatchReset]
      by cases (simp_all add: d Some)
  qed
qed

text \<open>Runs scheduled at or after a time.\<close>

definition scheduledFrom :: "time \<Rightarrow> flowRun \<Rightarrow> bool" where
  "scheduledFrom start run = (case frs_triggerData (fr_spec run) of
     None \<Rightarrow> False | Some td \<Rightarrow> (case td_scheduledTime td of None \<Rightarrow> False | Some u \<Rightarrow> start \<le> u))"

lemma scheduledFrom_cronRun [simp]: "scheduledFrom start (cronRun job u) = (start \<le> u)"
  by (simp add: scheduledFrom_def cronRun_def triggeredRun_def)

lemma cronFires_inv:
  assumes "cronInv p job now us st" "sorted (now # map ce_now envs)" "0 < cp_maxInvocations p" "cp_maxInvocations p < 2 ^ 31"
  shows "\<exists>now' us'. cronInv p job now' us' (fold (\<lambda>env. cronFire env job) envs st)"
  using assms(1,2)
proof (induction envs arbitrary: now us st)
  case (Cons env envs)
  obtain us' where "cronInv p job (ce_now env) us' (cronFire env job st)"
    using cronFire_inv [OF Cons.prems(1) _ assms(3,4), of env] Cons.prems(2) by auto
  then show ?case using Cons.IH [of "ce_now env" us' "cronFire env job st"] Cons.prems(2) by simp
qed auto


section \<open>One job per Trigger\<close>

definition jobKey :: "cronJob \<Rightarrow> string" where
  "jobKey job = cj_namespace job @ ''/'' @ cj_name job"

definition triggerJob :: "trigger \<Rightarrow> cronTrigger \<Rightarrow> cronJob" where
  "triggerJob t c = \<lparr>cj_schedule = cronSchedule c, cj_namespace = tr_namespace t, cj_name = tr_name t,
     cj_flowRef = ts_flowRef (tr_spec t)\<rparr>"

text \<open>The contract: a partial map from keys to jobs.\<close>

datatype cronOp = CronRegister trigger | CronDeregister string

fun cronOpSpec :: "(string \<Rightarrow> msg option) \<Rightarrow> cronOp \<Rightarrow> (string \<rightharpoonup> cronJob) \<Rightarrow> (string \<rightharpoonup> cronJob)" where
  "cronOpSpec parse (CronRegister t) m =
     (case ts_cron (tr_spec t) of
        None \<Rightarrow> m
      | Some c \<Rightarrow> m(cronKey t := (if parse (cronSchedule c) = None then Some (triggerJob t c) else None)))"
| "cronOpSpec parse (CronDeregister key) m = m(key := None)"

fun cronOpRun :: "(string \<Rightarrow> msg option) \<Rightarrow> cronOp \<Rightarrow> cronScheduler \<Rightarrow> cronScheduler" where
  "cronOpRun parse (CronRegister t) s = snd (registerCron parse t s)"
| "cronOpRun parse (CronDeregister key) s = deregisterCron key s"

text \<open>Every entry points to the job of its key, and every job has its entry.\<close>

definition tableOk :: "(string \<rightharpoonup> nat) \<Rightarrow> (nat \<rightharpoonup> cronJob) \<Rightarrow> bool" where
  "tableOk E J \<longleftrightarrow> (\<forall>i job. J i = Some job \<longrightarrow> E (jobKey job) = Some i) \<and>
     (\<forall>key i. E key = Some i \<longrightarrow> (\<exists>job. J i = Some job \<and> jobKey job = key))"

lemma tableOkD:
  assumes "tableOk E J"
  shows "J i = Some job \<Longrightarrow> E (jobKey job) = Some i" "E key = Some i \<Longrightarrow> \<exists>job. J i = Some job \<and> jobKey job = key"
  using assms unfolding tableOk_def by blast+

lemma tableOk_remove:
  assumes "tableOk E J" "E key = Some i"
  shows "tableOk (E(key := None)) (J(i := None))"
    and "(\<lambda>k. Option.bind ((E(key := None)) k) (J(i := None))) = (\<lambda>k. Option.bind (E k) J)(key := None)"
proof -
  have other: "j \<noteq> i" if "E k = Some j" "k \<noteq> key" for k j
    using tableOkD(2) [OF assms(1) that(1)] tableOkD(2) [OF assms] that(2) by auto
  have job: "jobKey job \<noteq> key" if "J j = Some job" "j \<noteq> i" for j job
    using tableOkD(1) [OF assms(1) that(1)] that(2) assms(2) by auto
  show "tableOk (E(key := None)) (J(i := None))"
    unfolding tableOk_def
  proof (intro conjI allI impI)
    fix j job' assume "(J(i := None)) j = Some job'"
    then have "J j = Some job'" "j \<noteq> i" by (auto split: if_splits)
    then show "(E(key := None)) (jobKey job') = Some j" using tableOkD(1) [OF assms(1)] job by simp
  next
    fix k j assume "(E(key := None)) k = Some j"
    then have "E k = Some j" "k \<noteq> key" by (auto split: if_splits)
    then show "\<exists>job. (J(i := None)) j = Some job \<and> jobKey job = k"
      using tableOkD(2) [OF assms(1), of k j] other by auto
  qed
  show "(\<lambda>k. Option.bind ((E(key := None)) k) (J(i := None))) = (\<lambda>k. Option.bind (E k) J)(key := None)"
    using other by (auto simp: fun_eq_iff split: bind_splits)
qed

lemma tableOk_add:
  assumes "tableOk E J" "E (jobKey job) = None" "J i = None"
  shows "tableOk (E(jobKey job \<mapsto> i)) (J(i \<mapsto> job))"
    and "(\<lambda>k. Option.bind ((E(jobKey job \<mapsto> i)) k) (J(i \<mapsto> job))) = (\<lambda>k. Option.bind (E k) J)(jobKey job \<mapsto> job)"
proof -
  have old: "j \<noteq> i" if "E k = Some j" for k j using tableOkD(2) [OF assms(1) that] assms(3) by auto
  have key: "jobKey j' \<noteq> jobKey job" if "J j = Some j'" for j j'
    using tableOkD(1) [OF assms(1) that] assms(2) by auto
  show "tableOk (E(jobKey job \<mapsto> i)) (J(i \<mapsto> job))"
    unfolding tableOk_def
  proof (intro conjI allI impI)
    fix j job' assume "(J(i \<mapsto> job)) j = Some job'"
    then show "(E(jobKey job \<mapsto> i)) (jobKey job') = Some j"
      using tableOkD(1) [OF assms(1), of j job'] key [of j job'] by (auto split: if_splits)
  next
    fix k j assume "(E(jobKey job \<mapsto> i)) k = Some j"
    then show "\<exists>job'. (J(i \<mapsto> job)) j = Some job' \<and> jobKey job' = k"
      using tableOkD(2) [OF assms(1), of k j] old [of k j] by (auto split: if_splits)
  qed
  show "(\<lambda>k. Option.bind ((E(jobKey job \<mapsto> i)) k) (J(i \<mapsto> job))) = (\<lambda>k. Option.bind (E k) J)(jobKey job \<mapsto> job)"
    using old by (auto simp: fun_eq_iff split: bind_splits)
qed

definition cronRel :: "(string \<rightharpoonup> cronJob) \<Rightarrow> cronScheduler \<Rightarrow> bool" where
  "cronRel m s \<longleftrightarrow> distinct (map fst (cs_jobs s)) \<and> (\<forall>i \<in> set (map fst (cs_jobs s)). i < cs_nextID s) \<and>
     tableOk (map_of (cs_entries s)) (map_of (cs_jobs s)) \<and>
     m = (\<lambda>key. Option.bind (map_of (cs_entries s) key) (map_of (cs_jobs s)))"

lemma removeEntry_rel:
  assumes "cronRel m s"
  shows "cronRel (m(key := None)) (removeEntry key s)" "map_of (cs_entries (removeEntry key s)) key = None"
proof -
  show "map_of (cs_entries (removeEntry key s)) key = None"
    by (simp add: removeEntry_def delete_conv' split: option.split)
  show "cronRel (m(key := None)) (removeEntry key s)"
  proof (cases "map_of (cs_entries s) key")
    case None
    then have "m(key := None) = m" using assms by (intro fun_upd_idem) (simp add: cronRel_def)
    then show ?thesis using assms None by (simp add: removeEntry_def)
  next
    case (Some i)
    have "tableOk (map_of (cs_entries s)) (map_of (cs_jobs s))" using assms by (simp add: cronRel_def)
    note removed = tableOk_remove [OF this Some]
    have "set (map fst (AList.delete i (cs_jobs s))) \<subseteq> set (map fst (cs_jobs s))" unfolding delete_keys by auto
    moreover have "\<forall>i \<in> set (map fst (cs_jobs s)). i < cs_nextID s" using assms unfolding cronRel_def by blast
    ultimately have "\<forall>i \<in> set (map fst (AList.delete i (cs_jobs s))). i < cs_nextID s" by blast
    then show ?thesis
      using assms removed
      by (simp add: cronRel_def removeEntry_def Some delete_conv' distinct_delete)
  qed
qed

lemma addJob_rel:
  assumes "cronRel m s" "map_of (cs_entries s) (jobKey job) = None"
  shows "cronRel (m(jobKey job \<mapsto> job))
    (s\<lparr>cs_jobs := cs_jobs s @ [(cs_nextID s, job)], cs_entries := AList.update (jobKey job) (cs_nextID s) (cs_entries s),
       cs_nextID := Suc (cs_nextID s)\<rparr>)"
proof -
  have fresh: "cs_nextID s \<notin> set (map fst (cs_jobs s))" using assms(1) unfolding cronRel_def by (meson less_irrefl)
  then have none: "map_of (cs_jobs s) (cs_nextID s) = None" by (simp add: map_of_eq_None_iff)
  have new: "map_of (cs_jobs s @ [(cs_nextID s, job)]) = (map_of (cs_jobs s))(cs_nextID s \<mapsto> job)"
  proof
    show "map_of (cs_jobs s @ [(cs_nextID s, job)]) i = ((map_of (cs_jobs s))(cs_nextID s \<mapsto> job)) i" for i
      using none by (cases "map_of (cs_jobs s) i") (auto simp: map_add_def)
  qed
  have "tableOk (map_of (cs_entries s)) (map_of (cs_jobs s))" using assms(1) by (simp add: cronRel_def)
  note added = tableOk_add [OF this assms(2) none]
  have "distinct (map fst (cs_jobs s @ [(cs_nextID s, job)]))" using assms(1) fresh by (simp add: cronRel_def)
  moreover have "\<forall>i \<in> set (map fst (cs_jobs s @ [(cs_nextID s, job)])). i < Suc (cs_nextID s)"
    using assms(1) by (auto simp: cronRel_def less_Suc_eq)
  moreover have "m = (\<lambda>key. Option.bind (map_of (cs_entries s) key) (map_of (cs_jobs s)))"
    using assms(1) by (simp add: cronRel_def)
  ultimately show ?thesis
    using added by (simp add: cronRel_def new update_conv' del: map_of_append)
qed

lemma cronOp_rel:
  assumes "cronRel m s"
  shows "cronRel (cronOpSpec parse op m) (cronOpRun parse op s)"
proof (cases op)
  case (CronDeregister key)
  then show ?thesis using removeEntry_rel(1) [OF assms] by (simp add: deregisterCron_def)
next
  case (CronRegister t)
  show ?thesis
  proof (cases "ts_cron (tr_spec t)")
    case None
    then show ?thesis using assms CronRegister by (simp add: registerCron_def)
  next
    case (Some c)
    have key: "cronKey t = jobKey (triggerJob t c)" by (simp add: cronKey_def jobKey_def triggerJob_def)
    note removed = removeEntry_rel [OF assms, of "cronKey t"]
    show ?thesis
    proof (cases "parse (cronSchedule c)")
      case None
      then show ?thesis
        using CronRegister Some addJob_rel [OF removed(1), of "triggerJob t c"] removed(2)
        by (simp add: registerCron_def Let_def key) (simp add: triggerJob_def)
    next
      case err: (Some e)
      then show ?thesis using CronRegister Some removed(1) by (simp add: registerCron_def Let_def)
    qed
  qed
qed

text \<open>C34: the scheduler refines a map from Triggers to jobs: after any sequence of registrations and
  removals, the jobs of the cron library are exactly the last successful registration of each key that
  was not removed or replaced by an invalid schedule since, with one job per key.\<close>

theorem cron_jobs_refine_map:
  "set (map snd (cs_jobs (fold (cronOpRun parse) ops newCronScheduler))) = ran (fold (cronOpSpec parse) ops Map.empty) \<and>
   distinct (map (jobKey \<circ> snd) (cs_jobs (fold (cronOpRun parse) ops newCronScheduler)))"
proof -
  let ?s = "fold (cronOpRun parse) ops newCronScheduler" and ?m = "fold (cronOpSpec parse) ops Map.empty"
  have steps: "cronRel m s \<Longrightarrow> cronRel (fold (cronOpSpec parse) ops m) (fold (cronOpRun parse) ops s)" for m s
    by (induction ops arbitrary: m s) (simp_all add: cronOp_rel)
  have rel: "cronRel ?m ?s"
    by (rule steps) (simp add: cronRel_def newCronScheduler_def tableOk_def)
  let ?E = "map_of (cs_entries ?s)" and ?J = "map_of (cs_jobs ?s)"
  have ok: "tableOk ?E ?J" and m: "?m = (\<lambda>key. Option.bind (?E key) ?J)" and dist: "distinct (map fst (cs_jobs ?s))"
    using rel by (simp_all add: cronRel_def)
  have jobs: "set (map snd (cs_jobs ?s)) = ran ?J" using dist by (auto simp: ran_distinct)
  have "ran ?J = ran ?m"
  proof (intro set_eqI iffI)
    fix job assume "job \<in> ran ?J"
    then obtain i where "?J i = Some job" by (auto simp: ran_def)
    then have "?m (jobKey job) = Some job" using tableOkD(1) [OF ok] by (simp add: m)
    then show "job \<in> ran ?m" by (rule ranI)
  next
    fix job assume "job \<in> ran ?m"
    then obtain key where "?m key = Some job" by (auto simp: ran_def)
    then obtain i where "?J i = Some job" unfolding m by (auto simp: bind_eq_Some_conv)
    then show "job \<in> ran ?J" by (rule ranI)
  qed
  moreover have "distinct (map (jobKey \<circ> snd) (cs_jobs ?s))"
  proof -
    have "inj_on (jobKey \<circ> snd) (set (cs_jobs ?s))"
    proof (rule inj_onI)
      fix x y assume a: "x \<in> set (cs_jobs ?s)" "y \<in> set (cs_jobs ?s)" "(jobKey \<circ> snd) x = (jobKey \<circ> snd) y"
      then have "?J (fst x) = Some (snd x)" "?J (fst y) = Some (snd y)" using dist by simp_all
      then show "x = y" using tableOkD(1) [OF ok] a(3) by (metis comp_apply option.inject prod_eqI)
    qed
    then show ?thesis using dist by (simp add: distinct_map)
  qed
  ultimately show ?thesis using jobs by blast
qed

section \<open>Example\<close>

definition exampleCronTrigger :: trigger where
  "exampleCronTrigger =
     \<lparr>tr_name = ''t'', tr_namespace = ''ns'', tr_generation = 1, tr_deletionTimestamp = None, tr_finalizers = [],
      tr_spec = \<lparr>ts_type = ''cron'', ts_enabled = True, ts_webhook = None,
        ts_cron = Some \<lparr>ct_schedule = ''* * * * *'', ct_timezone = []\<rparr>, ts_kafka = None, ts_amqp = None, ts_nats = None,
        ts_plugin = None, ts_resource = None, ts_flowRef = ''flow'', ts_event = [],
        ts_cooldown = Some \<lparr>cp_maxInvocations = 1, cp_window = Some 600000000000\<rparr>, ts_flowRunGC = None\<rparr>,
      tr_status = \<lparr>tt_conditions = [], tt_lastTriggeredTime = None, tt_lastResult = [], tt_lastError = [],
        tt_currentInvocationCount = 0\<rparr>\<rparr>"

definition exampleTick :: "time \<Rightarrow> cronEnv" where
  "exampleTick now = \<lparr>ce_now = now, ce_get = None, ce_patch = (\<lambda>p. Accepted), ce_create = Accepted\<rparr>"

abbreviation exampleCronJob :: cronJob where
  "exampleCronJob \<equiv> triggerJob exampleCronTrigger \<lparr>ct_schedule = ''* * * * *'', ct_timezone = []\<rparr>"

abbreviation exampleCronEnd :: cronState where
  "exampleCronEnd \<equiv> fold (\<lambda>env. cronFire env exampleCronJob) [exampleTick 60000000000, exampleTick 120000000000]
     \<lparr>cr_trigger = Some exampleCronTrigger, cr_runs = []\<rparr>"


end
