(* ===== verification/Admission.thy ===== *)
theory Admission
  imports Interpolation TriggerTypes
begin

text \<open>
  The validating admission webhooks (\<^verbatim>\<open>internal/webhook/flowrun_webhook.go\<close>, \<^verbatim>\<open>trigger_webhook.go\<close>). A decoder of
  \<^verbatim>\<open>controller-runtime\<close> is a function of the raw object, absent when the field was never set; calling a method of a nil
  decoder panics. \<^verbatim>\<open>json.Unmarshal\<close> is the codec's.
\<close>

datatype admissionResponse =
    Allowed "msg list"
  | Denied msg
  | Errored int msg
  | AdmissionPanic

section \<open>FlowRuns\<close>

record flowRunValidator =
  fv_decoder :: "(string \<Rightarrow> msg option) option"

definition extractFlowRefNamespace :: "(string \<times> json) list \<Rightarrow> string" where
  "extractFlowRefNamespace raw =
     (case map_of raw ''spec'' of
        Some (JObj spec) \<Rightarrow>
          (case map_of spec ''flowRef'' of
             Some (JObj flowRef) \<Rightarrow> (case map_of flowRef ''namespace'' of Some (JStr ns) \<Rightarrow> ns | _ \<Rightarrow> [])
           | _ \<Rightarrow> [])
      | _ \<Rightarrow> [])"

definition crossNamespaceMsg :: msg where
  "crossNamespaceMsg =
     Txt (''cross-namespace FlowRef is not supported; FlowRef.Namespace must be empty '' @
          ''(cross-namespace flows deferred to v1beta1 with FlowGrant CRD)'')"

text \<open>\<^verbatim>\<open>json.Unmarshal\<close> into a map accepts an object, and \<^verbatim>\<open>null\<close>, which leaves the map empty.\<close>

definition unmarshalMap :: "(string \<Rightarrow> msg + json) \<Rightarrow> string \<Rightarrow> msg + (string \<times> json) list" where
  "unmarshalMap unmarshal raw =
     (case unmarshal raw of
        Inl e \<Rightarrow> Inl e
      | Inr (JObj members) \<Rightarrow> Inr members
      | Inr JNull \<Rightarrow> Inr []
      | Inr _ \<Rightarrow> Inl (Txt ''json: cannot unmarshal into Go value of type map[string]interface {}''))"

definition handleFlowRun :: "(string \<Rightarrow> msg + json) \<Rightarrow> flowRunValidator \<Rightarrow> string \<Rightarrow> admissionResponse" where
  "handleFlowRun unmarshal v raw =
     (case fv_decoder v of
        None \<Rightarrow> AdmissionPanic
      | Some decodeRaw \<Rightarrow>
          (case decodeRaw raw of
             Some err \<Rightarrow> Errored 400 err
           | None \<Rightarrow>
               (case unmarshalMap unmarshal raw of
                  Inl err \<Rightarrow> Errored 400 err
                | Inr members \<Rightarrow>
                    if extractFlowRefNamespace members \<noteq> [] then Denied crossNamespaceMsg else Allowed [])))"

definition InjectDecoder :: "(string \<Rightarrow> msg option) \<Rightarrow> flowRunValidator \<Rightarrow> flowRunValidator" where
  "InjectDecoder d v = v\<lparr>fv_decoder := Some d\<rparr>"

text \<open>The handler that \<^verbatim>\<open>SetupFlowRunWebhook\<close> registers.\<close>

definition SetupFlowRunWebhook :: flowRunValidator where
  "SetupFlowRunWebhook = \<lparr>fv_decoder = None\<rparr>"

section \<open>Triggers\<close>

record triggerAuthAdmission =
  ta_decoder :: "string \<Rightarrow> msg + trigger"

definition openWebhookMsg :: "trigger \<Rightarrow> msg" where
  "openWebhookMsg t =
     Fmt (''Trigger %s/%s has type webhook but no spec.webhook.auth configured - '' @
          ''requests will be accepted from any source. Configure spec.webhook.auth for production use.'')
       [Txt (tr_namespace t), Txt (tr_name t)]"

definition handleTriggerAdmission :: "triggerAuthAdmission \<Rightarrow> string \<Rightarrow> admissionResponse" where
  "handleTriggerAdmission h raw =
     (case ta_decoder h raw of
        Inl err \<Rightarrow> Errored 400 err
      | Inr t \<Rightarrow>
          if ts_type (tr_spec t) = ''webhook'' \<and>
             (case ts_webhook (tr_spec t) of None \<Rightarrow> True | Some w \<Rightarrow> wt_auth w = None)
          then Allowed [openWebhookMsg t] else Allowed [])"

definition SetupTriggerWebhook :: "(string \<Rightarrow> msg + trigger) \<Rightarrow> triggerAuthAdmission" where
  "SetupTriggerWebhook decoder = \<lparr>ta_decoder = decoder\<rparr>"

section \<open>Properties\<close>

text \<open>With a decoder a FlowRun is denied exactly when its \<^verbatim>\<open>spec.flowRef.namespace\<close> is a non-empty string; the
  handler as it is registered answers no request at all.\<close>

definition namesNamespace :: "(string \<times> json) list \<Rightarrow> string \<Rightarrow> bool" where
  "namesNamespace raw ns \<longleftrightarrow>
     (\<exists>spec flowRef. map_of raw ''spec'' = Some (JObj spec) \<and> map_of spec ''flowRef'' = Some (JObj flowRef) \<and>
        map_of flowRef ''namespace'' = Some (JStr ns))"

lemma extractFlowRefNamespace_iff:
  "extractFlowRefNamespace raw \<noteq> [] \<longleftrightarrow> (\<exists>ns. namesNamespace raw ns \<and> ns \<noteq> [])"
  by (auto simp: extractFlowRefNamespace_def namesNamespace_def split: option.splits json.splits)

theorem registered_flowRun_webhook_panics:
  "handleFlowRun unmarshal SetupFlowRunWebhook raw = AdmissionPanic \<and>
   (decodeRaw raw = None \<longrightarrow>
    (handleFlowRun unmarshal (InjectDecoder decodeRaw SetupFlowRunWebhook) raw = Denied crossNamespaceMsg \<longleftrightarrow>
      (\<exists>members. unmarshalMap unmarshal raw = Inr members \<and> (\<exists>ns. namesNamespace members ns \<and> ns \<noteq> []))))"
proof -
  have "handleFlowRun unmarshal SetupFlowRunWebhook raw = AdmissionPanic"
    by (simp add: handleFlowRun_def SetupFlowRunWebhook_def)
  moreover have "handleFlowRun unmarshal (InjectDecoder decodeRaw SetupFlowRunWebhook) raw = Denied crossNamespaceMsg \<longleftrightarrow>
      (\<exists>members. unmarshalMap unmarshal raw = Inr members \<and> extractFlowRefNamespace members \<noteq> [])"
    if "decodeRaw raw = None"
    using that by (auto simp: handleFlowRun_def InjectDecoder_def split: sum.split)
  ultimately show ?thesis by (simp add: extractFlowRefNamespace_iff)
qed

theorem registered_flowRun_webhook_panics_witness:
  "\<exists>unmarshal raw.
     handleFlowRun unmarshal (InjectDecoder (\<lambda>_. None) SetupFlowRunWebhook) raw = Denied crossNamespaceMsg \<and>
     handleFlowRun unmarshal SetupFlowRunWebhook raw = AdmissionPanic"
proof -
  let ?m = "[(''spec'', JObj [(''flowRef'', JObj [(''namespace'', JStr ''other'')])])]"
  let ?u = "\<lambda>_ :: string. Inr (JObj ?m)"
  have "unmarshalMap ?u [] = Inr ?m" by (simp add: unmarshalMap_def)
  moreover have "namesNamespace ?m ''other''" by (simp add: namesNamespace_def)
  ultimately have "\<exists>members. unmarshalMap ?u [] = Inr members \<and> (\<exists>ns. namesNamespace members ns \<and> ns \<noteq> [])" by blast
  with registered_flowRun_webhook_panics [of ?u "[]" "\<lambda>_. None"]
  have "handleFlowRun ?u (InjectDecoder (\<lambda>_. None) SetupFlowRunWebhook) [] = Denied crossNamespaceMsg"
    and "handleFlowRun ?u SetupFlowRunWebhook [] = AdmissionPanic" by simp_all
  then show ?thesis by blast
qed

text \<open>A webhook Trigger is admitted whatever its authentication; the warning names the Trigger exactly when its endpoint
  is open.\<close>

lemma handleTriggerAdmission_admits:
  assumes "ta_decoder h raw = Inr t"
  shows "\<exists>ws. handleTriggerAdmission h raw = Allowed ws \<and> set ws \<subseteq> {openWebhookMsg t} \<and>
    (ws \<noteq> [] \<longleftrightarrow> ts_type (tr_spec t) = ''webhook'' \<and> (\<forall>w. ts_webhook (tr_spec t) = Some w \<longrightarrow> wt_auth w = None))"
  using assms by (auto simp: handleTriggerAdmission_def split: option.splits if_splits)

end
