(* ===== verification/Workloads.thy ===== *)
theory Workloads
  imports FlowRunStore IntegrationTypes
begin

text \<open>
  The Kubernetes objects that the operator creates, the names it gives them
  (\<^verbatim>\<open>internal/controller/labels.go\<close>, the constants of \<^verbatim>\<open>gateway_deployment.go\<close>) and the requests it makes for them. An
  object has the fields that the operator sets; the owner references are the names of the owning Integrations.

  \<^verbatim>\<open>controllerutil.CreateOrUpdate\<close> follows its documentation: it reads the object, lets the callback change the live object
  or, where there is none, the given one, and creates it, or updates it when it changed. An environment says for every kind
  and name which read fails and how a write is answered.
\<close>

section \<open>Names\<close>

definition labelApp :: string where "labelApp = ''app''"
definition labelComponent :: string where "labelComponent = ''kubezap.io/component''"
definition labelNamespace :: string where "labelNamespace = ''kubezap.io/namespace''"
definition conditionTypeReady :: string where "conditionTypeReady = ''Ready''"
definition healthzPath :: string where "healthzPath = ''/healthz''"
definition apiGroupAutomation :: string where "apiGroupAutomation = ''automation.kubezap.io''"
definition apiGroupRBAC :: string where "apiGroupRBAC = ''rbac.authorization.k8s.io''"

section \<open>Objects\<close>

record policyRule =
  pr_apiGroups :: "string list"
  pr_resources :: "string list"
  pr_verbs :: "string list"

record role =
  ro_rules :: "policyRule list"
  ro_owners :: "string list"

record roleRef =
  rr_apiGroup :: string
  rr_kind :: string
  rr_name :: string

record subject =
  sj_kind :: string
  sj_name :: string
  sj_namespace :: string

record roleBinding =
  rb_roleRef :: roleRef
  rb_subjects :: "subject list"
  rb_owners :: "string list"

record serviceAccount =
  acc_labels :: smap
  acc_owners :: "string list"

record servicePort =
  sp_name :: string
  sp_protocol :: string
  sp_port :: int
  sp_targetPort :: int

record service =
  svc_labels :: smap
  svc_selector :: smap
  svc_ports :: "servicePort list"
  svc_type :: string
  svc_owners :: "string list"

record containerPort =
  po_name :: string
  po_containerPort :: int
  po_protocol :: string

record volumeMount =
  vm_name :: string
  vm_mountPath :: string
  vm_readOnly :: bool

record volume =
  vo_name :: string
  vo_secretName :: string
  vo_defaultMode :: "int option"

record securityContext =
  sx_runAsNonRoot :: bool
  sx_readOnlyRootFilesystem :: bool
  sx_allowPrivilegeEscalation :: bool
  sx_dropCapabilities :: "string list"
  sx_seccompRuntimeDefault :: bool
  sx_runAsUser :: "int option"

record probe =
  pb_path :: string
  pb_port :: int
  pb_scheme :: string
  pb_initialDelaySeconds :: int
  pb_periodSeconds :: int
  pb_failureThreshold :: int

record container =
  co_name :: string
  co_image :: string
  co_imagePullPolicy :: string
  co_args :: "string list"
  co_env :: "envVar list"
  co_ports :: "containerPort list"
  co_volumeMounts :: "volumeMount list"
  co_securityContext :: securityContext
  co_requests :: smap
  co_limits :: smap
  co_livenessProbe :: "probe option"
  co_readinessProbe :: "probe option"

record deploymentSpec =
  ds_replicas :: "int option"
  ds_selector :: smap
  ds_podLabels :: smap
  ds_serviceAccountName :: string
  ds_automountServiceAccountToken :: "bool option"
  ds_terminationGracePeriodSeconds :: "int option"
  ds_podRunAsNonRoot :: bool
  ds_podSeccompRuntimeDefault :: bool
  ds_volumes :: "volume list"
  ds_container :: container

record deployment =
  dp_labels :: smap
  dp_spec :: deploymentSpec
  dp_owners :: "string list"
  dp_availableReplicas :: int

record horizontalPodAutoscaler =
  hp_labels :: smap
  hp_scaleTarget :: string
  hp_minReplicas :: int
  hp_maxReplicas :: int
  hp_targetCPUUtilization :: int

record podDisruptionBudget =
  pd_labels :: smap
  pd_minAvailable :: string
  pd_selector :: smap

record secretObject =
  se_type :: string
  se_data :: smap
  se_owners :: "string list"

text \<open>Peers of a network policy: pods of a namespace by their labels, or a block of addresses with exceptions. A rule
  without peers or without ports does not restrict them.\<close>

datatype networkPolicyPeer = PodPeer smap smap | BlockPeer string "string list"

record networkPolicyRule =
  nr_peers :: "networkPolicyPeer list"
  nr_ports :: "(string \<times> int) list"

record networkPolicy =
  np_podSelector :: smap
  np_ingress :: "networkPolicyRule list"
  np_egress :: "networkPolicyRule list"
  np_policyTypes :: "string list"

record scaledObject =
  so_scaleTarget :: string
  so_minReplicaCount :: int
  so_maxReplicaCount :: int
  so_triggers :: "(string \<times> smap) list"
  so_owners :: "string list"

text \<open>The objects of one namespace by name.\<close>

record nsObjects =
  ns_accounts :: "(string \<times> serviceAccount) list"
  ns_roles :: "(string \<times> role) list"
  ns_bindings :: "(string \<times> roleBinding) list"
  ns_services :: "(string \<times> service) list"
  ns_deployments :: "(string \<times> deployment) list"
  ns_hpas :: "(string \<times> horizontalPodAutoscaler) list"
  ns_pdbs :: "(string \<times> podDisruptionBudget) list"
  ns_secrets :: "(string \<times> secretObject) list"
  ns_policies :: "(string \<times> networkPolicy) list"
  ns_scaledObjects :: "(string \<times> scaledObject) list"

section \<open>Requests\<close>

record kubeEnv =
  kv_get :: "string \<Rightarrow> string \<Rightarrow> apiError option"
  kv_write :: "string \<Rightarrow> string \<Rightarrow> apiOutcome"

type_synonym 'o objects = "(string \<times> 'o) list"

definition writeObject :: "kubeEnv \<Rightarrow> string \<Rightarrow> string \<Rightarrow> 'o \<Rightarrow> 'o objects \<Rightarrow> apiError option \<times> 'o objects" where
  "writeObject env kind name obj objs =
     (case kv_write env kind name of
        Accepted \<Rightarrow> (None, AList.update name obj objs)
      | Rejected e \<Rightarrow> (Some e, objs)
      | AnswerLost e \<Rightarrow> (Some e, AList.update name obj objs))"

definition deleteObject :: "kubeEnv \<Rightarrow> string \<Rightarrow> string \<Rightarrow> 'o objects \<Rightarrow> apiError option \<times> 'o objects" where
  "deleteObject env kind name objs =
     (if map_of objs name = None then (Some NotFound, objs)
      else case kv_write env kind name of
          Accepted \<Rightarrow> (None, AList.delete name objs)
        | Rejected e \<Rightarrow> (Some e, objs)
        | AnswerLost e \<Rightarrow> (Some e, AList.delete name objs))"

definition getObject :: "kubeEnv \<Rightarrow> string \<Rightarrow> string \<Rightarrow> 'o objects \<Rightarrow> apiError + 'o" where
  "getObject env kind name objs =
     (case kv_get env kind name of
        Some e \<Rightarrow> Inl e
      | None \<Rightarrow> (case map_of objs name of None \<Rightarrow> Inl NotFound | Some obj \<Rightarrow> Inr obj))"

definition createOrUpdate ::
  "kubeEnv \<Rightarrow> string \<Rightarrow> string \<Rightarrow> ('o \<Rightarrow> msg + 'o) \<Rightarrow> 'o \<Rightarrow> 'o objects \<Rightarrow> msg option \<times> 'o objects" where
  "createOrUpdate env kind name mutate initial objs =
     (let write = (\<lambda>obj. case writeObject env kind name obj objs of (e, objs') \<Rightarrow> (map_option apiErrorMsg e, objs'))
      in case kv_get env kind name of
           Some e \<Rightarrow> (Some (apiErrorMsg e), objs)
         | None \<Rightarrow>
             (case map_of objs name of
                None \<Rightarrow> (case mutate initial of Inl e \<Rightarrow> (Some e, objs) | Inr obj \<Rightarrow> write obj)
              | Some live \<Rightarrow>
                  (case mutate live of
                     Inl e \<Rightarrow> (Some e, objs)
                   | Inr obj \<Rightarrow> if obj = live then (None, objs) else write obj)))"

text \<open>Steps that stop at the first error.\<close>

fun untilError :: "('s \<Rightarrow> msg option \<times> 's) list \<Rightarrow> 's \<Rightarrow> msg option \<times> 's" where
  "untilError [] s = (None, s)"
| "untilError (f # fs) s = (case f s of (Some e, s') \<Rightarrow> (Some e, s') | (None, s') \<Rightarrow> untilError fs s')"

definition wrapStep :: "string \<Rightarrow> msg option \<times> 's \<Rightarrow> msg option \<times> 's" where
  "wrapStep f r = (map_option (\<lambda>e. Fmt f [e]) (fst r), snd r)"

section \<open>Requests that are accepted\<close>

definition kubeAccepts :: "kubeEnv \<Rightarrow> bool" where
  "kubeAccepts env \<longleftrightarrow> (\<forall>kind name. kv_get env kind name = None \<and> kv_write env kind name = Accepted)"

lemma kubeAcceptsD: "kubeAccepts env \<Longrightarrow> kv_get env kind name = None" "kubeAccepts env \<Longrightarrow> kv_write env kind name = Accepted"
  by (simp_all add: kubeAccepts_def)

lemma createOrUpdate_accepted:
  assumes "kubeAccepts env" "mutate (case map_of objs name of None \<Rightarrow> initial | Some live \<Rightarrow> live) = Inr obj"
  shows "createOrUpdate env kind name mutate initial objs =
           (None, if map_of objs name = Some obj then objs else AList.update name obj objs)"
  using assms by (auto simp: createOrUpdate_def writeObject_def kubeAcceptsD Let_def split: option.splits)

text \<open>The objects after an accepted \<^verbatim>\<open>CreateOrUpdate\<close> whose callback does not fail.\<close>

definition upserted :: "string \<Rightarrow> ('o \<Rightarrow> 'o) \<Rightarrow> 'o \<Rightarrow> 'o objects \<Rightarrow> 'o objects" where
  "upserted name f initial objs =
     (let obj = f (case map_of objs name of None \<Rightarrow> initial | Some live \<Rightarrow> live)
      in if map_of objs name = Some obj then objs else AList.update name obj objs)"

lemma createOrUpdate_upserted:
  "kubeAccepts env \<Longrightarrow> createOrUpdate env kind name (\<lambda>x. Inr (f x)) initial objs = (None, upserted name f initial objs)"
  by (simp add: createOrUpdate_accepted [where obj = "f (case map_of objs name of None \<Rightarrow> initial | Some live \<Rightarrow> live)"]
      upserted_def)

lemma map_of_upserted:
  "map_of (upserted name f initial objs) =
     (map_of objs)(name \<mapsto> f (case map_of objs name of None \<Rightarrow> initial | Some live \<Rightarrow> live))"
  by (simp add: upserted_def Let_def update_conv' fun_upd_idem)

lemma createOrUpdate_other:
  "n \<noteq> name \<Longrightarrow> map_of (snd (createOrUpdate env kind name mutate initial objs)) n = map_of objs n"
  by (auto simp: createOrUpdate_def writeObject_def Let_def update_conv' split: option.split sum.split apiOutcome.split)

lemma untilError_append:
  "untilError (fs @ gs) s = (case untilError fs s of (Some e, s') \<Rightarrow> (Some e, s') | (None, s') \<Rightarrow> untilError gs s')"
  by (induction fs arbitrary: s) (auto split: prod.split option.split)

lemma untilError_invariant:
  assumes "P s" "\<And>f s. f \<in> set fs \<Longrightarrow> P s \<Longrightarrow> P (snd (f s))"
  shows "P (snd (untilError fs s))"
  using assms
proof (induction fs arbitrary: s)
  case (Cons f fs)
  have step: "P (snd (f s))" using Cons.prems by simp
  show ?case
  proof (cases "f s")
    case (Pair e s')
    with step have "P s'" by simp
    with Pair Cons show ?thesis by (cases e) simp_all
  qed
qed simp

lemma wrapStep_None [simp]: "fst (wrapStep f r) = None \<longleftrightarrow> fst r = None"
  by (simp add: wrapStep_def)

lemma wrapStep_snd [simp]: "snd (wrapStep f r) = snd r"
  by (simp add: wrapStep_def)

lemma createOrUpdate_total:
  assumes "kubeAccepts env" "\<And>x. \<exists>y. mutate x = Inr y"
  shows "fst (createOrUpdate env kind name mutate initial objs) = None"
proof -
  obtain obj where "mutate (case map_of objs name of None \<Rightarrow> initial | Some live \<Rightarrow> live) = Inr obj" using assms(2) by blast
  from createOrUpdate_accepted [where mutate = mutate, OF assms(1) this] show ?thesis by simp
qed

lemma untilError_total: "(\<And>f s. f \<in> set fs \<Longrightarrow> fst (f s) = None) \<Longrightarrow> fst (untilError fs s) = None"
proof (induction fs arbitrary: s)
  case (Cons f fs)
  obtain s' where "f s = (None, s')" using Cons.prems [of f s] by (cases "f s") simp
  with Cons show ?case by simp
qed simp

end
