(* ===== verification/GatewayDeployment.thy ===== *)
theory GatewayDeployment
  imports Workloads
begin

text \<open>
  The objects of the webhook gateway of a namespace (\<^verbatim>\<open>internal/controller/gateway_deployment.go\<close>, \<^verbatim>\<open>otel_env.go\<close>), the status of
  its \<^verbatim>\<open>WebhookGatewayConfig\<close>, and \<^verbatim>\<open>ensureWebhookGateway\<close> and \<^verbatim>\<open>cleanupWebhookGatewayIfUnused\<close> of
  \<^verbatim>\<open>trigger_controller.go\<close>. \<open>getenv\<close> is the environment of the operator's process.
\<close>

section \<open>Configuration\<close>

record webhookGatewayTLSSpec =
  wg_serverSecretRef :: "string option"
  wg_clientCASecretRef :: "string option"
  wg_crlConfigMapRef :: "string option"

record webhookGatewayHPASpec =
  wp_minReplicas :: "int option"
  wp_maxReplicas :: "int option"
  wp_targetCPUUtilization :: "int option"

text \<open>\<open>gc_minAvailable\<close> is \<^verbatim>\<open>spec.podDisruptionBudget.minAvailable\<close>, a number or a percentage as text.\<close>

record webhookGatewayConfig =
  gc_namespace :: string
  gc_generation :: int
  gc_tls :: "webhookGatewayTLSSpec option"
  gc_hpa :: "webhookGatewayHPASpec option"
  gc_podDisruptionBudget :: "string option option"
  gc_conditions :: "condition list"

record webhookGatewayTLSConfig =
  tc_tlsSecretName :: string
  tc_mtlsCASecretName :: string
  tc_crlConfigMapName :: string

definition webhookGatewayConfigName :: string where "webhookGatewayConfigName = ''default''"
definition webhookGatewayDeploymentName :: string where "webhookGatewayDeploymentName = ''kubezap-webhook-gateway''"
definition webhookGatewayPort :: int where "webhookGatewayPort = 8080"
definition webhookGatewayMetricsPort :: int where "webhookGatewayMetricsPort = 9090"
definition componentWebhookGateway :: string where "componentWebhookGateway = ''webhook-gateway''"

section \<open>Desired objects\<close>

definition webhookGatewayImage :: "(string \<Rightarrow> string) \<Rightarrow> string" where
  "webhookGatewayImage getenv =
     (let img = getenv ''WEBHOOK_GATEWAY_IMAGE'' in if img \<noteq> [] then img else ''ghcr.io/kubezap/webhook-gateway:latest'')"

definition otelPassthroughEnv :: "(string \<Rightarrow> string) \<Rightarrow> envVar list" where
  "otelPassthroughEnv getenv =
     (let pass = (\<lambda>n. if getenv n \<noteq> [] then [\<lparr>en_name = n, en_value = EnvValue (getenv n)\<rparr>] else [])
      in pass ''OTEL_EXPORTER_OTLP_ENDPOINT'' @ pass ''OTEL_TRACES_SAMPLER_ARG'')"

definition desiredWebhookGatewayServiceAccount :: serviceAccount where
  "desiredWebhookGatewayServiceAccount = \<lparr>acc_labels = [(labelApp, webhookGatewayDeploymentName)], acc_owners = []\<rparr>"

definition readRule :: "string \<Rightarrow> string \<Rightarrow> policyRule" where
  "readRule apiGroup resource =
     \<lparr>pr_apiGroups = [apiGroup], pr_resources = [resource], pr_verbs = [''get'', ''list'', ''watch'']\<rparr>"

definition createRule :: "string \<Rightarrow> string \<Rightarrow> policyRule" where
  "createRule apiGroup resource = \<lparr>pr_apiGroups = [apiGroup], pr_resources = [resource], pr_verbs = [''create'']\<rparr>"

definition desiredWebhookGatewayRole :: "webhookGatewayTLSConfig \<Rightarrow> role" where
  "desiredWebhookGatewayRole tlsCfg =
     \<lparr>ro_rules =
        [readRule apiGroupAutomation ''triggers'', createRule apiGroupAutomation ''flowruns'', readRule [] ''secrets''] @
        (if tc_crlConfigMapName tlsCfg \<noteq> [] then [readRule [] ''configmaps''] else []),
      ro_owners = []\<rparr>"

definition gatewayRoleRef :: "string \<Rightarrow> roleRef" where
  "gatewayRoleRef name = \<lparr>rr_apiGroup = apiGroupRBAC, rr_kind = ''Role'', rr_name = name\<rparr>"

definition accountSubject :: "string \<Rightarrow> string \<Rightarrow> subject" where
  "accountSubject name namespace = \<lparr>sj_kind = ''ServiceAccount'', sj_name = name, sj_namespace = namespace\<rparr>"

definition desiredWebhookGatewayRoleBinding :: "string \<Rightarrow> roleBinding" where
  "desiredWebhookGatewayRoleBinding namespace =
     \<lparr>rb_roleRef = gatewayRoleRef webhookGatewayDeploymentName,
      rb_subjects = [accountSubject webhookGatewayDeploymentName namespace], rb_owners = []\<rparr>"

definition webhookGatewayLabels :: "string \<Rightarrow> smap" where
  "webhookGatewayLabels namespace = [(labelComponent, componentWebhookGateway), (labelNamespace, namespace)]"

definition orElse :: "'a option \<Rightarrow> 'a \<Rightarrow> 'a" where
  "orElse x d = (case x of Some v \<Rightarrow> v | None \<Rightarrow> d)"

definition desiredWebhookGatewayHPAFromConfig :: "string \<Rightarrow> webhookGatewayConfig option \<Rightarrow> horizontalPodAutoscaler" where
  "desiredWebhookGatewayHPAFromConfig namespace cfg =
     (let hpa = (case cfg of None \<Rightarrow> None | Some c \<Rightarrow> gc_hpa c);
          field = (\<lambda>f d. case hpa of None \<Rightarrow> d | Some h \<Rightarrow> orElse (f h) d)
      in \<lparr>hp_labels = webhookGatewayLabels namespace, hp_scaleTarget = webhookGatewayDeploymentName,
          hp_minReplicas = field wp_minReplicas 1, hp_maxReplicas = field wp_maxReplicas 10,
          hp_targetCPUUtilization = field wp_targetCPUUtilization 70\<rparr>)"

definition desiredWebhookGatewayPDB :: "string \<Rightarrow> webhookGatewayConfig option \<Rightarrow> podDisruptionBudget option" where
  "desiredWebhookGatewayPDB namespace cfg =
     (case cfg of
        None \<Rightarrow> None
      | Some c \<Rightarrow>
          (case gc_podDisruptionBudget c of
             Some (Some minAvailable) \<Rightarrow>
               Some \<lparr>pd_labels = webhookGatewayLabels namespace, pd_minAvailable = minAvailable,
                     pd_selector = webhookGatewayLabels namespace\<rparr>
           | _ \<Rightarrow> None))"

definition gatewayPortName :: "webhookGatewayTLSConfig \<Rightarrow> string" where
  "gatewayPortName tlsCfg = (if tc_tlsSecretName tlsCfg \<noteq> [] then ''https'' else ''http'')"

definition tcpPort :: "string \<Rightarrow> int \<Rightarrow> servicePort" where
  "tcpPort name port = \<lparr>sp_name = name, sp_protocol = ''TCP'', sp_port = port, sp_targetPort = port\<rparr>"

definition desiredWebhookGatewayService :: "string \<Rightarrow> webhookGatewayTLSConfig \<Rightarrow> service" where
  "desiredWebhookGatewayService namespace tlsCfg =
     \<lparr>svc_labels = webhookGatewayLabels namespace, svc_selector = webhookGatewayLabels namespace,
      svc_ports = [tcpPort (gatewayPortName tlsCfg) webhookGatewayPort, tcpPort ''metrics'' webhookGatewayMetricsPort],
      svc_type = [], svc_owners = []\<rparr>"

definition gatewayArgs :: "string \<Rightarrow> webhookGatewayTLSConfig \<Rightarrow> string list" where
  "gatewayArgs namespace tlsCfg =
     [''--port=8080'', ''--namespace='' @ namespace] @
     (if tc_tlsSecretName tlsCfg \<noteq> [] then
        [''--tls-cert-file=/etc/webhook-tls/tls.crt'', ''--tls-key-file=/etc/webhook-tls/tls.key''] @
        (if tc_mtlsCASecretName tlsCfg \<noteq> [] then
           [''--mtls-ca-file=/etc/webhook-mtls-ca/ca.crt''] @
           (if tc_crlConfigMapName tlsCfg \<noteq> [] then [''--crl-configmap-name='' @ tc_crlConfigMapName tlsCfg] else [])
         else [])
      else [])"

definition gatewayMounts :: "webhookGatewayTLSConfig \<Rightarrow> (volumeMount \<times> volume) list" where
  "gatewayMounts tlsCfg =
     (let mount = (\<lambda>name path secret.
            (\<lparr>vm_name = name, vm_mountPath = path, vm_readOnly = True\<rparr>,
             \<lparr>vo_name = name, vo_secretName = secret, vo_defaultMode = Some 292\<rparr>))
      in if tc_tlsSecretName tlsCfg \<noteq> [] then
           [mount ''webhook-tls'' ''/etc/webhook-tls'' (tc_tlsSecretName tlsCfg)] @
           (if tc_mtlsCASecretName tlsCfg \<noteq> []
            then [mount ''webhook-mtls-ca'' ''/etc/webhook-mtls-ca'' (tc_mtlsCASecretName tlsCfg)] else [])
         else [])"

definition gatewayProbe :: "webhookGatewayTLSConfig \<Rightarrow> string \<Rightarrow> int \<Rightarrow> int \<Rightarrow> probe" where
  "gatewayProbe tlsCfg path delay period =
     \<lparr>pb_path = path, pb_port = webhookGatewayPort,
      pb_scheme = (if tc_tlsSecretName tlsCfg \<noteq> [] then ''HTTPS'' else ''HTTP''),
      pb_initialDelaySeconds = delay, pb_periodSeconds = period, pb_failureThreshold = 0\<rparr>"

definition desiredWebhookGatewayDeployment :: "(string \<Rightarrow> string) \<Rightarrow> string \<Rightarrow> webhookGatewayTLSConfig \<Rightarrow> deployment" where
  "desiredWebhookGatewayDeployment getenv namespace tlsCfg =
     \<lparr>dp_labels = webhookGatewayLabels namespace,
      dp_spec =
        \<lparr>ds_replicas = Some 1, ds_selector = webhookGatewayLabels namespace, ds_podLabels = webhookGatewayLabels namespace,
         ds_serviceAccountName = webhookGatewayDeploymentName, ds_automountServiceAccountToken = None,
         ds_terminationGracePeriodSeconds = None, ds_podRunAsNonRoot = True, ds_podSeccompRuntimeDefault = True,
         ds_volumes = map snd (gatewayMounts tlsCfg),
         ds_container =
           \<lparr>co_name = componentWebhookGateway, co_image = webhookGatewayImage getenv, co_imagePullPolicy = ''IfNotPresent'',
            co_args = gatewayArgs namespace tlsCfg,
            co_env = \<lparr>en_name = ''WATCH_NAMESPACES'', en_value = EnvValue (getenv ''WATCH_NAMESPACES'')\<rparr> # otelPassthroughEnv getenv,
            co_ports =
              [\<lparr>po_name = gatewayPortName tlsCfg, po_containerPort = webhookGatewayPort, po_protocol = ''TCP''\<rparr>,
               \<lparr>po_name = ''metrics'', po_containerPort = webhookGatewayMetricsPort, po_protocol = ''TCP''\<rparr>],
            co_volumeMounts = map fst (gatewayMounts tlsCfg),
            co_securityContext =
              \<lparr>sx_runAsNonRoot = True, sx_readOnlyRootFilesystem = True, sx_allowPrivilegeEscalation = False,
               sx_dropCapabilities = [''ALL''], sx_seccompRuntimeDefault = True, sx_runAsUser = None\<rparr>,
            co_requests = [], co_limits = [],
            co_livenessProbe = Some (gatewayProbe tlsCfg healthzPath 5 10),
            co_readinessProbe = Some (gatewayProbe tlsCfg ''/readyz'' 3 5)\<rparr>\<rparr>,
      dp_owners = [], dp_availableReplicas = 0\<rparr>"

section \<open>Status of the configuration\<close>

definition configReady :: "string \<Rightarrow> string \<Rightarrow> msg \<Rightarrow> condition" where
  "configReady status reason m =
     \<lparr>cond_type = conditionTypeReady, cond_status = status, cond_reason = reason, cond_message = m,
      cond_lastTransitionTime = None, cond_observedGeneration = 0\<rparr>"

definition nonEmptyKey :: "secretObject \<Rightarrow> string \<Rightarrow> bool" where
  "nonEmptyKey secret key \<longleftrightarrow> (case map_of (se_data secret) key of None \<Rightarrow> False | Some v \<Rightarrow> v \<noteq> [])"

text \<open>One Secret reference: the condition of the first problem, if there is one.\<close>

definition checkSecretRef ::
  "kubeEnv \<Rightarrow> nsObjects \<Rightarrow> string \<Rightarrow> string \<Rightarrow> string \<Rightarrow> string \<Rightarrow> string list \<Rightarrow> string \<Rightarrow> string \<Rightarrow> condition option" where
  "checkSecretRef env objs namespace field reason name keys missingReason missingText =
     (case getObject env ''Secret'' name (ns_secrets objs) of
        Inl e \<Rightarrow>
          if e = NotFound then
            Some (configReady ''False'' (reason @ ''NotFound'')
              (Fmt (''spec.tls.'' @ field @ '' %q not found in namespace %q.'') [Txt name, Txt namespace]))
          else
            Some (configReady ''False'' (reason @ ''GetFailed'')
              (Fmt (''getting spec.tls.'' @ field @ '' %q: %s'') [Txt name, apiErrorMsg e]))
      | Inr secret \<Rightarrow>
          if list_all (nonEmptyKey secret) keys then None
          else Some (configReady ''False'' missingReason (Fmt (''spec.tls.'' @ field @ missingText) [Txt name])))"

definition validateWebhookGatewayConfigTLS :: "kubeEnv \<Rightarrow> nsObjects \<Rightarrow> webhookGatewayConfig \<Rightarrow> condition" where
  "validateWebhookGatewayConfigTLS env objs cfg =
     (let ready = configReady ''True'' ''WebhookGatewayConfigReady'' (Txt ''spec.tls Secret references resolved successfully.'')
      in case gc_tls cfg of
           None \<Rightarrow>
             configReady ''True'' ''NoTLSConfigured'' (Txt ''spec.tls is not set; the webhook gateway serves plain HTTP.'')
         | Some tls \<Rightarrow>
             (case wg_serverSecretRef tls of
                None \<Rightarrow> ready
              | Some server \<Rightarrow>
                  (case checkSecretRef env objs (gc_namespace cfg) ''serverSecretRef'' ''ServerSecret'' server
                          [''tls.crt'', ''tls.key''] ''ServerSecretMissingKeys'' '' %q must contain both tls.crt and tls.key.'' of
                     Some c \<Rightarrow> c
                   | None \<Rightarrow>
                       (case wg_clientCASecretRef tls of
                          None \<Rightarrow> ready
                        | Some ca \<Rightarrow>
                            (case checkSecretRef env objs (gc_namespace cfg) ''clientCASecretRef'' ''ClientCASecret'' ca
                                    [''ca.crt''] ''ClientCASecretMissingKey'' '' %q must contain ca.crt.'' of
                               Some c \<Rightarrow> c
                             | None \<Rightarrow> ready)))))"

definition reconcileWebhookGatewayConfigStatus ::
  "kubeEnv \<Rightarrow> (condition list \<Rightarrow> condition \<Rightarrow> condition list) \<Rightarrow> nsObjects \<Rightarrow> webhookGatewayConfig \<Rightarrow> webhookGatewayConfig" where
  "reconcileWebhookGatewayConfigStatus env setCond objs cfg =
     (let cond = (validateWebhookGatewayConfigTLS env objs cfg)\<lparr>cond_observedGeneration := gc_generation cfg\<rparr>;
          cfg' = cfg\<lparr>gc_conditions := setCond (gc_conditions cfg) cond\<rparr>
      in case kv_write env ''WebhookGatewayConfig'' webhookGatewayConfigName of Rejected _ \<Rightarrow> cfg | _ \<Rightarrow> cfg')"

text \<open>\<^verbatim>\<open>getWebhookGatewayConfig\<close>: an absent object is not an error.\<close>

definition getWebhookGatewayConfig :: "kubeEnv \<Rightarrow> string \<Rightarrow> webhookGatewayConfig option \<Rightarrow> msg + webhookGatewayConfig option" where
  "getWebhookGatewayConfig env namespace stored =
     (case kv_get env ''WebhookGatewayConfig'' webhookGatewayConfigName of
        Some e \<Rightarrow>
          if e = NotFound then Inr None
          else Inl (Fmt ''getting WebhookGatewayConfig %s/%s: %w'' [Txt namespace, Txt webhookGatewayConfigName, apiErrorMsg e])
      | None \<Rightarrow> Inr stored)"

definition tlsConfigOf :: "webhookGatewayConfig option \<Rightarrow> webhookGatewayTLSConfig" where
  "tlsConfigOf cfg =
     (let none = \<lparr>tc_tlsSecretName = [], tc_mtlsCASecretName = [], tc_crlConfigMapName = []\<rparr>
      in case cfg of
           None \<Rightarrow> none
         | Some c \<Rightarrow>
             (case gc_tls c of
                None \<Rightarrow> none
              | Some tls \<Rightarrow>
                  (case wg_serverSecretRef tls of
                     None \<Rightarrow> none
                   | Some server \<Rightarrow>
                       (case wg_clientCASecretRef tls of
                          None \<Rightarrow> none\<lparr>tc_tlsSecretName := server\<rparr>
                        | Some ca \<Rightarrow>
                            \<lparr>tc_tlsSecretName = server, tc_mtlsCASecretName = ca,
                             tc_crlConfigMapName = orElse (wg_crlConfigMapRef tls) []\<rparr>))))"

section \<open>Ensuring the gateway\<close>

definition ensureAccount :: "kubeEnv \<Rightarrow> nsObjects \<Rightarrow> msg option \<times> nsObjects" where
  "ensureAccount env objs =
     (case createOrUpdate env ''ServiceAccount'' webhookGatewayDeploymentName
             (\<lambda>sa. Inr (sa\<lparr>acc_labels := acc_labels desiredWebhookGatewayServiceAccount\<rparr>))
             desiredWebhookGatewayServiceAccount (ns_accounts objs) of
        (e, xs) \<Rightarrow> wrapStep ''failed to create/update gateway ServiceAccount: %w'' (e, objs\<lparr>ns_accounts := xs\<rparr>))"

definition ensureRole :: "kubeEnv \<Rightarrow> webhookGatewayTLSConfig \<Rightarrow> nsObjects \<Rightarrow> msg option \<times> nsObjects" where
  "ensureRole env tlsCfg objs =
     (case createOrUpdate env ''Role'' webhookGatewayDeploymentName
             (\<lambda>r. Inr (r\<lparr>ro_rules := ro_rules (desiredWebhookGatewayRole tlsCfg)\<rparr>))
             (desiredWebhookGatewayRole tlsCfg) (ns_roles objs) of
        (e, xs) \<Rightarrow> wrapStep ''failed to create/update gateway Role: %w'' (e, objs\<lparr>ns_roles := xs\<rparr>))"

definition ensureBinding :: "kubeEnv \<Rightarrow> string \<Rightarrow> nsObjects \<Rightarrow> msg option \<times> nsObjects" where
  "ensureBinding env namespace objs =
     (case createOrUpdate env ''RoleBinding'' webhookGatewayDeploymentName
             (\<lambda>rb. Inr (rb\<lparr>rb_roleRef := rb_roleRef (desiredWebhookGatewayRoleBinding namespace),
                           rb_subjects := rb_subjects (desiredWebhookGatewayRoleBinding namespace)\<rparr>))
             (desiredWebhookGatewayRoleBinding namespace) (ns_bindings objs) of
        (e, xs) \<Rightarrow> wrapStep ''failed to create/update gateway RoleBinding: %w'' (e, objs\<lparr>ns_bindings := xs\<rparr>))"

definition ensureService :: "kubeEnv \<Rightarrow> string \<Rightarrow> webhookGatewayTLSConfig \<Rightarrow> nsObjects \<Rightarrow> msg option \<times> nsObjects" where
  "ensureService env namespace tlsCfg objs =
     (let desired = desiredWebhookGatewayService namespace tlsCfg
      in case createOrUpdate env ''Service'' webhookGatewayDeploymentName
             (\<lambda>s. Inr (s\<lparr>svc_labels := svc_labels desired, svc_selector := svc_selector desired,
                        svc_ports := svc_ports desired, svc_type := svc_type desired\<rparr>))
             desired (ns_services objs) of
           (e, xs) \<Rightarrow> wrapStep ''failed to create/update gateway Service: %w'' (e, objs\<lparr>ns_services := xs\<rparr>))"

text \<open>The callback of the Deployment: the live replica count is restored only where the desired specification has
  none.\<close>

definition mutateGatewayDeployment :: "(string \<Rightarrow> string) \<Rightarrow> string \<Rightarrow> webhookGatewayTLSConfig \<Rightarrow> deployment \<Rightarrow> deployment" where
  "mutateGatewayDeployment getenv namespace tlsCfg d =
     (let liveReplicas = ds_replicas (dp_spec d);
          spec = dp_spec (desiredWebhookGatewayDeployment getenv namespace tlsCfg)
      in d\<lparr>dp_spec := (if liveReplicas \<noteq> None \<and> ds_replicas spec = None
                       then spec\<lparr>ds_replicas := liveReplicas\<rparr> else spec)\<rparr>)"

definition ensureDeployment ::
  "kubeEnv \<Rightarrow> (string \<Rightarrow> string) \<Rightarrow> string \<Rightarrow> webhookGatewayTLSConfig \<Rightarrow> nsObjects \<Rightarrow> msg option \<times> nsObjects" where
  "ensureDeployment env getenv namespace tlsCfg objs =
     (case createOrUpdate env ''Deployment'' webhookGatewayDeploymentName
             (\<lambda>d. Inr (mutateGatewayDeployment getenv namespace tlsCfg d))
             (desiredWebhookGatewayDeployment getenv namespace tlsCfg) (ns_deployments objs) of
        (e, xs) \<Rightarrow> wrapStep ''failed to create/update gateway Deployment: %w'' (e, objs\<lparr>ns_deployments := xs\<rparr>))"

definition ensurePDB :: "kubeEnv \<Rightarrow> string \<Rightarrow> webhookGatewayConfig option \<Rightarrow> nsObjects \<Rightarrow> msg option \<times> nsObjects" where
  "ensurePDB env namespace cfg objs =
     (case desiredWebhookGatewayPDB namespace cfg of
        None \<Rightarrow>
          (case getObject env ''PodDisruptionBudget'' webhookGatewayDeploymentName (ns_pdbs objs) of
             Inl e \<Rightarrow>
               if e = NotFound then (None, objs)
               else (Some (Fmt ''getting webhook gateway PodDisruptionBudget: %w'' [apiErrorMsg e]), objs)
           | Inr _ \<Rightarrow>
               (case deleteObject env ''PodDisruptionBudget'' webhookGatewayDeploymentName (ns_pdbs objs) of
                  (e, xs) \<Rightarrow>
                    (if e = None \<or> e = Some NotFound then None
                     else Some (Fmt ''deleting webhook gateway PodDisruptionBudget: %w'' [apiErrorMsg (the e)]),
                     objs\<lparr>ns_pdbs := xs\<rparr>)))
      | Some pdb \<Rightarrow>
          (case createOrUpdate env ''PodDisruptionBudget'' webhookGatewayDeploymentName
                  (\<lambda>p. Inr (p\<lparr>pd_labels := pd_labels pdb, pd_minAvailable := pd_minAvailable pdb,
                             pd_selector := pd_selector pdb\<rparr>))
                  \<lparr>pd_labels = [], pd_minAvailable = [], pd_selector = []\<rparr> (ns_pdbs objs) of
             (e, xs) \<Rightarrow> wrapStep ''failed to create/update gateway PodDisruptionBudget: %w'' (e, objs\<lparr>ns_pdbs := xs\<rparr>)))"

text \<open>The autoscaler, and the disruption budget only when the autoscaler already exists.\<close>

definition ensureHPA :: "kubeEnv \<Rightarrow> string \<Rightarrow> webhookGatewayConfig option \<Rightarrow> nsObjects \<Rightarrow> msg option \<times> nsObjects" where
  "ensureHPA env namespace cfg objs =
     (let desired = desiredWebhookGatewayHPAFromConfig namespace cfg
      in case getObject env ''HorizontalPodAutoscaler'' webhookGatewayDeploymentName (ns_hpas objs) of
           Inl e \<Rightarrow>
             if e \<noteq> NotFound then (Some (apiErrorMsg e), objs)
             else (case writeObject env ''HorizontalPodAutoscaler'' webhookGatewayDeploymentName desired (ns_hpas objs) of
                 (Some e', xs) \<Rightarrow> (if e' = AlreadyExists then None else Some (apiErrorMsg e'), objs\<lparr>ns_hpas := xs\<rparr>)
               | (None, xs) \<Rightarrow> (None, objs\<lparr>ns_hpas := xs\<rparr>))
         | Inr live \<Rightarrow>
             (case writeObject env ''HorizontalPodAutoscaler'' webhookGatewayDeploymentName
                     (live\<lparr>hp_minReplicas := hp_minReplicas desired, hp_maxReplicas := hp_maxReplicas desired,
                           hp_targetCPUUtilization := hp_targetCPUUtilization desired\<rparr>) (ns_hpas objs) of
                (Some e, xs) \<Rightarrow> (Some (apiErrorMsg e), objs\<lparr>ns_hpas := xs\<rparr>)
              | (None, xs) \<Rightarrow> ensurePDB env namespace cfg (objs\<lparr>ns_hpas := xs\<rparr>)))"

record gatewayNamespace =
  gn_config :: "webhookGatewayConfig option"
  gn_objects :: nsObjects

definition ensureWebhookGateway ::
  "kubeEnv \<Rightarrow> (condition list \<Rightarrow> condition \<Rightarrow> condition list) \<Rightarrow> (string \<Rightarrow> string) \<Rightarrow> string \<Rightarrow> gatewayNamespace \<Rightarrow>
   msg option \<times> gatewayNamespace" where
  "ensureWebhookGateway env setCond getenv namespace gn =
     (case getWebhookGatewayConfig env namespace (gn_config gn) of
        Inl e \<Rightarrow> (Some e, gn)
      | Inr found \<Rightarrow>
          (let gn1 = (case found of
                        None \<Rightarrow> gn
                      | Some c \<Rightarrow> gn\<lparr>gn_config := Some (reconcileWebhookGatewayConfigStatus env setCond (gn_objects gn) c)\<rparr>);
               tlsCfg = tlsConfigOf found
           in case untilError
                     [ensureAccount env, ensureRole env tlsCfg, ensureBinding env namespace, ensureService env namespace tlsCfg,
                      ensureDeployment env getenv namespace tlsCfg, ensureHPA env namespace found] (gn_objects gn1) of
                (e, objs) \<Rightarrow> (e, gn1\<lparr>gn_objects := objs\<rparr>)))"

section \<open>Removing the gateway\<close>

definition deleteIfExists :: "kubeEnv \<Rightarrow> string \<Rightarrow> string \<Rightarrow> 'o objects \<Rightarrow> msg option \<times> 'o objects" where
  "deleteIfExists env kind label objs =
     (case getObject env kind webhookGatewayDeploymentName objs of
        Inl e \<Rightarrow>
          if e = NotFound then (None, objs)
          else (Some (Fmt (''getting webhook gateway '' @ label @ '': %w'') [apiErrorMsg e]), objs)
      | Inr _ \<Rightarrow>
          (case deleteObject env kind webhookGatewayDeploymentName objs of
             (e, xs) \<Rightarrow>
               (case e of
                  None \<Rightarrow> (None, xs)
                | Some err \<Rightarrow>
                    (if err = NotFound then None
                     else Some (Fmt (''deleting webhook gateway '' @ label @ '': %w'') [apiErrorMsg err]), xs))))"

definition cleanupObjects :: "kubeEnv \<Rightarrow> nsObjects \<Rightarrow> msg option \<times> nsObjects" where
  "cleanupObjects env =
     untilError
       [\<lambda>o1. (case deleteIfExists env ''Deployment'' ''Deployment'' (ns_deployments o1) of (e, xs) \<Rightarrow> (e, o1\<lparr>ns_deployments := xs\<rparr>)),
        \<lambda>o1. (case deleteIfExists env ''Service'' ''Service'' (ns_services o1) of (e, xs) \<Rightarrow> (e, o1\<lparr>ns_services := xs\<rparr>)),
        \<lambda>o1. (case deleteIfExists env ''ServiceAccount'' ''ServiceAccount'' (ns_accounts o1) of (e, xs) \<Rightarrow> (e, o1\<lparr>ns_accounts := xs\<rparr>)),
        \<lambda>o1. (case deleteIfExists env ''Role'' ''Role'' (ns_roles o1) of (e, xs) \<Rightarrow> (e, o1\<lparr>ns_roles := xs\<rparr>)),
        \<lambda>o1. (case deleteIfExists env ''RoleBinding'' ''RoleBinding'' (ns_bindings o1) of (e, xs) \<Rightarrow> (e, o1\<lparr>ns_bindings := xs\<rparr>)),
        \<lambda>o1. (case deleteIfExists env ''HorizontalPodAutoscaler'' ''HPA'' (ns_hpas o1) of (e, xs) \<Rightarrow> (e, o1\<lparr>ns_hpas := xs\<rparr>)),
        \<lambda>o1. (case deleteIfExists env ''PodDisruptionBudget'' ''PodDisruptionBudget'' (ns_pdbs o1) of (e, xs) \<Rightarrow> (e, o1\<lparr>ns_pdbs := xs\<rparr>))]"

section \<open>Convergence\<close>

text \<open>Each step, when its requests are accepted, writes its own object and nothing else.\<close>

lemma ensureAccount_accepted:
  "kubeAccepts env \<Longrightarrow>
   \<exists>xs a. ensureAccount env objs = (None, objs\<lparr>ns_accounts := xs\<rparr>) \<and> map_of xs webhookGatewayDeploymentName = Some a"
  by (auto simp: ensureAccount_def wrapStep_def createOrUpdate_upserted map_of_upserted Let_def)

lemma ensureRole_accepted:
  "kubeAccepts env \<Longrightarrow>
   \<exists>xs r. ensureRole env tlsCfg objs = (None, objs\<lparr>ns_roles := xs\<rparr>) \<and> map_of xs webhookGatewayDeploymentName = Some r \<and>
     ro_rules r = ro_rules (desiredWebhookGatewayRole tlsCfg)"
  by (auto simp: ensureRole_def wrapStep_def createOrUpdate_upserted map_of_upserted Let_def)

lemma ensureBinding_accepted:
  "kubeAccepts env \<Longrightarrow>
   \<exists>xs b. ensureBinding env namespace objs = (None, objs\<lparr>ns_bindings := xs\<rparr>) \<and>
     map_of xs webhookGatewayDeploymentName = Some b \<and>
     rb_roleRef b = rb_roleRef (desiredWebhookGatewayRoleBinding namespace) \<and>
     rb_subjects b = rb_subjects (desiredWebhookGatewayRoleBinding namespace)"
  by (auto simp: ensureBinding_def wrapStep_def createOrUpdate_upserted map_of_upserted Let_def)

lemma ensureService_accepted:
  "kubeAccepts env \<Longrightarrow>
   \<exists>xs v. ensureService env namespace tlsCfg objs = (None, objs\<lparr>ns_services := xs\<rparr>) \<and>
     map_of xs webhookGatewayDeploymentName = Some v \<and>
     svc_selector v = svc_selector (desiredWebhookGatewayService namespace tlsCfg) \<and>
     svc_ports v = svc_ports (desiredWebhookGatewayService namespace tlsCfg)"
  by (auto simp: ensureService_def wrapStep_def createOrUpdate_upserted map_of_upserted Let_def)

lemma mutateGatewayDeployment_spec [simp]:
  "dp_spec (mutateGatewayDeployment getenv namespace tlsCfg d) = dp_spec (desiredWebhookGatewayDeployment getenv namespace tlsCfg)"
  by (simp add: mutateGatewayDeployment_def desiredWebhookGatewayDeployment_def)

lemma ensureDeployment_accepted:
  "kubeAccepts env \<Longrightarrow>
   \<exists>xs d. ensureDeployment env getenv namespace tlsCfg objs = (None, objs\<lparr>ns_deployments := xs\<rparr>) \<and>
     map_of xs webhookGatewayDeploymentName = Some d \<and>
     dp_spec d = dp_spec (desiredWebhookGatewayDeployment getenv namespace tlsCfg)"
  by (auto simp: ensureDeployment_def wrapStep_def createOrUpdate_upserted map_of_upserted Let_def)

lemma ensurePDB_accepted:
  "kubeAccepts env \<Longrightarrow>
   \<exists>xs. ensurePDB env namespace cfg objs = (None, objs\<lparr>ns_pdbs := xs\<rparr>) \<and>
     map_of xs webhookGatewayDeploymentName = desiredWebhookGatewayPDB namespace cfg"
proof (cases "desiredWebhookGatewayPDB namespace cfg")
  case None
  assume "kubeAccepts env"
  with None show ?thesis
    by (cases "map_of (ns_pdbs objs) webhookGatewayDeploymentName")
      (auto simp: ensurePDB_def getObject_def deleteObject_def kubeAcceptsD delete_conv' intro: exI [of _ "ns_pdbs objs"])
next
  case (Some pdb)
  assume acc: "kubeAccepts env"
  have same: "p\<lparr>pd_labels := pd_labels pdb, pd_minAvailable := pd_minAvailable pdb, pd_selector := pd_selector pdb\<rparr> = pdb"
    for p :: podDisruptionBudget by (cases p, cases pdb) simp
  from acc Some show ?thesis
    by (auto simp: ensurePDB_def wrapStep_def createOrUpdate_upserted map_of_upserted same)
qed

definition hpaMatches :: "string \<Rightarrow> webhookGatewayConfig option \<Rightarrow> nsObjects \<Rightarrow> bool" where
  "hpaMatches namespace cfg objs \<longleftrightarrow>
     (\<exists>h. map_of (ns_hpas objs) webhookGatewayDeploymentName = Some h \<and>
        hp_minReplicas h = hp_minReplicas (desiredWebhookGatewayHPAFromConfig namespace cfg) \<and>
        hp_maxReplicas h = hp_maxReplicas (desiredWebhookGatewayHPAFromConfig namespace cfg) \<and>
        hp_targetCPUUtilization h = hp_targetCPUUtilization (desiredWebhookGatewayHPAFromConfig namespace cfg))"

lemma ensureHPA_accepted:
  assumes "kubeAccepts env"
  shows "\<exists>hs ps. ensureHPA env namespace cfg objs = (None, objs\<lparr>ns_hpas := hs, ns_pdbs := ps\<rparr>) \<and>
     hpaMatches namespace cfg (objs\<lparr>ns_hpas := hs, ns_pdbs := ps\<rparr>) \<and>
     (if map_of (ns_hpas objs) webhookGatewayDeploymentName = None then ps = ns_pdbs objs
      else map_of ps webhookGatewayDeploymentName = desiredWebhookGatewayPDB namespace cfg)"
proof (cases "map_of (ns_hpas objs) webhookGatewayDeploymentName")
  case None
  with assms show ?thesis
    by (intro exI [of _ "AList.update webhookGatewayDeploymentName (desiredWebhookGatewayHPAFromConfig namespace cfg) (ns_hpas objs)"]
        exI [of _ "ns_pdbs objs"])
      (simp add: ensureHPA_def getObject_def writeObject_def kubeAcceptsD Let_def update_conv' hpaMatches_def)
next
  case (Some live)
  let ?d = "desiredWebhookGatewayHPAFromConfig namespace cfg"
  let ?hs = "AList.update webhookGatewayDeploymentName
      (live\<lparr>hp_minReplicas := hp_minReplicas ?d, hp_maxReplicas := hp_maxReplicas ?d,
            hp_targetCPUUtilization := hp_targetCPUUtilization ?d\<rparr>) (ns_hpas objs)"
  obtain ps where ps: "ensurePDB env namespace cfg (objs\<lparr>ns_hpas := ?hs\<rparr>) = (None, objs\<lparr>ns_hpas := ?hs, ns_pdbs := ps\<rparr>)"
    "map_of ps webhookGatewayDeploymentName = desiredWebhookGatewayPDB namespace cfg"
    using ensurePDB_accepted [OF assms, of namespace cfg "objs\<lparr>ns_hpas := ?hs\<rparr>"] by auto
  from Some assms ps show ?thesis
    by (intro exI [of _ ?hs] exI [of _ ps])
      (simp add: ensureHPA_def getObject_def writeObject_def kubeAcceptsD Let_def update_conv' hpaMatches_def)
qed

text \<open>What the steps before the disruption budget establish.\<close>

definition gatewayServing :: "(string \<Rightarrow> string) \<Rightarrow> string \<Rightarrow> webhookGatewayConfig option \<Rightarrow> nsObjects \<Rightarrow> bool" where
  "gatewayServing getenv namespace cfg objs \<longleftrightarrow>
     map_of (ns_accounts objs) webhookGatewayDeploymentName \<noteq> None \<and>
     (\<exists>r. map_of (ns_roles objs) webhookGatewayDeploymentName = Some r \<and>
        ro_rules r = ro_rules (desiredWebhookGatewayRole (tlsConfigOf cfg))) \<and>
     (\<exists>b. map_of (ns_bindings objs) webhookGatewayDeploymentName = Some b \<and>
        rb_roleRef b = rb_roleRef (desiredWebhookGatewayRoleBinding namespace) \<and>
        rb_subjects b = rb_subjects (desiredWebhookGatewayRoleBinding namespace)) \<and>
     (\<exists>v. map_of (ns_services objs) webhookGatewayDeploymentName = Some v \<and>
        svc_selector v = svc_selector (desiredWebhookGatewayService namespace (tlsConfigOf cfg)) \<and>
        svc_ports v = svc_ports (desiredWebhookGatewayService namespace (tlsConfigOf cfg))) \<and>
     (\<exists>d. map_of (ns_deployments objs) webhookGatewayDeploymentName = Some d \<and>
        dp_spec d = dp_spec (desiredWebhookGatewayDeployment getenv namespace (tlsConfigOf cfg))) \<and>
     hpaMatches namespace cfg objs"

lemma reconcileConfigStatus_spec [simp]:
  "gc_tls (reconcileWebhookGatewayConfigStatus env setCond objs c) = gc_tls c"
  "gc_hpa (reconcileWebhookGatewayConfigStatus env setCond objs c) = gc_hpa c"
  "gc_podDisruptionBudget (reconcileWebhookGatewayConfigStatus env setCond objs c) = gc_podDisruptionBudget c"
  by (simp_all add: reconcileWebhookGatewayConfigStatus_def Let_def split: apiOutcome.split)

lemma config_status_irrelevant:
  assumes "rel_option (\<lambda>c c'. gc_tls c = gc_tls c' \<and> gc_hpa c = gc_hpa c' \<and> gc_podDisruptionBudget c = gc_podDisruptionBudget c') cfg cfg'"
  shows "gatewayServing getenv namespace cfg objs = gatewayServing getenv namespace cfg' objs"
    and "desiredWebhookGatewayPDB namespace cfg = desiredWebhookGatewayPDB namespace cfg'"
  using assms
  by (cases cfg; cases cfg'; simp add: gatewayServing_def tlsConfigOf_def hpaMatches_def desiredWebhookGatewayHPAFromConfig_def
      desiredWebhookGatewayPDB_def Let_def)+

lemma ensureWebhookGateway_accepted:
  assumes "kubeAccepts env"
  shows "\<exists>gn'. ensureWebhookGateway env setCond getenv namespace gn = (None, gn') \<and>
     gatewayServing getenv namespace (gn_config gn) (gn_objects gn') \<and>
     rel_option (\<lambda>c c'. gc_tls c = gc_tls c' \<and> gc_hpa c = gc_hpa c' \<and> gc_podDisruptionBudget c = gc_podDisruptionBudget c')
       (gn_config gn) (gn_config gn') \<and>
     (if map_of (ns_hpas (gn_objects gn)) webhookGatewayDeploymentName = None then ns_pdbs (gn_objects gn') = ns_pdbs (gn_objects gn)
      else map_of (ns_pdbs (gn_objects gn')) webhookGatewayDeploymentName = desiredWebhookGatewayPDB namespace (gn_config gn))"
proof -
  define cfg where "cfg = gn_config gn"
  let ?tls = "tlsConfigOf cfg"
  define gn1 where "gn1 = (case cfg of None \<Rightarrow> gn
      | Some c \<Rightarrow> gn\<lparr>gn_config := Some (reconcileWebhookGatewayConfigStatus env setCond (gn_objects gn) c)\<rparr>)"
  define o0 where "o0 = gn_objects gn"
  have found: "getWebhookGatewayConfig env namespace (gn_config gn) = Inr cfg"
    using assms by (simp add: getWebhookGatewayConfig_def kubeAcceptsD cfg_def)
  have gn1: "gn_objects gn1 = o0" by (simp add: gn1_def o0_def split: option.split)
  obtain xs1 a1 where s1: "ensureAccount env o0 = (None, o0\<lparr>ns_accounts := xs1\<rparr>)"
    "map_of xs1 webhookGatewayDeploymentName = Some a1" using ensureAccount_accepted [OF assms] by blast
  let ?o1 = "o0\<lparr>ns_accounts := xs1\<rparr>"
  obtain xs2 a2 where s2: "ensureRole env ?tls ?o1 = (None, ?o1\<lparr>ns_roles := xs2\<rparr>)"
    "map_of xs2 webhookGatewayDeploymentName = Some a2" "ro_rules a2 = ro_rules (desiredWebhookGatewayRole ?tls)"
    using ensureRole_accepted [OF assms] by blast
  let ?o2 = "?o1\<lparr>ns_roles := xs2\<rparr>"
  obtain xs3 a3 where s3: "ensureBinding env namespace ?o2 = (None, ?o2\<lparr>ns_bindings := xs3\<rparr>)"
    "map_of xs3 webhookGatewayDeploymentName = Some a3" "rb_roleRef a3 = rb_roleRef (desiredWebhookGatewayRoleBinding namespace)"
    "rb_subjects a3 = rb_subjects (desiredWebhookGatewayRoleBinding namespace)" using ensureBinding_accepted [OF assms] by blast
  let ?o3 = "?o2\<lparr>ns_bindings := xs3\<rparr>"
  obtain xs4 a4 where s4: "ensureService env namespace ?tls ?o3 = (None, ?o3\<lparr>ns_services := xs4\<rparr>)"
    "map_of xs4 webhookGatewayDeploymentName = Some a4" "svc_selector a4 = svc_selector (desiredWebhookGatewayService namespace ?tls)"
    "svc_ports a4 = svc_ports (desiredWebhookGatewayService namespace ?tls)" using ensureService_accepted [OF assms] by blast
  let ?o4 = "?o3\<lparr>ns_services := xs4\<rparr>"
  obtain xs5 a5 where s5: "ensureDeployment env getenv namespace ?tls ?o4 = (None, ?o4\<lparr>ns_deployments := xs5\<rparr>)"
    "map_of xs5 webhookGatewayDeploymentName = Some a5" "dp_spec a5 = dp_spec (desiredWebhookGatewayDeployment getenv namespace ?tls)"
    using ensureDeployment_accepted [OF assms] by blast
  let ?o5 = "?o4\<lparr>ns_deployments := xs5\<rparr>"
  obtain hs ps where s6: "ensureHPA env namespace cfg ?o5 = (None, ?o5\<lparr>ns_hpas := hs, ns_pdbs := ps\<rparr>)"
    "hpaMatches namespace cfg (?o5\<lparr>ns_hpas := hs, ns_pdbs := ps\<rparr>)"
    "if map_of (ns_hpas ?o5) webhookGatewayDeploymentName = None then ps = ns_pdbs ?o5
     else map_of ps webhookGatewayDeploymentName = desiredWebhookGatewayPDB namespace cfg"
    using ensureHPA_accepted [OF assms] by blast
  let ?gn' = "gn1\<lparr>gn_objects := ?o5\<lparr>ns_hpas := hs, ns_pdbs := ps\<rparr>\<rparr>"
  have "ensureWebhookGateway env setCond getenv namespace gn = (None, ?gn')"
    unfolding ensureWebhookGateway_def found sum.case Let_def gn1_def [symmetric] by (simp add: gn1 s1 s2 s3 s4 s5 s6)
  moreover have "gatewayServing getenv namespace cfg (gn_objects ?gn')"
    unfolding gatewayServing_def using s1 s2 s3 s4 s5 s6 by auto
  moreover have "rel_option (\<lambda>c c'. gc_tls c = gc_tls c' \<and> gc_hpa c = gc_hpa c' \<and>
      gc_podDisruptionBudget c = gc_podDisruptionBudget c') (gn_config gn) (gn_config ?gn')"
    by (cases cfg) (simp_all add: gn1_def cfg_def)
  ultimately show ?thesis using s6(3) by (auto simp: cfg_def o0_def)
qed

text \<open>A first pass creates the autoscaler and leaves the disruption budgets as they were.\<close>

lemma first_pass_skips_pdb:
  assumes "kubeAccepts env" "map_of (ns_hpas (gn_objects gn)) webhookGatewayDeploymentName = None"
  shows "ns_pdbs (gn_objects (snd (ensureWebhookGateway env setCond getenv namespace gn))) = ns_pdbs (gn_objects gn)"
  using ensureWebhookGateway_accepted [OF assms(1), of setCond getenv namespace gn] assms(2) by auto


definition acceptingServer :: kubeEnv where
  "acceptingServer = \<lparr>kv_get = \<lambda>_ _. None, kv_write = \<lambda>_ _. Accepted\<rparr>"

lemma acceptingServer_accepts: "kubeAccepts acceptingServer"
  by (simp add: acceptingServer_def kubeAccepts_def)

definition emptyObjects :: nsObjects where
  "emptyObjects = \<lparr>ns_accounts = [], ns_roles = [], ns_bindings = [], ns_services = [], ns_deployments = [], ns_hpas = [],
     ns_pdbs = [], ns_secrets = [], ns_policies = [], ns_scaledObjects = []\<rparr>"

definition budgetConfig :: webhookGatewayConfig where
  "budgetConfig = \<lparr>gc_namespace = ''ns'', gc_generation = 1, gc_tls = None, gc_hpa = None,
     gc_podDisruptionBudget = Some (Some ''50%''), gc_conditions = []\<rparr>"


text \<open>Each pass resets the Deployment of the gateway to one replica, whatever count the autoscaler had set on the
  live object: the branch that restores the live count is never taken, since the desired specification always has
  a count of its own.\<close>

theorem gateway_replicas_reset:
  assumes "kubeAccepts env"
  shows "\<exists>gn' d. ensureWebhookGateway env setCond getenv namespace gn = (None, gn') \<and>
           map_of (ns_deployments (gn_objects gn')) webhookGatewayDeploymentName = Some d \<and> ds_replicas (dp_spec d) = Some 1"
proof -
  have "ds_replicas (dp_spec (desiredWebhookGatewayDeployment getenv namespace t)) = Some 1" for t
    by (simp add: desiredWebhookGatewayDeployment_def)
  with ensureWebhookGateway_accepted [OF assms, of setCond getenv namespace gn] show ?thesis
    unfolding gatewayServing_def by metis
qed

definition scaledOut :: nsObjects where
  "scaledOut =
     (let d = desiredWebhookGatewayDeployment (\<lambda>_. []) ''ns'' (tlsConfigOf None)
      in emptyObjects\<lparr>ns_deployments := [(webhookGatewayDeploymentName, d\<lparr>dp_spec := (dp_spec d)\<lparr>ds_replicas := Some 7\<rparr>\<rparr>)]\<rparr>)"

theorem gateway_replicas_reset_witness:
  "\<exists>gn' d. ensureWebhookGateway acceptingServer (\<lambda>cs c. [c]) (\<lambda>_. []) ''ns'' \<lparr>gn_config = None, gn_objects = scaledOut\<rparr> = (None, gn') \<and>
     map_of (ns_deployments (gn_objects gn')) webhookGatewayDeploymentName = Some d \<and> ds_replicas (dp_spec d) = Some 1"
  by (rule gateway_replicas_reset [OF acceptingServer_accepts])

section \<open>Arguments, mounts and privileges\<close>

text \<open>Every reference of the configuration names an object.\<close>

definition refsNamed :: "webhookGatewayConfig option \<Rightarrow> bool" where
  "refsNamed cfg \<longleftrightarrow>
     (case cfg of
        None \<Rightarrow> True
      | Some c \<Rightarrow>
          (case gc_tls c of
             None \<Rightarrow> True
           | Some t \<Rightarrow> wg_serverSecretRef t \<noteq> Some [] \<and> wg_clientCASecretRef t \<noteq> Some [] \<and> wg_crlConfigMapRef t \<noteq> Some []))"

lemma tlsConfigOf_nested:
  assumes "refsNamed cfg"
  shows "tc_mtlsCASecretName (tlsConfigOf cfg) \<noteq> [] \<Longrightarrow> tc_tlsSecretName (tlsConfigOf cfg) \<noteq> []"
    and "tc_crlConfigMapName (tlsConfigOf cfg) \<noteq> [] \<Longrightarrow> tc_mtlsCASecretName (tlsConfigOf cfg) \<noteq> []"
  using assms by (auto simp: refsNamed_def tlsConfigOf_def Let_def split: option.splits)

lemma gateway_role_writes:
  "{r \<in> set (ro_rules (desiredWebhookGatewayRole t)). \<not> set (pr_verbs r) \<subseteq> {''get'', ''list'', ''watch''}} =
   {createRule apiGroupAutomation ''flowruns''}"
  by (auto simp: desiredWebhookGatewayRole_def readRule_def createRule_def)

lemma configmaps_rule_iff:
  "readRule [] ''configmaps'' \<in> set (ro_rules (desiredWebhookGatewayRole t)) \<longleftrightarrow> tc_crlConfigMapName t \<noteq> []"
  by (simp add: desiredWebhookGatewayRole_def readRule_def createRule_def)

text \<open>The gateway is given just the access its arguments need. For every \<^verbatim>\<open>WebhookGatewayConfig\<close> whose references
  have names, the Role lets it read ConfigMaps exactly when the container is told to load a revocation list; it is
  told so only when it also verifies client certificates and serves TLS, with the Secrets of the configuration
  mounted; and no rule of the Role has another verb than reading, except to create FlowRuns.\<close>

theorem gateway_privileges_match_arguments:
  assumes "refsNamed cfg"
  defines "t \<equiv> tlsConfigOf cfg"
  shows "(readRule [] ''configmaps'' \<in> set (ro_rules (desiredWebhookGatewayRole t)) \<longleftrightarrow>
      tc_crlConfigMapName t \<noteq> [] \<and> ''--crl-configmap-name='' @ tc_crlConfigMapName t \<in> set (gatewayArgs namespace t)) \<and>
   (tc_crlConfigMapName t = [] \<or>
      set [''--mtls-ca-file=/etc/webhook-mtls-ca/ca.crt'', ''--tls-cert-file=/etc/webhook-tls/tls.crt''] \<subseteq> set (gatewayArgs namespace t) \<and>
      map (vo_secretName \<circ> snd) (gatewayMounts t) = [tc_tlsSecretName t, tc_mtlsCASecretName t]) \<and>
   {r \<in> set (ro_rules (desiredWebhookGatewayRole t)). \<not> set (pr_verbs r) \<subseteq> {''get'', ''list'', ''watch''}} =
     {createRule apiGroupAutomation ''flowruns''}"
proof (cases "tc_crlConfigMapName t = []")
  case False
  with tlsConfigOf_nested [OF assms(1)] have "tc_mtlsCASecretName t \<noteq> []" "tc_tlsSecretName t \<noteq> []" by (simp_all add: t_def)
  with False have args: "gatewayArgs namespace t =
      [''--port=8080'', ''--namespace='' @ namespace, ''--tls-cert-file=/etc/webhook-tls/tls.crt'',
       ''--tls-key-file=/etc/webhook-tls/tls.key'', ''--mtls-ca-file=/etc/webhook-mtls-ca/ca.crt'',
       ''--crl-configmap-name='' @ tc_crlConfigMapName t]"
    and mounts: "map (vo_secretName \<circ> snd) (gatewayMounts t) = [tc_tlsSecretName t, tc_mtlsCASecretName t]"
    by (simp_all add: gatewayArgs_def gatewayMounts_def)
  show ?thesis
    unfolding gateway_role_writes configmaps_rule_iff args mounts
    by (simp only: False list.set insert_iff insert_subset empty_subsetI simp_thms)
qed (simp add: gateway_role_writes configmaps_rule_iff)

definition crlConfig :: webhookGatewayConfig where
  "crlConfig = budgetConfig\<lparr>gc_tls := Some \<lparr>wg_serverSecretRef = Some ''srv'', wg_clientCASecretRef = Some ''ca'',
     wg_crlConfigMapRef = Some ''crl''\<rparr>\<rparr>"

theorem gateway_privileges_match_arguments_witness:
  "refsNamed (Some crlConfig) \<and> tc_crlConfigMapName (tlsConfigOf (Some crlConfig)) = ''crl'' \<and>
   ''--crl-configmap-name='' @ ''crl'' \<in> set (gatewayArgs ''ns'' (tlsConfigOf (Some crlConfig)))"
proof -
  have r: "refsNamed (Some crlConfig)" and c: "tc_crlConfigMapName (tlsConfigOf (Some crlConfig)) = ''crl''"
    by (simp_all add: refsNamed_def crlConfig_def tlsConfigOf_def Let_def orElse_def)
  note granted = gateway_privileges_match_arguments [OF r, of "''ns''", unfolded configmaps_rule_iff, THEN conjunct1]
  have "tc_crlConfigMapName (tlsConfigOf (Some crlConfig)) \<noteq> []" by (simp add: c)
  from granted [THEN iffD1, OF this, unfolded c, THEN conjunct2] c r show ?thesis by (intro conjI)
qed

section \<open>Cleaning up\<close>

lemma delete_absent: "map_of objs name = None \<Longrightarrow> AList.delete name objs = objs"
  by (induction objs) (auto split: if_splits)

lemma deleteIfExists_accepted:
  "kubeAccepts env \<Longrightarrow> deleteIfExists env kind label objs = (None, AList.delete webhookGatewayDeploymentName objs)"
  by (cases "map_of objs webhookGatewayDeploymentName")
    (simp_all add: deleteIfExists_def getObject_def deleteObject_def kubeAcceptsD delete_absent)

text \<open>The objects other than those of the gateway.\<close>

definition others :: "'o objects \<Rightarrow> string \<Rightarrow> 'o option" where
  "others objs = (map_of objs)(webhookGatewayDeploymentName := None)"

text \<open>An accepted cleanup removes the seven objects of the gateway, and no other object of the namespace.\<close>

lemma cleanupObjects_accepted:
  assumes "kubeAccepts env"
  shows "\<exists>o'. cleanupObjects env objs = (None, o') \<and>
     map_of (ns_deployments o') = others (ns_deployments objs) \<and> map_of (ns_services o') = others (ns_services objs) \<and>
     map_of (ns_accounts o') = others (ns_accounts objs) \<and> map_of (ns_roles o') = others (ns_roles objs) \<and>
     map_of (ns_bindings o') = others (ns_bindings objs) \<and> map_of (ns_hpas o') = others (ns_hpas objs) \<and>
     map_of (ns_pdbs o') = others (ns_pdbs objs) \<and> ns_secrets o' = ns_secrets objs \<and>
     ns_policies o' = ns_policies objs \<and> ns_scaledObjects o' = ns_scaledObjects objs"
  using assms by (simp add: cleanupObjects_def deleteIfExists_accepted others_def delete_conv')

section \<open>Presence\<close>

definition present :: "string \<Rightarrow> 'o objects \<Rightarrow> bool" where
  "present n objs \<longleftrightarrow> map_of objs n \<noteq> None"

lemma writeObject_keeps: "present n objs \<Longrightarrow> present n (snd (writeObject env kind name obj objs))"
  by (simp add: present_def writeObject_def update_conv' split: apiOutcome.split)

lemma createOrUpdate_keeps: "present n objs \<Longrightarrow> present n (snd (createOrUpdate env kind name mutate initial objs))"
  by (simp add: createOrUpdate_def writeObject_keeps Let_def case_prod_beta split: option.split sum.split)

text \<open>The objects a gateway needs to serve; the disruption budget is not one of them.\<close>

definition gatewayPresent :: "nsObjects \<Rightarrow> bool" where
  "gatewayPresent objs \<longleftrightarrow>
     present webhookGatewayDeploymentName (ns_deployments objs) \<and> present webhookGatewayDeploymentName (ns_services objs) \<and>
     present webhookGatewayDeploymentName (ns_accounts objs) \<and> present webhookGatewayDeploymentName (ns_roles objs) \<and>
     present webhookGatewayDeploymentName (ns_bindings objs) \<and> present webhookGatewayDeploymentName (ns_hpas objs)"

lemma ensurePDB_frame: "\<exists>ps. snd (ensurePDB env namespace cfg objs) = objs\<lparr>ns_pdbs := ps\<rparr>"
  by (auto simp: ensurePDB_def wrapStep_def case_prod_beta split: option.split sum.split intro: exI [of _ "ns_pdbs objs"])

lemma ensureHPA_keeps:
  assumes "gatewayPresent objs"
  shows "gatewayPresent (snd (ensureHPA env namespace cfg objs))"
proof -
  have frame: "gatewayPresent (snd (ensurePDB env namespace cfg o1)) = gatewayPresent o1" for o1
    using ensurePDB_frame [of env namespace cfg o1] by (auto simp: gatewayPresent_def)
  have "gatewayPresent (objs\<lparr>ns_hpas := snd (writeObject env kind name obj (ns_hpas objs))\<rparr>)" for kind name obj
    using assms by (simp add: gatewayPresent_def writeObject_keeps)
  then have put: "writeObject env kind name obj (ns_hpas objs) = (e, hs) \<Longrightarrow> gatewayPresent (objs\<lparr>ns_hpas := hs\<rparr>)"
    for kind name obj e hs by (metis snd_conv)
  show ?thesis
    using assms by (auto simp: ensureHPA_def Let_def frame dest: put split: sum.split prod.split option.split)
qed

lemmas ensure_step_defs = ensureAccount_def ensureRole_def ensureBinding_def ensureService_def ensureDeployment_def

lemma ensureWebhookGateway_keeps:
  assumes "gatewayPresent (gn_objects gn)"
  shows "gatewayPresent (gn_objects (snd (ensureWebhookGateway env setCond getenv namespace gn)))"
proof (cases "getWebhookGatewayConfig env namespace (gn_config gn)")
  case (Inr found)
  let ?steps = "[ensureAccount env, ensureRole env (tlsConfigOf found), ensureBinding env namespace,
    ensureService env namespace (tlsConfigOf found), ensureDeployment env getenv namespace (tlsConfigOf found),
    ensureHPA env namespace found]"
  have step: "gatewayPresent (snd (f o1))" if "f \<in> set ?steps" "gatewayPresent o1" for f o1
    using that ensureHPA_keeps [OF that(2)]
    by (auto simp: ensure_step_defs case_prod_beta Let_def gatewayPresent_def createOrUpdate_keeps)
  define gn1 where "gn1 = (case found of None \<Rightarrow> gn
      | Some c \<Rightarrow> gn\<lparr>gn_config := Some (reconcileWebhookGatewayConfigStatus env setCond (gn_objects gn) c)\<rparr>)"
  have "gn_objects gn1 = gn_objects gn" by (simp add: gn1_def split: option.split)
  with untilError_invariant [of gatewayPresent "gn_objects gn1" ?steps] step assms
  have kept: "gatewayPresent (snd (untilError ?steps (gn_objects gn1)))" by simp
  show ?thesis
    using kept unfolding ensureWebhookGateway_def Inr sum.case Let_def gn1_def [symmetric] by (simp add: case_prod_beta)
qed (use assms in \<open>simp add: ensureWebhookGateway_def\<close>)

end
