(* ===== verification/RunCreation.thy ===== *)
theory RunCreation
  imports TriggerTypes FlowRunStore Sha256
begin

text \<open>
  What the event sources share: \<^verbatim>\<open>client.Create\<close> of a FlowRun against the stored FlowRuns, the random suffix of a
  FlowRun name and the key \<^verbatim>\<open>namespace/name\<close> of a Trigger.
\<close>

text \<open>\<^verbatim>\<open>Create\<close>: a rejected request changes nothing; one that reaches the API server fails for a name in use.\<close>

definition storeRun :: "apiOutcome \<Rightarrow> flowRun \<Rightarrow> flowRun list \<Rightarrow> apiError option \<times> flowRun list" where
  "storeRun outcome run runs =
     (let inUse = list_ex (sameRun run) runs
      in case outcome of
           Accepted \<Rightarrow> if inUse then (Some AlreadyExists, runs) else (None, runs @ [run])
         | Rejected e \<Rightarrow> (Some e, runs)
         | AnswerLost e \<Rightarrow> (Some e, if inUse then runs else runs @ [run]))"

lemma storeRun_cases: "snd (storeRun outcome run runs) = runs \<or> snd (storeRun outcome run runs) = runs @ [run]"
  by (auto simp: storeRun_def Let_def split: apiOutcome.split)

lemma storeRun_None: "fst (storeRun outcome run runs) = None \<Longrightarrow> snd (storeRun outcome run runs) = runs @ [run]"
  by (auto simp: storeRun_def Let_def split: apiOutcome.splits if_splits)

lemma storeRun_accepted: "\<not> list_ex (sameRun run) runs \<Longrightarrow> storeRun Accepted run runs = (None, runs @ [run])"
  by (simp add: storeRun_def Let_def)

lemma storeRun_in_use: "list_ex (sameRun run) runs \<Longrightarrow> snd (storeRun outcome run runs) = runs"
  by (simp add: storeRun_def Let_def split: apiOutcome.split)

text \<open>At most one FlowRun of a name is ever stored.\<close>

definition distinctRuns :: "flowRun list \<Rightarrow> bool" where
  "distinctRuns runs \<longleftrightarrow> distinct (map (\<lambda>r. (fr_namespace r, fr_name r)) runs)"

lemma distinctRuns_Nil [simp]: "distinctRuns []"
  by (simp add: distinctRuns_def)

lemma storeRun_distinct: "distinctRuns runs \<Longrightarrow> distinctRuns (snd (storeRun outcome run runs))"
  by (auto simp: storeRun_def Let_def distinctRuns_def list_ex_iff sameRun_def split: apiOutcome.split)

definition objectKey :: "string \<Rightarrow> string \<Rightarrow> string" where
  "objectKey namespace name = namespace @ ''/'' @ name"

text \<open>Names of Kubernetes objects have no slash, so that keys are unambiguous.\<close>

definition noSlash :: "string \<Rightarrow> bool" where
  "noSlash s \<longleftrightarrow> CHR ''/'' \<notin> set s"

lemma noSlash_prefix:
  "noSlash a \<Longrightarrow> noSlash a' \<Longrightarrow> a @ ''/'' @ b = a' @ ''/'' @ b' \<longleftrightarrow> a = a' \<and> b = b'"
proof (induction a arbitrary: a')
  case Nil
  then show ?case by (cases a') (auto simp: noSlash_def)
next
  case (Cons c a)
  then show ?case by (cases a') (auto simp: noSlash_def)
qed

lemma objectKey_inject:
  "noSlash ns \<Longrightarrow> noSlash ns' \<Longrightarrow> objectKey ns n = objectKey ns' n' \<longleftrightarrow> ns = ns' \<and> n = n'"
  by (simp only: objectKey_def noSlash_prefix)

end
