(* ===== verification/ResourceWatcher.thy ===== *)
theory ResourceWatcher
  imports RunCreation Interpolation
begin

text \<open>
  The watcher of \<^verbatim>\<open>type: resource\<close> Triggers (\<^verbatim>\<open>internal/controller/resource_watcher.go\<close>): registration of one watch per
  Trigger, the attempts to start it, the events it turns into FlowRuns and the cooldown per Trigger, resource and kind of
  event. A context is a number, live until it is cancelled. The informers, the discovery API and the label selectors are
  parameters; object names are ASCII.
\<close>

section \<open>Watched objects\<close>

record unstructured =
  un_name :: string
  un_namespace :: string
  un_labels :: smap
  un_object :: json

datatype informerObject = Live unstructured | DeletedFinalStateUnknown "unstructured option" | ForeignObject

definition toUnstructured :: "informerObject \<Rightarrow> unstructured option" where
  "toUnstructured obj = (case obj of Live u \<Rightarrow> Some u | DeletedFinalStateUnknown u \<Rightarrow> u | ForeignObject \<Rightarrow> None)"

datatype watchEventType = Added | Modified | Deleted

definition eventTypeString :: "watchEventType \<Rightarrow> string" where
  "eventTypeString e = (case e of Added \<Rightarrow> ''ADDED'' | Modified \<Rightarrow> ''MODIFIED'' | Deleted \<Rightarrow> ''DELETED'')"

definition parseAPIVersion :: "string \<Rightarrow> string \<times> string" where
  "parseAPIVersion apiVersion =
     (case strIndex apiVersion ''/'' of
        Some i \<Rightarrow> (take i apiVersion, drop (Suc i) apiVersion)
      | None \<Rightarrow> ([], apiVersion))"

definition allowedEventSet :: "string list \<Rightarrow> string list" where
  "allowedEventSet events = (if events = [] then [''create''] else map toLower events)"

text \<open>\<open>nested\<close> is \<^verbatim>\<open>unstructured.NestedFieldNoCopy\<close>, with \<^verbatim>\<open>nil\<close> for an absent field.\<close>

fun fieldsChangedLoop :: "(json \<Rightarrow> string list \<Rightarrow> json) \<Rightarrow> codec \<Rightarrow> unstructured \<Rightarrow> unstructured \<Rightarrow> string list \<Rightarrow> bool" where
  "fieldsChangedLoop nested cd old new [] = False"
| "fieldsChangedLoop nested cd old new (field # rest) =
     (let path = splitOn (CHR ''.'') (trimPrefix field ''.'')
      in if cd_sprintV cd (nested (un_object old) path) \<noteq> cd_sprintV cd (nested (un_object new) path) then True
         else fieldsChangedLoop nested cd old new rest)"

definition fieldsChanged ::
  "(json \<Rightarrow> string list \<Rightarrow> json) \<Rightarrow> codec \<Rightarrow> informerObject \<Rightarrow> informerObject \<Rightarrow> string list \<Rightarrow> bool" where
  "fieldsChanged nested cd oldObj newObj paths =
     (case (toUnstructured oldObj, toUnstructured newObj) of
        (Some old, Some new) \<Rightarrow> fieldsChangedLoop nested cd old new paths
      | _ \<Rightarrow> True)"

definition nameChar :: "char \<Rightarrow> bool" where
  "nameChar c \<longleftrightarrow> (let n = (of_char c :: nat) in (97 \<le> n \<and> n \<le> 122) \<or> (48 \<le> n \<and> n \<le> 57) \<or> c = CHR ''-'')"

definition sanitizeName :: "string \<Rightarrow> string" where
  "sanitizeName s =
     (let result = map (\<lambda>r. if nameChar r then r else CHR ''-'') (toLower s)
      in trimLeftChar (CHR ''-'') (trimRightChar (CHR ''-'') (take 32 result)))"

definition resourceWatcherRandomHex :: "(nat \<Rightarrow> string option) \<Rightarrow> int \<Rightarrow> string" where
  "resourceWatcherRandomHex random n =
     (if n \<le> 0 then []
      else case random (nat ((n + 1) div 2)) of
          None \<Rightarrow> replicate (nat n) (CHR ''0'')
        | Some b \<Rightarrow> take (nat n) (hexEncode b))"

text \<open>\<open>discover\<close> is the discovery client, if there is one: the kinds of a group version with their resource names.\<close>

definition resolvePlural :: "(string \<Rightarrow> (string \<times> string) list option) option \<Rightarrow> string \<Rightarrow> string \<Rightarrow> string" where
  "resolvePlural discover apiVersion kind =
     (let naivePlural = toLower kind @ ''s''
      in case discover of
           None \<Rightarrow> naivePlural
         | Some serverResources \<Rightarrow>
             (case serverResources apiVersion of
                None \<Rightarrow> naivePlural
              | Some l \<Rightarrow> (case map_of l kind of Some n \<Rightarrow> n | None \<Rightarrow> naivePlural)))"

text \<open>Group, version, resource and namespace of the watch.\<close>

definition watchTarget ::
  "(string \<Rightarrow> (string \<times> string) list option) option \<Rightarrow> trigger \<Rightarrow> resourceTrigger \<Rightarrow> (string \<times> string) \<times> string \<times> string" where
  "watchTarget discover trigger spec =
     (parseAPIVersion (rt_apiVersion spec), resolvePlural discover (rt_apiVersion spec) (rt_kind spec),
      if rt_namespace spec = [] then tr_namespace trigger else rt_namespace spec)"

section \<open>Registration\<close>

record resourceWatcher =
  rw_started :: bool
  rw_dynamicClient :: bool
  rw_watchers :: "(string \<times> nat) list"
  rw_live :: "nat list"
  rw_nextContext :: nat
  rw_cooldown :: "(string \<times> time) list"
  rw_runs :: "flowRun list"

definition newResourceWatcher :: "bool \<Rightarrow> flowRun list \<Rightarrow> resourceWatcher" where
  "newResourceWatcher dynamicClient runs =
     \<lparr>rw_started = False, rw_dynamicClient = dynamicClient, rw_watchers = [], rw_live = [], rw_nextContext = 0,
      rw_cooldown = [], rw_runs = runs\<rparr>"

definition startResourceWatcher :: "resourceWatcher \<Rightarrow> resourceWatcher" where
  "startResourceWatcher st = st\<lparr>rw_started := True\<rparr>"

definition deregisterResource :: "string \<Rightarrow> resourceWatcher \<Rightarrow> resourceWatcher" where
  "deregisterResource key st =
     (let st1 = (case map_of (rw_watchers st) key of
                   None \<Rightarrow> st
                 | Some c \<Rightarrow> st\<lparr>rw_live := removeAll c (rw_live st), rw_watchers := AList.delete key (rw_watchers st)\<rparr>)
      in st1\<lparr>rw_cooldown := filter (\<lambda>(k, t). \<not> hasPrefix k (key @ ''/'')) (rw_cooldown st1)\<rparr>)"

definition registerResource :: "trigger \<Rightarrow> resourceWatcher \<Rightarrow> resourceWatcher" where
  "registerResource trigger st =
     (let key = objectKey (tr_namespace trigger) (tr_name trigger); st1 = deregisterResource key st
      in if ts_resource (tr_spec trigger) = None then st1
         else if \<not> rw_dynamicClient st1 then st1
         else if \<not> rw_started st1 then st1
         else st1\<lparr>rw_watchers := AList.update key (rw_nextContext st1) (rw_watchers st1),
                  rw_live := rw_nextContext st1 # rw_live st1, rw_nextContext := Suc (rw_nextContext st1)\<rparr>)"

section \<open>Cooldown entries\<close>

definition cooldownEvictionWindow :: duration where "cooldownEvictionWindow = 3600000000000"

definition cooldownKey :: "trigger \<Rightarrow> unstructured \<Rightarrow> watchEventType \<Rightarrow> string" where
  "cooldownKey trigger u e =
     tr_namespace trigger @ ''/'' @ tr_name trigger @ ''/'' @ un_namespace u @ ''/'' @ un_name u @ ''/'' @
     toLower (eventTypeString e)"

text \<open>One tick of \<^verbatim>\<open>runCooldownEviction\<close>.\<close>

definition evictCooldown :: "time \<Rightarrow> resourceWatcher \<Rightarrow> resourceWatcher" where
  "evictCooldown now st =
     st\<lparr>rw_cooldown := filter (\<lambda>(k, t). \<not> t < now - cooldownEvictionWindow) (rw_cooldown st)\<rparr>"

section \<open>Events\<close>

text \<open>The clock is read to compare with the last event, to record this one and to name the FlowRun.\<close>

record resourceEnv =
  rv_since :: time
  rv_now :: time
  rv_unix :: int
  rv_random :: "nat \<Rightarrow> string option"
  rv_create :: apiOutcome

record watchLib =
  wl_codec :: codec
  wl_nested :: "json \<Rightarrow> string list \<Rightarrow> json"
  wl_selector :: "labelSelector \<Rightarrow> (smap \<Rightarrow> bool) option"

definition resourceRun :: "watchLib \<Rightarrow> resourceEnv \<Rightarrow> trigger \<Rightarrow> resourceTrigger \<Rightarrow> unstructured \<Rightarrow> watchEventType \<Rightarrow> flowRun" where
  "resourceRun lib env trigger spec u e =
     triggeredRun
       (tr_name trigger @ ''-'' @ sanitizeName (un_name u) @ ''-'' @ toLower (eventTypeString e) @ ''-'' @
        showInt (rv_unix env) @ ''-'' @ resourceWatcherRandomHex (rv_random env) 4)
       (tr_namespace trigger) (tr_name trigger) ''resource'' (ts_flowRef (tr_spec trigger)) []
       (emptyTriggerData\<lparr>td_eventType := eventTypeString e, td_resourceName := un_name u,
          td_resourceNamespace := un_namespace u, td_resourceAPIVersion := rt_apiVersion spec,
          td_resourceKind := rt_kind spec,
          td_body := (case cd_marshal (wl_codec lib) (un_object u) of Some b \<Rightarrow> b | None \<Rightarrow> [])\<rparr>)"

definition selected :: "watchLib \<Rightarrow> resourceTrigger \<Rightarrow> unstructured \<Rightarrow> bool" where
  "selected lib spec u =
     (case rt_labelSelector spec of
        None \<Rightarrow> True
      | Some ls \<Rightarrow> (case wl_selector lib ls of None \<Rightarrow> True | Some matches \<Rightarrow> matches (un_labels u)))"

definition createResourceRun ::
  "watchLib \<Rightarrow> resourceEnv \<Rightarrow> trigger \<Rightarrow> resourceTrigger \<Rightarrow> unstructured \<Rightarrow> watchEventType \<Rightarrow> resourceWatcher \<Rightarrow>
   resourceWatcher" where
  "createResourceRun lib env trigger spec u e st =
     (if ts_flowRef (tr_spec trigger) = [] then st
      else st\<lparr>rw_runs := snd (storeRun (rv_create env) (resourceRun lib env trigger spec u e) (rw_runs st))\<rparr>)"

definition handleEvent ::
  "watchLib \<Rightarrow> resourceEnv \<Rightarrow> trigger \<Rightarrow> resourceTrigger \<Rightarrow> informerObject \<Rightarrow> watchEventType \<Rightarrow> resourceWatcher \<Rightarrow>
   resourceWatcher" where
  "handleEvent lib env trigger spec obj e st =
     (case toUnstructured obj of
        None \<Rightarrow> st
      | Some u \<Rightarrow>
          if \<not> selected lib spec u then st
          else (case rt_cooldown spec of
              None \<Rightarrow> createResourceRun lib env trigger spec u e st
            | Some d \<Rightarrow>
                if d \<le> 0 then createResourceRun lib env trigger spec u e st
                else (let key = cooldownKey trigger u e
                      in case map_of (rw_cooldown st) key of
                           None \<Rightarrow>
                             createResourceRun lib env trigger spec u e
                               (st\<lparr>rw_cooldown := AList.update key (rv_now env) (rw_cooldown st)\<rparr>)
                         | Some t \<Rightarrow>
                             if rv_since env - t < d then st
                             else createResourceRun lib env trigger spec u e
                                    (st\<lparr>rw_cooldown := AList.update key (rv_now env) (rw_cooldown st)\<rparr>))))"

datatype informerEvent =
    AddFunc informerObject
  | UpdateFunc informerObject informerObject
  | DeleteFunc informerObject

definition onInformerEvent ::
  "watchLib \<Rightarrow> resourceEnv \<Rightarrow> trigger \<Rightarrow> resourceTrigger \<Rightarrow> informerEvent \<Rightarrow> resourceWatcher \<Rightarrow> resourceWatcher" where
  "onInformerEvent lib env trigger spec ev st =
     (let allowed = allowedEventSet (rt_events spec)
      in case ev of
           AddFunc obj \<Rightarrow> if ''create'' \<notin> set allowed then st else handleEvent lib env trigger spec obj Added st
         | UpdateFunc old new \<Rightarrow>
             if ''update'' \<notin> set allowed then st
             else if rt_watchFields spec \<noteq> [] \<and>
                     \<not> fieldsChanged (wl_nested lib) (wl_codec lib) old new (rt_watchFields spec) then st
             else handleEvent lib env trigger spec new Modified st
         | DeleteFunc obj \<Rightarrow> if ''delete'' \<notin> set allowed then st else handleEvent lib env trigger spec obj Deleted st)"

section \<open>Starting a watch\<close>

text \<open>What one attempt meets: the event handler is refused, the context is cancelled while the cache syncs, the cache
  syncs, or it does not sync and the context is cancelled, or not, during the pause that follows.\<close>

datatype syncAnswer = HandlerRefused | CancelledInSync | CacheSynced | SyncFailed bool

datatype watcherEnd = WatcherReturned | WatcherServing | WatcherGaveUp

definition maxSyncAttempts :: nat where "maxSyncAttempts = 5"

text \<open>\<open>left\<close> counts the attempts left after this one; the second component lists the pauses.\<close>

fun watchAttempts :: "(nat \<Rightarrow> syncAnswer) \<Rightarrow> nat \<Rightarrow> nat \<Rightarrow> duration \<Rightarrow> watcherEnd \<times> duration list" where
  "watchAttempts answer attempt 0 backoff =
     (case answer attempt of
        HandlerRefused \<Rightarrow> (WatcherReturned, [])
      | CancelledInSync \<Rightarrow> (WatcherReturned, [])
      | CacheSynced \<Rightarrow> (WatcherServing, [])
      | SyncFailed _ \<Rightarrow> (WatcherGaveUp, []))"
| "watchAttempts answer attempt (Suc left) backoff =
     (case answer attempt of
        HandlerRefused \<Rightarrow> (WatcherReturned, [])
      | CancelledInSync \<Rightarrow> (WatcherReturned, [])
      | CacheSynced \<Rightarrow> (WatcherServing, [])
      | SyncFailed cancelled \<Rightarrow>
          if cancelled then (WatcherReturned, [backoff])
          else (case watchAttempts answer (Suc attempt) left (backoff * 2) of (r, pauses) \<Rightarrow> (r, backoff # pauses)))"

definition runWatcher :: "(nat \<Rightarrow> syncAnswer) \<Rightarrow> watcherEnd \<times> duration list" where
  "runWatcher answer = watchAttempts answer 1 (maxSyncAttempts - 1) 1000000000"

text \<open>What the goroutine does to the state when it ends.\<close>

definition watcherEnded :: "trigger \<Rightarrow> watcherEnd \<Rightarrow> resourceWatcher \<Rightarrow> resourceWatcher" where
  "watcherEnded trigger r st =
     (if r = WatcherGaveUp then deregisterResource (objectKey (tr_namespace trigger) (tr_name trigger)) st else st)"

section \<open>The cooldown\<close>

text \<open>What happens between two registrations of a Trigger: events and eviction ticks.\<close>

datatype resourceEvent =
    ResourceEvent resourceEnv trigger resourceTrigger informerObject watchEventType
  | EvictionTick time

fun resourceStep :: "watchLib \<Rightarrow> resourceEvent \<Rightarrow> resourceWatcher \<Rightarrow> resourceWatcher" where
  "resourceStep lib (ResourceEvent env trigger spec obj e) st = handleEvent lib env trigger spec obj e st"
| "resourceStep lib (EvictionTick now) st = evictCooldown now st"

abbreviation resourceSteps :: "watchLib \<Rightarrow> resourceEvent list \<Rightarrow> resourceWatcher \<Rightarrow> resourceWatcher" where
  "resourceSteps lib \<equiv> fold (resourceStep lib)"

fun stepKey :: "resourceEvent \<Rightarrow> string option" where
  "stepKey (ResourceEvent env trigger spec obj e) = map_option (\<lambda>u. cooldownKey trigger u e) (toUnstructured obj)"
| "stepKey (EvictionTick now) = None"

text \<open>The step happens before \<open>t\<close>, and an event of the key has the cooldown \<open>d\<close>.\<close>

fun stepWithin :: "string \<Rightarrow> duration \<Rightarrow> time \<Rightarrow> resourceEvent \<Rightarrow> bool" where
  "stepWithin key d t (ResourceEvent env trigger spec obj e) \<longleftrightarrow>
     rv_since env < t \<and> (stepKey (ResourceEvent env trigger spec obj e) = Some key \<longrightarrow> rt_cooldown spec = Some d)"
| "stepWithin key d t (EvictionTick now) \<longleftrightarrow> now < t"

lemma map_of_filter_True: "map_of xs k = Some v \<Longrightarrow> P (k, v) \<Longrightarrow> map_of (filter P xs) k = Some v"
  by (induction xs) (auto split: if_splits)

lemma createResourceRun_cooldown [simp]:
  "rw_cooldown (createResourceRun lib env trigger spec u e st) = rw_cooldown st"
  by (simp add: createResourceRun_def)

lemma handleEvent_other_key:
  assumes "stepKey (ResourceEvent env trigger spec obj e) \<noteq> Some key"
  shows "map_of (rw_cooldown (handleEvent lib env trigger spec obj e st)) key = map_of (rw_cooldown st) key"
  using assms by (auto simp: handleEvent_def Let_def update_conv' split: option.split)

lemma handleEvent_suppressed:
  assumes "stepKey (ResourceEvent env trigger spec obj e) = Some key" "map_of (rw_cooldown st) key = Some t"
    "rt_cooldown spec = Some d" "0 < d" "rv_since env < t + d"
  shows "handleEvent lib env trigger spec obj e st = st"
  using assms by (auto simp: handleEvent_def Let_def split: option.splits)

lemma evictCooldown_keeps:
  assumes "map_of (rw_cooldown st) key = Some t" "now < t + d" "d \<le> cooldownEvictionWindow"
  shows "map_of (rw_cooldown (evictCooldown now st)) key = Some t"
  using assms by (auto simp: evictCooldown_def intro!: map_of_filter_True)

lemma resourceStep_within:
  assumes entry: "map_of (rw_cooldown st) key = Some t" and d: "0 < d" "d \<le> cooldownEvictionWindow"
    and within: "stepWithin key d (t + d) x"
  shows "map_of (rw_cooldown (resourceStep lib x st)) key = Some t \<and> (stepKey x = Some key \<longrightarrow> resourceStep lib x st = st)"
proof (cases x)
  case (EvictionTick now)
  with entry within d show ?thesis by (auto intro: evictCooldown_keeps)
next
  case (ResourceEvent env trigger spec obj e)
  show ?thesis
  proof (cases "stepKey x = Some key")
    case True
    with ResourceEvent within have "rt_cooldown spec = Some d" "rv_since env < t + d" by auto
    with True ResourceEvent entry d have "resourceStep lib x st = st"
      using handleEvent_suppressed [of env trigger spec obj e key st t d lib] by simp
    with entry show ?thesis by simp
  next
    case False
    with ResourceEvent entry show ?thesis using handleEvent_other_key [of env trigger spec obj e key lib st] by auto
  qed
qed

text \<open>While the Trigger stays registered, an event that falls within the cooldown of an earlier event of the same
  Trigger, resource and kind has no effect, whatever other events and eviction ticks happen in between. The cooldown must
  not exceed the eviction window of one hour.\<close>

theorem resource_cooldown_suppresses:
  assumes "map_of (rw_cooldown st) key = Some t" and "0 < d" "d \<le> cooldownEvictionWindow"
    and "\<forall>x \<in> set steps. stepWithin key d (t + d) x"
  shows "resourceSteps lib steps st = resourceSteps lib (filter (\<lambda>x. stepKey x \<noteq> Some key) steps) st"
  using assms
proof (induction steps arbitrary: st)
  case (Cons x steps)
  from Cons.prems have x: "map_of (rw_cooldown (resourceStep lib x st)) key = Some t"
    "stepKey x = Some key \<longrightarrow> resourceStep lib x st = st"
    using resourceStep_within [of st key t d x lib] by auto
  from Cons.prems have "resourceSteps lib steps (resourceStep lib x st) =
      resourceSteps lib (filter (\<lambda>x. stepKey x \<noteq> Some key) steps) (resourceStep lib x st)"
    by (intro Cons.IH x(1)) auto
  with x(2) show ?case by simp
qed simp

section \<open>Registration and the cooldown\<close>

lemma deregisterResource_cooldown:
  "map_of (rw_cooldown (deregisterResource key st)) k =
     (if hasPrefix k (key @ ''/'') then None else map_of (rw_cooldown st) k)"
proof -
  have "map_of (filter (\<lambda>(k, t). \<not> hasPrefix k p) xs) k = (if hasPrefix k p then None else map_of xs k)" for p and xs :: "(string \<times> time) list"
    by (induction xs) auto
  then show ?thesis by (simp add: deregisterResource_def Let_def split: option.split)
qed

lemma registerResource_cooldown:
  "rw_cooldown (registerResource trigger st) =
     rw_cooldown (deregisterResource (objectKey (tr_namespace trigger) (tr_name trigger)) st)"
  by (simp add: registerResource_def Let_def)

lemma registerResource_runs: "rw_runs (registerResource trigger st) = rw_runs st"
  by (simp add: registerResource_def deregisterResource_def Let_def split: option.split)

lemma cooldownKey_prefix: "hasPrefix (cooldownKey trigger u e) (objectKey (tr_namespace trigger) (tr_name trigger) @ ''/'')"
  by (auto simp: cooldownKey_def objectKey_def hasPrefix_iff)

lemma cooldownKey_other:
  assumes "noSlash (tr_namespace trigger)" "noSlash (tr_name trigger)" "noSlash ns" "noSlash n"
  shows "hasPrefix (cooldownKey trigger u e) (objectKey ns n @ ''/'') \<longleftrightarrow> ns = tr_namespace trigger \<and> n = tr_name trigger"
proof -
  have "hasPrefix (cooldownKey trigger u e) (objectKey ns n @ ''/'') \<longleftrightarrow>
      (\<exists>r. tr_namespace trigger @ ''/'' @ (tr_name trigger @ ''/'' @ (un_namespace u @ ''/'' @ un_name u @ ''/'' @
         toLower (eventTypeString e))) = ns @ ''/'' @ (n @ ''/'' @ r))"
    by (auto simp: hasPrefix_iff cooldownKey_def objectKey_def)
  then show ?thesis using assms by (auto simp only: noSlash_prefix)
qed

text \<open>Removing a Trigger forgets exactly its own cooldown entries, for names without a slash.\<close>

theorem deregister_forgets_own_cooldown:
  assumes "noSlash (tr_namespace trigger)" "noSlash (tr_name trigger)" "noSlash ns" "noSlash n"
  shows "map_of (rw_cooldown (deregisterResource (objectKey ns n) st)) (cooldownKey trigger u e) =
           (if ns = tr_namespace trigger \<and> n = tr_name trigger then None
            else map_of (rw_cooldown st) (cooldownKey trigger u e))"
  by (simp only: deregisterResource_cooldown cooldownKey_other [OF assms])

text \<open>Registering a Trigger again, which every reconcile of it does, forgets its cooldown: an event that the cooldown
  would suppress creates a FlowRun.\<close>

theorem reregistration_resets_cooldown:
  assumes "toUnstructured obj = Some u" "selected lib spec u" "ts_flowRef (tr_spec trigger) \<noteq> []" "rv_create env = Accepted"
    and "\<not> list_ex (sameRun (resourceRun lib env trigger spec u e)) (rw_runs st)"
  shows "rw_runs (handleEvent lib env trigger spec obj e (registerResource trigger st)) =
           rw_runs st @ [resourceRun lib env trigger spec u e]"
proof -
  have "map_of (rw_cooldown (registerResource trigger st)) (cooldownKey trigger u e) = None"
    by (simp add: registerResource_cooldown deregisterResource_cooldown cooldownKey_prefix)
  with assms show ?thesis
    by (simp add: handleEvent_def createResourceRun_def Let_def registerResource_runs storeRun_accepted split: option.split)
qed

section \<open>Names\<close>

lemma set_dropWhile_subset: "set (dropWhile P xs) \<subseteq> set xs"
  by (induction xs) auto

lemma last_dropWhile_eq: "dropWhile P xs \<noteq> [] \<Longrightarrow> last (dropWhile P xs) = last xs"
  by (induction xs) auto

text \<open>The part of a FlowRun name that comes from the resource has at most 32 characters, all of them lower-case
  letters, digits or dashes, and neither starts nor ends with a dash.\<close>

theorem sanitizeName_is_label:
  "length (sanitizeName s) \<le> 32 \<and> list_all nameChar (sanitizeName s) \<and>
   (sanitizeName s = [] \<or> hd (sanitizeName s) \<noteq> CHR ''-'' \<and> last (sanitizeName s) \<noteq> CHR ''-'')"
proof -
  define r where "r = take 32 (map (\<lambda>r. if nameChar r then r else CHR ''-'') (toLower s))"
  define m where "m = trimRightChar (CHR ''-'') r"
  have san: "sanitizeName s = dropWhile (\<lambda>x. x = CHR ''-'') m"
    by (simp add: sanitizeName_def r_def m_def trimLeftChar_def)
  have dash: "nameChar (CHR ''-'')" by (simp add: nameChar_def)
  have ok: "set r \<subseteq> Collect nameChar" unfolding r_def by (auto dest!: in_set_takeD simp: dash)
  have m: "set m \<subseteq> set r" "length m \<le> length r" and m_last: "m \<noteq> [] \<Longrightarrow> last m \<noteq> CHR ''-''"
    unfolding m_def trimRightChar_def
    using set_dropWhile_subset [of "\<lambda>x. x = CHR ''-''" "rev r"] length_dropWhile_le [of "\<lambda>x. x = CHR ''-''" "rev r"]
      hd_dropWhile [of "\<lambda>x. x = CHR ''-''" "rev r"] by (auto simp: last_rev)
  have "length (sanitizeName s) \<le> 32"
    using m(2) length_dropWhile_le [of "\<lambda>x. x = CHR ''-''" m] by (simp add: san r_def)
  moreover have "list_all nameChar (sanitizeName s)"
    using m(1) ok set_dropWhile_subset [of "\<lambda>x. x = CHR ''-''" m] by (auto simp: san list_all_iff)
  moreover have "sanitizeName s = [] \<or> hd (sanitizeName s) \<noteq> CHR ''-'' \<and> last (sanitizeName s) \<noteq> CHR ''-''"
  proof (cases "sanitizeName s = []")
    case False
    then have "m \<noteq> []" by (auto simp: san)
    with False show ?thesis
      using hd_dropWhile [of "\<lambda>x. x = CHR ''-''" m] last_dropWhile_eq [of "\<lambda>x. x = CHR ''-''" m] m_last by (simp add: san)
  qed simp
  ultimately show ?thesis by blast
qed

section \<open>Starting and giving up\<close>

text \<open>A watch makes at most five attempts, pausing 1, 2, 4 and 8 seconds; one whose cache never syncs gives up after
  exactly these.\<close>

lemma watchAttempts_pauses: "length (snd (watchAttempts answer a left b)) \<le> left"
  by (induction answer a left b rule: watchAttempts.induct) (auto split: syncAnswer.split prod.split)

lemma runWatcher_gives_up:
  assumes "\<And>n. answer n = SyncFailed False"
  shows "runWatcher answer = (WatcherGaveUp, [1000000000, 2000000000, 4000000000, 8000000000])"
  using assms by (simp add: runWatcher_def maxSyncAttempts_def eval_nat_numeral)

lemma runWatcher_bounded: "length (snd (runWatcher answer)) \<le> 4"
  using watchAttempts_pauses [of answer 1 4 1000000000] by (simp add: runWatcher_def maxSyncAttempts_def)

text \<open>The goroutine that gives up removes the entry of its key without looking whose it is: a watch registered since its
  last look at the context is cancelled with it.\<close>

lemma deregisterResource_removes:
  assumes "map_of (rw_watchers st) key = Some c"
  shows "map_of (rw_watchers (deregisterResource key st)) key = None \<and> c \<notin> set (rw_live (deregisterResource key st))"
  using assms by (simp add: deregisterResource_def Let_def delete_conv')

lemma registerResource_watches:
  assumes "rw_started st" "rw_dynamicClient st" "ts_resource (tr_spec trigger) \<noteq> None"
  shows "\<exists>c. map_of (rw_watchers (registerResource trigger st)) (objectKey (tr_namespace trigger) (tr_name trigger)) = Some c \<and>
             c \<in> set (rw_live (registerResource trigger st))"
proof -
  have "rw_started (deregisterResource k st) = rw_started st" "rw_dynamicClient (deregisterResource k st) = rw_dynamicClient st" for k
    by (simp_all add: deregisterResource_def Let_def split: option.split)
  with assms show ?thesis by (auto simp: registerResource_def Let_def update_conv')
qed

lemma late_giveup_cancels_successor:
  assumes "rw_started st" "rw_dynamicClient st" "ts_resource (tr_spec trigger) \<noteq> None"
  defines "key \<equiv> objectKey (tr_namespace trigger) (tr_name trigger)"
  shows "\<exists>c. map_of (rw_watchers (registerResource trigger st)) key = Some c \<and>
             c \<in> set (rw_live (registerResource trigger st)) \<and>
             map_of (rw_watchers (watcherEnded trigger WatcherGaveUp (registerResource trigger st))) key = None \<and>
             c \<notin> set (rw_live (watcherEnded trigger WatcherGaveUp (registerResource trigger st)))"
  using registerResource_watches [OF assms(1-3)] deregisterResource_removes
  unfolding watcherEnded_def key_def by fastforce

section \<open>Witnesses\<close>

definition exampleObject :: unstructured where
  "exampleObject = \<lparr>un_name = ''web'', un_namespace = ''team'', un_labels = [], un_object = JNull\<rparr>"

definition exampleResource :: resourceTrigger where
  "exampleResource =
     \<lparr>rt_apiVersion = ''v1'', rt_kind = ''Pod'', rt_namespace = [], rt_labelSelector = None, rt_events = [],
      rt_watchFields = [], rt_cooldown = Some 60\<rparr>"

definition exampleResourceTrigger :: trigger where
  "exampleResourceTrigger =
     \<lparr>tr_name = ''pods'', tr_namespace = ''team'', tr_generation = 1, tr_deletionTimestamp = None, tr_finalizers = [],
      tr_spec = \<lparr>ts_type = ''resource'', ts_enabled = True, ts_webhook = None, ts_cron = None, ts_kafka = None, ts_amqp = None,
        ts_nats = None, ts_plugin = None, ts_resource = Some exampleResource, ts_flowRef = ''f'', ts_event = [],
        ts_cooldown = None, ts_flowRunGC = None\<rparr>,
      tr_status = \<lparr>tt_conditions = [], tt_lastTriggeredTime = None, tt_lastResult = [], tt_lastError = [],
        tt_currentInvocationCount = 0\<rparr>\<rparr>"

definition exampleWatchLib :: watchLib where
  "exampleWatchLib =
     \<lparr>wl_codec = exampleCodec, wl_nested = (\<lambda>j p. JNull), wl_selector = (\<lambda>s. None)\<rparr>"

definition exampleResourceEnv :: "time \<Rightarrow> resourceEnv" where
  "exampleResourceEnv t =
     \<lparr>rv_since = t, rv_now = t, rv_unix = t, rv_random = (\<lambda>n. None), rv_create = Accepted\<rparr>"

lemmas resource_example_defs =
  exampleObject_def exampleResource_def exampleResourceTrigger_def exampleWatchLib_def exampleResourceEnv_def

definition exampleWatching :: resourceWatcher where
  "exampleWatching =
     handleEvent exampleWatchLib (exampleResourceEnv 100) exampleResourceTrigger exampleResource (Live exampleObject) Added
       (startResourceWatcher (newResourceWatcher True []))"

lemma exampleWatching_state:
  "rw_cooldown exampleWatching = [(cooldownKey exampleResourceTrigger exampleObject Added, 100)]"
  "rw_runs exampleWatching = [resourceRun exampleWatchLib (exampleResourceEnv 100) exampleResourceTrigger exampleResource exampleObject Added]"
  by (simp_all add: exampleWatching_def handleEvent_def toUnstructured_def selected_def createResourceRun_def storeRun_def startResourceWatcher_def
      newResourceWatcher_def resource_example_defs Let_def)

theorem resource_cooldown_suppresses_witness:
  "map_of (rw_cooldown exampleWatching) (cooldownKey exampleResourceTrigger exampleObject Added) = Some 100 \<and>
   resourceSteps exampleWatchLib
     [EvictionTick 150, ResourceEvent (exampleResourceEnv 159) exampleResourceTrigger exampleResource (Live exampleObject) Added]
     exampleWatching = evictCooldown 150 exampleWatching"
proof -
  have "resourceSteps exampleWatchLib
     [EvictionTick 150, ResourceEvent (exampleResourceEnv 159) exampleResourceTrigger exampleResource (Live exampleObject) Added]
     exampleWatching = resourceSteps exampleWatchLib
     (filter (\<lambda>x. stepKey x \<noteq> Some (cooldownKey exampleResourceTrigger exampleObject Added))
       [EvictionTick 150, ResourceEvent (exampleResourceEnv 159) exampleResourceTrigger exampleResource (Live exampleObject) Added])
     exampleWatching"
    by (rule resource_cooldown_suppresses [where t = 100 and d = 60])
      (simp_all add: exampleWatching_state exampleResourceEnv_def exampleResource_def cooldownEvictionWindow_def)
  then show ?thesis by (simp add: exampleWatching_state toUnstructured_def)
qed

theorem deregister_forgets_own_cooldown_witness:
  "map_of (rw_cooldown (deregisterResource (objectKey ''team'' ''pod'') exampleWatching))
     (cooldownKey exampleResourceTrigger exampleObject Added) = Some 100"
proof -
  have "noSlash ''team''" "noSlash ''pods''" "noSlash ''pod''" by (simp_all add: noSlash_def)
  then show ?thesis
    using deregister_forgets_own_cooldown [of exampleResourceTrigger "''team''" "''pod''" exampleWatching exampleObject Added]
    by (simp add: exampleWatching_state exampleResourceTrigger_def)
qed

theorem reregistration_resets_cooldown_witness:
  "length (rw_runs (handleEvent exampleWatchLib (exampleResourceEnv 101) exampleResourceTrigger exampleResource
     (Live exampleObject) Added (registerResource exampleResourceTrigger exampleWatching))) = 2"
proof -
  have "\<not> list_ex (sameRun (resourceRun exampleWatchLib (exampleResourceEnv 101) exampleResourceTrigger exampleResource exampleObject Added))
      (rw_runs exampleWatching)"
    unfolding exampleWatching_state by code_simp
  then show ?thesis
    using reregistration_resets_cooldown [of "Live exampleObject" exampleObject exampleWatchLib exampleResource
        exampleResourceTrigger "exampleResourceEnv 101" Added exampleWatching]
    by (simp add: exampleWatching_state toUnstructured_def selected_def resource_example_defs)
qed

end
