(* ===== verification/TriggerReconcile.thy ===== *)
theory TriggerReconcile
  imports GatewayDeployment CronScheduler ResourceWatcher IntegrationTypes
begin

text \<open>
  The Trigger controller (\<^verbatim>\<open>internal/controller/trigger_controller.go\<close>, \<^verbatim>\<open>trigger_credential_condition.go\<close>,
  \<^verbatim>\<open>trigger_plugin.go\<close>). The state is what a reconcile of one namespace reads and writes: the Triggers and
  Events of the namespace, the objects of its webhook gateway, and the process's cron scheduler and resource
  watcher, either of which may be absent. The answers of the API server, the clock,
  \<^verbatim>\<open>meta.SetStatusCondition\<close> and the parser of cron expressions are the fields of \<open>triggerEnv\<close>; \<open>tv_refetch\<close>
  answers the second read of the Trigger.
\<close>

section \<open>State\<close>

record kubeEvent =
  ke_involvedKind :: string
  ke_involvedNamespace :: string
  ke_involvedName :: string
  ke_namespace :: string
  ke_reason :: string
  ke_message :: msg
  ke_lastTimestamp :: "time option"
  ke_eventTime :: "time option"
  ke_creationTimestamp :: time

record triggerEnv =
  tv_kube :: kubeEnv
  tv_refetch :: "apiError option"
  tv_listTriggers :: "apiError option"
  tv_listEvents :: "apiError option"
  tv_integration :: "string \<Rightarrow> apiError + integration"
  tv_parse :: "string \<Rightarrow> msg option"
  tv_setCondition :: "condition list \<Rightarrow> condition \<Rightarrow> condition list"
  tv_getenv :: "string \<Rightarrow> string"
  tv_now :: "string \<Rightarrow> time"

record triggerSystem =
  sy_triggers :: "trigger objects"
  sy_events :: "kubeEvent list"
  sy_gateway :: gatewayNamespace
  sy_cron :: "cronScheduler option"
  sy_watcher :: "resourceWatcher option"

definition cronTriggerFinalizer :: string where "cronTriggerFinalizer = ''cron.kubezap.io/scheduler-cleanup''"
definition resourceTriggerFinalizer :: string where "resourceTriggerFinalizer = ''resource.kubezap.io/watcher-cleanup''"
definition triggerTypeResource :: string where "triggerTypeResource = ''resource''"
definition triggerTypeKafka :: string where "triggerTypeKafka = ''kafka''"
definition triggerTypeAmqp :: string where "triggerTypeAmqp = ''amqp''"
definition triggerTypeNats :: string where "triggerTypeNats = ''nats''"
definition triggerTypePlugin :: string where "triggerTypePlugin = ''plugin''"
definition integrationTypePlugin :: string where "integrationTypePlugin = ''plugin''"
definition pluginIntegrationRecheckInterval :: duration where "pluginIntegrationRecheckInterval = 30000000000"

text \<open>\<^verbatim>\<open>r.Update\<close>: an object that is marked for deletion goes with its last finalizer.\<close>

definition updateTrigger :: "triggerEnv \<Rightarrow> trigger \<Rightarrow> triggerSystem \<Rightarrow> msg option \<times> triggerSystem" where
  "updateTrigger env trg s =
     (let stored = (if tr_deletionTimestamp trg \<noteq> None \<and> tr_finalizers trg = []
                    then AList.delete (tr_name trg) (sy_triggers s)
                    else AList.update (tr_name trg) trg (sy_triggers s))
      in case kv_write (tv_kube env) ''Trigger'' (tr_name trg) of
           Accepted \<Rightarrow> (None, s\<lparr>sy_triggers := stored\<rparr>)
         | Rejected e \<Rightarrow> (Some (apiErrorMsg e), s)
         | AnswerLost e \<Rightarrow> (Some (apiErrorMsg e), s\<lparr>sy_triggers := stored\<rparr>))"

section \<open>Conditions\<close>

fun setTriggerCondition :: "time \<Rightarrow> condition \<Rightarrow> condition list \<Rightarrow> condition list" where
  "setTriggerCondition now c [] =
     [c\<lparr>cond_lastTransitionTime := (if cond_lastTransitionTime c = None then Some now else cond_lastTransitionTime c)\<rparr>]"
| "setTriggerCondition now c (x # xs) =
     (if cond_type x = cond_type c then
        c\<lparr>cond_lastTransitionTime := (if cond_status x \<noteq> cond_status c then Some now else cond_lastTransitionTime x)\<rparr> # xs
      else x # setTriggerCondition now c xs)"

definition triggerCondition :: "string \<Rightarrow> string \<Rightarrow> string \<Rightarrow> msg \<Rightarrow> int \<Rightarrow> condition" where
  "triggerCondition type status reason m generation =
     \<lparr>cond_type = type, cond_status = status, cond_reason = reason, cond_message = m,
      cond_lastTransitionTime = None, cond_observedGeneration = generation\<rparr>"

definition conditionTypeCredentialResolutionFailed :: string where
  "conditionTypeCredentialResolutionFailed = ''CredentialResolutionFailed''"
definition reasonCredentialResolutionFailed :: string where
  "reasonCredentialResolutionFailed = ''CredentialResolutionFailed''"
definition reasonCredentialResolutionSucceeded :: string where
  "reasonCredentialResolutionSucceeded = ''CredentialResolutionSucceeded''"
definition eventInvolvedObjectTriggerKind :: string where "eventInvolvedObjectTriggerKind = ''Trigger''"

definition indexEventsByInvolvedTriggerName :: "kubeEvent \<Rightarrow> string list" where
  "indexEventsByInvolvedTriggerName evt =
     (if ke_involvedKind evt \<noteq> eventInvolvedObjectTriggerKind then [] else [ke_involvedName evt])"

definition credentialReason :: "string \<Rightarrow> bool" where
  "credentialReason reason \<longleftrightarrow> reason = reasonCredentialResolutionFailed \<or> reason = reasonCredentialResolutionSucceeded"

text \<open>The request of an Event: the namespace and the name of the Trigger to reconcile.\<close>

definition enqueueTriggerForCredentialEvent :: "kubeEvent \<Rightarrow> (string \<times> string) list" where
  "enqueueTriggerForCredentialEvent evt =
     (if ke_involvedKind evt \<noteq> eventInvolvedObjectTriggerKind then []
      else if \<not> credentialReason (ke_reason evt) then []
      else [(ke_involvedNamespace evt, ke_involvedName evt)])"

definition eventTimestamp :: "kubeEvent \<Rightarrow> time" where
  "eventTimestamp evt =
     (case ke_lastTimestamp evt of
        Some t \<Rightarrow> t
      | None \<Rightarrow> (case ke_eventTime evt of Some t \<Rightarrow> t | None \<Rightarrow> ke_creationTimestamp evt))"

definition credentialEvent :: "trigger \<Rightarrow> kubeEvent \<Rightarrow> bool" where
  "credentialEvent trg evt \<longleftrightarrow>
     ke_involvedKind evt = eventInvolvedObjectTriggerKind \<and> ke_involvedNamespace evt = tr_namespace trg \<and>
     ke_involvedName evt = tr_name trg \<and> credentialReason (ke_reason evt)"

fun latestEvent :: "trigger \<Rightarrow> kubeEvent list \<Rightarrow> kubeEvent option \<Rightarrow> kubeEvent option" where
  "latestEvent trg [] latest = latest"
| "latestEvent trg (evt # evts) latest =
     latestEvent trg evts
       (if \<not> credentialEvent trg evt then latest
        else case latest of
            None \<Rightarrow> Some evt
          | Some l \<Rightarrow> if eventTimestamp evt > eventTimestamp l then Some evt else Some l)"

definition credentialCondition :: "trigger \<Rightarrow> kubeEvent \<Rightarrow> condition" where
  "credentialCondition trg evt =
     (if ke_reason evt = reasonCredentialResolutionFailed
      then triggerCondition conditionTypeCredentialResolutionFailed ''True'' reasonCredentialResolutionFailed
             (ke_message evt) (tr_generation trg)
      else triggerCondition conditionTypeCredentialResolutionFailed ''False'' reasonCredentialResolutionSucceeded
             (ke_message evt) (tr_generation trg))"

definition listedEvents :: "trigger \<Rightarrow> kubeEvent list \<Rightarrow> kubeEvent list" where
  "listedEvents trg evts =
     filter (\<lambda>e. ke_namespace e = tr_namespace trg \<and> tr_name trg \<in> set (indexEventsByInvolvedTriggerName e)) evts"

definition addCondition :: "triggerEnv \<Rightarrow> condition \<Rightarrow> trigger \<Rightarrow> trigger" where
  "addCondition env c trg =
     trg\<lparr>tr_status := (tr_status trg)\<lparr>tt_conditions := tv_setCondition env (tt_conditions (tr_status trg)) c\<rparr>\<rparr>"

definition syncCredentialResolutionCondition :: "triggerEnv \<Rightarrow> kubeEvent list \<Rightarrow> trigger \<Rightarrow> msg + trigger" where
  "syncCredentialResolutionCondition env evts trg =
     (case tv_listEvents env of
        Some e \<Rightarrow>
          Inl (Fmt ''listing credential-resolution events for trigger %s/%s: %w''
                 [Txt (tr_namespace trg), Txt (tr_name trg), apiErrorMsg e])
      | None \<Rightarrow>
          (case latestEvent trg (listedEvents trg evts) None of
             None \<Rightarrow> Inr trg
           | Some evt \<Rightarrow> Inr (addCondition env (credentialCondition trg evt) trg)))"

definition conditionTypePluginIntegrationInvalid :: string where
  "conditionTypePluginIntegrationInvalid = ''PluginIntegrationInvalid''"
definition reasonPluginIntegrationInvalid :: string where "reasonPluginIntegrationInvalid = ''PluginIntegrationInvalid''"
definition reasonPluginIntegrationNotFound :: string where "reasonPluginIntegrationNotFound = ''PluginIntegrationNotFound''"
definition reasonPluginIntegrationWrongType :: string where "reasonPluginIntegrationWrongType = ''PluginIntegrationWrongType''"
definition reasonPluginSpecMissing :: string where "reasonPluginSpecMissing = ''PluginSpecMissing''"
definition reasonPluginIntegrationValid :: string where "reasonPluginIntegrationValid = ''PluginIntegrationValid''"

text \<open>The problem of a plugin Trigger's reference, as its reason and message.\<close>

definition pluginRefProblem :: "triggerEnv \<Rightarrow> trigger \<Rightarrow> msg + (string \<times> msg) option" where
  "pluginRefProblem env trg =
     (let name = (case ts_plugin (tr_spec trg) of None \<Rightarrow> [] | Some p \<Rightarrow> pt_integrationRef p)
      in if name = [] then
           Inr (Some (reasonPluginSpecMissing, Txt ''spec.plugin.integrationRef.name is required when type is plugin''))
         else
           (case tv_integration env name of
              Inl e \<Rightarrow>
                if e = NotFound then
                  Inr (Some (reasonPluginIntegrationNotFound,
                             Fmt ''Integration %q not found in namespace %q'' [Txt name, Txt (tr_namespace trg)]))
                else Inl (Fmt ''getting Integration %s/%s for plugin Trigger: %w'' [Txt (tr_namespace trg), Txt name, apiErrorMsg e])
            | Inr integ \<Rightarrow>
                if ig_type integ \<noteq> integrationTypePlugin then
                  Inr (Some (reasonPluginIntegrationWrongType,
                             Fmt ''Integration %q has type %q; a plugin Trigger requires type %q''
                               [Txt name, Txt (ig_type integ), Txt integrationTypePlugin]))
                else Inr None))"

definition syncPluginIntegrationRefCondition :: "triggerEnv \<Rightarrow> trigger \<Rightarrow> msg + (msg option \<times> trigger)" where
  "syncPluginIntegrationRefCondition env trg =
     (case pluginRefProblem env trg of
        Inl e \<Rightarrow> Inl e
      | Inr problem \<Rightarrow>
          (let c = (case problem of
                      Some (reason, m) \<Rightarrow> triggerCondition conditionTypePluginIntegrationInvalid ''True'' reason m (tr_generation trg)
                    | None \<Rightarrow>
                        triggerCondition conditionTypePluginIntegrationInvalid ''False'' reasonPluginIntegrationValid
                          (Txt ''Integration reference resolves to a plugin Integration'') (tr_generation trg))
           in Inr (map_option snd problem, addCondition env c trg)))"

section \<open>Reconcile\<close>

definition activeWebhook :: "trigger \<Rightarrow> bool" where
  "activeWebhook t \<longleftrightarrow> ts_type (tr_spec t) = triggerTypeWebhook \<and> ts_enabled (tr_spec t) \<and> tr_deletionTimestamp t = None"

definition cleanupWebhookGatewayIfUnused :: "triggerEnv \<Rightarrow> string \<Rightarrow> triggerSystem \<Rightarrow> msg option \<times> triggerSystem" where
  "cleanupWebhookGatewayIfUnused env namespace s =
     (case tv_listTriggers env of
        Some e \<Rightarrow> (Some (Fmt ''listing Triggers in namespace %s: %w'' [Txt namespace, apiErrorMsg e]), s)
      | None \<Rightarrow>
          if list_ex (\<lambda>(_, t). activeWebhook t) (sy_triggers s) then (None, s)
          else (case cleanupObjects (tv_kube env) (gn_objects (sy_gateway s)) of
              (e, objs) \<Rightarrow> (e, s\<lparr>sy_gateway := (sy_gateway s)\<lparr>gn_objects := objs\<rparr>\<rparr>)))"

definition cleanupStep :: "triggerEnv \<Rightarrow> string \<Rightarrow> triggerSystem \<Rightarrow> msg option \<times> triggerSystem" where
  "cleanupStep env namespace s = wrapStep ''cleaning up webhook gateway: %w'' (cleanupWebhookGatewayIfUnused env namespace s)"

definition deregisterAll :: "string \<Rightarrow> triggerSystem \<Rightarrow> triggerSystem" where
  "deregisterAll key s =
     s\<lparr>sy_cron := map_option (deregisterCron key) (sy_cron s), sy_watcher := map_option (deregisterResource key) (sy_watcher s)\<rparr>"

definition handleDeletion :: "triggerEnv \<Rightarrow> string \<Rightarrow> trigger \<Rightarrow> triggerSystem \<Rightarrow> msg option \<times> triggerSystem" where
  "handleDeletion env key trg s =
     (let fs = tr_finalizers trg;
          fs1 = (if containsString fs cronTriggerFinalizer then removeString fs cronTriggerFinalizer else fs);
          fs2 = (if containsString fs1 resourceTriggerFinalizer then removeString fs1 resourceTriggerFinalizer else fs1);
          needsUpdate = (containsString fs cronTriggerFinalizer \<or> containsString fs1 resourceTriggerFinalizer)
      in untilError
           [\<lambda>s. (None, deregisterAll key s),
            \<lambda>s. if needsUpdate then updateTrigger env (trg\<lparr>tr_finalizers := fs2\<rparr>) s else (None, s),
            \<lambda>s. if ts_type (tr_spec trg) = triggerTypeWebhook then cleanupStep env (tr_namespace trg) s else (None, s)] s)"

text \<open>\<^verbatim>\<open>Ensure finalizer is present\<close>: the finalizer is added to the object that the rest of the reconcile uses.\<close>

definition ensureFinalizer :: "triggerEnv \<Rightarrow> string \<Rightarrow> trigger \<Rightarrow> triggerSystem \<Rightarrow> msg option \<times> triggerSystem" where
  "ensureFinalizer env finalizer trg s =
     (if containsString (tr_finalizers trg) finalizer then (None, s)
      else updateTrigger env (trg\<lparr>tr_finalizers := tr_finalizers trg @ [finalizer]\<rparr>) s)"

definition handleCron :: "triggerEnv \<Rightarrow> string \<Rightarrow> trigger \<Rightarrow> triggerSystem \<Rightarrow> msg option \<times> triggerSystem" where
  "handleCron env key trg s =
     (if ts_type (tr_spec trg) = triggerTypeCron \<and> sy_cron s \<noteq> None then
        if ts_enabled (tr_spec trg) \<and> ts_cron (tr_spec trg) \<noteq> None then
          untilError
            [ensureFinalizer env cronTriggerFinalizer trg,
             \<lambda>s. (case sy_cron s of
                    None \<Rightarrow> (None, s)
                  | Some c \<Rightarrow> (case registerCron (tv_parse env) trg c of (e, c') \<Rightarrow> (e, s\<lparr>sy_cron := Some c'\<rparr>)))] s
        else (None, s\<lparr>sy_cron := map_option (deregisterCron key) (sy_cron s)\<rparr>)
      else (None, s))"

definition handleWebhook :: "triggerEnv \<Rightarrow> trigger \<Rightarrow> triggerSystem \<Rightarrow> msg option \<times> triggerSystem" where
  "handleWebhook env trg s =
     (if ts_type (tr_spec trg) = triggerTypeWebhook \<and> ts_enabled (tr_spec trg) then
        (case ensureWebhookGateway (tv_kube env) (tv_setCondition env) (tv_getenv env) (tr_namespace trg) (sy_gateway s) of
           (e, gn) \<Rightarrow> wrapStep ''reconciling webhook gateway deployment: %w'' (e, s\<lparr>sy_gateway := gn\<rparr>))
      else if ts_type (tr_spec trg) = triggerTypeWebhook \<and> \<not> ts_enabled (tr_spec trg) then cleanupStep env (tr_namespace trg) s
      else (None, s))"

definition handleResource :: "triggerEnv \<Rightarrow> string \<Rightarrow> trigger \<Rightarrow> triggerSystem \<Rightarrow> msg option \<times> triggerSystem" where
  "handleResource env key trg s =
     (if ts_type (tr_spec trg) = triggerTypeResource \<and> sy_watcher s \<noteq> None then
        if ts_enabled (tr_spec trg) \<and> ts_resource (tr_spec trg) \<noteq> None then
          untilError
            [ensureFinalizer env resourceTriggerFinalizer trg,
             \<lambda>s. (None, s\<lparr>sy_watcher := map_option (registerResource trg) (sy_watcher s)\<rparr>)] s
        else (None, s\<lparr>sy_watcher := map_option (deregisterResource key) (sy_watcher s)\<rparr>)
      else (None, s))"

definition acceptedConditions :: "triggerEnv \<Rightarrow> msg option \<Rightarrow> trigger \<Rightarrow> trigger" where
  "acceptedConditions env pluginRefErr trg =
     (let ready = ts_enabled (tr_spec trg);
          st = (if ready then (tr_status trg)\<lparr>tt_lastResult := ''Accepted''\<rparr> else tr_status trg);
          c = (\<lambda>type. case pluginRefErr of
                 Some m \<Rightarrow> triggerCondition type ''False'' reasonPluginIntegrationInvalid m 0
               | None \<Rightarrow>
                   if ready then triggerCondition type ''True'' ''Enabled'' (Txt ''Trigger is accepted and active'') 0
                   else triggerCondition type ''False'' ''Disabled'' (Txt ''Trigger is disabled'') 0);
          put = (\<lambda>type. setTriggerCondition (tv_now env type) (c type))
      in trg\<lparr>tr_status := st\<lparr>tt_conditions := put conditionTypeReady (put ''Accepted'' (tt_conditions st))\<rparr>\<rparr>)"

text \<open>\<^verbatim>\<open>r.Status().Patch\<close> of a Trigger that was just read: only the status changes.\<close>

definition patchTriggerStatus :: "triggerEnv \<Rightarrow> trigger \<Rightarrow> triggerSystem \<Rightarrow> msg option \<times> triggerSystem" where
  "patchTriggerStatus env trg s =
     (let s' = s\<lparr>sy_triggers := AList.update (tr_name trg) trg (sy_triggers s)\<rparr>;
          failed = (\<lambda>e. Some (Fmt ''updating Trigger status: %w'' [apiErrorMsg e]))
      in case kv_write (tv_kube env) ''Trigger/status'' (tr_name trg) of
           Accepted \<Rightarrow> (None, s') | Rejected e \<Rightarrow> (failed e, s) | AnswerLost e \<Rightarrow> (failed e, s'))"

definition brokerType :: "string \<Rightarrow> bool" where
  "brokerType type \<longleftrightarrow> type = triggerTypeKafka \<or> type = triggerTypeAmqp \<or> type = triggerTypeNats"

definition syncStatus :: "triggerEnv \<Rightarrow> trigger \<Rightarrow> triggerSystem \<Rightarrow> (msg + ctrlResult) \<times> triggerSystem" where
  "syncStatus env trg s =
     (case (if brokerType (ts_type (tr_spec trg)) then syncCredentialResolutionCondition env (sy_events s) trg else Inr trg) of
        Inl e \<Rightarrow> (Inl (Fmt ''syncing credential-resolution condition: %w'' [e]), s)
      | Inr trg1 \<Rightarrow>
          (case (if ts_type (tr_spec trg) = triggerTypePlugin \<and> ts_enabled (tr_spec trg)
                 then syncPluginIntegrationRefCondition env trg1 else Inr (None, trg1)) of
             Inl e \<Rightarrow> (Inl e, s)
           | Inr (pluginRefErr, trg2) \<Rightarrow>
               (case patchTriggerStatus env (acceptedConditions env pluginRefErr trg2) s of
                  (Some e, s') \<Rightarrow> (Inl e, s')
                | (None, s') \<Rightarrow>
                    (Inr (if pluginRefErr \<noteq> None then RequeueAfter pluginIntegrationRecheckInterval else Done), s'))))"

definition ignoreNotFound :: "apiError \<Rightarrow> msg + ctrlResult" where
  "ignoreNotFound e = (if e = NotFound then Inr Done else Inl (apiErrorMsg e))"

definition refetched :: "triggerEnv \<Rightarrow> string \<Rightarrow> triggerSystem \<Rightarrow> apiError + trigger" where
  "refetched env name s =
     (case tv_refetch env of
        Some e \<Rightarrow> Inl e
      | None \<Rightarrow> (case map_of (sy_triggers s) name of None \<Rightarrow> Inl NotFound | Some t \<Rightarrow> Inr t))"

definition reconcileTrigger :: "triggerEnv \<Rightarrow> string \<Rightarrow> string \<Rightarrow> triggerSystem \<Rightarrow> (msg + ctrlResult) \<times> triggerSystem" where
  "reconcileTrigger env namespace name s =
     (case getObject (tv_kube env) ''Trigger'' name (sy_triggers s) of
        Inl e \<Rightarrow> (ignoreNotFound e, s)
      | Inr trg \<Rightarrow>
          (let key = objectKey namespace name
           in if tr_deletionTimestamp trg \<noteq> None then
                (case handleDeletion env key trg s of (Some e, s') \<Rightarrow> (Inl e, s') | (None, s') \<Rightarrow> (Inr Done, s'))
              else
                (case untilError [handleCron env key trg, handleWebhook env trg, handleResource env key trg] s of
                   (Some e, s') \<Rightarrow> (Inl e, s')
                 | (None, s') \<Rightarrow>
                     (case refetched env name s' of
                        Inl e \<Rightarrow> (ignoreNotFound e, s')
                      | Inr trg' \<Rightarrow> syncStatus env trg' s'))))"

section \<open>What a reconcile leaves alone\<close>

text \<open>Two versions of a Trigger that differ in the finalizers and the status only.\<close>

definition sameTrigger :: "trigger \<Rightarrow> trigger \<Rightarrow> bool" where
  "sameTrigger t t' \<longleftrightarrow> tr_name t' = tr_name t \<and> tr_namespace t' = tr_namespace t \<and>
     tr_deletionTimestamp t' = tr_deletionTimestamp t \<and> tr_spec t' = tr_spec t"

lemma sameTrigger_intros [simp]:
  "sameTrigger t t" "sameTrigger t (t\<lparr>tr_finalizers := fs\<rparr>)" "sameTrigger t (addCondition env c t)"
  "sameTrigger t (acceptedConditions env m t)"
  by (simp_all add: sameTrigger_def addCondition_def acceptedConditions_def Let_def)

lemma sameTrigger_trans: "sameTrigger t u \<Longrightarrow> sameTrigger u v \<Longrightarrow> sameTrigger t v"
  by (simp add: sameTrigger_def)

lemma sameTrigger_active: "sameTrigger t t' \<Longrightarrow> activeWebhook t' = activeWebhook t"
  by (simp add: sameTrigger_def activeWebhook_def)

lemma addCondition_finalizers [simp]: "tr_finalizers (addCondition env c t) = tr_finalizers t"
  and acceptedConditions_finalizers [simp]: "tr_finalizers (acceptedConditions env m t) = tr_finalizers t"
  by (simp_all add: addCondition_def acceptedConditions_def Let_def)

lemma syncCredential_same:
  "syncCredentialResolutionCondition env evts trg = Inr trg' \<Longrightarrow> sameTrigger trg trg' \<and> tr_finalizers trg' = tr_finalizers trg"
  by (auto simp: syncCredentialResolutionCondition_def split: option.splits)

lemma syncPlugin_same:
  "syncPluginIntegrationRefCondition env trg = Inr (m, trg') \<Longrightarrow> sameTrigger trg trg' \<and> tr_finalizers trg' = tr_finalizers trg"
  by (auto simp: syncPluginIntegrationRefCondition_def Let_def split: sum.splits option.splits)

lemma patchTriggerStatus_cases:
  "snd (patchTriggerStatus env trg s) = s \<or>
   snd (patchTriggerStatus env trg s) = s\<lparr>sy_triggers := AList.update (tr_name trg) trg (sy_triggers s)\<rparr>"
  by (simp add: patchTriggerStatus_def Let_def split: apiOutcome.split)

lemma syncStatus_cases:
  obtains "snd (syncStatus env trg s) = s"
  | trg' where "snd (syncStatus env trg s) = s\<lparr>sy_triggers := AList.update (tr_name trg) trg' (sy_triggers s)\<rparr>"
      "sameTrigger trg trg'" "tr_finalizers trg' = tr_finalizers trg"
proof -
  let ?r1 = "if brokerType (ts_type (tr_spec trg)) then syncCredentialResolutionCondition env (sy_events s) trg else Inr trg"
  show thesis
  proof (cases ?r1)
    case (Inl e)
    then show thesis using that(1) by (simp add: syncStatus_def)
  next
    case r1: (Inr trg1)
    let ?r2 = "if ts_type (tr_spec trg) = triggerTypePlugin \<and> ts_enabled (tr_spec trg)
        then syncPluginIntegrationRefCondition env trg1 else Inr (None, trg1)"
    have same1: "sameTrigger trg trg1 \<and> tr_finalizers trg1 = tr_finalizers trg"
      using r1 syncCredential_same by (auto split: if_splits)
    show thesis
    proof (cases ?r2)
      case (Inl e)
      then show thesis using that(1) r1 by (simp add: syncStatus_def)
    next
      case r2: (Inr p)
      obtain m trg2 where p: "p = (m, trg2)" by (cases p)
      have same2: "sameTrigger trg trg2 \<and> tr_finalizers trg2 = tr_finalizers trg"
        using r2 p same1 syncPlugin_same sameTrigger_trans by (fastforce split: if_splits)
      let ?t = "acceptedConditions env m trg2"
      have t: "sameTrigger trg ?t" "tr_finalizers ?t = tr_finalizers trg" "tr_name ?t = tr_name trg"
        using same2 sameTrigger_trans [of trg trg2 ?t] by (simp_all add: acceptedConditions_def Let_def sameTrigger_def)
      have "snd (syncStatus env trg s) = snd (patchTriggerStatus env ?t s)"
        using r1 r2 p by (simp add: syncStatus_def split: prod.split option.split)
      then show thesis using patchTriggerStatus_cases [of env ?t s] that t by metis
    qed
  qed
qed

section \<open>The gateway of active Triggers\<close>

text \<open>The Trigger of a name is an active webhook Trigger, every Trigger is stored under its name, and the gateway is
  there.\<close>

definition gatewayInUse :: "string \<Rightarrow> triggerSystem \<Rightarrow> bool" where
  "gatewayInUse n s \<longleftrightarrow>
     (\<exists>t. map_of (sy_triggers s) n = Some t \<and> activeWebhook t) \<and>
     (\<forall>m t. map_of (sy_triggers s) m = Some t \<longrightarrow> tr_name t = m) \<and>
     gatewayPresent (gn_objects (sy_gateway s))"

lemma gatewayInUse_put:
  assumes "gatewayInUse n s" "tr_name trg = n \<Longrightarrow> activeWebhook trg"
  shows "gatewayInUse n (s\<lparr>sy_triggers := AList.update (tr_name trg) trg (sy_triggers s)\<rparr>)"
  using assms by (auto simp: gatewayInUse_def update_conv')

lemma gatewayInUse_drop:
  assumes "gatewayInUse n s" "m \<noteq> n"
  shows "gatewayInUse n (s\<lparr>sy_triggers := AList.delete m (sy_triggers s)\<rparr>)"
  using assms by (auto simp: gatewayInUse_def delete_conv')

lemma gatewayInUse_frame [simp]:
  "gatewayInUse n (s\<lparr>sy_cron := c\<rparr>) = gatewayInUse n s" "gatewayInUse n (s\<lparr>sy_watcher := w\<rparr>) = gatewayInUse n s"
  "gatewayInUse n (deregisterAll key s) = gatewayInUse n s"
  by (simp_all add: gatewayInUse_def deregisterAll_def)

lemma updateTrigger_inUse:
  assumes "gatewayInUse n s" "tr_name trg = n \<Longrightarrow> activeWebhook trg"
  shows "gatewayInUse n (snd (updateTrigger env trg s))"
proof -
  have "tr_name trg \<noteq> n" if "tr_deletionTimestamp trg \<noteq> None" using that assms(2) by (auto simp: activeWebhook_def)
  with gatewayInUse_put [OF assms] gatewayInUse_drop [OF assms(1)] assms(1) show ?thesis
    by (simp add: updateTrigger_def Let_def split: apiOutcome.split)
qed

lemma inUse_listed: "gatewayInUse n s \<Longrightarrow> list_ex (\<lambda>(_, t). activeWebhook t) (sy_triggers s)"
  by (auto simp: gatewayInUse_def list_ex_iff dest!: map_of_SomeD)

lemma cleanupStep_inUse: "gatewayInUse n s \<Longrightarrow> snd (cleanupStep env namespace s) = s"
  by (simp add: cleanupStep_def cleanupWebhookGatewayIfUnused_def inUse_listed split: option.split)

lemma ensureFinalizer_inUse:
  assumes "gatewayInUse n s" "tr_name trg = n \<Longrightarrow> activeWebhook trg"
  shows "gatewayInUse n (snd (ensureFinalizer env f trg s))"
  using assms updateTrigger_inUse [OF assms(1), of "trg\<lparr>tr_finalizers := tr_finalizers trg @ [f]\<rparr>"]
  by (simp add: ensureFinalizer_def activeWebhook_def)

lemma handleCron_inUse:
  assumes "gatewayInUse n s" "tr_name trg = n \<Longrightarrow> activeWebhook trg"
  shows "gatewayInUse n (snd (handleCron env key trg s))"
proof -
  let ?steps = "[ensureFinalizer env cronTriggerFinalizer trg,
     \<lambda>s. (case sy_cron s of None \<Rightarrow> (None, s)
        | Some c \<Rightarrow> (case registerCron (tv_parse env) trg c of (e, c') \<Rightarrow> (e, s\<lparr>sy_cron := Some c'\<rparr>)))]"
  have "gatewayInUse n (snd (untilError ?steps s))"
    by (rule untilError_invariant [where P = "gatewayInUse n", OF assms(1)])
      (auto simp: case_prod_beta ensureFinalizer_inUse assms(2) split: option.split)
  with assms(1) show ?thesis by (simp add: handleCron_def)
qed

lemma handleResource_inUse:
  assumes "gatewayInUse n s" "tr_name trg = n \<Longrightarrow> activeWebhook trg"
  shows "gatewayInUse n (snd (handleResource env key trg s))"
proof -
  let ?steps = "[ensureFinalizer env resourceTriggerFinalizer trg,
     \<lambda>s. (None, s\<lparr>sy_watcher := map_option (registerResource trg) (sy_watcher s)\<rparr>)]"
  have "gatewayInUse n (snd (untilError ?steps s))"
    by (rule untilError_invariant [where P = "gatewayInUse n", OF assms(1)]) (auto simp: ensureFinalizer_inUse assms(2))
  with assms(1) show ?thesis by (simp add: handleResource_def)
qed

lemma handleWebhook_inUse:
  assumes "gatewayInUse n s"
  shows "gatewayInUse n (snd (handleWebhook env trg s))"
  using assms ensureWebhookGateway_keeps [of "sy_gateway s"] cleanupStep_inUse [OF assms]
  by (simp add: handleWebhook_def gatewayInUse_def case_prod_beta)

lemma handleDeletion_inUse:
  assumes "gatewayInUse n s" "tr_name trg \<noteq> n"
  shows "gatewayInUse n (snd (handleDeletion env key trg s))"
proof -
  have other: "gatewayInUse n s \<Longrightarrow> gatewayInUse n (snd (updateTrigger env (trg\<lparr>tr_finalizers := fs\<rparr>) s))" for s fs
    using updateTrigger_inUse [of n s "trg\<lparr>tr_finalizers := fs\<rparr>"] assms(2) by simp
  show ?thesis
    unfolding handleDeletion_def Let_def
    by (rule untilError_invariant [where P = "gatewayInUse n", OF assms(1)]) (auto simp: other cleanupStep_inUse)
qed

lemma syncStatus_inUse:
  assumes "gatewayInUse n s" "map_of (sy_triggers s) m = Some trg"
  shows "gatewayInUse n (snd (syncStatus env trg s))"
proof (cases rule: syncStatus_cases [of env trg s])
  case (2 trg')
  have "tr_name trg = m" using assms by (simp add: gatewayInUse_def)
  moreover have "tr_name trg' = tr_name trg" using 2(2) by (simp add: sameTrigger_def)
  moreover have "activeWebhook trg'" if "m = n"
    using assms that sameTrigger_active [OF 2(2)] by (auto simp: gatewayInUse_def)
  ultimately show ?thesis using 2(1) gatewayInUse_put [OF assms(1), of trg'] by simp
qed (use assms in simp)

lemma reconcileTrigger_inUse:
  assumes "gatewayInUse n s"
  shows "gatewayInUse n (snd (reconcileTrigger env namespace name s))"
proof (cases "getObject (tv_kube env) ''Trigger'' name (sy_triggers s)")
  case (Inr trg)
  then have stored: "map_of (sy_triggers s) name = Some trg" by (simp add: getObject_def split: option.splits)
  then have named: "tr_name trg = name" using assms by (simp add: gatewayInUse_def)
  have active: "activeWebhook trg" if "tr_name trg = n" using assms stored named that by (auto simp: gatewayInUse_def)
  let ?key = "objectKey namespace name"
  show ?thesis
  proof (cases "tr_deletionTimestamp trg = None")
    case False
    with active have "tr_name trg \<noteq> n" by (auto simp: activeWebhook_def)
    with handleDeletion_inUse [OF assms, of trg env ?key] False Inr show ?thesis
      by (auto simp: reconcileTrigger_def Let_def split: prod.split option.split)
  next
    case True
    let ?steps = "[handleCron env ?key trg, handleWebhook env trg, handleResource env ?key trg]"
    have inv: "gatewayInUse n (snd (untilError ?steps s))"
      by (rule untilError_invariant [where P = "gatewayInUse n", OF assms]) (auto simp: handleCron_inUse handleWebhook_inUse handleResource_inUse active)
    obtain e s' where s': "untilError ?steps s = (e, s')" by (cases "untilError ?steps s")
    with inv have inv': "gatewayInUse n s'" by simp
    have "gatewayInUse n (snd (case refetched env name s' of Inl e \<Rightarrow> (ignoreNotFound e, s') | Inr t \<Rightarrow> syncStatus env t s'))"
      using inv' syncStatus_inUse [OF inv'] by (auto simp: refetched_def split: option.splits)
    with True Inr s' inv' show ?thesis
      by (cases e) (simp_all add: reconcileTrigger_def Let_def del: untilError.simps)
  qed
qed (use assms in \<open>simp add: reconcileTrigger_def\<close>)


section \<open>Reconciles whose requests are accepted\<close>

definition hasCondition :: "string \<Rightarrow> string \<Rightarrow> trigger \<Rightarrow> bool" where
  "hasCondition type status t \<longleftrightarrow> list_ex (\<lambda>c. cond_type c = type \<and> cond_status c = status) (tt_conditions (tr_status t))"

lemma setTriggerCondition_has:
  "list_ex (\<lambda>x. cond_type x = cond_type c \<and> cond_status x = cond_status c) (setTriggerCondition now c cs)"
  by (induction cs) auto

lemma setTriggerCondition_other:
  "cond_type c \<noteq> type \<Longrightarrow>
   list_ex (\<lambda>x. cond_type x = type \<and> cond_status x = st) (setTriggerCondition now c cs) =
   list_ex (\<lambda>x. cond_type x = type \<and> cond_status x = st) cs"
  by (induction cs) auto

lemma acceptedConditions_ready:
  "ts_enabled (tr_spec t) \<Longrightarrow> hasCondition conditionTypeReady ''True'' (acceptedConditions env None t)"
  using setTriggerCondition_has [of "triggerCondition conditionTypeReady ''True'' ''Enabled'' (Txt ''Trigger is accepted and active'') 0"]
  by (simp add: hasCondition_def acceptedConditions_def Let_def triggerCondition_def)

lemma acceptedConditions_accepted:
  "ts_enabled (tr_spec t) \<Longrightarrow> hasCondition ''Accepted'' ''True'' (acceptedConditions env None t)"
  using setTriggerCondition_has [of "triggerCondition ''Accepted'' ''True'' ''Enabled'' (Txt ''Trigger is accepted and active'') 0"]
  by (simp add: hasCondition_def acceptedConditions_def Let_def triggerCondition_def setTriggerCondition_other conditionTypeReady_def)

definition serverAccepts :: "triggerEnv \<Rightarrow> bool" where
  "serverAccepts env \<longleftrightarrow> kubeAccepts (tv_kube env) \<and> tv_refetch env = None \<and> tv_listTriggers env = None \<and> tv_listEvents env = None"

lemma serverAcceptsD:
  assumes "serverAccepts env"
  shows "kubeAccepts (tv_kube env)" "tv_refetch env = None" "tv_listTriggers env = None" "tv_listEvents env = None"
    "kv_get (tv_kube env) kind name = None" "kv_write (tv_kube env) kind name = Accepted"
  using assms by (simp_all add: serverAccepts_def kubeAcceptsD)

text \<open>A Trigger as it is stored: under its name, in the namespace of the reconcile, not being deleted.\<close>

definition storedTrigger :: "string \<Rightarrow> triggerSystem \<Rightarrow> trigger \<Rightarrow> bool" where
  "storedTrigger namespace s trg \<longleftrightarrow> map_of (sy_triggers s) (tr_name trg) = Some trg \<and> tr_namespace trg = namespace \<and>
     tr_deletionTimestamp trg = None"

lemmas trigger_types = triggerTypeCron_def triggerTypeWebhook_def triggerTypeResource_def triggerTypePlugin_def
  triggerTypeKafka_def triggerTypeAmqp_def triggerTypeNats_def brokerType_def

lemma syncStatus_accepted:
  assumes "serverAccepts env" "\<not> brokerType (ts_type (tr_spec trg))" "ts_type (tr_spec trg) \<noteq> triggerTypePlugin"
  shows "syncStatus env trg s =
    (Inr Done, s\<lparr>sy_triggers := AList.update (tr_name trg) (acceptedConditions env None trg) (sy_triggers s)\<rparr>)"
proof -
  have "tr_name (acceptedConditions env None trg) = tr_name trg" by (simp add: acceptedConditions_def Let_def)
  with assms show ?thesis by (simp add: syncStatus_def patchTriggerStatus_def serverAcceptsD Let_def)
qed

lemma reconcile_enabled_webhook:
  assumes "serverAccepts env" "storedTrigger namespace s trg" "activeWebhook trg"
  obtains gn where
    "ensureWebhookGateway (tv_kube env) (tv_setCondition env) (tv_getenv env) namespace (sy_gateway s) = (None, gn)"
    "gatewayServing (tv_getenv env) namespace (gn_config (sy_gateway s)) (gn_objects gn)"
    "reconcileTrigger env namespace (tr_name trg) s =
       (Inr Done, s\<lparr>sy_gateway := gn,
          sy_triggers := AList.update (tr_name trg) (acceptedConditions env None trg) (sy_triggers s)\<rparr>)"
proof -
  obtain gn where gn: "ensureWebhookGateway (tv_kube env) (tv_setCondition env) (tv_getenv env) namespace (sy_gateway s) = (None, gn)"
    "gatewayServing (tv_getenv env) namespace (gn_config (sy_gateway s)) (gn_objects gn)"
    using ensureWebhookGateway_accepted [OF serverAcceptsD(1) [OF assms(1)]] by blast
  have type: "ts_type (tr_spec trg) = triggerTypeWebhook" "ts_enabled (tr_spec trg)" using assms(3) by (simp_all add: activeWebhook_def)
  note stored = assms(2) [unfolded storedTrigger_def]
  have "reconcileTrigger env namespace (tr_name trg) s = syncStatus env trg (s\<lparr>sy_gateway := gn\<rparr>)"
    using stored type gn(1) serverAcceptsD [OF assms(1)]
    by (simp add: reconcileTrigger_def getObject_def handleCron_def handleWebhook_def handleResource_def refetched_def wrapStep_def
        trigger_types Let_def)
  moreover have "syncStatus env trg (s\<lparr>sy_gateway := gn\<rparr>) =
      (Inr Done, s\<lparr>sy_gateway := gn, sy_triggers := AList.update (tr_name trg) (acceptedConditions env None trg) (sy_triggers s)\<rparr>)"
    using syncStatus_accepted [OF assms(1), of trg "s\<lparr>sy_gateway := gn\<rparr>"] type by (simp add: trigger_types)
  ultimately show thesis using gn that by simp
qed


section \<open>Deleted and edited Triggers\<close>

text \<open>A DELETE request: the API server removes an object without finalizers at once, and marks one with finalizers.\<close>

definition requestDeletion :: "time \<Rightarrow> string \<Rightarrow> triggerSystem \<Rightarrow> triggerSystem" where
  "requestDeletion now name s =
     (case map_of (sy_triggers s) name of
        None \<Rightarrow> s
      | Some t \<Rightarrow>
          if tr_finalizers t = [] then s\<lparr>sy_triggers := AList.delete name (sy_triggers s)\<rparr>
          else s\<lparr>sy_triggers := AList.update name (t\<lparr>tr_deletionTimestamp := Some now\<rparr>) (sy_triggers s)\<rparr>)"

text \<open>A webhook Trigger that is deleted leaves its gateway behind. A reconcile gives such a Trigger no finalizer, so
  the API server removes it at once and the next reconcile finds nothing: the gateway still serves, although the
  namespace has no webhook Trigger any more.\<close>

theorem deleted_webhook_trigger_leaves_gateway:
  fixes now :: time
  assumes "serverAccepts env" "storedTrigger namespace s trg" "activeWebhook trg" "tr_finalizers trg = []"
  defines "s1 \<equiv> snd (reconcileTrigger env namespace (tr_name trg) s)"
  defines "s2 \<equiv> snd (reconcileTrigger env namespace (tr_name trg) (requestDeletion now (tr_name trg) s1))"
  shows "map_of (sy_triggers s2) (tr_name trg) = None \<and>
         gatewayServing (tv_getenv env) namespace (gn_config (sy_gateway s)) (gn_objects (sy_gateway s2))"
proof -
  obtain gn where gn: "gatewayServing (tv_getenv env) namespace (gn_config (sy_gateway s)) (gn_objects gn)"
    "reconcileTrigger env namespace (tr_name trg) s =
       (Inr Done, s\<lparr>sy_gateway := gn,
          sy_triggers := AList.update (tr_name trg) (acceptedConditions env None trg) (sy_triggers s)\<rparr>)"
    by (rule reconcile_enabled_webhook [OF assms(1-3)])
  let ?s = "requestDeletion now (tr_name trg) s1"
  have gone: "map_of (sy_triggers ?s) (tr_name trg) = None" and kept: "sy_gateway ?s = gn"
    by (simp_all add: s1_def gn(2) requestDeletion_def update_conv' delete_conv' assms(4))
  have "s2 = ?s" using gone assms(1) by (simp add: s2_def reconcileTrigger_def getObject_def serverAcceptsD)
  with gone kept gn(1) show ?thesis by simp
qed

lemma reconcile_enabled_cron:
  assumes "serverAccepts env" "storedTrigger namespace s trg" "ts_type (tr_spec trg) = triggerTypeCron"
    "ts_enabled (tr_spec trg)" "ts_cron (tr_spec trg) = Some ct" "tv_parse env (cronSchedule ct) = None" "sy_cron s = Some c"
  defines "t1 \<equiv> trg\<lparr>tr_finalizers :=
      (if containsString (tr_finalizers trg) cronTriggerFinalizer then tr_finalizers trg
       else tr_finalizers trg @ [cronTriggerFinalizer])\<rparr>"
  shows "\<exists>ts. snd (reconcileTrigger env namespace (tr_name trg) s) =
      s\<lparr>sy_cron := Some (cronOpRun (tv_parse env) (CronRegister trg) c), sy_triggers := ts\<rparr> \<and>
      map_of ts (tr_name trg) = Some (acceptedConditions env None t1)"
proof -
  let ?ts = "if containsString (tr_finalizers trg) cronTriggerFinalizer then sy_triggers s
    else AList.update (tr_name trg) t1 (sy_triggers s)"
  let ?c = "cronOpRun (tv_parse env) (CronRegister trg) c"
  note stored = assms(2) [unfolded storedTrigger_def] and acc = serverAcceptsD [OF assms(1)]
  have fin: "ensureFinalizer env cronTriggerFinalizer trg s = (None, s\<lparr>sy_triggers := ?ts\<rparr>)"
    using stored acc by (simp add: ensureFinalizer_def updateTrigger_def t1_def Let_def)
  have reg: "registerCron (tv_parse env) trg c = (None, ?c)"
    using assms(5,6) by (simp add: registerCron_def Let_def)
  have "map_of ?ts (tr_name trg) = Some t1" using stored by (simp add: t1_def update_conv')
  then have "reconcileTrigger env namespace (tr_name trg) s = syncStatus env t1 (s\<lparr>sy_triggers := ?ts, sy_cron := Some ?c\<rparr>)"
    using stored acc assms(3-5,7) fin reg
    by (simp add: reconcileTrigger_def getObject_def handleCron_def handleWebhook_def handleResource_def refetched_def
        trigger_types Let_def del: cronOpRun.simps)
  moreover have "syncStatus env t1 u = (Inr Done, u\<lparr>sy_triggers := AList.update (tr_name trg) (acceptedConditions env None t1) (sy_triggers u)\<rparr>)"
    for u using syncStatus_accepted [OF assms(1), of t1] assms(3) by (simp add: t1_def trigger_types)
  ultimately have "snd (reconcileTrigger env namespace (tr_name trg) s) =
      s\<lparr>sy_cron := Some ?c, sy_triggers := AList.update (tr_name trg) (acceptedConditions env None t1) ?ts\<rparr>"
    by (simp del: cronOpRun.simps)
  then show ?thesis by (intro exI conjI) (assumption, simp add: update_conv')
qed

lemma reconcile_deleted_cron:
  assumes "serverAccepts env" "map_of (sy_triggers s) name = Some t" "tr_name t = name" "tr_deletionTimestamp t \<noteq> None"
    "ts_type (tr_spec t) = triggerTypeCron" "tr_finalizers t \<noteq> []" "set (tr_finalizers t) \<subseteq> {cronTriggerFinalizer}"
  shows "snd (reconcileTrigger env namespace name s) =
    (deregisterAll (objectKey namespace name) s)\<lparr>sy_triggers := AList.delete name (sy_triggers s)\<rparr>"
proof -
  have "containsString (tr_finalizers t) cronTriggerFinalizer" "removeString (tr_finalizers t) cronTriggerFinalizer = []"
    using assms(6,7) by (cases "tr_finalizers t"; auto simp: containsString_def removeString_def filter_empty_conv)+
  moreover have "\<not> containsString [] resourceTriggerFinalizer" by (simp add: containsString_def)
  ultimately show ?thesis
    using assms(2-5) serverAcceptsD [OF assms(1)]
    by (simp add: reconcileTrigger_def getObject_def handleDeletion_def updateTrigger_def trigger_types deregisterAll_def Let_def)
qed

text \<open>C31: A cron Trigger goes through its life without a trace: one accepted reconcile of an enabled Trigger with a valid
  schedule puts its job into the scheduler and the finalizer on the object; after a DELETE request one more
  reconcile takes exactly that job out again and lets the object go.\<close>

theorem cron_trigger_lifecycle:
  fixes now :: time
  assumes "serverAccepts env" "storedTrigger namespace s trg" "ts_type (tr_spec trg) = triggerTypeCron"
    "ts_enabled (tr_spec trg)" "ts_cron (tr_spec trg) = Some ct" "tv_parse env (cronSchedule ct) = None"
    "sy_cron s = Some c" "cronRel m c" "set (tr_finalizers trg) \<subseteq> {cronTriggerFinalizer}"
  defines "s1 \<equiv> snd (reconcileTrigger env namespace (tr_name trg) s)"
  defines "s2 \<equiv> snd (reconcileTrigger env namespace (tr_name trg) (requestDeletion now (tr_name trg) s1))"
  shows "(\<exists>c1 t1. sy_cron s1 = Some c1 \<and> cronRel (m(cronKey trg \<mapsto> triggerJob trg ct)) c1 \<and>
            map_of (sy_triggers s1) (tr_name trg) = Some t1 \<and> cronTriggerFinalizer \<in> set (tr_finalizers t1)) \<and>
         (\<exists>c2. sy_cron s2 = Some c2 \<and> cronRel (m(cronKey trg := None)) c2 \<and> map_of (sy_triggers s2) (tr_name trg) = None)"
proof -
  define t1 where "t1 = acceptedConditions env None (trg\<lparr>tr_finalizers :=
      (if containsString (tr_finalizers trg) cronTriggerFinalizer then tr_finalizers trg
       else tr_finalizers trg @ [cronTriggerFinalizer])\<rparr>)"
  let ?c1 = "cronOpRun (tv_parse env) (CronRegister trg) c"
  obtain ts where s1: "s1 = s\<lparr>sy_cron := Some ?c1, sy_triggers := ts\<rparr>" "map_of ts (tr_name trg) = Some t1"
    using reconcile_enabled_cron [OF assms(1-7)] unfolding s1_def t1_def by blast
  have rel1: "cronRel (m(cronKey trg \<mapsto> triggerJob trg ct)) ?c1"
    using cronOp_rel [OF assms(8), of "tv_parse env" "CronRegister trg"] assms(5,6) by simp
  have fin: "cronTriggerFinalizer \<in> set (tr_finalizers t1)" "set (tr_finalizers t1) \<subseteq> {cronTriggerFinalizer}"
    using assms(9) by (auto simp: t1_def containsString_def list_ex_iff)
  from fin(1) have ne: "tr_finalizers t1 \<noteq> []" by auto
  have t1: "tr_name t1 = tr_name trg" "tr_spec t1 = tr_spec trg" by (simp_all add: t1_def acceptedConditions_def Let_def)
  have key: "objectKey namespace (tr_name trg) = cronKey trg"
    using assms(2) by (simp add: objectKey_def cronKey_def storedTrigger_def)
  let ?t = "t1\<lparr>tr_deletionTimestamp := Some now\<rparr>" and ?s = "requestDeletion now (tr_name trg) s1"
  have marked: "?s = s1\<lparr>sy_triggers := AList.update (tr_name trg) ?t ts\<rparr>"
    using fin(1) by (auto simp: requestDeletion_def s1)
  have cron: "sy_cron ?s = Some ?c1" unfolding marked by (simp add: s1(1))
  have "s2 = (deregisterAll (cronKey trg) ?s)\<lparr>sy_triggers := AList.delete (tr_name trg) (sy_triggers ?s)\<rparr>"
    unfolding s2_def key [symmetric]
    using reconcile_deleted_cron [OF assms(1), of ?s "tr_name trg" ?t namespace] fin(2) ne t1 assms(3)
    by (simp add: marked update_conv')
  then have "sy_cron s2 = Some (cronOpRun (tv_parse env) (CronDeregister (cronKey trg)) ?c1)"
    "map_of (sy_triggers s2) (tr_name trg) = None"
    using cron by (simp_all add: deregisterAll_def delete_conv')
  with cronOp_rel [OF rel1, of "tv_parse env" "CronDeregister (cronKey trg)"] s1 rel1 fin(1) show ?thesis by simp
qed

text \<open>A Trigger whose type is changed from cron keeps its job: a reconcile of a Trigger of another type, unless it is
  being deleted, does not touch the scheduler, so the old schedule goes on firing.\<close>

theorem retyped_trigger_keeps_cron_job:
  assumes "storedTrigger namespace s trg" "ts_type (tr_spec trg) \<noteq> triggerTypeCron"
  shows "sy_cron (snd (reconcileTrigger env namespace (tr_name trg) s)) = sy_cron s"
proof -
  let ?key = "objectKey namespace (tr_name trg)"
  have update: "sy_cron (snd (updateTrigger env t u)) = sy_cron u" for t u
    by (simp add: updateTrigger_def Let_def split: apiOutcome.split)
  have ensure: "sy_cron (snd (ensureFinalizer env f t u)) = sy_cron u" for f t u
    by (simp add: ensureFinalizer_def update)
  have resource: "sy_cron (snd (handleResource env ?key trg u)) = sy_cron u" for u
    using ensure [of resourceTriggerFinalizer trg u]
    by (auto simp: handleResource_def split: prod.split option.split)
  have webhook: "sy_cron (snd (handleWebhook env trg u)) = sy_cron u" for u
    by (simp add: handleWebhook_def cleanupStep_def cleanupWebhookGatewayIfUnused_def case_prod_beta split: option.split)
  have "sy_cron (snd (untilError [handleCron env ?key trg, handleWebhook env trg, handleResource env ?key trg] s)) = sy_cron s"
    by (rule untilError_invariant [where P = "\<lambda>u. sy_cron u = sy_cron s"])
      (use assms(2) resource webhook in \<open>auto simp: handleCron_def\<close>)
  moreover have "sy_cron (snd (syncStatus env t u)) = sy_cron u" for t u
    by (cases rule: syncStatus_cases [of env t u]) simp_all
  ultimately show ?thesis
    using assms(1)
    by (auto simp: reconcileTrigger_def storedTrigger_def getObject_def Let_def simp del: untilError.simps
        split: option.splits sum.splits prod.splits)
qed

section \<open>Credential events\<close>

lemma latestEvent_spec:
  assumes "\<And>x. x \<in> set evts \<Longrightarrow> credentialEvent trg x \<Longrightarrow> x \<noteq> e \<Longrightarrow> eventTimestamp x < eventTimestamp e"
    "latest = Some e \<or> e \<in> set evts \<and> credentialEvent trg e"
    "\<And>l. latest = Some l \<Longrightarrow> l \<noteq> e \<Longrightarrow> eventTimestamp l < eventTimestamp e"
  shows "latestEvent trg evts latest = Some e"
  using assms
proof (induction evts arbitrary: latest)
  case (Cons x xs)
  define newer where "newer = (if \<not> credentialEvent trg x then latest
      else case latest of None \<Rightarrow> Some x
        | Some l \<Rightarrow> if eventTimestamp x > eventTimestamp l then Some x else Some l)"
  have before: "\<And>l. newer = Some l \<Longrightarrow> l \<noteq> e \<Longrightarrow> eventTimestamp l < eventTimestamp e"
    using Cons.prems(1,3) by (auto simp: newer_def split: if_splits option.splits)
  have "newer = Some e \<or> e \<in> set xs \<and> credentialEvent trg e"
  proof (cases "latest = Some e")
    case True
    with Cons.prems(1) [of x] show ?thesis by (auto simp: newer_def)
  next
    case False
    with Cons.prems(2,3) show ?thesis by (auto simp: newer_def split: option.split)
  qed
  with Cons.IH [of newer] Cons.prems(1) before show ?case by (simp add: newer_def)
qed auto

text \<open>The \<^verbatim>\<open>CredentialResolutionFailed\<close> condition of a broker Trigger is the state of the most recent credential Event
  of that very Trigger: True when it reports a failure and False when it reports a success, with its message;
  Events of other objects, of other Triggers or with other reasons never count, however recent.\<close>

theorem credential_condition_tracks_latest_event:
  assumes "tv_listEvents env = None" "e \<in> set evts" "ke_namespace e = tr_namespace trg" "credentialEvent trg e"
    "\<And>x. x \<in> set evts \<Longrightarrow> credentialEvent trg x \<Longrightarrow> x \<noteq> e \<Longrightarrow> eventTimestamp x < eventTimestamp e"
  shows "syncCredentialResolutionCondition env evts trg =
    Inr (addCondition env
      (triggerCondition conditionTypeCredentialResolutionFailed
         (if ke_reason e = reasonCredentialResolutionFailed then ''True'' else ''False'') (ke_reason e) (ke_message e)
         (tr_generation trg)) trg)"
proof -
  have "e \<in> set (listedEvents trg evts)"
    using assms(2-4) by (simp add: listedEvents_def indexEventsByInvolvedTriggerName_def credentialEvent_def)
  then have "latestEvent trg (listedEvents trg evts) None = Some e"
    using assms(4,5) by (intro latestEvent_spec) (auto simp: listedEvents_def)
  moreover have "credentialReason (ke_reason e)" using assms(4) by (simp add: credentialEvent_def)
  ultimately show ?thesis
    using assms(1) by (auto simp: syncCredentialResolutionCondition_def credentialCondition_def credentialReason_def)
qed

section \<open>Witnesses\<close>

definition exampleTriggerEnv :: triggerEnv where
  "exampleTriggerEnv =
     \<lparr>tv_kube = acceptingServer, tv_refetch = None, tv_listTriggers = None, tv_listEvents = None,
      tv_integration = (\<lambda>_. Inl NotFound), tv_parse = (\<lambda>_. None), tv_setCondition = (\<lambda>cs c. cs @ [c]),
      tv_getenv = (\<lambda>_. []), tv_now = (\<lambda>_. 0)\<rparr>"

definition exampleWebhook :: trigger where
  "exampleWebhook = exampleCronTrigger\<lparr>tr_name := ''w'', tr_spec := (tr_spec exampleCronTrigger)\<lparr>ts_type := ''webhook''\<rparr>\<rparr>"

definition exampleSystem :: triggerSystem where
  "exampleSystem =
     \<lparr>sy_triggers = [(''t'', exampleCronTrigger), (''w'', exampleWebhook)], sy_events = [],
      sy_gateway = \<lparr>gn_config = None, gn_objects = emptyObjects\<rparr>, sy_cron = Some newCronScheduler,
      sy_watcher = Some (newResourceWatcher True [])\<rparr>"

lemma exampleTriggerEnv_accepts: "serverAccepts exampleTriggerEnv"
  by (simp add: serverAccepts_def exampleTriggerEnv_def acceptingServer_accepts)

lemma exampleSystem_stored:
  "storedTrigger ''ns'' exampleSystem exampleCronTrigger" "storedTrigger ''ns'' exampleSystem exampleWebhook"
  "activeWebhook exampleWebhook" "tr_finalizers exampleWebhook = []" "tr_name exampleWebhook = ''w''"
  "tr_name exampleCronTrigger = ''t''"
  by (simp_all add: storedTrigger_def exampleSystem_def exampleWebhook_def exampleCronTrigger_def activeWebhook_def
      triggerTypeWebhook_def)


theorem deleted_webhook_trigger_leaves_gateway_witness:
  "\<exists>s2 :: triggerSystem. map_of (sy_triggers s2) ''w'' = None \<and> gatewayServing (tv_getenv exampleTriggerEnv) ''ns'' None (gn_objects (sy_gateway s2))"
  using deleted_webhook_trigger_leaves_gateway [OF exampleTriggerEnv_accepts exampleSystem_stored(2-4), of 0]
  by (auto simp: exampleSystem_stored(5) exampleSystem_def)

definition servedSystem :: triggerSystem where
  "servedSystem = snd (reconcileTrigger exampleTriggerEnv ''ns'' ''w'' exampleSystem)"

lemma servedSystem_inUse: "gatewayInUse ''w'' servedSystem"
proof -
  obtain gn where gn: "gatewayServing (tv_getenv exampleTriggerEnv) ''ns'' (gn_config (sy_gateway exampleSystem)) (gn_objects gn)"
    "reconcileTrigger exampleTriggerEnv ''ns'' (tr_name exampleWebhook) exampleSystem =
       (Inr Done, exampleSystem\<lparr>sy_gateway := gn, sy_triggers := AList.update (tr_name exampleWebhook)
          (acceptedConditions exampleTriggerEnv None exampleWebhook) (sy_triggers exampleSystem)\<rparr>)"
    by (rule reconcile_enabled_webhook [OF exampleTriggerEnv_accepts exampleSystem_stored(2,3)])
  have "gatewayPresent (gn_objects gn)"
    using gn(1) by (auto simp: gatewayServing_def gatewayPresent_def present_def hpaMatches_def)
  moreover have "activeWebhook (acceptedConditions exampleTriggerEnv None exampleWebhook)"
    using exampleSystem_stored(3) sameTrigger_active [OF sameTrigger_intros(4)] by simp
  moreover have "tr_name (acceptedConditions exampleTriggerEnv None exampleWebhook) = ''w''"
    by (simp add: acceptedConditions_def Let_def exampleSystem_stored(5))
  moreover have "sy_triggers exampleSystem = [(''t'', exampleCronTrigger), (''w'', exampleWebhook)]" by (simp add: exampleSystem_def)
  ultimately show ?thesis
    using gn(2) by (simp add: servedSystem_def gatewayInUse_def exampleSystem_stored(5,6))
qed


theorem cron_trigger_lifecycle_witness:
  "\<exists>(s2 :: triggerSystem) c2. sy_cron s2 = Some c2 \<and> cronRel (Map.empty(cronKey exampleCronTrigger := None)) c2 \<and>
     map_of (sy_triggers s2) ''t'' = None"
proof -
  have "ts_type (tr_spec exampleCronTrigger) = triggerTypeCron" "ts_enabled (tr_spec exampleCronTrigger)"
    "ts_cron (tr_spec exampleCronTrigger) = Some \<lparr>ct_schedule = ''* * * * *'', ct_timezone = []\<rparr>"
    "tv_parse exampleTriggerEnv (cronSchedule \<lparr>ct_schedule = ''* * * * *'', ct_timezone = []\<rparr>) = None"
    "sy_cron exampleSystem = Some newCronScheduler" "cronRel Map.empty newCronScheduler"
    "set (tr_finalizers exampleCronTrigger) \<subseteq> {cronTriggerFinalizer}"
    by (simp_all add: exampleCronTrigger_def triggerTypeCron_def exampleTriggerEnv_def exampleSystem_def cronRel_def newCronScheduler_def
        tableOk_def)
  from cron_trigger_lifecycle [OF exampleTriggerEnv_accepts exampleSystem_stored(1) this, of 0] show ?thesis
    unfolding exampleSystem_stored(6) by blast
qed

theorem retyped_trigger_keeps_cron_job_witness:
  "storedTrigger ''ns'' exampleSystem exampleWebhook \<and>
   sy_cron (snd (reconcileTrigger exampleTriggerEnv ''ns'' ''w'' exampleSystem)) = Some newCronScheduler"
proof -
  have "ts_type (tr_spec exampleWebhook) \<noteq> triggerTypeCron" by (simp add: exampleWebhook_def triggerTypeCron_def)
  from retyped_trigger_keeps_cron_job [OF exampleSystem_stored(2) this, of exampleTriggerEnv] exampleSystem_stored(2,5)
  show ?thesis by (simp add: exampleSystem_def)
qed

definition exampleFailure :: kubeEvent where
  "exampleFailure =
     \<lparr>ke_involvedKind = ''Trigger'', ke_involvedNamespace = ''ns'', ke_involvedName = ''w'', ke_namespace = ''ns'',
      ke_reason = ''CredentialResolutionFailed'', ke_message = Txt ''no secret'', ke_lastTimestamp = Some 7,
      ke_eventTime = None, ke_creationTimestamp = 1\<rparr>"

definition exampleSuccess :: kubeEvent where
  "exampleSuccess = exampleFailure\<lparr>ke_reason := ''CredentialResolutionSucceeded'', ke_lastTimestamp := None, ke_eventTime := Some 9\<rparr>"

theorem credential_condition_tracks_latest_event_witness:
  "syncCredentialResolutionCondition exampleTriggerEnv [exampleSuccess, exampleFailure] exampleWebhook =
     Inr (addCondition exampleTriggerEnv
       (triggerCondition conditionTypeCredentialResolutionFailed ''False'' ''CredentialResolutionSucceeded'' (Txt ''no secret'') 1)
       exampleWebhook)"
  using credential_condition_tracks_latest_event [of exampleTriggerEnv exampleSuccess "[exampleSuccess, exampleFailure]" exampleWebhook]
  by (simp add: exampleTriggerEnv_def exampleSuccess_def exampleFailure_def exampleWebhook_def exampleCronTrigger_def
      credentialEvent_def eventTimestamp_def credentialReason_def eventInvolvedObjectTriggerKind_def
      reasonCredentialResolutionFailed_def reasonCredentialResolutionSucceeded_def)

end
