(* ===== verification/Certificates.thy ===== *)
theory Certificates
  imports RunCreation "HOL-Library.Countable"
begin

text \<open>
  Certificates of the operator's own TLS channels: \<^verbatim>\<open>internal/certutil/certutil.go\<close>, the bundle of the executor channel
  (\<^verbatim>\<open>internal/controller/executor_mtls.go\<close>) and the bundles of the plugin channels with their store
  (\<^verbatim>\<open>internal/controller/plugin_mtls.go\<close>). Keys are numbers drawn from the random source \<open>rng\<close>, an argument
  indexed by the draw; a certificate records the key that signed it, and verification follows
  \<^verbatim>\<open>crypto/x509\<close>: a trusted root with the signing key, a name, a usage and a time of validity. \<open>pemLib\<close> is the
  PEM and DER encoding.
\<close>

section \<open>Certificates\<close>

datatype pkixName = PkixName (pn_organization: "string list") (pn_organizationalUnit: "string list") (pn_commonName: string)

datatype extKeyUsage = ServerAuth | ClientAuth

datatype certificate =
  Certificate (xc_serial: int) (xc_subject: pkixName) (xc_notBefore: time) (xc_notAfter: time) (xc_isCA: bool)
    (xc_extKeyUsage: "extKeyUsage list") (xc_dnsNames: "string list") (xc_publicKey: int) (xc_signedBy: int)

datatype tlsCertificate = TlsCertificate (tl_chain: "certificate list") (tl_key: int)

datatype pemBlock = CertBlock certificate | KeyBlock int

instance pkixName :: countable by countable_datatype
instance extKeyUsage :: countable by countable_datatype
instance certificate :: countable by countable_datatype
instance pemBlock :: countable by countable_datatype

record pemLib =
  pm_encode :: "pemBlock \<Rightarrow> string"
  pm_decode :: "string \<Rightarrow> pemBlock option"

text \<open>The documented behaviour of the encoding: the first block of a text is read back, and no block is empty.\<close>

definition pemLaws :: "pemLib \<Rightarrow> bool" where
  "pemLaws lib \<longleftrightarrow> (\<forall>b rest. pm_decode lib (pm_encode lib b @ rest) = Some b) \<and> (\<forall>b. pm_encode lib b \<noteq> [])"

lemma pemLawsD:
  assumes "pemLaws lib"
  shows "pm_decode lib (pm_encode lib b @ rest) = Some b" "pm_decode lib (pm_encode lib b) = Some b" "pm_encode lib b \<noteq> []"
  using assms append_Nil2 [of "pm_encode lib b"] unfolding pemLaws_def by metis+

type_synonym rng = "nat \<Rightarrow> msg + int"

text \<open>Times of a certificate have whole seconds.\<close>

definition seconds :: "time \<Rightarrow> time" where
  "seconds t = t div 1000000000 * 1000000000"

lemma seconds_le: "seconds t \<le> t"
  using div_mult_mod_eq [of t 1000000000] pos_mod_sign [of 1000000000 t] by (simp add: seconds_def)

definition randomSerial :: "rng \<Rightarrow> nat \<Rightarrow> msg + int" where
  "randomSerial rng n = (case rng n of Inl e \<Rightarrow> Inl e | Inr v \<Rightarrow> Inr (v mod 2 ^ 128))"

definition GenerateCA :: "rng \<Rightarrow> pkixName \<Rightarrow> time \<Rightarrow> time \<Rightarrow> nat \<Rightarrow> msg + certificate \<times> int" where
  "GenerateCA rng name notBefore notAfter n =
     (case rng n of
        Inl e \<Rightarrow> Inl e
      | Inr caKey \<Rightarrow>
          (case randomSerial rng (n + 1) of
             Inl e \<Rightarrow> Inl e
           | Inr serial \<Rightarrow>
               Inr (Certificate serial name (seconds notBefore) (seconds notAfter) True [] [] caKey caKey, caKey)))"

definition IssueLeafCert ::
  "rng \<Rightarrow> int \<Rightarrow> pkixName \<Rightarrow> string list \<Rightarrow> extKeyUsage \<Rightarrow> time \<Rightarrow> time \<Rightarrow> nat \<Rightarrow> msg + tlsCertificate" where
  "IssueLeafCert rng caKey name dnsNames usage notBefore notAfter n =
     (case rng n of
        Inl e \<Rightarrow> Inl e
      | Inr leafKey \<Rightarrow>
          (case randomSerial rng (n + 1) of
             Inl e \<Rightarrow> Inl e
           | Inr serial \<Rightarrow>
               Inr (TlsCertificate
                 [Certificate serial name (seconds notBefore) (seconds notAfter) False [usage] dnsNames leafKey caKey] leafKey)))"

definition EncodeCertPEM :: "pemLib \<Rightarrow> certificate \<Rightarrow> string" where
  "EncodeCertPEM lib c = pm_encode lib (CertBlock c)"

definition PrivateKeyPEM :: "pemLib \<Rightarrow> int \<Rightarrow> string" where
  "PrivateKeyPEM lib k = pm_encode lib (KeyBlock k)"

definition CertChainPEM :: "pemLib \<Rightarrow> tlsCertificate \<Rightarrow> string" where
  "CertChainPEM lib c = concat (map (EncodeCertPEM lib) (tl_chain c))"

definition ParseCertPEM :: "pemLib \<Rightarrow> string \<Rightarrow> msg + certificate" where
  "ParseCertPEM lib s =
     (case pm_decode lib s of
        Some (CertBlock c) \<Rightarrow> Inr c
      | _ \<Rightarrow> Inl (Txt ''certutil: no PEM certificate block found''))"

definition ParseECPrivateKeyPEM :: "pemLib \<Rightarrow> string \<Rightarrow> msg + int" where
  "ParseECPrivateKeyPEM lib s =
     (case pm_decode lib s of
        Some (KeyBlock k) \<Rightarrow> Inr k
      | _ \<Rightarrow> Inl (Txt ''certutil: no PEM EC PRIVATE KEY block found''))"

lemma ParseCertPEM_Encode: "pemLaws lib \<Longrightarrow> ParseCertPEM lib (EncodeCertPEM lib c) = Inr c"
  by (simp add: ParseCertPEM_def EncodeCertPEM_def pemLawsD)

lemma ParseCertPEM_chain: "pemLaws lib \<Longrightarrow> tl_chain t = c # cs \<Longrightarrow> ParseCertPEM lib (CertChainPEM lib t) = Inr c"
  by (simp add: ParseCertPEM_def CertChainPEM_def EncodeCertPEM_def pemLawsD)

lemma ParseECPrivateKeyPEM_key: "pemLaws lib \<Longrightarrow> ParseECPrivateKeyPEM lib (PrivateKeyPEM lib k) = Inr k"
  by (simp add: ParseECPrivateKeyPEM_def PrivateKeyPEM_def pemLawsD)

section \<open>Bundles\<close>

record mtlsBundle =
  mb_caCert :: certificate
  mb_caKey :: int
  mb_serverCert :: tlsCertificate
  mb_clientCert :: tlsCertificate
  mb_expiresAt :: time

definition bundleLifetime :: duration where "bundleLifetime = 86400000000000"
definition rotationMargin :: duration where "rotationMargin = 3600000000000"

text \<open>The common body of \<^verbatim>\<open>GenerateMTLSBundle\<close> and \<^verbatim>\<open>GeneratePluginMTLSBundle\<close>.\<close>

definition generateBundle :: "rng \<Rightarrow> pkixName \<Rightarrow> string \<Rightarrow> string list \<Rightarrow> time \<Rightarrow> nat \<Rightarrow> msg + mtlsBundle" where
  "generateBundle rng caName serverName serverDNSNames now n =
     (let expiry = now + bundleLifetime
      in case GenerateCA rng caName now expiry n of
           Inl e \<Rightarrow> Inl e
         | Inr (caCert, caKey) \<Rightarrow>
             (case IssueLeafCert rng caKey (PkixName [] [] serverName) serverDNSNames ServerAuth now expiry (n + 2) of
                Inl e \<Rightarrow> Inl e
              | Inr serverCert \<Rightarrow>
                  (case IssueLeafCert rng caKey (PkixName [] [] ''kubezap-controller'') [] ClientAuth now expiry (n + 4) of
                     Inl e \<Rightarrow> Inl e
                   | Inr clientCert \<Rightarrow>
                       Inr \<lparr>mb_caCert = caCert, mb_caKey = caKey, mb_serverCert = serverCert, mb_clientCert = clientCert,
                            mb_expiresAt = expiry\<rparr>)))"

definition GenerateMTLSBundle :: "rng \<Rightarrow> string list \<Rightarrow> time \<Rightarrow> nat \<Rightarrow> msg + mtlsBundle" where
  "GenerateMTLSBundle rng serverDNSNames now n =
     generateBundle rng (PkixName [''kubezap.io''] [''executor-ca''] ''kubezap-executor-ca'') ''kubezap-http-executor'' serverDNSNames now n"

definition GeneratePluginMTLSBundle :: "rng \<Rightarrow> string \<Rightarrow> string list \<Rightarrow> time \<Rightarrow> nat \<Rightarrow> msg + mtlsBundle" where
  "GeneratePluginMTLSBundle rng integrationName serverDNSNames now n =
     generateBundle rng (PkixName [''kubezap.io''] [''plugin-mtls-ca''] (''kubezap-plugin-'' @ integrationName @ ''-ca''))
       (''kubezap-plugin-'' @ integrationName) serverDNSNames now n"

definition NeedsRotation :: "time \<Rightarrow> mtlsBundle \<Rightarrow> bool" where
  "NeedsRotation now b \<longleftrightarrow> now + rotationMargin > mb_expiresAt b"

definition ServerCertPEM :: "pemLib \<Rightarrow> mtlsBundle \<Rightarrow> string" where
  "ServerCertPEM lib b = CertChainPEM lib (mb_serverCert b)"

definition ServerKeyPEM :: "pemLib \<Rightarrow> mtlsBundle \<Rightarrow> string" where
  "ServerKeyPEM lib b = PrivateKeyPEM lib (tl_key (mb_serverCert b))"

definition CACertPEM :: "pemLib \<Rightarrow> mtlsBundle \<Rightarrow> string" where
  "CACertPEM lib b = EncodeCertPEM lib (mb_caCert b)"

text \<open>\<^verbatim>\<open>tls.Config\<close> of a client.\<close>

record tlsConfig =
  tx_certificates :: "tlsCertificate list"
  tx_rootCAs :: "certificate list"
  tx_minVersion :: string

definition ClientTLSConfig :: "mtlsBundle \<Rightarrow> tlsConfig" where
  "ClientTLSConfig b = \<lparr>tx_certificates = [mb_clientCert b], tx_rootCAs = [mb_caCert b], tx_minVersion = ''1.3''\<rparr>"

section \<open>Handshakes\<close>

definition certValid :: "certificate list \<Rightarrow> extKeyUsage \<Rightarrow> time \<Rightarrow> tlsCertificate \<Rightarrow> bool" where
  "certValid roots usage now t \<longleftrightarrow>
     (case tl_chain t of
        [] \<Rightarrow> False
      | leaf # _ \<Rightarrow>
          usage \<in> set (xc_extKeyUsage leaf) \<and> xc_notBefore leaf \<le> now \<and> now \<le> xc_notAfter leaf \<and> tl_key t = xc_publicKey leaf \<and>
          list_ex (\<lambda>r. xc_isCA r \<and> xc_publicKey r = xc_signedBy leaf \<and> xc_notBefore r \<le> now \<and> now \<le> xc_notAfter r) roots)"

text \<open>The two sides of a mutual handshake: the client trusts its roots and checks the name it dialled, the server trusts the
  CA file it was given.\<close>

definition clientAccepts :: "tlsConfig \<Rightarrow> string \<Rightarrow> time \<Rightarrow> tlsCertificate \<Rightarrow> bool" where
  "clientAccepts cfg host now t \<longleftrightarrow>
     certValid (tx_rootCAs cfg) ServerAuth now t \<and> list_ex (\<lambda>leaf. host \<in> set (xc_dnsNames leaf)) (take 1 (tl_chain t))"

definition serverAcceptsClient :: "certificate \<Rightarrow> time \<Rightarrow> tlsConfig \<Rightarrow> bool" where
  "serverAcceptsClient ca now cfg \<longleftrightarrow> list_ex (certValid [ca] ClientAuth now) (tx_certificates cfg)"

lemma generateBundle_parts:
  assumes "generateBundle rng caName serverName dns now n = Inr b"
  obtains sCA sS sC kS kC where
    "rng n = Inr (mb_caKey b)"
    "mb_caCert b = Certificate sCA caName (seconds now) (seconds (now + bundleLifetime)) True [] [] (mb_caKey b) (mb_caKey b)"
    "mb_serverCert b = TlsCertificate [Certificate sS (PkixName [] [] serverName) (seconds now) (seconds (now + bundleLifetime))
       False [ServerAuth] dns kS (mb_caKey b)] kS"
    "mb_clientCert b = TlsCertificate [Certificate sC (PkixName [] [] ''kubezap-controller'') (seconds now)
       (seconds (now + bundleLifetime)) False [ClientAuth] [] kC (mb_caKey b)] kC"
    "mb_expiresAt b = now + bundleLifetime"
  using assms by (auto simp: generateBundle_def GenerateCA_def IssueLeafCert_def Let_def split: sum.splits)


section \<open>Rotation\<close>

lemma rotation_margin: "\<not> NeedsRotation now b \<Longrightarrow> t \<le> now + rotationMargin \<Longrightarrow> t \<le> mb_expiresAt b"
  by (simp add: NeedsRotation_def)

lemma fresh_bundle: "generateBundle rng caName serverName dns now n = Inr b \<Longrightarrow> \<not> NeedsRotation now b"
  by (erule generateBundle_parts) (simp add: NeedsRotation_def bundleLifetime_def rotationMargin_def)

section \<open>The store of the plugin bundles\<close>

type_synonym pluginMTLSStore = "(string \<times> mtlsBundle) list"

definition NewPluginMTLSStore :: pluginMTLSStore where "NewPluginMTLSStore = []"

definition pluginMTLSStoreKey :: "string \<Rightarrow> string \<Rightarrow> string" where
  "pluginMTLSStoreKey namespace name = namespace @ ''/'' @ name"

definition GetOrGenerate ::
  "rng \<Rightarrow> string \<Rightarrow> string \<Rightarrow> string list \<Rightarrow> time \<Rightarrow> nat \<Rightarrow> pluginMTLSStore \<Rightarrow> (msg + mtlsBundle) \<times> pluginMTLSStore" where
  "GetOrGenerate rng namespace name serverDNSNames now n st =
     (let key = pluginMTLSStoreKey namespace name;
          generate = (case GeneratePluginMTLSBundle rng name serverDNSNames now n of
                        Inl e \<Rightarrow> (Inl e, st)
                      | Inr b \<Rightarrow> (Inr b, AList.update key b st))
      in case map_of st key of
           None \<Rightarrow> generate
         | Some b \<Rightarrow> if \<not> NeedsRotation now b then (Inr b, st) else generate)"

definition ClientTLSConfigFor :: "string \<Rightarrow> string \<Rightarrow> pluginMTLSStore \<Rightarrow> tlsConfig option" where
  "ClientTLSConfigFor namespace name st = map_option ClientTLSConfig (map_of st (pluginMTLSStoreKey namespace name))"

definition RemoveBundle :: "string \<Rightarrow> string \<Rightarrow> pluginMTLSStore \<Rightarrow> pluginMTLSStore" where
  "RemoveBundle namespace name st = AList.delete (pluginMTLSStoreKey namespace name) st"

lemma GetOrGenerate_stored:
  assumes "GetOrGenerate rng namespace name dns now n st = (Inr b, st')"
  shows "map_of st' (pluginMTLSStoreKey namespace name) = Some b" "\<not> NeedsRotation now b"
    "key \<noteq> pluginMTLSStoreKey namespace name \<Longrightarrow> map_of st' key = map_of st key"
  using assms fresh_bundle
  by (auto simp: GetOrGenerate_def GeneratePluginMTLSBundle_def Let_def update_conv' split: option.splits sum.splits if_splits)

lemma GetOrGenerate_failed: "GetOrGenerate rng namespace name dns now n st = (Inl e, st') \<Longrightarrow> st' = st"
  by (auto simp: GetOrGenerate_def Let_def split: option.splits sum.splits if_splits)

text \<open>A plugin channel never runs on an expired bundle: whenever a recheck succeeds, the bundle in the store, which
  the publishing client uses, is the one the recheck returned and stays valid for another hour, far longer than the
  five minutes to the next recheck; the bundles of other Integrations are untouched.\<close>

theorem plugin_bundle_valid_until_recheck:
  assumes "GetOrGenerate rng namespace name dns now n st = (Inr b, st')" "t \<le> now + 3600000000000"
  shows "ClientTLSConfigFor namespace name st' = Some (ClientTLSConfig b) \<and> t \<le> mb_expiresAt b \<and>
    (pluginMTLSStoreKey ns' name' = pluginMTLSStoreKey namespace name \<or>
     ClientTLSConfigFor ns' name' st' = ClientTLSConfigFor ns' name' st)"
  using GetOrGenerate_stored(1,2) [OF assms(1)] GetOrGenerate_stored(3) [OF assms(1), of "pluginMTLSStoreKey ns' name'"]
    rotation_margin [of now b t] assms(2)
  by (cases "pluginMTLSStoreKey ns' name' = pluginMTLSStoreKey namespace name")
    (simp_all add: ClientTLSConfigFor_def rotationMargin_def)

section \<open>Witnesses\<close>

text \<open>An encoding with the laws: a block by its number in unary.\<close>

definition examplePem :: pemLib where
  "examplePem =
     \<lparr>pm_encode = (\<lambda>b. replicate (to_nat b) (CHR ''a'') @ ''.''),
      pm_decode = (\<lambda>s. Some (from_nat (length (takeWhile (\<lambda>c. c = CHR ''a'') s))))\<rparr>"

lemma examplePem_laws: "pemLaws examplePem"
proof -
  have "takeWhile (\<lambda>c. c = CHR ''a'') (replicate k (CHR ''a'') @ CHR ''.'' # rest) = replicate k (CHR ''a'')" for k rest
    by (induction k) simp_all
  then show ?thesis by (simp add: pemLaws_def examplePem_def)
qed

definition exampleDraws :: rng where "exampleDraws n = Inr (int n)"

lemma exampleDraws_bundle: "\<exists>b. GeneratePluginMTLSBundle exampleDraws name dns now n = Inr b"
  by (simp add: GeneratePluginMTLSBundle_def generateBundle_def GenerateCA_def IssueLeafCert_def randomSerial_def exampleDraws_def Let_def)


theorem plugin_bundle_valid_until_recheck_witness:
  "\<exists>b st'. GetOrGenerate exampleDraws ''ns'' ''p'' [] 7 0 NewPluginMTLSStore = (Inr b, st') \<and>
     ClientTLSConfigFor ''ns'' ''p'' st' = Some (ClientTLSConfig b) \<and> 300000000007 \<le> mb_expiresAt b"
proof -
  obtain b where "GeneratePluginMTLSBundle exampleDraws ''p'' [] 7 0 = Inr b" using exampleDraws_bundle by metis
  then obtain st' where g: "GetOrGenerate exampleDraws ''ns'' ''p'' [] 7 0 NewPluginMTLSStore = (Inr b, st')"
    by (simp add: GetOrGenerate_def NewPluginMTLSStore_def)
  from plugin_bundle_valid_until_recheck [OF g, of 300000000007] g show ?thesis by auto
qed

end
