(* ===== verification/ExecutorReconcile.thy ===== *)
theory ExecutorReconcile
  imports GatewayDeployment Certificates Ssrf
begin

text \<open>
  The executor controller (\<^verbatim>\<open>internal/controller/executor_reconciler.go\<close>): Deployment, Service, network policy and
  certificate Secret of the HTTP executor of a namespace; and the mTLS channel between the FlowRun controller and
  the executors: the bundle and its rotation in \<^verbatim>\<open>cmd/main.go\<close>, the client of \<^verbatim>\<open>callExecutor\<close> in
  \<^verbatim>\<open>flowrun_controller.go\<close> and the listener of \<^verbatim>\<open>cmd/http-executor/main.go\<close>.
\<close>

section \<open>Configuration\<close>

record executorReconciler =
  er_executorImage :: string
  er_executorPort :: int
  er_mtlsEnabled :: bool
  er_mtlsBundle :: "mtlsBundle option"
  er_ssrfAllowClusterInternal :: bool
  er_operatorNamespace :: string

definition executorDeploymentName :: string where "executorDeploymentName = ''kubezap-http-executor''"
definition executorNetworkPolicyName :: string where "executorNetworkPolicyName = ''kubezap-executor-ingress''"
definition executorMTLSSecretName :: string where "executorMTLSSecretName = ''kubezap-executor-mtls-cert''"
definition executorHealthPort :: int where "executorHealthPort = 8092"
definition DefaultExecutorPort :: int where "DefaultExecutorPort = 8091"
definition componentHTTPExecutor :: string where "componentHTTPExecutor = ''http-executor''"

definition executorImage :: "executorReconciler \<Rightarrow> string" where
  "executorImage r = (if er_executorImage r \<noteq> [] then er_executorImage r else ''ghcr.io/kubezap/http-executor:latest'')"

definition executorPort :: "executorReconciler \<Rightarrow> int" where
  "executorPort r = (if er_executorPort r \<noteq> 0 then er_executorPort r else DefaultExecutorPort)"

definition egressExceptCIDRs :: "executorReconciler \<Rightarrow> string list" where
  "egressExceptCIDRs r = (if er_ssrfAllowClusterInternal r then [] else SSRFBlockedCIDRsV4)"

definition egressExceptCIDRsV6 :: "executorReconciler \<Rightarrow> string list" where
  "egressExceptCIDRsV6 r = (if er_ssrfAllowClusterInternal r then [] else SSRFBlockedCIDRsV6)"

definition operatorNamespace :: "executorReconciler \<Rightarrow> string" where
  "operatorNamespace r = (if er_operatorNamespace r \<noteq> [] then er_operatorNamespace r else ''kubezap-system'')"

definition executorSelector :: smap where
  "executorSelector = [(''app.kubernetes.io/name'', ''kubezap''), (''app.kubernetes.io/component'', componentHTTPExecutor)]"

definition executorLabels :: smap where
  "executorLabels = executorSelector @ [(''app.kubernetes.io/managed-by'', ''kubezap-operator'')]"

section \<open>Desired objects\<close>

definition executorArgs :: "executorReconciler \<Rightarrow> string list" where
  "executorArgs r =
     [''--port='' @ showInt (executorPort r), ''--health-port='' @ showInt executorHealthPort] @
     (if er_ssrfAllowClusterInternal r then [''--ssrf-allow-in-cluster=true''] else []) @
     (if er_mtlsEnabled r then
        [''--mtls=true'', ''--tls-cert-file=/etc/kubezap/tls/tls.crt'', ''--tls-key-file=/etc/kubezap/tls/tls.key'',
         ''--tls-ca-file=/etc/kubezap/tls/ca.crt'']
      else [])"

definition executorProbe :: "int \<Rightarrow> int \<Rightarrow> probe" where
  "executorProbe delay period =
     \<lparr>pb_path = healthzPath, pb_port = executorHealthPort, pb_scheme = ''HTTP'', pb_initialDelaySeconds = delay,
      pb_periodSeconds = period, pb_failureThreshold = 0\<rparr>"

definition executorDeploymentSpec :: "(string \<Rightarrow> string) \<Rightarrow> executorReconciler \<Rightarrow> deploymentSpec" where
  "executorDeploymentSpec getenv r =
     \<lparr>ds_replicas = Some 1, ds_selector = executorSelector, ds_podLabels = executorLabels, ds_serviceAccountName = [],
      ds_automountServiceAccountToken = Some False, ds_terminationGracePeriodSeconds = Some 30,
      ds_podRunAsNonRoot = True, ds_podSeccompRuntimeDefault = True,
      ds_volumes = (if er_mtlsEnabled r
                    then [\<lparr>vo_name = ''mtls-certs'', vo_secretName = executorMTLSSecretName, vo_defaultMode = None\<rparr>] else []),
      ds_container =
        \<lparr>co_name = componentHTTPExecutor, co_image = executorImage r, co_imagePullPolicy = ''IfNotPresent'',
         co_args = executorArgs r, co_env = otelPassthroughEnv getenv,
         co_ports =
           [\<lparr>po_name = ''http'', po_containerPort = executorPort r, po_protocol = ''TCP''\<rparr>,
            \<lparr>po_name = ''health'', po_containerPort = executorHealthPort, po_protocol = ''TCP''\<rparr>],
         co_volumeMounts = (if er_mtlsEnabled r
                            then [\<lparr>vm_name = ''mtls-certs'', vm_mountPath = ''/etc/kubezap/tls'', vm_readOnly = True\<rparr>] else []),
         co_securityContext =
           \<lparr>sx_runAsNonRoot = True, sx_readOnlyRootFilesystem = True, sx_allowPrivilegeEscalation = False,
            sx_dropCapabilities = [''ALL''], sx_seccompRuntimeDefault = True, sx_runAsUser = Some 65534\<rparr>,
         co_requests = [], co_limits = [],
         co_livenessProbe = Some (executorProbe 5 15), co_readinessProbe = Some (executorProbe 2 10)\<rparr>\<rparr>"

definition executorService :: "executorReconciler \<Rightarrow> service \<Rightarrow> service" where
  "executorService r svc =
     svc\<lparr>svc_labels := executorLabels, svc_selector := executorSelector, svc_ports := [tcpPort ''http'' (executorPort r)],
         svc_type := ''ClusterIP''\<rparr>"

definition executorNetworkPolicy :: "executorReconciler \<Rightarrow> networkPolicy" where
  "executorNetworkPolicy r =
     \<lparr>np_podSelector = executorSelector,
      np_ingress =
        [\<lparr>nr_peers = [PodPeer [(''control-plane'', ''controller-manager'')] [(''kubernetes.io/metadata.name'', operatorNamespace r)]],
          nr_ports = [(''TCP'', executorPort r)]\<rparr>],
      np_egress =
        [\<lparr>nr_peers = [BlockPeer ''0.0.0.0/0'' (egressExceptCIDRs r), BlockPeer ''::/0'' (egressExceptCIDRsV6 r)], nr_ports = []\<rparr>,
         \<lparr>nr_peers = [], nr_ports = [(''UDP'', 53), (''TCP'', 53)]\<rparr>],
      np_policyTypes = [''Ingress'', ''Egress'']\<rparr>"

definition certSecretData :: "pemLib \<Rightarrow> mtlsBundle \<Rightarrow> smap" where
  "certSecretData lib b = [(''tls.crt'', ServerCertPEM lib b), (''tls.key'', ServerKeyPEM lib b), (''ca.crt'', CACertPEM lib b)]"

section \<open>Reconcile\<close>

definition emptySpec :: deploymentSpec where
  "emptySpec =
     \<lparr>ds_replicas = None, ds_selector = [], ds_podLabels = [], ds_serviceAccountName = [], ds_automountServiceAccountToken = None,
      ds_terminationGracePeriodSeconds = None, ds_podRunAsNonRoot = False, ds_podSeccompRuntimeDefault = False, ds_volumes = [],
      ds_container = \<lparr>co_name = [], co_image = [], co_imagePullPolicy = [], co_args = [], co_env = [], co_ports = [],
        co_volumeMounts = [], co_securityContext = \<lparr>sx_runAsNonRoot = False, sx_readOnlyRootFilesystem = False,
          sx_allowPrivilegeEscalation = True, sx_dropCapabilities = [], sx_seccompRuntimeDefault = False, sx_runAsUser = None\<rparr>,
        co_requests = [], co_limits = [], co_livenessProbe = None, co_readinessProbe = None\<rparr>\<rparr>"

definition reconcileExecutorDeployment ::
  "kubeEnv \<Rightarrow> (string \<Rightarrow> string) \<Rightarrow> executorReconciler \<Rightarrow> nsObjects \<Rightarrow> msg option \<times> nsObjects" where
  "reconcileExecutorDeployment env getenv r objs =
     (case createOrUpdate env ''Deployment'' executorDeploymentName
             (\<lambda>d. Inr (d\<lparr>dp_labels := executorLabels, dp_spec := executorDeploymentSpec getenv r\<rparr>))
             \<lparr>dp_labels = executorLabels, dp_spec = emptySpec, dp_owners = [], dp_availableReplicas = 0\<rparr> (ns_deployments objs) of
        (e, xs) \<Rightarrow> (e, objs\<lparr>ns_deployments := xs\<rparr>))"

definition reconcileExecutorService :: "kubeEnv \<Rightarrow> executorReconciler \<Rightarrow> nsObjects \<Rightarrow> msg option \<times> nsObjects" where
  "reconcileExecutorService env r objs =
     (case createOrUpdate env ''Service'' executorDeploymentName (\<lambda>s. Inr (executorService r s))
             \<lparr>svc_labels = executorLabels, svc_selector = [], svc_ports = [], svc_type = [], svc_owners = []\<rparr> (ns_services objs) of
        (e, xs) \<Rightarrow> (e, objs\<lparr>ns_services := xs\<rparr>))"

definition reconcileExecutorNetworkPolicy :: "kubeEnv \<Rightarrow> executorReconciler \<Rightarrow> nsObjects \<Rightarrow> msg option \<times> nsObjects" where
  "reconcileExecutorNetworkPolicy env r objs =
     (case createOrUpdate env ''NetworkPolicy'' executorNetworkPolicyName (\<lambda>_. Inr (executorNetworkPolicy r))
             \<lparr>np_podSelector = [], np_ingress = [], np_egress = [], np_policyTypes = []\<rparr> (ns_policies objs) of
        (e, xs) \<Rightarrow> (e, objs\<lparr>ns_policies := xs\<rparr>))"

definition reconcileExecutorCertSecret ::
  "kubeEnv \<Rightarrow> pemLib \<Rightarrow> executorReconciler \<Rightarrow> nsObjects \<Rightarrow> msg option \<times> nsObjects" where
  "reconcileExecutorCertSecret env lib r objs =
     (case er_mtlsBundle r of
        None \<Rightarrow> (Some (Txt ''mTLS enabled but MTLSBundle is nil: bundle must be set before reconciliation''), objs)
      | Some b \<Rightarrow>
          (case createOrUpdate env ''Secret'' executorMTLSSecretName
                  (\<lambda>s. Inr (s\<lparr>se_type := ''Opaque'', se_data := certSecretData lib b\<rparr>))
                  \<lparr>se_type = [], se_data = [], se_owners = []\<rparr> (ns_secrets objs) of
             (e, xs) \<Rightarrow> (e, objs\<lparr>ns_secrets := xs\<rparr>)))"

definition reconcileExecutor ::
  "kubeEnv \<Rightarrow> (string \<Rightarrow> string) \<Rightarrow> pemLib \<Rightarrow> executorReconciler \<Rightarrow> nsObjects \<Rightarrow> msg option \<times> nsObjects" where
  "reconcileExecutor env getenv lib r =
     untilError
       ([reconcileExecutorDeployment env getenv r, reconcileExecutorService env r, reconcileExecutorNetworkPolicy env r] @
        (if er_mtlsEnabled r then [reconcileExecutorCertSecret env lib r] else []))"

section \<open>The network policy\<close>

text \<open>What a network policy lets through: a peer block is its CIDR without the exceptions; a rule without peers or ports
  does not restrict them.\<close>

definition inBlock :: "string \<Rightarrow> netIP \<Rightarrow> bool" where
  "inBlock cidr ip \<longleftrightarrow> (case parseCIDR cidr of None \<Rightarrow> False | Some n \<Rightarrow> netContains n ip)"

fun peerMatches :: "netIP \<Rightarrow> networkPolicyPeer \<Rightarrow> bool" where
  "peerMatches ip (BlockPeer cidr except) \<longleftrightarrow> inBlock cidr ip \<and> \<not> list_ex (\<lambda>c. inBlock c ip) except"
| "peerMatches ip (PodPeer pods namespaces) \<longleftrightarrow> False"

definition allowsEgress :: "networkPolicy \<Rightarrow> string \<Rightarrow> int \<Rightarrow> netIP \<Rightarrow> bool" where
  "allowsEgress np protocol port ip \<longleftrightarrow>
     list_ex (\<lambda>rule. (nr_peers rule = [] \<or> list_ex (peerMatches ip) (nr_peers rule)) \<and>
                     (nr_ports rule = [] \<or> (protocol, port) \<in> set (nr_ports rule))) (np_egress np)"

lemma mustParse_blocks:
  "mustParseCIDRs cidrs = Some ns \<Longrightarrow> list_ex (\<lambda>c. inBlock c ip) cidrs \<longleftrightarrow> (\<exists>n \<in> set ns. netContains n ip)"
  by (induction cidrs arbitrary: ns) (auto simp: inBlock_def split: option.splits)

lemma blocked_lists:
  "list_ex (\<lambda>c. inBlock c ip) SSRFBlockedCIDRsV4 \<or> list_ex (\<lambda>c. inBlock c ip) SSRFBlockedCIDRsV6 \<longleftrightarrow> reservedAddress ip"
  using mustParse_blocks [OF executorBlockedCIDRs_parse, of ip] executor_blocks_reserved [of ip]
  by (simp add: isBlockedIP_iff)

lemma whole_blocks:
  "inBlock ''0.0.0.0/0'' ip \<longleftrightarrow> (case norm4 ip of IP4 _ \<Rightarrow> True | IP16 _ \<Rightarrow> False)"
  "inBlock ''::/0'' ip \<longleftrightarrow> (case norm4 ip of IP4 _ \<Rightarrow> False | IP16 _ \<Rightarrow> True)"
proof -
  have v4: "parseCIDR ''0.0.0.0/0'' = Some \<lparr>in_ip = IP4 0, in_mask = IP4 0\<rparr>" by (simp add: net_eval)
  have v6: "parseCIDR ''::/0'' = Some \<lparr>in_ip = IP16 0, in_mask = IP16 0\<rparr>" by (simp add: net_eval)
  show "inBlock ''0.0.0.0/0'' ip \<longleftrightarrow> (case norm4 ip of IP4 _ \<Rightarrow> True | IP16 _ \<Rightarrow> False)"
    by (simp add: inBlock_def v4 netContains_def split: netIP.split)
  show "inBlock ''::/0'' ip \<longleftrightarrow> (case norm4 ip of IP4 _ \<Rightarrow> False | IP16 _ \<Rightarrow> True)"
    by (simp add: inBlock_def v6 netContains_def norm4_def [of "IP16 0"] split: netIP.split)
qed

text \<open>The lists of the two families do not reach into each other.\<close>

lemma family_lists:
  "norm4 ip = IP4 w \<Longrightarrow> \<not> list_ex (\<lambda>c. inBlock c ip) SSRFBlockedCIDRsV6"
  "norm4 ip = IP16 v \<Longrightarrow> \<not> list_ex (\<lambda>c. inBlock c ip) SSRFBlockedCIDRsV4"
  by (simp_all add: SSRFBlockedCIDRsV6_def SSRFBlockedCIDRsV4_def inBlock_def parseCIDR_defaults parseCIDR_defaults6
      netContains_prefix4 netContains_prefix16 netContains_host16)


definition exampleExecutor :: executorReconciler where
  "exampleExecutor = \<lparr>er_executorImage = [], er_executorPort = 0, er_mtlsEnabled = True, er_mtlsBundle = None,
     er_ssrfAllowClusterInternal = False, er_operatorNamespace = []\<rparr>"


section \<open>The channel to the executors\<close>

text \<open>\<^verbatim>\<open>cmd/main.go\<close>: the names of the one server certificate, for the operator's own namespace; and the name that the
  FlowRun controller dials for a namespace.\<close>

definition executorDNSNames :: "string \<Rightarrow> string list" where
  "executorDNSNames namespace =
     [''kubezap-http-executor.'' @ namespace @ ''.svc.cluster.local'', ''kubezap-http-executor.'' @ namespace @ ''.svc'']"

definition executorHost :: "string \<Rightarrow> string" where
  "executorHost namespace = ''kubezap-http-executor.'' @ namespace @ ''.svc.cluster.local''"

text \<open>The client of \<^verbatim>\<open>callExecutor\<close> is made once, with the configuration of that moment; the ticker of \<^verbatim>\<open>cmd/main.go\<close>
  replaces the bundle and the configuration when the bundle is due.\<close>

record executorChannel =
  ch_bundle :: mtlsBundle
  ch_config :: tlsConfig
  ch_client :: "tlsConfig option"

definition startChannel :: "mtlsBundle \<Rightarrow> executorChannel" where
  "startChannel b = \<lparr>ch_bundle = b, ch_config = ClientTLSConfig b, ch_client = None\<rparr>"

definition executorClient :: "executorChannel \<Rightarrow> tlsConfig \<times> executorChannel" where
  "executorClient ch =
     (case ch_client ch of
        Some c \<Rightarrow> (c, ch)
      | None \<Rightarrow> (ch_config ch, ch\<lparr>ch_client := Some (ch_config ch)\<rparr>))"

definition rotationTick :: "rng \<Rightarrow> string list \<Rightarrow> time \<Rightarrow> nat \<Rightarrow> executorChannel \<Rightarrow> executorChannel" where
  "rotationTick rng dns now n ch =
     (if \<not> NeedsRotation now (ch_bundle ch) then ch
      else case GenerateMTLSBundle rng dns now n of
          Inl e \<Rightarrow> ch
        | Inr b \<Rightarrow> ch\<lparr>ch_bundle := b, ch_config := ClientTLSConfig b\<rparr>)"

datatype channelOp = ExecutorCall | RotationTick time nat

fun channelStep :: "rng \<Rightarrow> string list \<Rightarrow> channelOp \<Rightarrow> executorChannel \<Rightarrow> executorChannel" where
  "channelStep rng dns ExecutorCall ch = snd (executorClient ch)"
| "channelStep rng dns (RotationTick now n) ch = rotationTick rng dns now n ch"

lemma client_pinned:
  "ch_client ch = Some c \<Longrightarrow> ch_client (fold (channelStep rng dns) ops ch) = Some c"
proof (induction ops arbitrary: ch)
  case (Cons op ops)
  have "ch_client (channelStep rng dns op ch) = Some c"
    using Cons.prems by (cases op) (simp_all add: executorClient_def rotationTick_def split: sum.split)
  then show ?case using Cons.IH by simp
qed simp

lemma expired_root_rejects: "xc_notAfter r < t \<Longrightarrow> \<not> certValid [r] usage t cert"
  by (simp add: certValid_def split: list.split)

text \<open>Rotation does not reach the calls to the executor. The client of the first call stays in use through every later
  rotation; so once the bundle of the start has expired, a day after the operator came up, every handshake with
  every executor fails on the client's side, whatever certificate the executor presents.\<close>

theorem executor_channel_dies_with_first_bundle:
  assumes "GenerateMTLSBundle rng dns now n = Inr b" "t > now + bundleLifetime"
  shows "fst (executorClient (fold (channelStep rng dns) (ExecutorCall # ops) (startChannel b))) = ClientTLSConfig b \<and>
    \<not> clientAccepts (ClientTLSConfig b) host t cert"
proof -
  have "ch_client (snd (executorClient (startChannel b))) = Some (ClientTLSConfig b)"
    by (simp add: executorClient_def startChannel_def)
  from client_pinned [OF this, of rng dns ops] have "fst (executorClient (fold (channelStep rng dns) (ExecutorCall # ops) (startChannel b))) = ClientTLSConfig b"
    by (simp add: executorClient_def)
  moreover from assms(1)[unfolded GenerateMTLSBundle_def] obtain sCA where
    "mb_caCert b = Certificate sCA (PkixName [''kubezap.io''] [''executor-ca''] ''kubezap-executor-ca'')
      (seconds now) (seconds (now + bundleLifetime)) True [] [] (mb_caKey b) (mb_caKey b)" by (rule generateBundle_parts)
  then have "xc_notAfter (mb_caCert b) < t" using seconds_le [of "now + bundleLifetime"] assms(2) by simp
  ultimately show ?thesis by (simp add: clientAccepts_def ClientTLSConfig_def expired_root_rejects)
qed

text \<open>With mTLS on, an executor of any namespace but the operator's own is unreachable: the one server certificate
  names the operator's namespace only, and the controller dials the executor under the FlowRun's namespace.\<close>

theorem executor_mtls_only_operator_namespace:
  assumes "GenerateMTLSBundle rng (executorDNSNames op) now n = Inr b" "ns \<noteq> op" "CHR ''.'' \<notin> set ns" "CHR ''.'' \<notin> set op"
  shows "\<not> clientAccepts (ClientTLSConfig b) (executorHost ns) t (mb_serverCert b)"
proof -
  from assms(1)[unfolded GenerateMTLSBundle_def] obtain sS kS where s:
    "mb_serverCert b = TlsCertificate [Certificate sS (PkixName [] [] ''kubezap-http-executor'') (seconds now)
       (seconds (now + bundleLifetime)) False [ServerAuth] (executorDNSNames op) kS (mb_caKey b)] kS" by (rule generateBundle_parts)
  have label: "takeWhile (\<lambda>c. c \<noteq> CHR ''.'') (x @ CHR ''.'' # r) = x" if "CHR ''.'' \<notin> set x" for x r
    using that by (induction x) auto
  have "ns @ CHR ''.'' # r \<noteq> op @ CHR ''.'' # r'" for r r'
    using label [OF assms(3), of r] label [OF assms(4), of r'] assms(2) by metis
  from this [of "''svc.cluster.local''" "''svc.cluster.local''"] this [of "''svc.cluster.local''" "''svc''"]
  have "executorHost ns \<notin> set (executorDNSNames op)" by (simp add: executorHost_def executorDNSNames_def)
  then show ?thesis by (simp add: clientAccepts_def s)
qed

section \<open>Objects after a reconcile\<close>

text \<open>After one reconcile whose requests are accepted, the executor of the namespace is what the configuration asks
  for: the Deployment mounts the Secret, the Service selects its pods, the policy is in place, and with mTLS the
  Secret carries the key pair and CA of the operator's bundle, so that the two sides can meet.\<close>

theorem reconcileExecutor_establishes:
  assumes "kubeAccepts env" "pemLaws lib" "er_mtlsEnabled r" "er_mtlsBundle r = Some b" "tl_chain (mb_serverCert b) = [leaf]"
  shows "\<exists>objs' d v sec. reconcileExecutor env getenv lib r objs = (None, objs') \<and>
    map_of (ns_deployments objs') executorDeploymentName = Some d \<and> dp_spec d = executorDeploymentSpec getenv r \<and>
    map (vo_secretName) (ds_volumes (dp_spec d)) = [executorMTLSSecretName] \<and>
    map_of (ns_services objs') executorDeploymentName = Some v \<and> svc_selector v = ds_selector (dp_spec d) \<and>
    map_of (ns_policies objs') executorNetworkPolicyName = Some (executorNetworkPolicy r) \<and>
    map_of (ns_secrets objs') executorMTLSSecretName = Some sec \<and>
    ParseCertPEM lib (the (map_of (se_data sec) ''ca.crt'')) = Inr (mb_caCert b) \<and>
    ParseCertPEM lib (the (map_of (se_data sec) ''tls.crt'')) = Inr leaf \<and>
    ParseECPrivateKeyPEM lib (the (map_of (se_data sec) ''tls.key'')) = Inr (tl_key (mb_serverCert b))"
  using assms
  by (simp add: reconcileExecutor_def reconcileExecutorDeployment_def reconcileExecutorService_def
      reconcileExecutorNetworkPolicy_def reconcileExecutorCertSecret_def createOrUpdate_upserted map_of_upserted
      executorDeploymentSpec_def executorService_def certSecretData_def CACertPEM_def ServerCertPEM_def ServerKeyPEM_def
      ParseCertPEM_Encode ParseCertPEM_chain ParseECPrivateKeyPEM_key)

section \<open>Witnesses\<close>

definition exampleRng :: rng where "exampleRng n = Inr (int n)"

definition exampleBundle :: mtlsBundle where
  "exampleBundle = (case GenerateMTLSBundle exampleRng (executorDNSNames ''kubezap-system'') 0 0 of Inr b \<Rightarrow> b)"

lemma exampleBundle_generated: "GenerateMTLSBundle exampleRng (executorDNSNames ''kubezap-system'') 0 0 = Inr exampleBundle"
  by (simp add: exampleBundle_def GenerateMTLSBundle_def generateBundle_def GenerateCA_def IssueLeafCert_def randomSerial_def
      exampleRng_def Let_def)

theorem executor_channel_dies_with_first_bundle_witness:
  "fst (executorClient (fold (channelStep exampleRng (executorDNSNames ''kubezap-system''))
      [ExecutorCall, RotationTick 83000000000000 10, ExecutorCall] (startChannel exampleBundle))) = ClientTLSConfig exampleBundle \<and>
   \<not> clientAccepts (ClientTLSConfig exampleBundle) (executorHost ''kubezap-system'') 90000000000000 (mb_serverCert exampleBundle)"
  using executor_channel_dies_with_first_bundle [OF exampleBundle_generated, of 90000000000000
      "[RotationTick 83000000000000 10, ExecutorCall]" "executorHost ''kubezap-system''" "mb_serverCert exampleBundle"]
  by (simp add: bundleLifetime_def)

theorem executor_mtls_only_operator_namespace_witness:
  "\<not> clientAccepts (ClientTLSConfig exampleBundle) (executorHost ''default'') 1 (mb_serverCert exampleBundle)"
  using executor_mtls_only_operator_namespace [OF exampleBundle_generated, of "''default''"] by simp

theorem reconcileExecutor_establishes_witness:
  "kubeAccepts acceptingServer \<and> pemLaws examplePem \<and>
   (\<exists>objs' sec. reconcileExecutor acceptingServer (\<lambda>_. []) examplePem (exampleExecutor\<lparr>er_mtlsBundle := Some exampleBundle\<rparr>) emptyObjects = (None, objs') \<and>
      map_of (ns_secrets objs') executorMTLSSecretName = Some sec)"
proof -
  from exampleBundle_generated [unfolded GenerateMTLSBundle_def] obtain sS kS where
    "mb_serverCert exampleBundle = TlsCertificate [Certificate sS (PkixName [] [] ''kubezap-http-executor'') (seconds 0)
       (seconds (0 + bundleLifetime)) False [ServerAuth] (executorDNSNames ''kubezap-system'') kS (mb_caKey exampleBundle)] kS"
    by (rule generateBundle_parts)
  then obtain leaf where leaf: "tl_chain (mb_serverCert exampleBundle) = [leaf]" by simp
  let ?r = "exampleExecutor\<lparr>er_mtlsBundle := Some exampleBundle\<rparr>"
  have "er_mtlsEnabled ?r" "er_mtlsBundle ?r = Some exampleBundle" by (simp_all add: exampleExecutor_def)
  from reconcileExecutor_establishes [OF acceptingServer_accepts examplePem_laws this leaf, of "\<lambda>_. []" emptyObjects]
  show ?thesis using acceptingServer_accepts examplePem_laws by blast
qed

end
