(* ===== verification/WebhookCerts.thy ===== *)
theory WebhookCerts
  imports Workloads Certificates
begin

text \<open>
  The serving certificate of the admission webhooks (\<^verbatim>\<open>internal/webhookcerts/webhookcerts.go\<close> and \<^verbatim>\<open>rotator.go\<close>). The
  shared state is the Secret and the CA bundles of the webhook configuration, as the API server has them; each
  replica has its two files. \<open>we_race\<close> is the Secret that another replica creates between this one's read and its
  own create request, \<open>we_conflicts\<close> the number of conflicts an update meets before it is accepted; the retries
  of \<^verbatim>\<open>retry.RetryOnConflict\<close> with its default settings are five attempts.
\<close>

section \<open>State\<close>

record options =
  op_namespace :: string
  op_serviceName :: string
  op_certDir :: string
  op_certFileName :: string
  op_keyFileName :: string
  op_caValidity :: duration
  op_certValidity :: duration
  op_rotateBefore :: duration

definition setDefaults :: "options \<Rightarrow> options" where
  "setDefaults o1 =
     o1\<lparr>op_certFileName := (if op_certFileName o1 = [] then ''tls.crt'' else op_certFileName o1),
        op_keyFileName := (if op_keyFileName o1 = [] then ''tls.key'' else op_keyFileName o1),
        op_caValidity := (if op_caValidity o1 = 0 then 10 * 365 * 86400000000000 else op_caValidity o1),
        op_certValidity := (if op_certValidity o1 = 0 then 365 * 86400000000000 else op_certValidity o1),
        op_rotateBefore := (if op_rotateBefore o1 = 0 then 30 * 86400000000000 else op_rotateBefore o1)\<rparr>"

definition dnsNames :: "options \<Rightarrow> string list" where
  "dnsNames o1 =
     [op_serviceName o1 @ ''.'' @ op_namespace o1 @ ''.svc'', op_serviceName o1 @ ''.'' @ op_namespace o1 @ ''.svc.cluster.local'']"

record certEnv =
  we_now :: time
  we_rng :: rng
  we_draw :: nat
  we_get :: "apiError option"
  we_race :: "smap option"
  we_create :: apiOutcome
  we_conflicts :: nat
  we_update :: apiOutcome
  we_configGet :: "apiError option"
  we_configUpdate :: apiOutcome
  we_mkdir :: "msg option"
  we_writeFile :: "string \<Rightarrow> msg option"

record certState =
  wc_secret :: "smap option"
  wc_caBundles :: "string list option"
  wc_files :: smap

definition KeyCACert :: string where "KeyCACert = ''ca.crt''"
definition KeyCAKey :: string where "KeyCAKey = ''ca.key''"
definition KeyTLSCert :: string where "KeyTLSCert = ''tls.crt''"
definition KeyTLSKey :: string where "KeyTLSKey = ''tls.key''"

text \<open>A missing key of the data map is the empty value.\<close>

definition dataKey :: "smap \<Rightarrow> string \<Rightarrow> string" where
  "dataKey data key = (case map_of data key of None \<Rightarrow> [] | Some v \<Rightarrow> v)"

section \<open>The Secret\<close>

definition secretData :: "pemLib \<Rightarrow> certificate \<Rightarrow> int \<Rightarrow> tlsCertificate \<Rightarrow> smap" where
  "secretData lib caCert caKey leaf =
     [(KeyCACert, EncodeCertPEM lib caCert), (KeyCAKey, PrivateKeyPEM lib caKey), (KeyTLSCert, CertChainPEM lib leaf),
      (KeyTLSKey, PrivateKeyPEM lib (tl_key leaf))]"

datatype certError = ApiErr apiError | CertErr msg

fun certErrorMsg :: "certError \<Rightarrow> msg" where
  "certErrorMsg (ApiErr e) = apiErrorMsg e" | "certErrorMsg (CertErr m) = m"

text \<open>The create request: refused when the Secret exists, or when another replica got there first.\<close>

definition createRequest :: "certEnv \<Rightarrow> smap \<Rightarrow> certState \<Rightarrow> apiError option \<times> certState" where
  "createRequest env data st =
     (let st1 = (case we_race env of None \<Rightarrow> st | Some other \<Rightarrow> if wc_secret st = None then st\<lparr>wc_secret := Some other\<rparr> else st)
      in if wc_secret st1 \<noteq> None then (Some AlreadyExists, st1)
         else case we_create env of
             Accepted \<Rightarrow> (None, st1\<lparr>wc_secret := Some data\<rparr>)
           | Rejected e \<Rightarrow> (Some e, st1)
           | AnswerLost e \<Rightarrow> (Some e, st1\<lparr>wc_secret := Some data\<rparr>))"

definition createSecret :: "pemLib \<Rightarrow> options \<Rightarrow> certEnv \<Rightarrow> certState \<Rightarrow> (certError + smap) \<times> certState" where
  "createSecret lib opts env st =
     (let now = we_now env
      in case GenerateCA (we_rng env) (PkixName [''kubezap.io''] [] ''kubezap-webhook-ca'') now (now + op_caValidity opts) (we_draw env) of
           Inl e \<Rightarrow> (Inl (CertErr e), st)
         | Inr (caCert, caKey) \<Rightarrow>
             (case IssueLeafCert (we_rng env) caKey (PkixName [] [] (op_serviceName opts)) (dnsNames opts) ServerAuth now
                     (now + op_certValidity opts) (we_draw env + 2) of
                Inl e \<Rightarrow> (Inl (CertErr e), st)
              | Inr leaf \<Rightarrow>
                  (case createRequest env (secretData lib caCert caKey leaf) st of
                     (Some e, st') \<Rightarrow> (Inl (ApiErr e), st')
                   | (None, st') \<Rightarrow> (Inr (secretData lib caCert caKey leaf), st'))))"

definition needsLeafRotation :: "pemLib \<Rightarrow> options \<Rightarrow> time \<Rightarrow> smap \<Rightarrow> bool" where
  "needsLeafRotation lib opts now data \<longleftrightarrow>
     (dataKey data KeyTLSCert = [] \<or> dataKey data KeyTLSKey = [] \<or> dataKey data KeyCACert = [] \<or>
      (case ParseCertPEM lib (dataKey data KeyTLSCert) of
         Inl _ \<Rightarrow> True
       | Inr cert \<Rightarrow> now + op_rotateBefore opts > xc_notAfter cert))"

definition retrySteps :: nat where "retrySteps = 5"

text \<open>The update inside \<^verbatim>\<open>RetryOnConflict\<close>: the Secret is read again, a new leaf is issued and the data is replaced.\<close>

definition rotateLeaf :: "pemLib \<Rightarrow> options \<Rightarrow> certEnv \<Rightarrow> smap \<Rightarrow> certState \<Rightarrow> (certError + smap) \<times> certState" where
  "rotateLeaf lib opts env data st =
     (case (ParseCertPEM lib (dataKey data KeyCACert), ParseECPrivateKeyPEM lib (dataKey data KeyCAKey)) of
        (Inr caCert, Inr caKey) \<Rightarrow>
          if wc_secret st = None then (Inl (ApiErr NotFound), st)
          else (case IssueLeafCert (we_rng env) caKey (PkixName [] [] (op_serviceName opts)) (dnsNames opts) ServerAuth (we_now env)
                      (we_now env + op_certValidity opts) (we_draw env + 2 * we_conflicts env) of
              Inl e \<Rightarrow> (Inl (CertErr e), st)
            | Inr leaf \<Rightarrow>
                (let updated = secretData lib caCert caKey leaf; st' = st\<lparr>wc_secret := Some updated\<rparr>
                 in if we_conflicts env \<ge> retrySteps then (Inl (ApiErr Conflict), st)
                    else case we_update env of
                        Accepted \<Rightarrow> (Inr updated, st')
                      | Rejected e \<Rightarrow> (Inl (ApiErr e), st)
                      | AnswerLost e \<Rightarrow> (Inl (ApiErr e), st')))
      | _ \<Rightarrow> createSecret lib opts env st)"

definition ensureSecret :: "pemLib \<Rightarrow> options \<Rightarrow> certEnv \<Rightarrow> certState \<Rightarrow> (certError + smap) \<times> certState" where
  "ensureSecret lib opts env st =
     (let check = (\<lambda>data st'. if needsLeafRotation lib opts (we_now env) data then rotateLeaf lib opts env data st' else (Inr data, st'))
      in case we_get env of
           Some e \<Rightarrow> (Inl (ApiErr e), st)
         | None \<Rightarrow>
             (case wc_secret st of
                Some data \<Rightarrow> check data st
              | None \<Rightarrow>
                  (case createSecret lib opts env st of
                     (Inr data, st') \<Rightarrow> (Inr data, st')
                   | (Inl e, st') \<Rightarrow>
                       if e \<noteq> ApiErr AlreadyExists then (Inl e, st')
                       else (case wc_secret st' of None \<Rightarrow> (Inl (ApiErr NotFound), st') | Some data \<Rightarrow> check data st'))))"

section \<open>Files and the CA bundle\<close>

definition joinPath :: "string \<Rightarrow> string \<Rightarrow> string" where "joinPath dir name = dir @ ''/'' @ name"

definition writeIfChanged :: "certEnv \<Rightarrow> string \<Rightarrow> string \<Rightarrow> certState \<Rightarrow> msg option \<times> certState" where
  "writeIfChanged env path data st =
     (if map_of (wc_files st) path = Some data then (None, st)
      else case we_writeFile env path of
          Some e \<Rightarrow> (Some e, st)
        | None \<Rightarrow> (None, st\<lparr>wc_files := AList.update path data (wc_files st)\<rparr>))"

definition writeCertFiles :: "options \<Rightarrow> certEnv \<Rightarrow> smap \<Rightarrow> certState \<Rightarrow> msg option \<times> certState" where
  "writeCertFiles opts env data st =
     (case we_mkdir env of
        Some e \<Rightarrow> (Some e, st)
      | None \<Rightarrow>
          untilError [writeIfChanged env (joinPath (op_certDir opts) (op_certFileName opts)) (dataKey data KeyTLSCert),
                      writeIfChanged env (joinPath (op_certDir opts) (op_keyFileName opts)) (dataKey data KeyTLSKey)] st)"

definition patchCABundle :: "certEnv \<Rightarrow> string \<Rightarrow> certState \<Rightarrow> apiError option \<times> certState" where
  "patchCABundle env caCertPEM st =
     (case we_configGet env of
        Some e \<Rightarrow> (Some e, st)
      | None \<Rightarrow>
          (case wc_caBundles st of
             None \<Rightarrow> (Some NotFound, st)
           | Some bundles \<Rightarrow>
               if list_all (\<lambda>b. b = caCertPEM) bundles then (None, st)
               else (let st' = st\<lparr>wc_caBundles := Some (map (\<lambda>_. caCertPEM) bundles)\<rparr>
                     in if we_conflicts env \<ge> retrySteps then (Some Conflict, st)
                        else case we_configUpdate env of
                            Accepted \<Rightarrow> (None, st') | Rejected e \<Rightarrow> (Some e, st) | AnswerLost e \<Rightarrow> (Some e, st'))))"

definition Ensure :: "pemLib \<Rightarrow> options \<Rightarrow> certEnv \<Rightarrow> certState \<Rightarrow> msg option \<times> certState" where
  "Ensure lib opts0 env st =
     (let opts = setDefaults opts0
      in case ensureSecret lib opts env st of
           (Inl e, st1) \<Rightarrow> (Some (Fmt ''ensuring cert secret: %w'' [certErrorMsg e]), st1)
         | (Inr data, st1) \<Rightarrow>
             (case writeCertFiles opts env data st1 of
                (Some e, st2) \<Rightarrow> (Some (Fmt ''writing cert files to disk: %w'' [e]), st2)
              | (None, st2) \<Rightarrow>
                  (case patchCABundle env (dataKey data KeyCACert) st2 of
                     (None, st3) \<Rightarrow> (None, st3)
                   | (Some e, st3) \<Rightarrow>
                       if e = NotFound then (None, st3)
                       else (Some (Fmt ''patching webhook caBundle: %w'' [apiErrorMsg e]), st3))))"

text \<open>\<^verbatim>\<open>Rotator.Start\<close>: a run of ticks, whose errors are only logged.\<close>

definition runRotator :: "pemLib \<Rightarrow> options \<Rightarrow> certEnv list \<Rightarrow> certState \<Rightarrow> certState" where
  "runRotator lib opts ticks st = fold (\<lambda>env s. snd (Ensure lib opts env s)) ticks st"

section \<open>A serving certificate that the API server trusts\<close>

text \<open>A Secret as the code writes it: a CA with its key, and a leaf for the service's names signed by that key, both already
  valid at a time.\<close>

definition issuedBy :: "options \<Rightarrow> time \<Rightarrow> certificate \<Rightarrow> certificate \<Rightarrow> int \<Rightarrow> bool" where
  "issuedBy opts now ca leaf k \<longleftrightarrow>
     xc_isCA ca \<and> xc_signedBy leaf = xc_publicKey ca \<and> xc_publicKey leaf = k \<and> xc_extKeyUsage leaf = [ServerAuth] \<and>
     xc_dnsNames leaf = dnsNames opts \<and> xc_notBefore leaf \<le> now \<and> xc_notBefore ca \<le> now"

definition servingSecret :: "pemLib \<Rightarrow> options \<Rightarrow> time \<Rightarrow> smap \<Rightarrow> certificate \<Rightarrow> certificate \<Rightarrow> int \<Rightarrow> bool" where
  "servingSecret lib opts now data ca leaf k \<longleftrightarrow>
     data = secretData lib ca (xc_publicKey ca) (TlsCertificate [leaf] k) \<and> issuedBy opts now ca leaf k"

definition goodSecret :: "pemLib \<Rightarrow> options \<Rightarrow> time \<Rightarrow> smap option \<Rightarrow> bool" where
  "goodSecret lib opts now secret \<longleftrightarrow> (case secret of None \<Rightarrow> True | Some data \<Rightarrow> \<exists>ca leaf k. servingSecret lib opts now data ca leaf k)"

definition readySecret :: "pemLib \<Rightarrow> options \<Rightarrow> time \<Rightarrow> smap \<Rightarrow> bool" where
  "readySecret lib opts now data \<longleftrightarrow> (\<exists>ca leaf k. servingSecret lib opts now data ca leaf k \<and> now \<le> xc_notAfter leaf)"

lemma readySecretI: "servingSecret lib opts now data ca leaf k \<Longrightarrow> now \<le> xc_notAfter leaf \<Longrightarrow> readySecret lib opts now data"
  unfolding readySecret_def by blast

lemma secretData_keys [simp]:
  "dataKey (secretData lib ca key leaf) KeyCACert = EncodeCertPEM lib ca"
  "dataKey (secretData lib ca key leaf) KeyCAKey = PrivateKeyPEM lib key"
  "dataKey (secretData lib ca key leaf) KeyTLSCert = CertChainPEM lib leaf"
  "dataKey (secretData lib ca key leaf) KeyTLSKey = PrivateKeyPEM lib (tl_key leaf)"
  by (simp_all add: secretData_def dataKey_def KeyCACert_def KeyCAKey_def KeyTLSCert_def KeyTLSKey_def)

lemma issued_leaf:
  assumes "IssueLeafCert rng caKey name dns ServerAuth now notAfter n = Inr t"
  obtains leaf k where "t = TlsCertificate [leaf] k" "xc_signedBy leaf = caKey" "xc_publicKey leaf = k"
    "xc_extKeyUsage leaf = [ServerAuth]" "xc_dnsNames leaf = dns" "xc_notBefore leaf = seconds now" "xc_notAfter leaf = seconds notAfter"
  using assms by (auto simp: IssueLeafCert_def split: sum.splits)

lemma seconds_after: "1000000000 \<le> d \<Longrightarrow> now \<le> seconds (now + d)"
  using div_mult_mod_eq [of "now + d" 1000000000] pos_mod_bound [of 1000000000 "now + d"] by (simp add: seconds_def)

lemma createSecret_serving:
  assumes "createSecret lib opts env st = (Inr data, st')" "1000000000 \<le> op_certValidity opts"
  shows "wc_secret st' = Some data \<and> readySecret lib opts (we_now env) data"
proof -
  let ?now = "we_now env"
  from assms(1) obtain caCert caKey t where gen:
    "GenerateCA (we_rng env) (PkixName [''kubezap.io''] [] ''kubezap-webhook-ca'') ?now (?now + op_caValidity opts) (we_draw env) = Inr (caCert, caKey)"
    and leaf: "IssueLeafCert (we_rng env) caKey (PkixName [] [] (op_serviceName opts)) (dnsNames opts) ServerAuth ?now
      (?now + op_certValidity opts) (we_draw env + 2) = Inr t"
    and req: "createRequest env (secretData lib caCert caKey t) st = (None, st')" and data: "data = secretData lib caCert caKey t"
    by (auto simp: createSecret_def Let_def split: sum.splits prod.splits option.splits)
  obtain l k where l: "t = TlsCertificate [l] k" "xc_signedBy l = caKey" "xc_publicKey l = k" "xc_extKeyUsage l = [ServerAuth]"
    "xc_dnsNames l = dnsNames opts" "xc_notBefore l = seconds ?now" "xc_notAfter l = seconds (?now + op_certValidity opts)"
    by (rule issued_leaf [OF leaf])
  have ca: "xc_isCA caCert" "xc_publicKey caCert = caKey" "xc_notBefore caCert = seconds ?now"
    using gen by (auto simp: GenerateCA_def split: sum.splits)
  have "servingSecret lib opts ?now data caCert l k"
    using l ca data seconds_le [of ?now] by (simp add: servingSecret_def issuedBy_def)
  moreover have "wc_secret st' = Some data"
    using req data by (auto simp: createRequest_def Let_def split: option.splits if_splits apiOutcome.splits)
  ultimately show ?thesis using l(7) seconds_after [OF assms(2), of ?now] by (simp add: readySecretI)
qed

lemma rotateLeaf_serving:
  assumes "rotateLeaf lib opts env data0 st = (Inr data, st')" "servingSecret lib opts (we_now env) data0 ca leaf k"
    "pemLaws lib" "1000000000 \<le> op_certValidity opts"
  shows "wc_secret st' = Some data \<and> readySecret lib opts (we_now env) data"
proof -
  let ?now = "we_now env" and ?key = "xc_publicKey ca"
  have parsed: "ParseCertPEM lib (dataKey data0 KeyCACert) = Inr ca" "ParseECPrivateKeyPEM lib (dataKey data0 KeyCAKey) = Inr ?key"
    using assms(2,3) by (simp_all add: servingSecret_def ParseCertPEM_Encode ParseECPrivateKeyPEM_key)
  with assms(1) obtain t where t: "IssueLeafCert (we_rng env) ?key (PkixName [] [] (op_serviceName opts)) (dnsNames opts)
      ServerAuth ?now (?now + op_certValidity opts) (we_draw env + 2 * we_conflicts env) = Inr t"
    "data = secretData lib ca ?key t" "st' = st\<lparr>wc_secret := Some data\<rparr>"
    by (auto simp: rotateLeaf_def Let_def split: sum.splits if_splits apiOutcome.splits)
  obtain l k where l: "t = TlsCertificate [l] k" "xc_signedBy l = ?key" "xc_publicKey l = k" "xc_extKeyUsage l = [ServerAuth]"
    "xc_dnsNames l = dnsNames opts" "xc_notBefore l = seconds ?now" "xc_notAfter l = seconds (?now + op_certValidity opts)"
    by (rule issued_leaf [OF t(1)])
  have "servingSecret lib opts ?now data ca l k"
    using l t(2) assms(2) seconds_le [of ?now] by (simp add: servingSecret_def issuedBy_def)
  then show ?thesis using t(3) l(7) seconds_after [OF assms(4), of ?now] by (simp add: readySecretI)
qed

lemma createSecret_failed:
  "createSecret lib opts env st = (Inl e, st') \<Longrightarrow> e = ApiErr AlreadyExists \<Longrightarrow> wc_secret st = None \<Longrightarrow>
   goodSecret lib opts now (we_race env) \<Longrightarrow> we_create env \<noteq> Rejected AlreadyExists \<Longrightarrow> we_create env \<noteq> AnswerLost AlreadyExists \<Longrightarrow>
   goodSecret lib opts now (wc_secret st')"
  by (auto simp: createSecret_def createRequest_def Let_def split: sum.splits prod.splits option.splits if_splits apiOutcome.splits)

lemma ensureSecret_ready:
  assumes "ensureSecret lib opts env st = (Inr data, st')" "pemLaws lib" "goodSecret lib opts (we_now env) (wc_secret st)"
    "goodSecret lib opts (we_now env) (we_race env)" "we_create env \<notin> {Rejected AlreadyExists, AnswerLost AlreadyExists}"
    "1000000000 \<le> op_certValidity opts" "0 \<le> op_rotateBefore opts"
  shows "wc_secret st' = Some data \<and> readySecret lib opts (we_now env) data"
proof -
  let ?check = "\<lambda>data st'. if needsLeafRotation lib opts (we_now env) data then rotateLeaf lib opts env data st' else (Inr data, st')"
  have check: "wc_secret st' = Some data \<and> readySecret lib opts (we_now env) data"
    if secret: "wc_secret s1 = Some d" and good: "goodSecret lib opts (we_now env) (wc_secret s1)" and run: "?check d s1 = (Inr data, st')" for d s1
  proof -
    obtain ca leaf k where serving: "servingSecret lib opts (we_now env) d ca leaf k"
      using good secret by (auto simp: goodSecret_def)
    show ?thesis
    proof (cases "needsLeafRotation lib opts (we_now env) d")
      case True
      with run rotateLeaf_serving [OF _ serving assms(2,6)] show ?thesis by simp
    next
      case False
      have "ParseCertPEM lib (dataKey d KeyTLSCert) = Inr leaf"
        using serving ParseCertPEM_chain [OF assms(2), of "TlsCertificate [leaf] k" leaf "[]"] by (simp add: servingSecret_def)
      with False assms(7) have "we_now env \<le> xc_notAfter leaf" by (simp add: needsLeafRotation_def)
      with False run secret serving show ?thesis by (auto intro: readySecretI)
    qed
  qed
  show ?thesis
  proof (cases "wc_secret st")
    case (Some d)
    with assms(1) have "?check d st = (Inr data, st')" by (auto simp: ensureSecret_def Let_def split: option.splits)
    with check [OF Some assms(3)] show ?thesis by blast
  next
    case None
    obtain r s1 where created: "createSecret lib opts env st = (r, s1)" by (cases "createSecret lib opts env st")
    show ?thesis
    proof (cases r)
      case (Inr d)
      with created None assms(1) have "r = Inr data \<and> s1 = st'" by (auto simp: ensureSecret_def Let_def split: option.splits)
      with created createSecret_serving assms(6) show ?thesis by blast
    next
      case (Inl e)
      with created None assms(1) obtain d where "e = ApiErr AlreadyExists" "wc_secret s1 = Some d" "?check d s1 = (Inr data, st')"
        by (auto simp: ensureSecret_def Let_def split: option.splits if_splits)
      with check createSecret_failed [of lib opts env st e s1] created Inl None assms(4,5) show ?thesis by auto
    qed
  qed
qed

lemma createSecret_caBundles: "wc_caBundles (snd (createSecret lib opts env st)) = wc_caBundles st"
  by (auto simp: createSecret_def createRequest_def Let_def split: sum.split prod.split option.split apiOutcome.split)

lemma rotateLeaf_caBundles: "wc_caBundles (snd (rotateLeaf lib opts env data st)) = wc_caBundles st"
  by (auto simp: rotateLeaf_def createSecret_caBundles Let_def split: sum.split apiOutcome.split)

lemma ensureSecret_caBundles:
  assumes "ensureSecret lib opts env st = (r, st')"
  shows "wc_caBundles st' = wc_caBundles st"
proof -
  have "wc_caBundles (snd (ensureSecret lib opts env st)) = wc_caBundles st"
    using createSecret_caBundles [of lib opts env st]
    by (auto simp: ensureSecret_def rotateLeaf_caBundles Let_def split: option.split sum.split prod.split)
  with assms show ?thesis by simp
qed

lemma writeIfChanged_written:
  assumes "writeIfChanged env path data st = (None, st')"
  shows "map_of (wc_files st') path = Some data" "wc_secret st' = wc_secret st" "wc_caBundles st' = wc_caBundles st"
    "p \<noteq> path \<Longrightarrow> map_of (wc_files st') p = map_of (wc_files st) p"
  using assms by (auto simp: writeIfChanged_def update_conv' split: if_splits option.splits)

lemma writeCertFiles_written:
  assumes "writeCertFiles opts env data st = (None, st')" "op_certFileName opts \<noteq> op_keyFileName opts"
  shows "map_of (wc_files st') (joinPath (op_certDir opts) (op_certFileName opts)) = Some (dataKey data KeyTLSCert) \<and>
    map_of (wc_files st') (joinPath (op_certDir opts) (op_keyFileName opts)) = Some (dataKey data KeyTLSKey) \<and>
    wc_secret st' = wc_secret st \<and> wc_caBundles st' = wc_caBundles st"
proof -
  let ?c = "joinPath (op_certDir opts) (op_certFileName opts)" and ?k = "joinPath (op_certDir opts) (op_keyFileName opts)"
  obtain s1 where s1: "writeIfChanged env ?c (dataKey data KeyTLSCert) st = (None, s1)"
    "writeIfChanged env ?k (dataKey data KeyTLSKey) s1 = (None, st')"
    using assms(1) by (auto simp: writeCertFiles_def split: option.splits prod.splits)
  have "?c \<noteq> ?k" using assms(2) by (simp add: joinPath_def)
  with writeIfChanged_written [OF s1(1)] writeIfChanged_written [OF s1(2)] show ?thesis by simp
qed

lemma patchCABundle_patched:
  assumes "patchCABundle env ca st = (None, st')" "wc_caBundles st = Some bundles"
  shows "wc_caBundles st' = Some (map (\<lambda>_. ca) bundles) \<and> wc_secret st' = wc_secret st \<and> wc_files st' = wc_files st"
proof -
  have "map (\<lambda>_. ca) bundles = bundles" if "list_all (\<lambda>b. b = ca) bundles" using that by (induction bundles) auto
  with assms show ?thesis by (auto simp: patchCABundle_def Let_def split: option.splits if_splits apiOutcome.splits)
qed


text \<open>A Secret whose CA cannot be read is never repaired. The code means to start over, but its create request meets
  the very Secret it wants to replace, so each run, at the start of the operator and at every tick of the rotator,
  fails and leaves the Secret as it is.\<close>

theorem unreadable_ca_never_recovers:
  assumes "wc_secret st = Some data" "ParseCertPEM lib (dataKey data KeyCACert) = Inl e"
    "\<And>env. env \<in> set ticks \<Longrightarrow> needsLeafRotation lib (setDefaults opts) (we_now env) data"
  shows "wc_secret (runRotator lib opts ticks st) = Some data \<and> wc_files (runRotator lib opts ticks st) = wc_files st \<and>
    (\<forall>env \<in> set ticks. fst (Ensure lib opts env st) \<noteq> None)"
proof -
  have fails: "fst (Ensure lib opts env s) \<noteq> None \<and> snd (Ensure lib opts env s) = s"
    if secret: "wc_secret s = Some data" and env: "env \<in> set ticks" for env s
  proof -
    have "\<exists>e. createSecret lib (setDefaults opts) env s = (Inl e, s)"
      using secret by (simp add: createSecret_def createRequest_def Let_def split: sum.split option.split)
    with assms(2,3) secret env have "\<exists>e. ensureSecret lib (setDefaults opts) env s = (Inl e, s)"
      by (auto simp: ensureSecret_def rotateLeaf_def Let_def split: option.split)
    then show ?thesis by (auto simp: Ensure_def Let_def)
  qed
  have "runRotator lib opts ts s = s" if "set ts \<subseteq> set ticks" "wc_secret s = Some data" for ts s
    using that by (induction ts arbitrary: s) (simp_all add: runRotator_def fails)
  with assms(1) fails show ?thesis by simp
qed

section \<open>Witnesses\<close>

definition exampleOptions :: options where
  "exampleOptions = \<lparr>op_namespace = ''kubezap-system'', op_serviceName = ''webhook'', op_certDir = ''/certs'', op_certFileName = [],
     op_keyFileName = [], op_caValidity = 0, op_certValidity = 0, op_rotateBefore = 0\<rparr>"

definition exampleCertEnv :: certEnv where
  "exampleCertEnv = \<lparr>we_now = 0, we_rng = exampleDraws, we_draw = 0, we_get = None, we_race = None, we_create = Accepted,
     we_conflicts = 0, we_update = Accepted, we_configGet = None, we_configUpdate = Accepted, we_mkdir = None,
     we_writeFile = (\<lambda>_. None)\<rparr>"

definition freshInstall :: certState where
  "freshInstall = \<lparr>wc_secret = None, wc_caBundles = Some [[], []], wc_files = []\<rparr>"

lemma exampleOptions_defaults:
  "op_certFileName (setDefaults exampleOptions) = ''tls.crt''" "op_keyFileName (setDefaults exampleOptions) = ''tls.key''"
  "1000000000 \<le> op_certValidity (setDefaults exampleOptions)" "0 \<le> op_rotateBefore (setDefaults exampleOptions)"
  by (simp_all add: setDefaults_def exampleOptions_def)

lemma freshInstall_run: "\<exists>st'. Ensure examplePem exampleOptions exampleCertEnv freshInstall = (None, st')"
proof -
  obtain data st1 where s1: "ensureSecret examplePem (setDefaults exampleOptions) exampleCertEnv freshInstall = (Inr data, st1)"
    by (simp add: ensureSecret_def createSecret_def createRequest_def GenerateCA_def IssueLeafCert_def randomSerial_def exampleDraws_def
        exampleCertEnv_def freshInstall_def Let_def)
  have written: "\<exists>s'. writeIfChanged exampleCertEnv path d s = (None, s')" for path d s
    by (simp add: writeIfChanged_def exampleCertEnv_def)
  have mkdir: "we_mkdir exampleCertEnv = None" by (simp add: exampleCertEnv_def)
  let ?o = "setDefaults exampleOptions"
  obtain sa where sa: "writeIfChanged exampleCertEnv (joinPath (op_certDir ?o) (op_certFileName ?o)) (dataKey data KeyTLSCert) st1 = (None, sa)"
    using written by blast
  obtain st2 where sb: "writeIfChanged exampleCertEnv (joinPath (op_certDir ?o) (op_keyFileName ?o)) (dataKey data KeyTLSKey) sa = (None, st2)"
    using written by blast
  have s2: "writeCertFiles ?o exampleCertEnv data st1 = (None, st2)" by (simp add: writeCertFiles_def mkdir sa sb)
  have "\<exists>e st3. patchCABundle exampleCertEnv ca s = (e, st3) \<and> (e = None \<or> e = Some NotFound)" for ca s
    by (cases "wc_caBundles s"; cases "list_all (\<lambda>b. b = ca) (the (wc_caBundles s))")
      (simp_all add: patchCABundle_def exampleCertEnv_def retrySteps_def Let_def)
  then obtain e st3 where s3: "patchCABundle exampleCertEnv (dataKey data KeyCACert) st2 = (e, st3)" "e = None \<or> e = Some NotFound"
    by blast
  from s1 s2 s3 show ?thesis by (auto simp: Ensure_def Let_def)
qed


definition unreadablePem :: pemLib where "unreadablePem = \<lparr>pm_encode = (\<lambda>_. []), pm_decode = (\<lambda>_. None)\<rparr>"

theorem unreadable_ca_never_recovers_witness:
  "wc_secret (runRotator unreadablePem exampleOptions [exampleCertEnv, exampleCertEnv] (freshInstall\<lparr>wc_secret := Some []\<rparr>)) = Some []"
  using unreadable_ca_never_recovers [of "freshInstall\<lparr>wc_secret := Some []\<rparr>" "[]" unreadablePem _ "[exampleCertEnv, exampleCertEnv]" exampleOptions]
  by (simp add: ParseCertPEM_def unreadablePem_def needsLeafRotation_def dataKey_def)

end
