(* ===== verification/IntegrationReconcile.thy ===== *)
theory IntegrationReconcile
  imports GatewayDeployment Certificates TriggerTypes "HOL-Library.Multiset"
begin

text \<open>
  The Integration controller (\<^verbatim>\<open>internal/controller/integration_controller.go\<close>): validation of the specification, the
  workloads of plugin, Kafka, AMQP and NATS Integrations, the KEDA object of a Kafka gateway and the status. The
  state is what a reconcile of one namespace reads and writes, with the in-memory store of the plugin bundles.
  \<open>iv_setOwner\<close> is \<^verbatim>\<open>ctrl.SetControllerReference\<close> on the owners of an object, \<open>iv_mapOrder\<close> the order in which a range over a
  Go map visits its entries, \<open>iv_noMatch\<close> tells the errors of an API server without KEDA.
\<close>

section \<open>State\<close>

record integrationEnv =
  iv_kube :: kubeEnv
  iv_setOwner :: "integration \<Rightarrow> string list \<Rightarrow> msg + string list"
  iv_setCondition :: "condition list \<Rightarrow> condition \<Rightarrow> condition list"
  iv_getenv :: "string \<Rightarrow> string"
  iv_now :: time
  iv_listTriggers :: "apiError option"
  iv_mapOrder :: "smap \<Rightarrow> smap"
  iv_noMatch :: "apiError \<Rightarrow> bool"
  iv_pem :: pemLib
  iv_rng :: rng
  iv_draw :: nat

record integrationSystem =
  iy_integrations :: "integration objects"
  iy_triggers :: "trigger objects"
  iy_objects :: nsObjects
  iy_store :: pluginMTLSStore

definition integrationCondition :: "string \<Rightarrow> string \<Rightarrow> string \<Rightarrow> msg \<Rightarrow> integration \<Rightarrow> condition" where
  "integrationCondition type status reason m integ =
     \<lparr>cond_type = type, cond_status = status, cond_reason = reason, cond_message = m, cond_lastTransitionTime = None,
      cond_observedGeneration = ig_generation integ\<rparr>"

definition setIntegrationCondition :: "integrationEnv \<Rightarrow> condition \<Rightarrow> integration \<Rightarrow> integration" where
  "setIntegrationCondition env c integ =
     integ\<lparr>ig_status := (ig_status integ)\<lparr>is_conditions := iv_setCondition env (is_conditions (ig_status integ)) c\<rparr>\<rparr>"

definition setGatewayName :: "string \<Rightarrow> integration \<Rightarrow> integration" where
  "setGatewayName name integ = integ\<lparr>ig_status := (ig_status integ)\<lparr>is_gatewayDeploymentName := name\<rparr>\<rparr>"

section \<open>Validation\<close>

definition validateIntegrationSpec :: "integration \<Rightarrow> msg option" where
  "validateIntegrationSpec integ =
     (if ig_type integ = ''kafka'' then
        (case ig_kafka integ of
           None \<Rightarrow> Some (Txt ''spec.kafka must be set when type=kafka'')
         | Some k \<Rightarrow>
             if ki_bootstrapServers k = [] then Some (Txt ''spec.kafka.bootstrapServers must be non-empty when type=kafka'') else None)
      else if ig_type integ = ''amqp'' then
        (case ig_amqp integ of
           None \<Rightarrow> Some (Txt ''spec.amqp must be set when type=amqp'')
         | Some a \<Rightarrow> if ai_url a = [] then Some (Txt ''spec.amqp.url must be non-empty'') else None)
      else if ig_type integ = ''nats'' then
        (case ig_nats integ of
           None \<Rightarrow> Some (Txt ''spec.nats must be set when type=nats'')
         | Some n \<Rightarrow> if ni_servers n = [] then Some (Txt ''spec.nats.servers must be non-empty'') else None)
      else if ig_type integ = ''http'' then
        (if ig_http integ = None then Some (Txt ''spec.http must be set when type=http'') else None)
      else if ig_type integ = ''plugin'' then
        (case ig_plugin integ of
           None \<Rightarrow> Some (Txt ''spec.plugin must be set when type=plugin'')
         | Some p \<Rightarrow> if pi_image p = [] then Some (Txt ''spec.plugin.image must be non-empty when type=plugin'') else None)
      else Some (Fmt ''unknown integration type %q'' [Txt (ig_type integ)]))"

section \<open>Shared steps\<close>

text \<open>A RoleBinding whose role changed is deleted and created again, since a role reference cannot be updated.\<close>

definition upsertBinding ::
  "kubeEnv \<Rightarrow> string \<Rightarrow> string \<Rightarrow> string \<Rightarrow> (string list \<Rightarrow> msg + string list) \<Rightarrow> nsObjects \<Rightarrow> msg option \<times> nsObjects" where
  "upsertBinding env label name namespace setOwner objs =
     (let ref = gatewayRoleRef name; subjects = [accountSubject name namespace];
          mutate = (\<lambda>rb. case setOwner (rb_owners rb) of
                      Inl e \<Rightarrow> Inl e
                    | Inr owners \<Rightarrow> Inr (rb\<lparr>rb_roleRef := ref, rb_subjects := subjects, rb_owners := owners\<rparr>));
          stale = (kv_get env ''RoleBinding'' name = None \<and>
                   (case map_of (ns_bindings objs) name of None \<Rightarrow> False | Some rb \<Rightarrow> rb_roleRef rb \<noteq> ref))
      in if \<not> stale then
           (case createOrUpdate env ''RoleBinding'' name mutate
                   \<lparr>rb_roleRef = \<lparr>rr_apiGroup = [], rr_kind = [], rr_name = []\<rparr>, rb_subjects = [], rb_owners = []\<rparr> (ns_bindings objs) of
              (e, xs) \<Rightarrow> wrapStep (''upserting '' @ label @ '' RoleBinding: %w'') (e, objs\<lparr>ns_bindings := xs\<rparr>))
         else
           (case deleteObject env ''RoleBinding'' name (ns_bindings objs) of
              (e, xs) \<Rightarrow>
                if e \<noteq> None \<and> e \<noteq> Some NotFound then
                  (Some (Fmt (''deleting stale '' @ label @ '' RoleBinding: %w'') [apiErrorMsg (the e)]), objs\<lparr>ns_bindings := xs\<rparr>)
                else (case setOwner [] of
                    Inl m \<Rightarrow> (Some (Fmt ''setting owner reference on recreated RoleBinding: %w'' [m]), objs\<lparr>ns_bindings := xs\<rparr>)
                  | Inr owners \<Rightarrow>
                      (case writeObject env ''RoleBinding'' name \<lparr>rb_roleRef = ref, rb_subjects = subjects, rb_owners = owners\<rparr> xs of
                         (e', ys) \<Rightarrow>
                           (if e' = None \<or> e' = Some AlreadyExists then None
                            else Some (Fmt (''recreating '' @ label @ '' RoleBinding: %w'') [apiErrorMsg (the e')]),
                            objs\<lparr>ns_bindings := ys\<rparr>)))))"

definition upsertAccount :: "kubeEnv \<Rightarrow> string \<Rightarrow> string \<Rightarrow> (string list \<Rightarrow> msg + string list) \<Rightarrow> nsObjects \<Rightarrow> msg option \<times> nsObjects" where
  "upsertAccount env label name setOwner objs =
     (case createOrUpdate env ''ServiceAccount'' name
             (\<lambda>sa. case setOwner (acc_owners sa) of Inl e \<Rightarrow> Inl e | Inr owners \<Rightarrow> Inr (sa\<lparr>acc_owners := owners\<rparr>))
             \<lparr>acc_labels = [], acc_owners = []\<rparr> (ns_accounts objs) of
        (e, xs) \<Rightarrow> wrapStep (''upserting '' @ label @ '' ServiceAccount: %w'') (e, objs\<lparr>ns_accounts := xs\<rparr>))"

definition upsertRole ::
  "kubeEnv \<Rightarrow> string \<Rightarrow> string \<Rightarrow> policyRule list \<Rightarrow> (string list \<Rightarrow> msg + string list) \<Rightarrow> nsObjects \<Rightarrow> msg option \<times> nsObjects" where
  "upsertRole env label name rules setOwner objs =
     (case createOrUpdate env ''Role'' name
             (\<lambda>r. case setOwner (ro_owners r) of Inl e \<Rightarrow> Inl e | Inr owners \<Rightarrow> Inr (r\<lparr>ro_rules := rules, ro_owners := owners\<rparr>))
             \<lparr>ro_rules = [], ro_owners = []\<rparr> (ns_roles objs) of
        (e, xs) \<Rightarrow> wrapStep (''upserting '' @ label @ '' Role: %w'') (e, objs\<lparr>ns_roles := xs\<rparr>))"

section \<open>Plugins\<close>

definition pluginName :: "integration \<Rightarrow> string" where "pluginName integ = ''kubezap-plugin-'' @ ig_name integ"

definition pluginMTLSSecretName :: "string \<Rightarrow> string" where
  "pluginMTLSSecretName integrationName = ''kubezap-plugin-'' @ integrationName @ ''-mtls''"

definition pluginRules :: "policyRule list" where
  "pluginRules =
     [readRule apiGroupAutomation ''triggers'',
      \<lparr>pr_apiGroups = [apiGroupAutomation], pr_resources = [''flowruns''],
       pr_verbs = [''get'', ''list'', ''create'', ''update'', ''patch'']\<rparr>]"

definition reconcilePluginRBAC :: "integrationEnv \<Rightarrow> integration \<Rightarrow> nsObjects \<Rightarrow> msg option \<times> nsObjects" where
  "reconcilePluginRBAC env integ =
     untilError
       [upsertAccount (iv_kube env) ''plugin'' (pluginName integ) (iv_setOwner env integ),
        upsertRole (iv_kube env) ''plugin'' (pluginName integ) pluginRules (iv_setOwner env integ),
        upsertBinding (iv_kube env) ''plugin'' (pluginName integ) (ig_namespace integ) (iv_setOwner env integ)]"

definition pluginMTLSRecheckInterval :: duration where "pluginMTLSRecheckInterval = 300000000000"

definition pluginDNSNames :: "integration \<Rightarrow> string list" where
  "pluginDNSNames integ =
     [pluginName integ @ ''.'' @ ig_namespace integ @ ''.svc'', pluginName integ @ ''.'' @ ig_namespace integ @ ''.svc.cluster.local'']"

definition pluginMTLSEnabled :: "integration \<Rightarrow> bool" where
  "pluginMTLSEnabled integ \<longleftrightarrow> (case ig_plugin integ of None \<Rightarrow> False | Some p \<Rightarrow> pi_mtlsEnabled p)"

definition putSecrets :: "(string \<times> secretObject) list \<Rightarrow> integrationSystem \<Rightarrow> integrationSystem" where
  "putSecrets xs s = s\<lparr>iy_objects := (iy_objects s)\<lparr>ns_secrets := xs\<rparr>\<rparr>"

definition reconcilePluginMTLS ::
  "integrationEnv \<Rightarrow> integration \<Rightarrow> integrationSystem \<Rightarrow> (msg + (integration \<times> duration option)) \<times> integrationSystem" where
  "reconcilePluginMTLS env integ s =
     (let namespace = ig_namespace integ; name = ig_name integ; secretName = pluginMTLSSecretName name;
          secrets = ns_secrets (iy_objects s)
      in if \<not> pluginMTLSEnabled integ then
           (let s1 = s\<lparr>iy_store := RemoveBundle namespace name (iy_store s)\<rparr>
            in case deleteObject (iv_kube env) ''Secret'' secretName secrets of
                 (e, xs) \<Rightarrow>
                   (if e = None \<or> e = Some NotFound then Inr (integ, None)
                    else Inl (Fmt ''deleting stale plugin mTLS secret: %w'' [apiErrorMsg (the e)]), putSecrets xs s1))
         else
           (case GetOrGenerate (iv_rng env) namespace name (pluginDNSNames integ) (iv_now env) (iv_draw env) (iy_store s) of
              (Inl e, st) \<Rightarrow> (Inl (Fmt ''generating plugin mTLS bundle: %w'' [e]), s\<lparr>iy_store := st\<rparr>)
            | (Inr b, st) \<Rightarrow>
                (let mutate = (\<lambda>sec. case iv_setOwner env integ (se_owners sec) of
                            Inl e \<Rightarrow> Inl e
                          | Inr owners \<Rightarrow>
                              Inr (sec\<lparr>se_type := ''Opaque'',
                                se_data := [(''tls.crt'', ServerCertPEM (iv_pem env) b), (''tls.key'', ServerKeyPEM (iv_pem env) b),
                                            (''ca.crt'', CACertPEM (iv_pem env) b)], se_owners := owners\<rparr>))
                 in case createOrUpdate (iv_kube env) ''Secret'' secretName mutate \<lparr>se_type = [], se_data = [], se_owners = []\<rparr> secrets of
                      (Some e, xs) \<Rightarrow> (Inl (Fmt ''upserting plugin mTLS secret: %w'' [e]), putSecrets xs (s\<lparr>iy_store := st\<rparr>))
                    | (None, xs) \<Rightarrow>
                        (Inr (setIntegrationCondition env
                                (integrationCondition ''PluginMTLSReady'' ''True'' ''CertBundleReconciled''
                                   (Fmt ''mTLS cert bundle reconciled, expires %s'' [Txt (rfc3339 (mb_expiresAt b))]) integ) integ,
                              Some pluginMTLSRecheckInterval), putSecrets xs (s\<lparr>iy_store := st\<rparr>)))))"

definition pluginImageRef :: "pluginIntegrationSpec \<Rightarrow> string" where
  "pluginImageRef p = (if pi_imageDigest p \<noteq> [] then pi_image p @ ''@sha256:'' @ pi_imageDigest p else pi_image p)"

definition plainEnv :: "string \<Rightarrow> string \<Rightarrow> envVar" where "plainEnv name v = \<lparr>en_name = name, en_value = EnvValue v\<rparr>"

definition defaultPluginMTLSHealthPort :: int where "defaultPluginMTLSHealthPort = 8091"

definition secretEnv :: "(smap \<Rightarrow> smap) \<Rightarrow> pluginSecretRef list \<Rightarrow> envVar list" where
  "secretEnv order refs =
     concat (map (\<lambda>ref. map (\<lambda>(secretKey, envVarName). \<lparr>en_name = envVarName, en_value = EnvSecret (pr_secretName ref) secretKey\<rparr>)
                        (order (pr_envVarMappings ref))) refs)"

definition pluginSecurity :: securityContext where
  "pluginSecurity =
     \<lparr>sx_runAsNonRoot = True, sx_readOnlyRootFilesystem = True, sx_allowPrivilegeEscalation = False, sx_dropCapabilities = [],
      sx_seccompRuntimeDefault = False, sx_runAsUser = None\<rparr>"

definition desiredPluginSpec :: "(smap \<Rightarrow> smap) \<Rightarrow> integration \<Rightarrow> pluginIntegrationSpec \<Rightarrow> deploymentSpec" where
  "desiredPluginSpec order integ p =
     (let port = (if pi_publisherPort p = 0 then 8090 else pi_publisherPort p); name = pluginName integ; mtls = pi_mtlsEnabled p;
          healthPort = (if mtls then defaultPluginMTLSHealthPort else port); labels = [(labelApp, name)];
          mountPath = ''/etc/kubezap/mtls''
      in \<lparr>ds_replicas = Some 1, ds_selector = labels, ds_podLabels = labels, ds_serviceAccountName = name,
          ds_automountServiceAccountToken = None, ds_terminationGracePeriodSeconds = None, ds_podRunAsNonRoot = True,
          ds_podSeccompRuntimeDefault = False,
          ds_volumes = (if mtls then [\<lparr>vo_name = ''mtls-certs'', vo_secretName = pluginMTLSSecretName (ig_name integ), vo_defaultMode = None\<rparr>] else []),
          ds_container =
            \<lparr>co_name = ''plugin'', co_image = pluginImageRef p, co_imagePullPolicy = [], co_args = [],
             co_env =
               [plainEnv ''KUBEZAP_NAMESPACE'' (ig_namespace integ), plainEnv ''KUBEZAP_INTEGRATION_NAME'' (ig_name integ),
                plainEnv ''KUBEZAP_PUBLISHER_PORT'' (showInt port), plainEnv ''KUBEZAP_LOG_LEVEL'' ''info''] @ pi_env p @
               secretEnv order (pi_secretRefs p) @
               (if mtls then
                  [plainEnv ''KUBEZAP_MTLS_ENABLED'' ''true'', plainEnv ''KUBEZAP_MTLS_CERT_FILE'' (mountPath @ ''/tls.crt''),
                   plainEnv ''KUBEZAP_MTLS_KEY_FILE'' (mountPath @ ''/tls.key''), plainEnv ''KUBEZAP_MTLS_CA_FILE'' (mountPath @ ''/ca.crt''),
                   plainEnv ''KUBEZAP_MTLS_HEALTH_PORT'' (showInt healthPort)] else []),
             co_ports =
               \<lparr>po_name = ''publisher'', po_containerPort = port, po_protocol = ''TCP''\<rparr> #
               (if mtls then [\<lparr>po_name = ''mtls-health'', po_containerPort = healthPort, po_protocol = ''TCP''\<rparr>] else []),
             co_volumeMounts = (if mtls then [\<lparr>vm_name = ''mtls-certs'', vm_mountPath = mountPath, vm_readOnly = True\<rparr>] else []),
             co_securityContext = pluginSecurity, co_requests = [], co_limits = [], co_livenessProbe = None,
             co_readinessProbe = Some \<lparr>pb_path = healthzPath, pb_port = healthPort, pb_scheme = ''HTTP'', pb_initialDelaySeconds = 5,
               pb_periodSeconds = 10, pb_failureThreshold = 0\<rparr>\<rparr>\<rparr>)"

definition reconcilePluginDeployment ::
  "integrationEnv \<Rightarrow> integration \<Rightarrow> pluginIntegrationSpec \<Rightarrow> nsObjects \<Rightarrow> msg option \<times> nsObjects" where
  "reconcilePluginDeployment env integ p objs =
     (let spec = desiredPluginSpec (iv_mapOrder env) integ p
      in case createOrUpdate (iv_kube env) ''Deployment'' (pluginName integ) (\<lambda>d. Inr (d\<lparr>dp_spec := spec\<rparr>))
                \<lparr>dp_labels = [(labelApp, pluginName integ)], dp_spec = spec, dp_owners = [], dp_availableReplicas = 0\<rparr> (ns_deployments objs) of
           (e, xs) \<Rightarrow> wrapStep ''failed to create/update plugin deployment: %w'' (e, objs\<lparr>ns_deployments := xs\<rparr>))"

section \<open>Broker gateways\<close>

definition sharedGatewayServiceAccountName :: string where "sharedGatewayServiceAccountName = ''kubezap-gateway''"

definition kafkaGatewayRules :: "policyRule list" where
  "kafkaGatewayRules =
     [readRule apiGroupAutomation ''triggers'', readRule apiGroupAutomation ''integrations'', createRule apiGroupAutomation ''flowruns'',
      readRule [] ''secrets'', createRule [] ''events'']"

definition amqpGatewayRules :: "policyRule list" where
  "amqpGatewayRules =
     [readRule apiGroupAutomation ''triggers'', readRule apiGroupAutomation ''integrations'', createRule apiGroupAutomation ''flowruns'',
      readRule [] ''secrets'', createRule [] ''events'']"

definition natsGatewayRules :: "policyRule list" where
  "natsGatewayRules =
     [readRule apiGroupAutomation ''triggers'', readRule apiGroupAutomation ''integrations'', createRule apiGroupAutomation ''flowruns'',
      readRule [] ''secrets'', createRule [] ''events'']"

definition gatewayImage :: "(string \<Rightarrow> string) \<Rightarrow> string \<Rightarrow> string \<Rightarrow> string" where
  "gatewayImage getenv var d = (if getenv var = [] then d else getenv var)"

definition brokerProbe :: "int \<Rightarrow> int \<Rightarrow> probe" where
  "brokerProbe delay period =
     \<lparr>pb_path = healthzPath, pb_port = 8090, pb_scheme = [], pb_initialDelaySeconds = delay, pb_periodSeconds = period,
      pb_failureThreshold = 3\<rparr>"

text \<open>The Deployments of the three gateways differ in name, component, image, extra environment and ports.\<close>

definition brokerDeployment ::
  "(string \<Rightarrow> string) \<Rightarrow> integration \<Rightarrow> string \<Rightarrow> string \<Rightarrow> string \<Rightarrow> envVar list \<Rightarrow> containerPort list \<Rightarrow> deployment" where
  "brokerDeployment getenv integ name component img extraEnv ports =
     (let labels = [(labelApp, name), (labelComponent, component)]
      in \<lparr>dp_labels = labels,
          dp_spec =
            \<lparr>ds_replicas = Some 1, ds_selector = labels, ds_podLabels = labels, ds_serviceAccountName = sharedGatewayServiceAccountName,
             ds_automountServiceAccountToken = None, ds_terminationGracePeriodSeconds = None, ds_podRunAsNonRoot = True,
             ds_podSeccompRuntimeDefault = False, ds_volumes = [],
             ds_container =
               \<lparr>co_name = component, co_image = img, co_imagePullPolicy = ''IfNotPresent'',
                co_args = [''--namespace='' @ ig_namespace integ],
                co_env =
                  [plainEnv ''WATCH_NAMESPACES'' (getenv ''WATCH_NAMESPACES''), plainEnv ''KUBEZAP_NAMESPACE'' (ig_namespace integ),
                   plainEnv ''KUBEZAP_INTEGRATION_NAME'' (ig_name integ), plainEnv ''LOG_LEVEL'' ''info''] @ extraEnv,
                co_ports = ports, co_volumeMounts = [], co_securityContext = pluginSecurity,
                co_requests = [(''cpu'', ''50m''), (''memory'', ''64Mi'')], co_limits = [(''cpu'', ''200m''), (''memory'', ''128Mi'')],
                co_livenessProbe = Some (brokerProbe 5 10), co_readinessProbe = Some (brokerProbe 3 5)\<rparr>\<rparr>,
          dp_owners = [], dp_availableReplicas = 0\<rparr>)"

definition kafkaGatewayName :: "integration \<Rightarrow> string" where "kafkaGatewayName integ = ''kubezap-kafka-gateway-'' @ ig_name integ"
definition amqpGatewayName :: "integration \<Rightarrow> string" where "amqpGatewayName integ = ''kubezap-amqp-gateway-'' @ ig_name integ"
definition natsGatewayName :: "integration \<Rightarrow> string" where "natsGatewayName integ = ''kubezap-nats-gateway-'' @ ig_name integ"
definition kafkaGatewayMetricsPort :: int where "kafkaGatewayMetricsPort = 9090"

definition desiredKafkaGatewayDeployment :: "(string \<Rightarrow> string) \<Rightarrow> integration \<Rightarrow> deployment" where
  "desiredKafkaGatewayDeployment getenv integ =
     brokerDeployment getenv integ (kafkaGatewayName integ) ''kafka-gateway''
       (gatewayImage getenv ''KAFKA_GATEWAY_IMAGE'' ''ghcr.io/kubezap/kafka-gateway:latest'') (otelPassthroughEnv getenv)
       [\<lparr>po_name = ''metrics'', po_containerPort = kafkaGatewayMetricsPort, po_protocol = ''TCP''\<rparr>]"

definition desiredAmqpGatewayDeployment :: "(string \<Rightarrow> string) \<Rightarrow> integration \<Rightarrow> deployment" where
  "desiredAmqpGatewayDeployment getenv integ =
     brokerDeployment getenv integ (amqpGatewayName integ) ''amqp-gateway''
       (gatewayImage getenv ''AMQP_GATEWAY_IMAGE'' ''ghcr.io/kubezap/amqp-gateway:latest'') [] []"

definition desiredNatsGatewayDeployment :: "(string \<Rightarrow> string) \<Rightarrow> integration \<Rightarrow> deployment" where
  "desiredNatsGatewayDeployment getenv integ =
     brokerDeployment getenv integ (natsGatewayName integ) ''nats-gateway''
       (gatewayImage getenv ''NATS_GATEWAY_IMAGE'' ''ghcr.io/kubezap/nats-gateway:latest'') [] []"

definition desiredKafkaGatewayService :: "integration \<Rightarrow> service" where
  "desiredKafkaGatewayService integ =
     (let labels = [(labelApp, kafkaGatewayName integ), (labelComponent, ''kafka-gateway'')]
      in \<lparr>svc_labels = labels, svc_selector = labels, svc_ports = [tcpPort ''metrics'' kafkaGatewayMetricsPort], svc_type = [],
          svc_owners = []\<rparr>)"

definition upsertGatewayDeployment ::
  "integrationEnv \<Rightarrow> integration \<Rightarrow> string \<Rightarrow> string \<Rightarrow> deployment \<Rightarrow> nsObjects \<Rightarrow> msg option \<times> nsObjects" where
  "upsertGatewayDeployment env integ label name desired objs =
     (case iv_setOwner env integ (dp_owners desired) of
        Inl e \<Rightarrow> (Some (Fmt (''setting owner reference on '' @ label @ '' Deployment: %w'') [e]), objs)
      | Inr owners \<Rightarrow>
          (case createOrUpdate (iv_kube env) ''Deployment'' name (\<lambda>d. Inr (d\<lparr>dp_spec := dp_spec desired\<rparr>))
                  (desired\<lparr>dp_owners := owners\<rparr>) (ns_deployments objs) of
             (e, xs) \<Rightarrow> wrapStep (''failed to create/update '' @ label @ '' deployment: %w'') (e, objs\<lparr>ns_deployments := xs\<rparr>)))"

definition upsertKafkaService :: "integrationEnv \<Rightarrow> integration \<Rightarrow> nsObjects \<Rightarrow> msg option \<times> nsObjects" where
  "upsertKafkaService env integ objs =
     (let desired = desiredKafkaGatewayService integ
      in case iv_setOwner env integ (svc_owners desired) of
           Inl e \<Rightarrow> (Some (Fmt ''setting owner reference on kafka gateway Service: %w'' [e]), objs)
         | Inr owners \<Rightarrow>
             (case createOrUpdate (iv_kube env) ''Service'' (kafkaGatewayName integ)
                     (\<lambda>v. Inr (v\<lparr>svc_ports := svc_ports desired, svc_selector := svc_selector desired\<rparr>))
                     (desired\<lparr>svc_owners := owners\<rparr>) (ns_services objs) of
                (e, xs) \<Rightarrow> wrapStep ''failed to create/update kafka gateway service: %w'' (e, objs\<lparr>ns_services := xs\<rparr>)))"

text \<open>The account, Role and binding that the gateways of a namespace share have no owner.\<close>

definition sharedAccess :: "integrationEnv \<Rightarrow> integration \<Rightarrow> string \<Rightarrow> policyRule list \<Rightarrow> (nsObjects \<Rightarrow> msg option \<times> nsObjects) list" where
  "sharedAccess env integ label rules =
     [upsertAccount (iv_kube env) label sharedGatewayServiceAccountName Inr,
      upsertRole (iv_kube env) label sharedGatewayServiceAccountName rules Inr,
      upsertBinding (iv_kube env) label sharedGatewayServiceAccountName (ig_namespace integ) Inr]"

definition reconcileKafkaGateway :: "integrationEnv \<Rightarrow> integration \<Rightarrow> nsObjects \<Rightarrow> msg option \<times> nsObjects" where
  "reconcileKafkaGateway env integ =
     untilError (sharedAccess env integ ''kafka gateway'' kafkaGatewayRules @
       [upsertGatewayDeployment env integ ''kafka gateway'' (kafkaGatewayName integ) (desiredKafkaGatewayDeployment (iv_getenv env) integ),
        upsertKafkaService env integ])"

definition reconcileAmqpGateway :: "integrationEnv \<Rightarrow> integration \<Rightarrow> nsObjects \<Rightarrow> msg option \<times> nsObjects" where
  "reconcileAmqpGateway env integ =
     untilError (sharedAccess env integ ''amqp gateway'' amqpGatewayRules @
       [upsertGatewayDeployment env integ ''amqp gateway'' (amqpGatewayName integ) (desiredAmqpGatewayDeployment (iv_getenv env) integ)])"

definition reconcileNatsGateway :: "integrationEnv \<Rightarrow> integration \<Rightarrow> nsObjects \<Rightarrow> msg option \<times> nsObjects" where
  "reconcileNatsGateway env integ =
     untilError (sharedAccess env integ ''nats gateway'' natsGatewayRules @
       [upsertGatewayDeployment env integ ''nats gateway'' (natsGatewayName integ) (desiredNatsGatewayDeployment (iv_getenv env) integ)])"

section \<open>The KEDA object\<close>

text \<open>The topics and consumer groups of the Triggers of an Integration, each pair once.\<close>

definition kafkaPair :: "integration \<Rightarrow> trigger \<Rightarrow> (string \<times> string) option" where
  "kafkaPair integ t =
     (if ts_type (tr_spec t) \<noteq> ''kafka'' then None
      else case ts_kafka (tr_spec t) of
          None \<Rightarrow> None
        | Some k \<Rightarrow>
            if kk_integrationRef k \<noteq> ig_name integ then None
            else Some (kk_topic k, if kk_consumerGroup k = [] then ''kubezap-'' @ tr_name t else kk_consumerGroup k))"

definition kafkaPairs :: "integration \<Rightarrow> trigger objects \<Rightarrow> (string \<times> string) list" where
  "kafkaPairs integ triggers = remdups (List.map_filter (\<lambda>(_, t). kafkaPair integ t) triggers)"

definition buildKafkaTriggers :: "integration \<Rightarrow> (string \<times> string) list \<Rightarrow> (string \<times> smap) list" where
  "buildKafkaTriggers integ pairs =
     (let brokers = (case ig_kafka integ of None \<Rightarrow> [] | Some k \<Rightarrow> joinStr '','' (ki_bootstrapServers k))
      in map (\<lambda>(topic, cg). (''kafka'', [(''bootstrapServers'', brokers), (''consumerGroup'', cg), (''topic'', topic),
                                      (''lagThreshold'', ''10'')])) pairs)"

definition reconcileKafkaScaledObject :: "integrationEnv \<Rightarrow> integration \<Rightarrow> trigger objects \<Rightarrow> nsObjects \<Rightarrow> msg option \<times> nsObjects" where
  "reconcileKafkaScaledObject env integ triggers objs =
     (case iv_listTriggers env of
        Some e \<Rightarrow> (Some (Fmt ''listing triggers: %w'' [apiErrorMsg e]), objs)
      | None \<Rightarrow>
          (case iv_setOwner env integ [] of
             Inl e \<Rightarrow> (Some (Fmt ''setting owner reference on ScaledObject: %w'' [e]), objs)
           | Inr owners \<Rightarrow>
               (let name = kafkaGatewayName integ;
                    obj = \<lparr>so_scaleTarget = name, so_minReplicaCount = 0, so_maxReplicaCount = 10,
                           so_triggers = buildKafkaTriggers integ (iv_mapOrder env (kafkaPairs integ triggers)), so_owners = owners\<rparr>;
                    put = writeObject (iv_kube env) ''ScaledObject'' name obj (ns_scaledObjects objs)
                in case getObject (iv_kube env) ''ScaledObject'' name (ns_scaledObjects objs) of
                     Inl e \<Rightarrow>
                       if e \<noteq> NotFound then
                         (if iv_noMatch env e then None else Some (Fmt ''getting ScaledObject: %w'' [apiErrorMsg e]), objs)
                       else (case put of
                           (None, xs) \<Rightarrow> (None, objs\<lparr>ns_scaledObjects := xs\<rparr>)
                         | (Some e', xs) \<Rightarrow>
                             (if iv_noMatch env e' \<or> e' = AlreadyExists then None
                              else Some (Fmt ''creating ScaledObject: %w'' [apiErrorMsg e']), objs\<lparr>ns_scaledObjects := xs\<rparr>))
                   | Inr _ \<Rightarrow>
                       (case put of
                          (None, xs) \<Rightarrow> (None, objs\<lparr>ns_scaledObjects := xs\<rparr>)
                        | (Some e', xs) \<Rightarrow> (Some (Fmt ''updating ScaledObject: %w'' [apiErrorMsg e']), objs\<lparr>ns_scaledObjects := xs\<rparr>)))))"

section \<open>Reconcile\<close>

definition gatewayAvailableCondition :: "integrationEnv \<Rightarrow> string \<Rightarrow> string \<Rightarrow> integration \<Rightarrow> nsObjects \<Rightarrow> condition" where
  "gatewayAvailableCondition env name gatewayType integ objs =
     (let available = (case getObject (iv_kube env) ''Deployment'' name (ns_deployments objs) of
                         Inl _ \<Rightarrow> False | Inr d \<Rightarrow> dp_availableReplicas d > 0)
      in if available then
           integrationCondition ''GatewayAvailable'' ''True'' ''DeploymentAvailable''
             (Txt (gatewayType @ '' gateway Deployment has available replicas'')) integ
         else
           integrationCondition ''GatewayAvailable'' ''False'' ''DeploymentUnavailable''
             (Txt (gatewayType @ '' gateway Deployment has no available replicas yet'')) integ)"

text \<open>A gateway and its status: the name of the Deployment and the condition of its availability.\<close>

definition gatewayPart ::
  "integrationEnv \<Rightarrow> integration \<Rightarrow> string \<Rightarrow> string \<Rightarrow> (nsObjects \<Rightarrow> msg option \<times> nsObjects) \<Rightarrow> integrationSystem \<Rightarrow>
   (msg + (integration \<times> duration option)) \<times> integrationSystem" where
  "gatewayPart env integ name gatewayType run s =
     (case run (iy_objects s) of
        (Some e, objs) \<Rightarrow> (Inl e, s\<lparr>iy_objects := objs\<rparr>)
      | (None, objs) \<Rightarrow>
          (Inr (setIntegrationCondition env (gatewayAvailableCondition env name gatewayType integ objs) (setGatewayName name integ), None),
           s\<lparr>iy_objects := objs\<rparr>))"

definition pluginPart ::
  "integrationEnv \<Rightarrow> integration \<Rightarrow> pluginIntegrationSpec \<Rightarrow> integrationSystem \<Rightarrow> (msg + (integration \<times> duration option)) \<times> integrationSystem" where
  "pluginPart env integ p s =
     (case wrapStep ''reconciling plugin RBAC: %w'' (reconcilePluginRBAC env integ (iy_objects s)) of
        (Some e, objs) \<Rightarrow> (Inl e, s\<lparr>iy_objects := objs\<rparr>)
      | (None, objs) \<Rightarrow>
          (case reconcilePluginMTLS env integ (s\<lparr>iy_objects := objs\<rparr>) of
             (Inl e, s1) \<Rightarrow> (Inl (Fmt ''reconciling plugin mTLS: %w'' [e]), s1)
           | (Inr (integ1, requeueAfter), s1) \<Rightarrow>
               (case wrapStep ''reconciling plugin deployment: %w'' (reconcilePluginDeployment env integ p (iy_objects s1)) of
                  (Some e, objs1) \<Rightarrow> (Inl e, s1\<lparr>iy_objects := objs1\<rparr>)
                | (None, objs1) \<Rightarrow>
                    (Inr (setGatewayName (pluginName integ)
                            (setIntegrationCondition env
                               (integrationCondition ''PluginDeployed'' ''True'' ''DeploymentReconciled''
                                  (Fmt ''Plugin Deployment reconciled with image %s'' [Txt (pluginImageRef p)]) integ) integ1),
                          requeueAfter), s1\<lparr>iy_objects := objs1\<rparr>))))"

definition reconcileByType ::
  "integrationEnv \<Rightarrow> integration \<Rightarrow> integrationSystem \<Rightarrow> (msg + (integration \<times> duration option)) \<times> integrationSystem" where
  "reconcileByType env integ s =
     (if ig_type integ = ''plugin'' then
        (case ig_plugin integ of None \<Rightarrow> (Inr (integ, None), s) | Some p \<Rightarrow> pluginPart env integ p s)
      else if ig_type integ = ''kafka'' then
        gatewayPart env integ (kafkaGatewayName integ) ''Kafka''
          (untilError [\<lambda>o1. wrapStep ''reconciling kafka gateway: %w'' (reconcileKafkaGateway env integ o1),
                       \<lambda>o1. wrapStep ''reconciling kafka scaledobject: %w'' (reconcileKafkaScaledObject env integ (iy_triggers s) o1)]) s
      else if ig_type integ = ''amqp'' then
        gatewayPart env integ (amqpGatewayName integ) ''AMQP''
          (\<lambda>o1. wrapStep ''reconciling amqp gateway: %w'' (reconcileAmqpGateway env integ o1)) s
      else if ig_type integ = ''nats'' then
        gatewayPart env integ (natsGatewayName integ) ''NATS''
          (\<lambda>o1. wrapStep ''reconciling nats gateway: %w'' (reconcileNatsGateway env integ o1)) s
      else (Inr (integ, None), s))"

definition updateIntegrationStatus :: "integrationEnv \<Rightarrow> integration \<Rightarrow> integrationSystem \<Rightarrow> apiError option \<times> integrationSystem" where
  "updateIntegrationStatus env integ s =
     (case writeObject (iv_kube env) ''Integration/status'' (ig_name integ) integ (iy_integrations s) of
        (e, xs) \<Rightarrow> (e, s\<lparr>iy_integrations := xs\<rparr>))"

definition readyIntegration :: "integrationEnv \<Rightarrow> integration \<Rightarrow> integration" where
  "readyIntegration env integ =
     (let i1 = setIntegrationCondition env
                 (integrationCondition conditionTypeReady ''True'' ''IntegrationReady'' (Txt ''Integration is configured and ready'') integ) integ
      in i1\<lparr>ig_status := (ig_status i1)\<lparr>is_lastReconciledTime := Some (iv_now env)\<rparr>\<rparr>)"

definition reconcileIntegration ::
  "integrationEnv \<Rightarrow> string \<Rightarrow> integrationSystem \<Rightarrow> (msg + ctrlResult) \<times> integrationSystem" where
  "reconcileIntegration env name s =
     (case getObject (iv_kube env) ''Integration'' name (iy_integrations s) of
        Inl e \<Rightarrow> (if e = NotFound then Inr Done else Inl (apiErrorMsg e), s)
      | Inr integ \<Rightarrow>
          (case validateIntegrationSpec integ of
             Some err \<Rightarrow>
               (case updateIntegrationStatus env
                       (setIntegrationCondition env (integrationCondition conditionTypeReady ''False'' ''InvalidSpec'' err integ) integ) s of
                  (Some e, s') \<Rightarrow> (Inl (apiErrorMsg e), s') | (None, s') \<Rightarrow> (Inr Done, s'))
           | None \<Rightarrow>
               (case reconcileByType env integ s of
                  (Inl e, s') \<Rightarrow> (Inl e, s')
                | (Inr (integ1, requeueAfter), s') \<Rightarrow>
                    (case updateIntegrationStatus env (readyIntegration env integ1) s' of
                       (Some e, s2) \<Rightarrow> (Inl (apiErrorMsg e), s2)
                     | (None, s2) \<Rightarrow> (Inr (case requeueAfter of None \<Rightarrow> Done | Some d \<Rightarrow> RequeueAfter d), s2)))))"

section \<open>Reconciles whose requests are accepted\<close>

definition integrationAccepts :: "integrationEnv \<Rightarrow> bool" where
  "integrationAccepts env \<longleftrightarrow> kubeAccepts (iv_kube env) \<and> iv_listTriggers env = None \<and>
     (\<forall>i os. \<exists>os'. iv_setOwner env i os = Inr os') \<and> (\<forall>n. \<exists>v. iv_rng env n = Inr v)"

lemma integrationAcceptsD:
  assumes "integrationAccepts env"
  shows "kubeAccepts (iv_kube env)" "iv_listTriggers env = None" "\<exists>os'. iv_setOwner env i os = Inr os'" "\<exists>v. iv_rng env n = Inr v"
    "kv_get (iv_kube env) kind name = None" "kv_write (iv_kube env) kind name = Accepted"
  using assms by (auto simp: integrationAccepts_def kubeAcceptsD)

lemma generateBundle_total:
  assumes "\<And>n. \<exists>v. rng n = Inr v"
  shows "\<exists>b. generateBundle rng caName serverName dns now n = Inr b"
proof -
  obtain v where v: "\<And>n. rng n = Inr (v n)" using assms by metis
  show ?thesis by (simp add: generateBundle_def GenerateCA_def IssueLeafCert_def randomSerial_def v Let_def)
qed

lemma GetOrGenerate_total:
  assumes "\<And>n. \<exists>v. rng n = Inr v"
  shows "\<exists>b st'. GetOrGenerate rng namespace name dns now n st = (Inr b, st')"
proof -
  obtain b where "GeneratePluginMTLSBundle rng name dns now n = Inr b"
    using generateBundle_total [of rng, OF assms] unfolding GeneratePluginMTLSBundle_def by blast
  then show ?thesis by (cases "map_of st (pluginMTLSStoreKey namespace name)") (simp_all add: GetOrGenerate_def Let_def)
qed

lemma setOwner_mutate:
  "\<exists>os'. f = Inr os' \<Longrightarrow> \<exists>y. (case f of Inl e \<Rightarrow> Inl e | Inr os \<Rightarrow> Inr (g os)) = Inr y"
  by auto

lemma upsert_total:
  assumes "kubeAccepts env" "\<And>os. \<exists>os'. setOwner os = Inr os'"
  shows "fst (upsertAccount env label name setOwner objs) = None"
    and "fst (upsertRole env label name rules setOwner objs) = None"
    and "fst (upsertBinding env label name namespace setOwner objs) = None"
proof -
  note total = createOrUpdate_total [OF assms(1)] and owner = setOwner_mutate [OF assms(2)]
  show "fst (upsertAccount env label name setOwner objs) = None"
    unfolding upsertAccount_def by (simp add: case_prod_beta total owner)
  show "fst (upsertRole env label name rules setOwner objs) = None"
    unfolding upsertRole_def by (simp add: case_prod_beta total owner)
  obtain os' where "setOwner [] = Inr os'" using assms(2) by blast
  then show "fst (upsertBinding env label name namespace setOwner objs) = None"
    unfolding upsertBinding_def Let_def
    by (auto simp: case_prod_beta total owner deleteObject_def writeObject_def kubeAcceptsD [OF assms(1)] split: option.split)
qed

lemma upsertGatewayDeployment_total:
  "integrationAccepts env \<Longrightarrow> fst (upsertGatewayDeployment env integ label name desired objs) = None"
  using integrationAcceptsD(3) [of env integ "dp_owners desired"]
  by (auto simp: upsertGatewayDeployment_def createOrUpdate_upserted integrationAcceptsD(1) case_prod_beta)

lemma upsertKafkaService_total: "integrationAccepts env \<Longrightarrow> fst (upsertKafkaService env integ objs) = None"
  using integrationAcceptsD(3) [of env integ "svc_owners (desiredKafkaGatewayService integ)"]
  by (auto simp: upsertKafkaService_def createOrUpdate_upserted integrationAcceptsD(1) case_prod_beta Let_def)

lemma sharedAccess_total: "integrationAccepts env \<Longrightarrow> f \<in> set (sharedAccess env integ label rules) \<Longrightarrow> fst (f objs) = None"
  by (auto simp: sharedAccess_def upsert_total integrationAcceptsD(1))

lemma gateways_total:
  assumes "integrationAccepts env"
  shows "fst (reconcileKafkaGateway env integ objs) = None" "fst (reconcileAmqpGateway env integ objs) = None"
    "fst (reconcileNatsGateway env integ objs) = None"
  unfolding reconcileKafkaGateway_def reconcileAmqpGateway_def reconcileNatsGateway_def
  by (rule untilError_total; use assms in \<open>auto simp: sharedAccess_total upsertGatewayDeployment_total upsertKafkaService_total\<close>)+

lemma reconcilePluginRBAC_total: "integrationAccepts env \<Longrightarrow> fst (reconcilePluginRBAC env integ objs) = None"
  unfolding reconcilePluginRBAC_def
  by (rule untilError_total) (auto simp: upsert_total integrationAcceptsD(1,3))

lemma reconcileKafkaScaledObject_accepted:
  assumes "integrationAccepts env"
  obtains owners where "reconcileKafkaScaledObject env integ triggers objs =
    (None, objs\<lparr>ns_scaledObjects := AList.update (kafkaGatewayName integ)
      \<lparr>so_scaleTarget = kafkaGatewayName integ, so_minReplicaCount = 0, so_maxReplicaCount = 10,
       so_triggers = buildKafkaTriggers integ (iv_mapOrder env (kafkaPairs integ triggers)), so_owners = owners\<rparr> (ns_scaledObjects objs)\<rparr>)"
proof -
  obtain owners where "iv_setOwner env integ [] = Inr owners" using integrationAcceptsD(3) [OF assms] by blast
  with that [of owners] show thesis
    using integrationAcceptsD [OF assms]
    by (simp add: reconcileKafkaScaledObject_def getObject_def writeObject_def Let_def split: option.splits)
qed

lemma reconcilePluginMTLS_enabled:
  assumes "integrationAccepts env" "pluginMTLSEnabled integ"
  obtains b st sec xs i1 where
    "GetOrGenerate (iv_rng env) (ig_namespace integ) (ig_name integ) (pluginDNSNames integ) (iv_now env) (iv_draw env) (iy_store s) = (Inr b, st)"
    "reconcilePluginMTLS env integ s = (Inr (i1, Some pluginMTLSRecheckInterval), putSecrets xs (s\<lparr>iy_store := st\<rparr>))"
    "map_of xs (pluginMTLSSecretName (ig_name integ)) = Some sec"
    "se_data sec = [(''tls.crt'', ServerCertPEM (iv_pem env) b), (''tls.key'', ServerKeyPEM (iv_pem env) b), (''ca.crt'', CACertPEM (iv_pem env) b)]"
    "ig_name i1 = ig_name integ"
proof -
  obtain b st where g: "GetOrGenerate (iv_rng env) (ig_namespace integ) (ig_name integ) (pluginDNSNames integ) (iv_now env) (iv_draw env)
      (iy_store s) = (Inr b, st)" using GetOrGenerate_total integrationAcceptsD(4) [OF assms(1)] by metis
  let ?name = "pluginMTLSSecretName (ig_name integ)" and ?secrets = "ns_secrets (iy_objects s)"
  let ?data = "[(''tls.crt'', ServerCertPEM (iv_pem env) b), (''tls.key'', ServerKeyPEM (iv_pem env) b), (''ca.crt'', CACertPEM (iv_pem env) b)]"
  let ?mutate = "\<lambda>sec. case iv_setOwner env integ (se_owners sec) of Inl e \<Rightarrow> Inl e
     | Inr owners \<Rightarrow> Inr (sec\<lparr>se_type := ''Opaque'', se_data := ?data, se_owners := owners\<rparr>)"
  let ?initial = "\<lparr>se_type = [], se_data = [], se_owners = []\<rparr>"
  let ?live = "case map_of ?secrets ?name of None \<Rightarrow> ?initial | Some live \<Rightarrow> live"
  obtain owners where owners: "iv_setOwner env integ (se_owners ?live) = Inr owners" using integrationAcceptsD(3) [OF assms(1)] by blast
  let ?sec = "?live\<lparr>se_type := ''Opaque'', se_data := ?data, se_owners := owners\<rparr>"
  let ?xs = "if map_of ?secrets ?name = Some ?sec then ?secrets else AList.update ?name ?sec ?secrets"
  have put: "createOrUpdate (iv_kube env) ''Secret'' ?name ?mutate ?initial ?secrets = (None, ?xs)"
    by (rule createOrUpdate_accepted [OF integrationAcceptsD(1) [OF assms(1)]]) (simp only: owners sum.case)
  have "map_of ?xs ?name = Some ?sec" by (simp add: update_conv')
  moreover obtain i1 where "reconcilePluginMTLS env integ s = (Inr (i1, Some pluginMTLSRecheckInterval), putSecrets ?xs (s\<lparr>iy_store := st\<rparr>))"
    "ig_name i1 = ig_name integ"
    using assms(2) g put by (simp add: reconcilePluginMTLS_def setIntegrationCondition_def Let_def)
  ultimately show thesis using that [OF g] by auto
qed

lemma reconcilePluginMTLS_disabled:
  assumes "integrationAccepts env" "\<not> pluginMTLSEnabled integ"
  shows "reconcilePluginMTLS env integ s =
    (Inr (integ, None), putSecrets (AList.delete (pluginMTLSSecretName (ig_name integ)) (ns_secrets (iy_objects s)))
       (s\<lparr>iy_store := RemoveBundle (ig_namespace integ) (ig_name integ) (iy_store s)\<rparr>))"
  using assms(2) integrationAcceptsD [OF assms(1)]
  by (auto simp: reconcilePluginMTLS_def deleteObject_def delete_absent Let_def)

lemma reconcilePluginDeployment_accepted:
  assumes "integrationAccepts env"
  obtains d ds where "reconcilePluginDeployment env integ p objs = (None, objs\<lparr>ns_deployments := ds\<rparr>)"
    "map_of ds (pluginName integ) = Some d" "dp_spec d = desiredPluginSpec (iv_mapOrder env) integ p"
proof -
  let ?spec = "desiredPluginSpec (iv_mapOrder env) integ p"
  let ?ds = "upserted (pluginName integ) (\<lambda>d. d\<lparr>dp_spec := ?spec\<rparr>)
      \<lparr>dp_labels = [(labelApp, pluginName integ)], dp_spec = ?spec, dp_owners = [], dp_availableReplicas = 0\<rparr> (ns_deployments objs)"
  have "reconcilePluginDeployment env integ p objs = (None, objs\<lparr>ns_deployments := ?ds\<rparr>)"
    by (simp add: reconcilePluginDeployment_def createOrUpdate_upserted [OF integrationAcceptsD(1) [OF assms]] wrapStep_def Let_def)
  moreover have "\<exists>d. map_of ?ds (pluginName integ) = Some d \<and> dp_spec d = ?spec" by (simp add: map_of_upserted)
  ultimately show thesis using that by blast
qed

lemma pluginPart_accepted:
  assumes "integrationAccepts env" "ig_plugin integ = Some p"
  obtains i1 requeue objs s1 i2 ds where
    "reconcilePluginMTLS env integ (s\<lparr>iy_objects := objs\<rparr>) = (Inr (i1, requeue), s1)"
    "pluginPart env integ p s = (Inr (i2, requeue), s1\<lparr>iy_objects := (iy_objects s1)\<lparr>ns_deployments := ds\<rparr>\<rparr>)"
    "ig_name i2 = ig_name integ"
    "\<exists>d. map_of ds (pluginName integ) = Some d \<and> dp_spec d = desiredPluginSpec (iv_mapOrder env) integ p"
proof -
  obtain objs where rbac: "reconcilePluginRBAC env integ (iy_objects s) = (None, objs)"
    using reconcilePluginRBAC_total [OF assms(1)] by (cases "reconcilePluginRBAC env integ (iy_objects s)") (metis fst_conv)
  obtain i1 requeue s1 where mtls: "reconcilePluginMTLS env integ (s\<lparr>iy_objects := objs\<rparr>) = (Inr (i1, requeue), s1)" "ig_name i1 = ig_name integ"
  proof (cases "pluginMTLSEnabled integ")
    case True
    then show ?thesis using reconcilePluginMTLS_enabled [OF assms(1)] that by metis
  next
    case False
    then show ?thesis using reconcilePluginMTLS_disabled [OF assms(1)] that by metis
  qed
  obtain d ds where dep: "reconcilePluginDeployment env integ p (iy_objects s1) = (None, (iy_objects s1)\<lparr>ns_deployments := ds\<rparr>)"
    "map_of ds (pluginName integ) = Some d" "dp_spec d = desiredPluginSpec (iv_mapOrder env) integ p"
    by (rule reconcilePluginDeployment_accepted [OF assms(1)])
  obtain i2 where "pluginPart env integ p s = (Inr (i2, requeue), s1\<lparr>iy_objects := (iy_objects s1)\<lparr>ns_deployments := ds\<rparr>\<rparr>)"
    "ig_name i2 = ig_name integ"
    using rbac mtls dep(1) by (simp add: pluginPart_def wrapStep_def setGatewayName_def setIntegrationCondition_def)
  with mtls dep(2,3) show thesis using that by blast
qed

text \<open>C25: With mTLS on, one accepted reconcile of a plugin Integration makes both ends of the channel agree: the Secret that
  the Deployment mounts holds the server certificate, its key and the CA of the very bundle from which the
  publishing client takes its certificate and its only root; the readiness probe uses the separate plain port;
  and the Integration is looked at again in five minutes.\<close>

theorem plugin_mtls_established:
  assumes "integrationAccepts env" "pemLaws (iv_pem env)" "ig_plugin integ = Some p" "pi_mtlsEnabled p"
  shows "\<exists>i2 s' b sec d. pluginPart env integ p s = (Inr (i2, Some pluginMTLSRecheckInterval), s') \<and>
    ClientTLSConfigFor (ig_namespace integ) (ig_name integ) (iy_store s') = Some (ClientTLSConfig b) \<and> \<not> NeedsRotation (iv_now env) b \<and>
    map_of (ns_deployments (iy_objects s')) (pluginName integ) = Some d \<and>
    map vo_secretName (ds_volumes (dp_spec d)) = [pluginMTLSSecretName (ig_name integ)] \<and>
    map_option pb_port (co_readinessProbe (ds_container (dp_spec d))) = Some defaultPluginMTLSHealthPort \<and>
    map_of (ns_secrets (iy_objects s')) (pluginMTLSSecretName (ig_name integ)) = Some sec \<and>
    map_of (se_data sec) ''tls.crt'' = Some (ServerCertPEM (iv_pem env) b) \<and>
    map_of (se_data sec) ''tls.key'' = Some (ServerKeyPEM (iv_pem env) b) \<and>
    ParseCertPEM (iv_pem env) (the (map_of (se_data sec) ''ca.crt'')) = Inr (mb_caCert b)"
proof -
  have on: "pluginMTLSEnabled integ" using assms(3,4) by (simp add: pluginMTLSEnabled_def)
  obtain i1 requeue objs s1 i2 ds where part:
    "reconcilePluginMTLS env integ (s\<lparr>iy_objects := objs\<rparr>) = (Inr (i1, requeue), s1)"
    "pluginPart env integ p s = (Inr (i2, requeue), s1\<lparr>iy_objects := (iy_objects s1)\<lparr>ns_deployments := ds\<rparr>\<rparr>)"
    "\<exists>d. map_of ds (pluginName integ) = Some d \<and> dp_spec d = desiredPluginSpec (iv_mapOrder env) integ p"
    by (rule pluginPart_accepted [OF assms(1,3)])
  obtain b st sec xs i1' where m:
    "GetOrGenerate (iv_rng env) (ig_namespace integ) (ig_name integ) (pluginDNSNames integ) (iv_now env) (iv_draw env)
       (iy_store (s\<lparr>iy_objects := objs\<rparr>)) = (Inr b, st)"
    "reconcilePluginMTLS env integ (s\<lparr>iy_objects := objs\<rparr>) = (Inr (i1', Some pluginMTLSRecheckInterval), putSecrets xs (s\<lparr>iy_objects := objs, iy_store := st\<rparr>))"
    "map_of xs (pluginMTLSSecretName (ig_name integ)) = Some sec"
    "se_data sec = [(''tls.crt'', ServerCertPEM (iv_pem env) b), (''tls.key'', ServerKeyPEM (iv_pem env) b), (''ca.crt'', CACertPEM (iv_pem env) b)]"
    by (rule reconcilePluginMTLS_enabled [OF assms(1) on])
  from part(1) m(2) have s1: "requeue = Some pluginMTLSRecheckInterval" "s1 = putSecrets xs (s\<lparr>iy_objects := objs, iy_store := st\<rparr>)" by simp_all
  note stored = GetOrGenerate_stored [OF m(1)]
  obtain d where d: "map_of ds (pluginName integ) = Some d" "dp_spec d = desiredPluginSpec (iv_mapOrder env) integ p" using part(3) by blast
  have ca: "ParseCertPEM (iv_pem env) (CACertPEM (iv_pem env) b) = Inr (mb_caCert b)" by (simp add: CACertPEM_def ParseCertPEM_Encode assms(2))
  show ?thesis
    using part(2) stored d m(3,4) ca assms(4)
    by (intro exI [of _ i2] exI [of _ "s1\<lparr>iy_objects := (iy_objects s1)\<lparr>ns_deployments := ds\<rparr>\<rparr>"] exI [of _ b] exI [of _ sec] exI [of _ d])
      (simp add: s1 putSecrets_def ClientTLSConfigFor_def desiredPluginSpec_def Let_def)
qed

text \<open>Turning mTLS off cleans up: an accepted reconcile removes the Secret and forgets the bundle, so that the publishing
  client goes back to plain HTTP, and the bundles and Secrets of other Integrations stay.\<close>

theorem plugin_mtls_disabled_cleans:
  assumes "integrationAccepts env" "ig_plugin integ = Some p" "\<not> pi_mtlsEnabled p"
  shows "\<exists>i2 s'. pluginPart env integ p s = (Inr (i2, None), s') \<and>
    ClientTLSConfigFor (ig_namespace integ) (ig_name integ) (iy_store s') = None \<and>
    map_of (ns_secrets (iy_objects s')) (pluginMTLSSecretName (ig_name integ)) = None \<and>
    (pluginMTLSStoreKey ns' name' = pluginMTLSStoreKey (ig_namespace integ) (ig_name integ) \<or>
     ClientTLSConfigFor ns' name' (iy_store s') = ClientTLSConfigFor ns' name' (iy_store s))"
proof -
  have off: "\<not> pluginMTLSEnabled integ" using assms(2,3) by (simp add: pluginMTLSEnabled_def)
  obtain i1 requeue objs s1 i2 ds where part:
    "reconcilePluginMTLS env integ (s\<lparr>iy_objects := objs\<rparr>) = (Inr (i1, requeue), s1)"
    "pluginPart env integ p s = (Inr (i2, requeue), s1\<lparr>iy_objects := (iy_objects s1)\<lparr>ns_deployments := ds\<rparr>\<rparr>)"
    by (rule pluginPart_accepted [OF assms(1,2)])
  with reconcilePluginMTLS_disabled [OF assms(1) off, of "s\<lparr>iy_objects := objs\<rparr>"]
  have "requeue = None" "s1 = putSecrets (AList.delete (pluginMTLSSecretName (ig_name integ)) (ns_secrets objs))
      (s\<lparr>iy_objects := objs, iy_store := RemoveBundle (ig_namespace integ) (ig_name integ) (iy_store s)\<rparr>)" by simp_all
  with part(2) show ?thesis
    by (auto simp: putSecrets_def ClientTLSConfigFor_def RemoveBundle_def delete_conv')
qed

section \<open>Status\<close>

lemma gatewayPart_accepted:
  assumes "\<And>o1. fst (run o1) = None"
  obtains i1 objs where "gatewayPart env integ name gatewayType run s = (Inr (i1, None), s\<lparr>iy_objects := objs\<rparr>)" "ig_name i1 = ig_name integ"
proof -
  obtain objs where "run (iy_objects s) = (None, objs)" using assms [of "iy_objects s"] by (cases "run (iy_objects s)") simp
  with that show thesis by (simp add: gatewayPart_def setIntegrationCondition_def setGatewayName_def)
qed

lemma reconcileByType_accepted:
  assumes "integrationAccepts env" "validateIntegrationSpec integ = None"
  obtains i1 requeue s1 where "reconcileByType env integ s = (Inr (i1, requeue), s1)" "ig_name i1 = ig_name integ"
    "iy_integrations s1 = iy_integrations s"
proof -
  have frame: "iy_integrations (snd (reconcilePluginMTLS env i u)) = iy_integrations u" for i u
    by (auto simp: reconcilePluginMTLS_def putSecrets_def Let_def split: prod.split sum.split option.split)
  consider p where "ig_type integ = ''plugin''" "ig_plugin integ = Some p" | "ig_type integ = ''kafka''" | "ig_type integ = ''amqp''"
    | "ig_type integ = ''nats''" | "ig_type integ = ''http''"
    using assms(2) by (auto simp: validateIntegrationSpec_def split: if_splits option.splits)
  then show thesis
  proof cases
    case 1
    obtain i1 requeue objs s1 i2 ds where part:
      "reconcilePluginMTLS env integ (s\<lparr>iy_objects := objs\<rparr>) = (Inr (i1, requeue), s1)"
      "pluginPart env integ p s = (Inr (i2, requeue), s1\<lparr>iy_objects := (iy_objects s1)\<lparr>ns_deployments := ds\<rparr>\<rparr>)"
      "ig_name i2 = ig_name integ" by (rule pluginPart_accepted [OF assms(1) 1(2)])
    moreover have "iy_integrations s1 = iy_integrations s" using frame [of integ "s\<lparr>iy_objects := objs\<rparr>"] part(1) by simp
    ultimately show thesis using 1 that by (simp add: reconcileByType_def)
  next
    case 2
    let ?run = "untilError [\<lambda>o1. wrapStep ''reconciling kafka gateway: %w'' (reconcileKafkaGateway env integ o1),
      \<lambda>o1. wrapStep ''reconciling kafka scaledobject: %w'' (reconcileKafkaScaledObject env integ (iy_triggers s) o1)]"
    have scaled: "fst (reconcileKafkaScaledObject env integ ts o1) = None" for ts o1
      by (rule reconcileKafkaScaledObject_accepted [OF assms(1), of integ ts o1]) simp
    have "fst (?run o1) = None" for o1 by (rule untilError_total) (auto simp: gateways_total [OF assms(1)] scaled)
    from gatewayPart_accepted [of ?run env integ "kafkaGatewayName integ" "''Kafka''" s, OF this] obtain i1 objs where
      "gatewayPart env integ (kafkaGatewayName integ) ''Kafka'' ?run s = (Inr (i1, None), s\<lparr>iy_objects := objs\<rparr>)" "ig_name i1 = ig_name integ"
      by blast
    then show thesis using that 2 by (simp add: reconcileByType_def del: untilError.simps)
  next
    case 3
    let ?run = "\<lambda>o1. wrapStep ''reconciling amqp gateway: %w'' (reconcileAmqpGateway env integ o1)"
    obtain i1 objs where "gatewayPart env integ (amqpGatewayName integ) ''AMQP'' ?run s = (Inr (i1, None), s\<lparr>iy_objects := objs\<rparr>)" "ig_name i1 = ig_name integ"
      by (rule gatewayPart_accepted [of ?run env integ "amqpGatewayName integ" "''AMQP''" s]) (simp add: gateways_total [OF assms(1)])
    then show thesis using that 3 by (simp add: reconcileByType_def)
  next
    case 4
    let ?run = "\<lambda>o1. wrapStep ''reconciling nats gateway: %w'' (reconcileNatsGateway env integ o1)"
    obtain i1 objs where "gatewayPart env integ (natsGatewayName integ) ''NATS'' ?run s = (Inr (i1, None), s\<lparr>iy_objects := objs\<rparr>)" "ig_name i1 = ig_name integ"
      by (rule gatewayPart_accepted [of ?run env integ "natsGatewayName integ" "''NATS''" s]) (simp add: gateways_total [OF assms(1)])
    then show thesis using that 4 by (simp add: reconcileByType_def)
  next
    case 5
    then show thesis using that by (simp add: reconcileByType_def)
  qed
qed

text \<open>The Ready condition tells the truth about the specification: when the API server accepts the requests, a reconcile
  ends without an error, and the condition it stores last is True exactly when the specification passes the
  validation of its type; an Integration that fails it creates and changes nothing.\<close>

theorem integration_ready_iff_valid:
  assumes "integrationAccepts env" "map_of (iy_integrations s) (ig_name integ) = Some integ"
  shows "\<exists>r s' i' cs c. reconcileIntegration env (ig_name integ) s = (Inr r, s') \<and> map_of (iy_integrations s') (ig_name integ) = Some i' \<and>
    is_conditions (ig_status i') = iv_setCondition env cs c \<and> cond_type c = conditionTypeReady \<and>
    cond_status c = (if validateIntegrationSpec integ = None then ''True'' else ''False'') \<and>
    (validateIntegrationSpec integ = None \<or> iy_objects s' = iy_objects s \<and> iy_store s' = iy_store s)"
proof (cases "validateIntegrationSpec integ")
  case (Some err)
  with assms(2) integrationAcceptsD [OF assms(1)] show ?thesis
    by (simp add: reconcileIntegration_def getObject_def updateIntegrationStatus_def writeObject_def setIntegrationCondition_def
        integrationCondition_def update_conv')
      (metis condition.select_convs(1,2))
next
  case None
  obtain i1 requeue s1 where r: "reconcileByType env integ s = (Inr (i1, requeue), s1)" "ig_name i1 = ig_name integ"
    by (rule reconcileByType_accepted [OF assms(1) None])
  let ?c = "integrationCondition conditionTypeReady ''True'' ''IntegrationReady'' (Txt ''Integration is configured and ready'') i1"
  let ?i = "readyIntegration env i1"
  have i: "ig_name ?i = ig_name integ" "is_conditions (ig_status ?i) = iv_setCondition env (is_conditions (ig_status i1)) ?c"
    using r(2) by (simp_all add: readyIntegration_def setIntegrationCondition_def Let_def)
  have "\<exists>res. reconcileIntegration env (ig_name integ) s =
      (Inr res, s1\<lparr>iy_integrations := AList.update (ig_name integ) ?i (iy_integrations s1)\<rparr>)"
    using assms(2) None r(1) integrationAcceptsD [OF assms(1)] i(1)
    by (simp add: reconcileIntegration_def getObject_def updateIntegrationStatus_def writeObject_def)
  then obtain res where "reconcileIntegration env (ig_name integ) s =
      (Inr res, s1\<lparr>iy_integrations := AList.update (ig_name integ) ?i (iy_integrations s1)\<rparr>)" by blast
  with i(2) None show ?thesis
    by (intro exI [of _ res] exI [of _ "s1\<lparr>iy_integrations := AList.update (ig_name integ) ?i (iy_integrations s1)\<rparr>"] exI [of _ ?i]
        exI [of _ "is_conditions (ig_status i1)"] exI [of _ ?c]) (simp add: update_conv' integrationCondition_def)
qed

section \<open>Iteration order\<close>

lemma secretEnv_inj:
  "map (\<lambda>(k, v). \<lparr>en_name = v, en_value = EnvSecret n k\<rparr>) xs = map (\<lambda>(k, v). \<lparr>en_name = v, en_value = EnvSecret n k\<rparr>) ys \<longleftrightarrow> xs = ys"
  by (rule inj_map_eq_map) (auto simp: inj_on_def)

text \<open>The environment of a plugin follows the iteration order of a Go map: two accepted reconciles of the same unchanged
  Integration that visit the mappings of a Secret in different orders leave different containers, with the same
  variables in another order, so that the second one rolls the plugin out again.\<close>

theorem plugin_env_order_rolls_out:
  assumes "integrationAccepts env" "pi_secretRefs p = [ref]"
    "mset (iv_mapOrder env (pr_envVarMappings ref)) = mset (order' (pr_envVarMappings ref))"
    "iv_mapOrder env (pr_envVarMappings ref) \<noteq> order' (pr_envVarMappings ref)"
  shows "\<exists>objs1 objs2 d1 d2. reconcilePluginDeployment env integ p objs = (None, objs1) \<and>
    reconcilePluginDeployment (env\<lparr>iv_mapOrder := order'\<rparr>) integ p objs1 = (None, objs2) \<and>
    map_of (ns_deployments objs1) (pluginName integ) = Some d1 \<and> map_of (ns_deployments objs2) (pluginName integ) = Some d2 \<and>
    co_env (ds_container (dp_spec d1)) \<noteq> co_env (ds_container (dp_spec d2)) \<and>
    mset (co_env (ds_container (dp_spec d1))) = mset (co_env (ds_container (dp_spec d2)))"
proof -
  have accepts: "integrationAccepts (env\<lparr>iv_mapOrder := order'\<rparr>)" using assms(1) by (simp add: integrationAccepts_def)
  obtain d1 ds1 where d1: "reconcilePluginDeployment env integ p objs = (None, objs\<lparr>ns_deployments := ds1\<rparr>)"
    "map_of ds1 (pluginName integ) = Some d1" "dp_spec d1 = desiredPluginSpec (iv_mapOrder env) integ p"
    by (rule reconcilePluginDeployment_accepted [OF assms(1)])
  obtain d2 ds2 where d2: "reconcilePluginDeployment (env\<lparr>iv_mapOrder := order'\<rparr>) integ p (objs\<lparr>ns_deployments := ds1\<rparr>) =
      (None, objs\<lparr>ns_deployments := ds1, ns_deployments := ds2\<rparr>)"
    "map_of ds2 (pluginName integ) = Some d2" "dp_spec d2 = desiredPluginSpec (iv_mapOrder (env\<lparr>iv_mapOrder := order'\<rparr>)) integ p"
    by (rule reconcilePluginDeployment_accepted [OF accepts])
  have differ: "co_env (ds_container (dp_spec d1)) \<noteq> co_env (ds_container (dp_spec d2))"
    using assms(2,4) by (simp add: d1(3) d2(3) desiredPluginSpec_def secretEnv_def Let_def secretEnv_inj)
  have same: "mset (co_env (ds_container (dp_spec d1))) = mset (co_env (ds_container (dp_spec d2)))"
    using assms(2,3) by (simp add: d1(3) d2(3) desiredPluginSpec_def secretEnv_def Let_def)
  show ?thesis
    by (intro exI [of _ "objs\<lparr>ns_deployments := ds1\<rparr>"] exI [of _ "objs\<lparr>ns_deployments := ds2\<rparr>"] exI [of _ d1] exI [of _ d2] conjI)
      (use d1(1,2) d2(1,2) differ same in simp_all)
qed

lemma kafkaPairs_set: "set (kafkaPairs integ triggers) = {pr. \<exists>name t. (name, t) \<in> set triggers \<and> kafkaPair integ t = Some pr}"
  unfolding kafkaPairs_def set_remdups by (induction triggers) (auto simp: map_filter_simps split: option.splits)

text \<open>The scaler follows exactly the consumers: after an accepted reconcile of a Kafka Integration the KEDA object has, in
  whatever order, one trigger for each pair of topic and consumer group that some kafka Trigger of the Integration
  uses, and no other.\<close>

theorem scaledObject_triggers_exact:
  assumes "integrationAccepts env" "mset (iv_mapOrder env (kafkaPairs integ triggers)) = mset (kafkaPairs integ triggers)"
  shows "\<exists>objs' so. reconcileKafkaScaledObject env integ triggers objs = (None, objs') \<and>
    map_of (ns_scaledObjects objs') (kafkaGatewayName integ) = Some so \<and> distinct (so_triggers so) \<and>
    (\<forall>m. (''kafka'', m) \<in> set (so_triggers so) \<longleftrightarrow>
      (\<exists>name t topic cg. (name, t) \<in> set triggers \<and> kafkaPair integ t = Some (topic, cg) \<and>
         m = [(''bootstrapServers'', case ig_kafka integ of None \<Rightarrow> [] | Some k \<Rightarrow> joinStr '','' (ki_bootstrapServers k)),
              (''consumerGroup'', cg), (''topic'', topic), (''lagThreshold'', ''10'')]))"
proof -
  let ?brokers = "case ig_kafka integ of None \<Rightarrow> [] | Some k \<Rightarrow> joinStr '','' (ki_bootstrapServers k)"
  let ?entry = "\<lambda>(topic, cg). (''kafka'', [(''bootstrapServers'', ?brokers), (''consumerGroup'', cg), (''topic'', topic), (''lagThreshold'', ''10'')])"
  let ?ordered = "iv_mapOrder env (kafkaPairs integ triggers)"
  obtain owners where w: "reconcileKafkaScaledObject env integ triggers objs =
    (None, objs\<lparr>ns_scaledObjects := AList.update (kafkaGatewayName integ)
      \<lparr>so_scaleTarget = kafkaGatewayName integ, so_minReplicaCount = 0, so_maxReplicaCount = 10,
       so_triggers = buildKafkaTriggers integ ?ordered, so_owners = owners\<rparr> (ns_scaledObjects objs)\<rparr>)"
    by (rule reconcileKafkaScaledObject_accepted [OF assms(1)])
  have build: "buildKafkaTriggers integ ?ordered = map ?entry ?ordered" by (simp add: buildKafkaTriggers_def Let_def)
  have "distinct ?ordered" using assms(2) by (metis mset_eq_imp_distinct_iff kafkaPairs_def distinct_remdups)
  then have "distinct (map ?entry ?ordered)" by (auto simp: distinct_map inj_on_def)
  moreover have "set ?ordered = {pr. \<exists>name t. (name, t) \<in> set triggers \<and> kafkaPair integ t = Some pr}"
    using mset_eq_setD [OF assms(2)] by (simp add: kafkaPairs_set)
  moreover have "(''kafka'', m) \<in> set (map ?entry ps) \<longleftrightarrow> (\<exists>topic cg. (topic, cg) \<in> set ps \<and> (''kafka'', m) = ?entry (topic, cg))" for m ps
    by (simp only: set_map image_iff Bex_def split_paired_Ex)
  ultimately show ?thesis by (simp only: w) (auto simp: update_conv' build simp del: set_map)
qed

section \<open>Examples\<close>

definition exampleIntegrationEnv :: integrationEnv where
  "exampleIntegrationEnv =
     \<lparr>iv_kube = acceptingServer, iv_setOwner = (\<lambda>i os. Inr (List.insert (ig_name i) os)), iv_setCondition = (\<lambda>cs c. [c]), iv_getenv = (\<lambda>_. []),
      iv_now = 0, iv_listTriggers = None, iv_mapOrder = (\<lambda>m. m), iv_noMatch = (\<lambda>_. False), iv_pem = examplePem, iv_rng = exampleDraws,
      iv_draw = 0\<rparr>"

definition examplePlugin :: pluginIntegrationSpec where
  "examplePlugin =
     \<lparr>pi_image = ''aws-plugin'', pi_imageDigest = [], pi_publisherPort = 0,
      pi_secretRefs = [\<lparr>pr_secretName = ''aws'', pr_envVarMappings = [(''id'', ''AWS_ID''), (''key'', ''AWS_KEY'')]\<rparr>], pi_env = [],
      pi_mtlsEnabled = True\<rparr>"

definition exampleIntegration :: integration where
  "exampleIntegration =
     \<lparr>ig_name = ''sqs'', ig_namespace = ''ns'', ig_generation = 1, ig_type = ''plugin'', ig_kafka = None, ig_amqp = None, ig_nats = None,
      ig_plugin = Some examplePlugin, ig_http = None, ig_status = emptyIntegrationStatus\<rparr>"

definition exampleIntegrationSystem :: integrationSystem where
  "exampleIntegrationSystem =
     \<lparr>iy_integrations = [(''sqs'', exampleIntegration)], iy_triggers = [], iy_objects = emptyObjects, iy_store = []\<rparr>"

lemma exampleIntegration_accepts: "integrationAccepts exampleIntegrationEnv"
  by (simp add: integrationAccepts_def exampleIntegrationEnv_def acceptingServer_accepts exampleDraws_def)

theorem plugin_mtls_established_witness:
  "pi_mtlsEnabled examplePlugin \<and> (\<exists>i2 s'. pluginPart exampleIntegrationEnv exampleIntegration examplePlugin exampleIntegrationSystem =
     (Inr (i2, Some pluginMTLSRecheckInterval), s'))"
proof -
  have "ig_plugin exampleIntegration = Some examplePlugin" "pi_mtlsEnabled examplePlugin" "pemLaws (iv_pem exampleIntegrationEnv)"
    by (simp_all add: exampleIntegration_def examplePlugin_def exampleIntegrationEnv_def examplePem_laws)
  with plugin_mtls_established [OF exampleIntegration_accepts, of exampleIntegration examplePlugin exampleIntegrationSystem]
  show ?thesis by blast
qed

theorem plugin_mtls_disabled_cleans_witness:
  "\<exists>i2 s'. pluginPart exampleIntegrationEnv (exampleIntegration\<lparr>ig_plugin := Some (examplePlugin\<lparr>pi_mtlsEnabled := False\<rparr>)\<rparr>)
     (examplePlugin\<lparr>pi_mtlsEnabled := False\<rparr>) exampleIntegrationSystem = (Inr (i2, None), s') \<and>
     ClientTLSConfigFor ''ns'' ''sqs'' (iy_store s') = None"
proof -
  have "ig_namespace (exampleIntegration\<lparr>ig_plugin := p\<rparr>) = ''ns''" "ig_name (exampleIntegration\<lparr>ig_plugin := p\<rparr>) = ''sqs''" for p
    by (simp_all add: exampleIntegration_def)
  then show ?thesis
    using plugin_mtls_disabled_cleans [OF exampleIntegration_accepts,
      of "exampleIntegration\<lparr>ig_plugin := Some (examplePlugin\<lparr>pi_mtlsEnabled := False\<rparr>)\<rparr>" "examplePlugin\<lparr>pi_mtlsEnabled := False\<rparr>"
         exampleIntegrationSystem] by fastforce
qed

theorem integration_ready_iff_valid_witness:
  "\<exists>r s' i'. reconcileIntegration exampleIntegrationEnv ''sqs'' exampleIntegrationSystem = (Inr r, s') \<and>
     map_of (iy_integrations s') ''sqs'' = Some i'"
proof -
  have "map_of (iy_integrations exampleIntegrationSystem) (ig_name exampleIntegration) = Some exampleIntegration"
    "ig_name exampleIntegration = ''sqs''"
    by (simp_all add: exampleIntegrationSystem_def exampleIntegration_def)
  then show ?thesis
    using integration_ready_iff_valid [OF exampleIntegration_accepts, of exampleIntegrationSystem exampleIntegration] by metis
qed

theorem plugin_env_order_rolls_out_witness:
  "\<exists>objs1 objs2. reconcilePluginDeployment exampleIntegrationEnv exampleIntegration examplePlugin emptyObjects = (None, objs1) \<and>
     reconcilePluginDeployment (exampleIntegrationEnv\<lparr>iv_mapOrder := rev\<rparr>) exampleIntegration examplePlugin objs1 = (None, objs2)"
proof -
  let ?ref = "\<lparr>pr_secretName = ''aws'', pr_envVarMappings = [(''id'', ''AWS_ID''), (''key'', ''AWS_KEY'')]\<rparr>"
  have "pi_secretRefs examplePlugin = [?ref]" by (simp add: examplePlugin_def)
  moreover have "mset (iv_mapOrder exampleIntegrationEnv (pr_envVarMappings ?ref)) = mset (rev (pr_envVarMappings ?ref))"
    "iv_mapOrder exampleIntegrationEnv (pr_envVarMappings ?ref) \<noteq> rev (pr_envVarMappings ?ref)" by (simp_all add: exampleIntegrationEnv_def)
  ultimately have "\<exists>objs1 objs2 d1 d2. reconcilePluginDeployment exampleIntegrationEnv exampleIntegration examplePlugin emptyObjects = (None, objs1) \<and>
    reconcilePluginDeployment (exampleIntegrationEnv\<lparr>iv_mapOrder := rev\<rparr>) exampleIntegration examplePlugin objs1 = (None, objs2) \<and>
    map_of (ns_deployments objs1) (pluginName exampleIntegration) = Some d1 \<and> map_of (ns_deployments objs2) (pluginName exampleIntegration) = Some d2 \<and>
    co_env (ds_container (dp_spec d1)) \<noteq> co_env (ds_container (dp_spec d2)) \<and>
    mset (co_env (ds_container (dp_spec d1))) = mset (co_env (ds_container (dp_spec d2)))"
    by (rule plugin_env_order_rolls_out [OF exampleIntegration_accepts])
  then show ?thesis by blast
qed

theorem scaledObject_triggers_exact_witness:
  "\<exists>objs'. reconcileKafkaScaledObject exampleIntegrationEnv exampleIntegration [] emptyObjects = (None, objs')"
proof -
  have "mset (iv_mapOrder exampleIntegrationEnv (kafkaPairs exampleIntegration [])) = mset (kafkaPairs exampleIntegration [])"
    by (simp add: exampleIntegrationEnv_def)
  from scaledObject_triggers_exact [OF exampleIntegration_accepts this, of emptyObjects] show ?thesis by blast
qed

end
