(* ===== verification/BrokerRuns.thy ===== *)
theory BrokerRuns
  imports RunCreation Redact
begin

text \<open>
  From broker messages to FlowRuns: the handlers of the Kafka, AMQP 0-9-1, AMQP 1.0 and NATS gateways
  (\<^verbatim>\<open>internal/gateway/kafka/handler.go\<close>, \<^verbatim>\<open>internal/gateway/amqp/handler.go\<close>, \<^verbatim>\<open>internal/gateway/nats/handler.go\<close>).
  Each handler creates a FlowRun under a name it derives from the message, takes a name that is in use for a
  redelivery, and answers the broker. The broker clients deliver the messages and carry the answers; the answers
  are recorded in the order in which the handlers give them. Header values of an AMQP table are the texts that
  \<^verbatim>\<open>%v\<close> prints.
\<close>

section \<open>Names\<close>

text \<open>The runes of a byte string, as a range over a Go string decodes them: an invalid byte is a rune of its own.\<close>

function runes :: "string \<Rightarrow> string list" where
  "runes [] = []"
| "runes (c # s) =
     (case utf8Lead c of
        None \<Rightarrow> [c] # runes s
      | Some (n, lo, hi) \<Rightarrow>
          if n \<le> length s \<and> (n = 0 \<or> byteIn lo hi (s ! 0)) \<and> list_all continuation (take (n - 1) (drop 1 s))
          then (c # take n s) # runes (drop n s) else [c] # runes s)"
  by pat_completeness auto
termination
  by (relation "measure length") auto

definition alphaNumDash :: "char \<Rightarrow> bool" where
  "alphaNumDash c \<longleftrightarrow> byteIn 97 122 c \<or> byteIn 48 57 c \<or> c = CHR ''-''"

text \<open>
  \<^verbatim>\<open>strings.ToLower\<close> takes two letters outside ASCII to ASCII letters, U+212A to \<^verbatim>\<open>k\<close> and U+0130 to \<^verbatim>\<open>i\<close>; every other rune
  outside ASCII stays outside and becomes a dash.
\<close>

definition runNameChar :: "string \<Rightarrow> char" where
  "runNameChar r =
     (if length r = 1 \<and> alphaNumDash (hd r) then hd r
      else if r = map char_of [0xE2, 0x84, 0xAA :: nat] then CHR ''k''
      else if r = map char_of [0xC4, 0xB0 :: nat] then CHR ''i''
      else CHR ''-'')"

definition sanitizeFlowRunName :: "string \<Rightarrow> string" where
  "sanitizeFlowRunName name = take 253 (map runNameChar (runes (toLower name)))"

section \<open>Creating a FlowRun once\<close>

record messageHandler =
  mh_triggerName :: string
  mh_triggerNamespace :: string
  mh_flowRefName :: string

definition messageRun :: "messageHandler \<Rightarrow> string \<Rightarrow> string \<Rightarrow> smap \<Rightarrow> triggerData \<Rightarrow> flowRun" where
  "messageRun h rawName source annotations td =
     triggeredRun (sanitizeFlowRunName rawName) (mh_triggerNamespace h) (mh_triggerName h) source (mh_flowRefName h) annotations
       (td\<lparr>td_source := source\<rparr>)"

text \<open>All handlers treat \<^verbatim>\<open>AlreadyExists\<close> as success.\<close>

definition createOnce :: "apiOutcome \<Rightarrow> flowRun \<Rightarrow> flowRun list \<Rightarrow> apiError option \<times> flowRun list" where
  "createOnce outcome run runs =
     (case storeRun outcome run runs of (e, runs') \<Rightarrow> (if e = Some AlreadyExists then None else e, runs'))"

section \<open>Kafka\<close>

record recordHeader =
  rh_key :: string
  rh_value :: string

record consumerMessage =
  km_topic :: string
  km_partition :: int
  km_offset :: int
  km_key :: "string option"
  km_value :: string
  km_headers :: "recordHeader option list"

definition encodeBytes :: "string \<Rightarrow> string \<times> string" where
  "encodeBytes bs = (if utf8Valid bs then (bs, ''utf8'') else (base64Encode bs, ''base64''))"

definition encodeKey :: "string option \<Rightarrow> string \<times> string" where
  "encodeKey key = (case key of None \<Rightarrow> ([], []) | Some k \<Rightarrow> encodeBytes k)"

definition kafkaHeaders :: "recordHeader option list \<Rightarrow> smap" where
  "kafkaHeaders hs =
     StringMap (fold (\<lambda>h m. case h of None \<Rightarrow> m | Some rh \<Rightarrow> AList.update (rh_key rh) (rh_value rh) m) hs []) []"

definition kafkaRunName :: "messageHandler \<Rightarrow> consumerMessage \<Rightarrow> string" where
  "kafkaRunName h m = mh_triggerName h @ ''-p'' @ showInt (km_partition m) @ ''-offset-'' @ showInt (km_offset m)"

text \<open>\<open>traceparent\<close> is what the tracing library injects for the span of the message, empty for none.\<close>

definition kafkaRun :: "messageHandler \<Rightarrow> string \<Rightarrow> consumerMessage \<Rightarrow> flowRun" where
  "kafkaRun h traceparent m =
     (case (encodeKey (km_key m), encodeBytes (km_value m)) of
        ((key, keyEncoding), (body, bodyEncoding)) \<Rightarrow>
          messageRun h (kafkaRunName h m) ''kafka'' (if traceparent = [] then [] else [(''kubezap.io/traceparent'', traceparent)])
            (emptyTriggerData\<lparr>td_body := body, td_bodyEncoding := bodyEncoding, td_headers := kafkaHeaders (km_headers m),
               td_topic := km_topic m, td_partition := km_partition m, td_offset := km_offset m, td_key := key,
               td_keyEncoding := keyEncoding\<rparr>))"

definition handleKafka :: "messageHandler \<Rightarrow> string \<Rightarrow> apiOutcome \<Rightarrow> consumerMessage \<Rightarrow> flowRun list \<Rightarrow> apiError option \<times> flowRun list" where
  "handleKafka h traceparent outcome m runs = createOnce outcome (kafkaRun h traceparent m) runs"

text \<open>
  The first \<^verbatim>\<open>traceparent\<close> header, empty for none; the client library hands over no nil header here. \<open>span\<close> is what
  the tracing library injects for a span whose parent is that header.
\<close>

fun parentHeader :: "recordHeader option list \<Rightarrow> string" where
  "parentHeader [] = []"
| "parentHeader (None # hs) = parentHeader hs"
| "parentHeader (Some rh # hs) = (if rh_key rh = ''traceparent'' then rh_value rh else parentHeader hs)"

type_synonym claimed = "consumerMessage \<times> (string \<Rightarrow> string) \<times> apiOutcome"

definition claimedRun :: "messageHandler \<Rightarrow> claimed \<Rightarrow> flowRun" where
  "claimedRun h = (\<lambda>(m, span, outcome). kafkaRun h (span (parentHeader (km_headers m))) m)"

definition handleClaimed :: "messageHandler \<Rightarrow> claimed \<Rightarrow> flowRun list \<Rightarrow> apiError option \<times> flowRun list" where
  "handleClaimed h = (\<lambda>(m, span, outcome). handleKafka h (span (parentHeader (km_headers m))) outcome m)"

text \<open>\<^verbatim>\<open>ConsumeClaim\<close> marks every message, after logging the error of a failed one.\<close>

record claimState =
  cl_runs :: "flowRun list"
  cl_marked :: "consumerMessage list"

fun consumeClaim :: "messageHandler \<Rightarrow> claimed list \<Rightarrow> claimState \<Rightarrow> claimState" where
  "consumeClaim h [] st = st"
| "consumeClaim h (c # cs) st =
     consumeClaim h cs (st\<lparr>cl_runs := snd (handleClaimed h c (cl_runs st)), cl_marked := cl_marked st @ [fst c]\<rparr>)"

text \<open>
  The loop of the subscription: \<^verbatim>\<open>Consume\<close> runs one session of the consumer group, and the loop waits 5 seconds before the
  next one when it failed. A session is the sequence of messages handled in it, over all its claims, with its error. The
  list ends where the context of the subscription is cancelled.
\<close>

fun consumeLoop :: "messageHandler \<Rightarrow> (claimed list \<times> msg option) list \<Rightarrow> claimState \<Rightarrow> duration list \<times> claimState" where
  "consumeLoop h [] st = ([], st)"
| "consumeLoop h ((cs, err) # sessions) st =
     (case consumeLoop h sessions (consumeClaim h cs st) of
        (waits, st') \<Rightarrow> ((if err = None then waits else 5 * 1000000000 # waits), st'))"

section \<open>AMQP 0-9-1\<close>

record delivery =
  dv_tag :: nat
  dv_routingKey :: string
  dv_headers :: smap
  dv_body :: string

definition deliveryRunName :: "messageHandler \<Rightarrow> delivery \<Rightarrow> string" where
  "deliveryRunName h d = mh_triggerName h @ ''-dt'' @ showNat (dv_tag d)"

definition deliveryRun :: "messageHandler \<Rightarrow> delivery \<Rightarrow> flowRun" where
  "deliveryRun h d =
     messageRun h (deliveryRunName h d) ''amqp'' []
       (emptyTriggerData\<lparr>td_body := dv_body d, td_headers := StringMap (dv_headers d) [], td_topic := dv_routingKey d\<rparr>)"

text \<open>What the handler tells the broker about a delivery tag; \<^verbatim>\<open>Nack\<close> asks for a redelivery.\<close>

datatype settlement = Ack nat | Nack nat

definition handleDelivery ::
  "messageHandler \<Rightarrow> apiOutcome \<Rightarrow> msg option \<Rightarrow> delivery \<Rightarrow> flowRun list \<Rightarrow> (msg option \<times> settlement list) \<times> flowRun list" where
  "handleDelivery h outcome ackErr d runs =
     (case createOnce outcome (deliveryRun h d) runs of
        (Some e, runs') \<Rightarrow> ((Some (apiErrorMsg e), []), runs')
      | (None, runs') \<Rightarrow> ((ackErr, [Ack (dv_tag d)]), runs'))"

datatype channelEvent = Delivered delivery apiOutcome "msg option" | ChannelClosed | ContextDone

record channelState =
  ch_runs :: "flowRun list"
  ch_settled :: "settlement list"

fun run091 :: "messageHandler \<Rightarrow> channelEvent list \<Rightarrow> channelState \<Rightarrow> channelState" where
  "run091 h [] st = st"
| "run091 h (ContextDone # evs) st = st"
| "run091 h (ChannelClosed # evs) st = st"
| "run091 h (Delivered d outcome ackErr # evs) st =
     (case handleDelivery h outcome ackErr d (ch_runs st) of
        ((e, calls), runs') \<Rightarrow>
          run091 h evs
            \<lparr>ch_runs = runs', ch_settled = ch_settled st @ calls @ (if e = None then [] else [Nack (dv_tag d)])\<rparr>)"

section \<open>AMQP 1.0\<close>

text \<open>\<open>m1_messageID\<close> is the printed message id, \<^const>\<open>None\<close> without properties or id.\<close>

record message10 =
  m1_messageID :: "string option"
  m1_data :: string
  m1_applicationProperties :: smap

definition message10RunName :: "messageHandler \<Rightarrow> time \<Rightarrow> message10 \<Rightarrow> string" where
  "message10RunName h now m =
     (case m1_messageID m of
        Some msgID \<Rightarrow> mh_triggerName h @ ''-'' @ msgID
      | None \<Rightarrow> mh_triggerName h @ ''-'' @ showInt now)"

definition message10Run :: "messageHandler \<Rightarrow> time \<Rightarrow> message10 \<Rightarrow> flowRun" where
  "message10Run h now m =
     messageRun h (message10RunName h now m) ''amqp'' []
       (emptyTriggerData\<lparr>td_body := m1_data m, td_headers := StringMap (m1_applicationProperties m) []\<rparr>)"

definition handleMessage10 :: "messageHandler \<Rightarrow> time \<Rightarrow> apiOutcome \<Rightarrow> message10 \<Rightarrow> flowRun list \<Rightarrow> apiError option \<times> flowRun list" where
  "handleMessage10 h now outcome m runs = createOnce outcome (message10Run h now m) runs"

datatype answer10 = AcceptMessage message10 | ReleaseMessage message10

datatype receiveEvent = Received message10 time apiOutcome | ReceiveError

record receiverState =
  rc_runs :: "flowRun list"
  rc_answers :: "answer10 list"

fun run10 :: "messageHandler \<Rightarrow> receiveEvent list \<Rightarrow> receiverState \<Rightarrow> receiverState" where
  "run10 h [] st = st"
| "run10 h (ReceiveError # evs) st = st"
| "run10 h (Received m now outcome # evs) st =
     (case handleMessage10 h now outcome m (rc_runs st) of
        (e, runs') \<Rightarrow>
          run10 h evs \<lparr>rc_runs = runs', rc_answers = rc_answers st @ [if e = None then AcceptMessage m else ReleaseMessage m]\<rparr>)"

section \<open>NATS\<close>

text \<open>\<^verbatim>\<open>msg.Metadata()\<close> of a JetStream message: the sequence in the stream and the sequence of the delivery to the consumer.\<close>

record natsMessage =
  nm_subject :: string
  nm_header :: httpHeader
  nm_data :: string
  nm_metadata :: "msg + nat \<times> nat"

text \<open>\<open>suffix\<close> is the printed form of the four random bytes.\<close>

definition natsRunName :: "messageHandler \<Rightarrow> bool \<Rightarrow> time \<Rightarrow> string \<Rightarrow> natsMessage \<Rightarrow> string result" where
  "natsRunName h isJetStream now suffix m =
     (if isJetStream then
        (case nm_metadata m of
           Inl e \<Rightarrow> Inl (Fmt ''get JetStream metadata: %w'' [e])
         | Inr (_, consumer) \<Rightarrow> Inr (mh_triggerName h @ ''-seq-'' @ showNat consumer))
      else Inr (mh_triggerName h @ ''-'' @ showInt now @ ''-'' @ suffix))"

definition natsRun :: "messageHandler \<Rightarrow> string \<Rightarrow> natsMessage \<Rightarrow> flowRun" where
  "natsRun h rawName m =
     messageRun h rawName ''nats'' []
       (emptyTriggerData\<lparr>td_body := nm_data m, td_topic := nm_subject m, td_headers := Headers (nm_header m) []\<rparr>)"

definition handleNats ::
  "messageHandler \<Rightarrow> bool \<Rightarrow> time \<Rightarrow> string \<Rightarrow> apiOutcome \<Rightarrow> natsMessage \<Rightarrow> flowRun list \<Rightarrow> msg option \<times> flowRun list" where
  "handleNats h isJetStream now suffix outcome m runs =
     (case natsRunName h isJetStream now suffix m of
        Inl e \<Rightarrow> (Some e, runs)
      | Inr rawName \<Rightarrow>
          (case createOnce outcome (natsRun h rawName m) runs of (e, runs') \<Rightarrow> (map_option apiErrorMsg e, runs')))"

datatype natsAnswer = NatsAck natsMessage | NatsNak natsMessage

record natsState =
  ns_runs :: "flowRun list"
  ns_answers :: "natsAnswer list"

definition natsCallback :: "messageHandler \<Rightarrow> bool \<Rightarrow> natsMessage \<times> time \<times> string \<times> apiOutcome \<Rightarrow> natsState \<Rightarrow> natsState" where
  "natsCallback h isJetStream =
     (\<lambda>(m, now, suffix, outcome) st. case handleNats h isJetStream now suffix outcome m (ns_runs st) of
        (e, runs') \<Rightarrow>
          \<lparr>ns_runs = runs',
           ns_answers = ns_answers st @ (if isJetStream then [if e = None then NatsAck m else NatsNak m] else [])\<rparr>)"

section \<open>Names of messages\<close>

lemma digitVal_digitChar: "d < 10 \<Longrightarrow> digitVal (digitChar d) = d"
  by (simp add: digitVal_def digitChar_def)

lemma natOfDigits_showNat: "natOfDigits (showNat n) = n"
proof (induction n rule: showNat.induct)
  case (1 n)
  then show ?case by (subst showNat.simps) (simp add: natOfDigits_def digitVal_digitChar)
qed

lemma showNat_inject [simp]: "showNat a = showNat b \<longleftrightarrow> a = b"
  by (metis natOfDigits_showNat)

lemma showNat_digits: "c \<in> set (showNat n) \<Longrightarrow> byteIn 48 57 c"
proof (induction n rule: showNat.induct)
  case (1 n)
  have d: "byteIn 48 57 (digitChar (n mod 10))" by (simp add: byteIn_def digitChar_def)
  show ?case
  proof (cases "n < 10")
    case True
    with 1(2) d show ?thesis by (simp add: showNat.simps [of n])
  next
    case False
    with 1 d show ?thesis by (auto simp: showNat.simps [of n])
  qed
qed

lemma alphaNumDash_plain:
  assumes "alphaNumDash c"
  shows "lowerChar c = c" "utf8Lead c = Some (0, 0, 0)"
proof -
  have n: "(of_char c :: nat) \<le> 127 \<and> \<not> (65 \<le> (of_char c :: nat) \<and> (of_char c :: nat) \<le> 90)"
  proof (cases "c = CHR ''-''")
    case False
    with assms show ?thesis by (simp add: alphaNumDash_def byteIn_def Let_def) linarith
  qed simp
  show "lowerChar c = c" using n by (simp only: lowerChar_def Let_def if_False)
  show "utf8Lead c = Some (0, 0, 0)" using n by (simp add: utf8Lead_def byteIn_def Let_def)
qed

lemma runes_plain: "list_all alphaNumDash s \<Longrightarrow> runes s = map (\<lambda>c. [c]) s"
  by (induction s) (auto simp: alphaNumDash_plain(2))

lemma sanitizeFlowRunName_plain: "list_all alphaNumDash s \<Longrightarrow> sanitizeFlowRunName s = take 253 s"
proof -
  assume s: "list_all alphaNumDash s"
  have "toLower s = s" using s by (simp add: toLower_def list_all_iff alphaNumDash_plain(1) map_idI)
  moreover have "map runNameChar (map (\<lambda>c. [c]) s) = s" using s by (induction s) (auto simp: runNameChar_def)
  ultimately show ?thesis by (simp only: sanitizeFlowRunName_def runes_plain [OF s])
qed

lemma messageRun_key [simp]:
  "fr_name (messageRun h rawName src ann td) = sanitizeFlowRunName rawName"
  "fr_namespace (messageRun h rawName src ann td) = mh_triggerNamespace h"
  by (simp_all add: messageRun_def triggeredRun_def)

lemma messageRun_same:
  "sameRun (messageRun h n src ann td) r \<longleftrightarrow> fr_namespace r = mh_triggerNamespace h \<and> fr_name r = sanitizeFlowRunName n"
  by (auto simp: sameRun_def)

lemma kafkaRun_key [simp]:
  "fr_name (kafkaRun h tp m) = sanitizeFlowRunName (kafkaRunName h m)" "fr_namespace (kafkaRun h tp m) = mh_triggerNamespace h"
  by (simp_all add: kafkaRun_def split: prod.split)

section \<open>Consumers that create once\<close>

text \<open>An API server that reports \<^verbatim>\<open>AlreadyExists\<close> only for a name that is in use.\<close>

definition honest :: "apiOutcome \<Rightarrow> bool" where "honest outcome \<longleftrightarrow> outcome \<noteq> Rejected AlreadyExists"

lemma createOnce_ok:
  "honest outcome \<Longrightarrow> fst (createOnce outcome run runs) = None \<Longrightarrow> list_ex (sameRun run) (snd (createOnce outcome run runs))"
  by (auto simp: honest_def createOnce_def storeRun_def sameRun_def Let_def split: apiOutcome.splits if_splits)

lemma createOnce_store: "snd (createOnce outcome run runs) = runs \<or> snd (createOnce outcome run runs) = runs @ [run]"
  using storeRun_cases [of outcome run runs] by (simp add: createOnce_def case_prod_beta)

lemma createOnce_present: "list_ex (sameRun run) runs \<Longrightarrow> snd (createOnce outcome run runs) = runs"
  using storeRun_in_use [of run runs outcome] by (simp add: createOnce_def case_prod_beta)

lemma createOnce_accepted: "fst (createOnce Accepted run runs) = None"
  by (simp add: createOnce_def storeRun_def Let_def)

lemma createOnce_fresh: "\<not> list_ex (sameRun run) runs \<Longrightarrow> createOnce Accepted run runs = (None, runs @ [run])"
  by (simp add: createOnce_def storeRun_accepted)

text \<open>
  What the gateways promise about a message and the FlowRun it stands for: a message handled without an error has its
  FlowRun, handling adds at most that one, and a message whose FlowRun is there adds nothing.
\<close>

locale dedup_consumer =
  fixes handle :: "'x \<Rightarrow> flowRun list \<Rightarrow> 'e option \<times> flowRun list"
    and run :: "'x \<Rightarrow> flowRun"
    and answered :: "'x \<Rightarrow> bool"
  assumes handled: "answered x \<Longrightarrow> fst (handle x runs) = None \<Longrightarrow> list_ex (sameRun (run x)) (snd (handle x runs))"
    and stored: "snd (handle x runs) = runs \<or> snd (handle x runs) = runs @ [run x]"
    and known: "list_ex (sameRun (run x)) runs \<Longrightarrow> snd (handle x runs) = runs"
begin

definition consume :: "'x list \<Rightarrow> flowRun list \<Rightarrow> flowRun list" where
  "consume xs runs = fold (\<lambda>x rs. snd (handle x rs)) xs runs"

lemma consume_simps [simp]: "consume [] runs = runs" "consume (x # xs) runs = consume xs (snd (handle x runs))"
  by (simp_all add: consume_def)

lemma consume_append [simp]: "consume (xs @ ys) runs = consume ys (consume xs runs)"
  by (simp add: consume_def)

lemma consume_extends: "\<exists>ys. consume xs runs = runs @ ys \<and> set ys \<subseteq> run ` set xs"
proof (induction xs arbitrary: runs)
  case (Cons x xs)
  obtain ys where ys: "consume xs (snd (handle x runs)) = snd (handle x runs) @ ys" "set ys \<subseteq> run ` set xs" using Cons by blast
  from stored [of x runs] ys show ?case by auto
qed simp

lemma consume_keeps: "list_ex P runs \<Longrightarrow> list_ex P (consume xs runs)"
  using consume_extends [of xs runs] by auto

lemma consume_known: "(\<And>x. x \<in> set xs \<Longrightarrow> list_ex (sameRun (run x)) runs) \<Longrightarrow> consume xs runs = runs"
  by (induction xs arbitrary: runs) (auto simp: known)

lemma consume_distinct: "distinctRuns runs \<Longrightarrow> distinctRuns (consume xs runs)"
proof (induction xs arbitrary: runs)
  case (Cons x xs)
  have "distinctRuns (snd (handle x runs))"
  proof (cases "list_ex (sameRun (run x)) runs")
    case True
    with Cons.prems show ?thesis by (simp add: known)
  next
    case False
    with stored [of x runs] Cons.prems show ?thesis by (auto simp: distinctRuns_def list_ex_iff sameRun_def)
  qed
  then show ?case using Cons.IH by simp
qed simp

lemma consume_all:
  assumes "\<And>x rs. x \<in> set xs \<Longrightarrow> answered x \<and> fst (handle x rs) = None"
  shows "x \<in> set xs \<Longrightarrow> list_ex (sameRun (run x)) (consume xs runs)"
  using assms
proof (induction xs arbitrary: runs)
  case (Cons y xs)
  show ?case
  proof (cases "x = y")
    case True
    have "list_ex (sameRun (run y)) (snd (handle y runs))" by (rule handled) (simp_all add: Cons.prems(2))
    then show ?thesis using True consume_keeps by simp
  next
    case False
    with Cons show ?thesis by simp
  qed
qed simp

text \<open>Messages that were handled are handled again without effect, whatever the answers are the second time.\<close>

lemma consume_again:
  assumes "\<And>x rs. x \<in> set xs \<Longrightarrow> answered x \<and> fst (handle x rs) = None"
    and "\<And>y. y \<in> set ys \<Longrightarrow> \<exists>x\<in>set xs. sameRun (run y) = sameRun (run x)"
  shows "consume ys (consume xs runs) = consume xs runs"
proof (rule consume_known)
  fix y
  assume "y \<in> set ys"
  then obtain x where "x \<in> set xs" "sameRun (run y) = sameRun (run x)" using assms(2) by blast
  then show "list_ex (sameRun (run y)) (consume xs runs)" using consume_all [OF assms(1)] by simp
qed

end

lemma handleClaimed_create: "handleClaimed h c runs = createOnce (snd (snd c)) (claimedRun h c) runs"
  by (simp add: handleClaimed_def handleKafka_def claimedRun_def case_prod_beta)

interpretation kafka: dedup_consumer "handleClaimed h" "claimedRun h" "\<lambda>c. honest (snd (snd c))" for h
  by unfold_locales (simp_all add: handleClaimed_create createOnce_ok createOnce_store createOnce_present)

definition deliver091 :: "messageHandler \<Rightarrow> delivery \<times> apiOutcome \<times> msg option \<Rightarrow> flowRun list \<Rightarrow> msg option \<times> flowRun list" where
  "deliver091 h = (\<lambda>(d, outcome, ackErr) runs. case handleDelivery h outcome ackErr d runs of ((e, _), runs') \<Rightarrow> (e, runs'))"

lemma deliver091_create:
  "snd (deliver091 h (d, outcome, ackErr) runs) = snd (createOnce outcome (deliveryRun h d) runs)"
  "fst (deliver091 h (d, outcome, ackErr) runs) = None \<Longrightarrow> fst (createOnce outcome (deliveryRun h d) runs) = None"
  by (cases "createOnce outcome (deliveryRun h d) runs"; cases "fst (createOnce outcome (deliveryRun h d) runs)";
      simp add: deliver091_def handleDelivery_def)+

interpretation amqp091: dedup_consumer
  "deliver091 h" "\<lambda>(d, outcome, ackErr). deliveryRun h d" "\<lambda>(d, outcome, ackErr). honest outcome" for h
  by unfold_locales (simp_all only: split_paired_all prod.case deliver091_create createOnce_ok createOnce_store createOnce_present)

interpretation amqp10: dedup_consumer
  "\<lambda>(m, now, outcome). handleMessage10 h now outcome m" "\<lambda>(m, now, outcome). message10Run h now m" "\<lambda>(m, now, outcome). honest outcome"
  for h
  by unfold_locales (simp_all add: handleMessage10_def case_prod_beta createOnce_ok createOnce_store createOnce_present)

definition deliverNats :: "messageHandler \<Rightarrow> bool \<Rightarrow> natsMessage \<times> time \<times> string \<times> apiOutcome \<Rightarrow> flowRun list \<Rightarrow> msg option \<times> flowRun list" where
  "deliverNats h isJetStream = (\<lambda>(m, now, suffix, outcome). handleNats h isJetStream now suffix outcome m)"

definition natsRunOf :: "messageHandler \<Rightarrow> bool \<Rightarrow> natsMessage \<times> time \<times> string \<times> apiOutcome \<Rightarrow> flowRun" where
  "natsRunOf h isJetStream =
     (\<lambda>(m, now, suffix, outcome). natsRun h (case natsRunName h isJetStream now suffix m of Inl _ \<Rightarrow> [] | Inr n \<Rightarrow> n) m)"

lemma deliverNats_create:
  "snd (deliverNats h isJetStream x runs) = runs \<or>
   snd (deliverNats h isJetStream x runs) = snd (createOnce (snd (snd (snd x))) (natsRunOf h isJetStream x) runs)"
  "fst (deliverNats h isJetStream x runs) = None \<Longrightarrow>
   fst (createOnce (snd (snd (snd x))) (natsRunOf h isJetStream x) runs) = None \<and>
   snd (deliverNats h isJetStream x runs) = snd (createOnce (snd (snd (snd x))) (natsRunOf h isJetStream x) runs)"
  by (cases "natsRunName h isJetStream (fst (snd x)) (fst (snd (snd x))) (fst x)";
      simp add: deliverNats_def handleNats_def natsRunOf_def case_prod_beta)+

interpretation nats: dedup_consumer "deliverNats h isJetStream" "natsRunOf h isJetStream" "\<lambda>(m, now, suffix, outcome). honest outcome"
  for h isJetStream
proof (unfold_locales, goal_cases)
  case (1 x runs)
  then show ?case using deliverNats_create(2) [of h isJetStream x runs] createOnce_ok [of "snd (snd (snd x))" "natsRunOf h isJetStream x" runs]
    by (simp add: case_prod_beta)
next
  case (2 x runs)
  then show ?case using deliverNats_create(1) [of h isJetStream x runs] createOnce_store [of "snd (snd (snd x))" "natsRunOf h isJetStream x" runs]
    by presburger
next
  case (3 x runs)
  then show ?case using deliverNats_create(1) [of h isJetStream x runs] createOnce_present [of "natsRunOf h isJetStream x" runs "snd (snd (snd x))"]
    by presburger
qed

section \<open>Kafka: redelivery is harmless, a failed message is lost\<close>

lemma consumeClaim_marked: "cl_marked (consumeClaim h ms st) = cl_marked st @ map fst ms"
  by (induction h ms st rule: consumeClaim.induct) simp_all

lemma consumeClaim_runs: "cl_runs (consumeClaim h ms st) = kafka.consume h ms (cl_runs st)"
  by (induction h ms st rule: consumeClaim.induct) simp_all

lemma consumeClaim_append: "consumeClaim h (cs @ cs') st = consumeClaim h cs' (consumeClaim h cs st)"
  by (induction cs arbitrary: st) simp_all

text \<open>Where one session ends and the next begins makes no difference to the FlowRuns and the marks.\<close>

lemma consumeLoop_claims: "snd (consumeLoop h sessions st) = consumeClaim h (concat (map fst sessions)) st"
  by (induction sessions arbitrary: st) (auto simp: consumeClaim_append case_prod_beta)

lemma claimedRun_key [simp]:
  "fr_name (claimedRun h c) = sanitizeFlowRunName (kafkaRunName h (fst c))" "fr_namespace (claimedRun h c) = mh_triggerNamespace h"
  by (simp_all add: claimedRun_def case_prod_beta)

lemma claimedRun_same: "fst c = fst c' \<Longrightarrow> sameRun (claimedRun h c) = sameRun (claimedRun h c')"
  by (rule ext) (simp add: sameRun_def)


text \<open>A Kafka message whose FlowRun could not be created is lost: it is marked as consumed all the same, so the
  broker does not deliver it again, and no FlowRun has its name.\<close>

theorem kafka_failed_message_lost:
  assumes "c \<in> set cs" and "snd (snd c) = Rejected e"
    and "\<not> list_ex (sameRun (claimedRun h c)) (cl_runs st)"
    and "\<And>d. d \<in> set cs \<Longrightarrow> d \<noteq> c \<Longrightarrow> sanitizeFlowRunName (kafkaRunName h (fst d)) \<noteq> sanitizeFlowRunName (kafkaRunName h (fst c))"
  shows "fst c \<in> set (cl_marked (consumeClaim h cs st)) \<and> \<not> list_ex (sameRun (claimedRun h c)) (cl_runs (consumeClaim h cs st))"
proof -
  have "\<not> list_ex (sameRun (claimedRun h c)) (kafka.consume h ds runs)"
    if "set ds \<subseteq> set cs" "\<not> list_ex (sameRun (claimedRun h c)) runs" for ds runs
    using that
  proof (induction ds arbitrary: runs)
    case (Cons d ds)
    have "\<not> list_ex (sameRun (claimedRun h c)) (snd (handleClaimed h d runs))"
    proof (cases "d = c")
      case True
      then show ?thesis using Cons.prems(2) assms(2) by (simp add: handleClaimed_create createOnce_def storeRun_def Let_def)
    next
      case False
      then have "\<not> sameRun (claimedRun h c) (claimedRun h d)" using Cons.prems(1) assms(4) [of d] by (auto simp: sameRun_def)
      with kafka.stored [of h d runs] Cons.prems(2) show ?thesis by auto
    qed
    with Cons show ?case by simp
  qed simp
  with assms(1,3) show ?thesis by (simp add: consumeClaim_marked consumeClaim_runs)
qed

text \<open>C0: What a Kafka handler stores decodes to what it received: payload and key, whatever their bytes, with the key
  absent exactly when the record has none.\<close>

definition decodeStored :: "string \<Rightarrow> string \<Rightarrow> string option" where
  "decodeStored encoding s = (if encoding = ''base64'' then base64Decode s else Some s)"

theorem kafka_payload_roundtrip:
  "\<exists>td. frs_triggerData (fr_spec (kafkaRun h tp m)) = Some td \<and> decodeStored (td_bodyEncoding td) (td_body td) = Some (km_value m) \<and>
    (if td_keyEncoding td = [] then None else decodeStored (td_keyEncoding td) (td_key td)) = km_key m"
  by (cases "km_key m")
    (simp_all add: kafkaRun_def messageRun_def triggeredRun_def encodeKey_def encodeBytes_def decodeStored_def base64Decode_Encode)

section \<open>AMQP and JetStream: an acknowledged message has a FlowRun\<close>

lemma handleDelivery_store:
  "snd (handleDelivery h outcome ackErr d runs) = snd (createOnce outcome (deliveryRun h d) runs)"
  "Ack t \<in> set (snd (fst (handleDelivery h outcome ackErr d runs))) \<longleftrightarrow> fst (createOnce outcome (deliveryRun h d) runs) = None \<and> dv_tag d = t"
  by (cases "createOnce outcome (deliveryRun h d) runs"; cases "fst (createOnce outcome (deliveryRun h d) runs)";
      auto simp: handleDelivery_def)+

definition deliveryStep :: "messageHandler \<Rightarrow> delivery \<Rightarrow> apiOutcome \<Rightarrow> msg option \<Rightarrow> channelState \<Rightarrow> channelState" where
  "deliveryStep h d outcome ackErr st =
     \<lparr>ch_runs = snd (createOnce outcome (deliveryRun h d) (ch_runs st)),
      ch_settled = ch_settled st @ snd (fst (handleDelivery h outcome ackErr d (ch_runs st))) @
        (if fst (fst (handleDelivery h outcome ackErr d (ch_runs st))) = None then [] else [Nack (dv_tag d)])\<rparr>"

lemma run091_step: "run091 h (Delivered d outcome ackErr # evs) st = run091 h evs (deliveryStep h d outcome ackErr st)"
  by (simp add: deliveryStep_def case_prod_beta handleDelivery_store)

lemma run091_extends: "\<exists>rs. ch_runs (run091 h evs st) = ch_runs st @ rs"
proof (induction evs arbitrary: st)
  case (Cons ev evs)
  show ?case
  proof (cases ev)
    case (Delivered d outcome ackErr)
    obtain rs where "ch_runs (run091 h evs (deliveryStep h d outcome ackErr st)) = ch_runs (deliveryStep h d outcome ackErr st) @ rs"
      using Cons.IH by blast
    moreover have "ch_runs (deliveryStep h d outcome ackErr st) = ch_runs st \<or>
        ch_runs (deliveryStep h d outcome ackErr st) = ch_runs st @ [deliveryRun h d]"
      by (simp add: deliveryStep_def createOnce_store)
    ultimately show ?thesis by (auto simp: Delivered run091_step simp del: run091.simps)
  qed simp_all
qed simp

lemma run091_acked:
  assumes "Ack t \<in> set (ch_settled (run091 h evs st))" "Ack t \<notin> set (ch_settled st)"
    "\<And>d outcome ackErr. Delivered d outcome ackErr \<in> set evs \<Longrightarrow> honest outcome"
  shows "\<exists>d outcome ackErr. Delivered d outcome ackErr \<in> set evs \<and> dv_tag d = t \<and> list_ex (sameRun (deliveryRun h d)) (ch_runs (run091 h evs st))"
  using assms
proof (induction evs arbitrary: st)
  case (Cons ev evs)
  show ?case
  proof (cases ev)
    case (Delivered d outcome ackErr)
    let ?st = "deliveryStep h d outcome ackErr st"
    have run: "run091 h (ev # evs) st = run091 h evs ?st" by (simp only: Delivered run091_step)
    show ?thesis
    proof (cases "Ack t \<in> set (ch_settled ?st)")
      case True
      then have "Ack t \<in> set (snd (fst (handleDelivery h outcome ackErr d (ch_runs st))))"
        using Cons.prems(2) by (auto simp: deliveryStep_def split: if_splits)
      then have "dv_tag d = t" "list_ex (sameRun (deliveryRun h d)) (ch_runs ?st)"
        using createOnce_ok Cons.prems(3) [of d outcome ackErr] by (simp_all add: handleDelivery_store deliveryStep_def Delivered)
      moreover obtain rs where "ch_runs (run091 h evs ?st) = ch_runs ?st @ rs" using run091_extends by blast
      ultimately have "list_ex (sameRun (deliveryRun h d)) (ch_runs (run091 h (ev # evs) st))" unfolding run by simp
      then show ?thesis using \<open>dv_tag d = t\<close> Delivered by (intro exI [of _ d] exI [of _ outcome] exI [of _ ackErr]) simp
    next
      case False
      have "\<exists>d outcome ackErr. Delivered d outcome ackErr \<in> set evs \<and> dv_tag d = t \<and>
          list_ex (sameRun (deliveryRun h d)) (ch_runs (run091 h evs ?st))"
        by (rule Cons.IH) (use Cons.prems False run in auto)
      then show ?thesis unfolding run by auto
    qed
  qed (use Cons.prems in auto)
qed simp

lemma run091_settles:
  assumes "set evs \<inter> {ChannelClosed, ContextDone} = {}" "Delivered d outcome ackErr \<in> set evs"
  shows "Ack (dv_tag d) \<in> set (ch_settled (run091 h evs st)) \<or> Nack (dv_tag d) \<in> set (ch_settled (run091 h evs st))"
  using assms
proof (induction evs arbitrary: st)
  case (Cons ev evs)
  obtain d' outcome' ackErr' where ev: "ev = Delivered d' outcome' ackErr'" using Cons.prems(1) by (cases ev) auto
  have keeps: "set (ch_settled st') \<subseteq> set (ch_settled (run091 h evs st'))" for st'
  proof (induction evs arbitrary: st')
    case (Cons e es)
    then show ?case
    proof (cases e)
      case (Delivered d2 o2 a2)
      have "set (ch_settled st') \<subseteq> set (ch_settled (deliveryStep h d2 o2 a2 st'))" by (simp add: deliveryStep_def)
      then show ?thesis using Cons.IH [of "deliveryStep h d2 o2 a2 st'"] unfolding Delivered run091_step by (rule order_trans)
    qed simp_all
  qed simp
  show ?case
  proof (cases "ev = Delivered d outcome ackErr")
    case True
    have "Ack (dv_tag d) \<in> set (ch_settled (deliveryStep h d outcome ackErr st)) \<or>
        Nack (dv_tag d) \<in> set (ch_settled (deliveryStep h d outcome ackErr st))"
      by (cases "createOnce outcome (deliveryRun h d) (ch_runs st)"; cases "fst (createOnce outcome (deliveryRun h d) (ch_runs st))")
        (simp_all add: deliveryStep_def handleDelivery_def)
    then show ?thesis using keeps [of "deliveryStep h d outcome ackErr st"] unfolding True run091_step by blast
  next
    case False
    then have "Delivered d outcome ackErr \<in> set evs" "set evs \<inter> {ChannelClosed, ContextDone} = {}" using Cons.prems by auto
    then show ?thesis using Cons.IH unfolding ev run091_step by blast
  qed
qed simp

lemma run10_extends: "\<exists>rs. rc_runs (run10 h evs st) = rc_runs st @ rs"
proof (induction evs arbitrary: st)
  case (Cons ev evs)
  show ?case
  proof (cases ev)
    case (Received m now outcome)
    obtain e runs' where c: "createOnce outcome (message10Run h now m) (rc_runs st) = (e, runs')" by fastforce
    moreover have "\<exists>rs. runs' = rc_runs st @ rs" using createOnce_store [of outcome "message10Run h now m" "rc_runs st"] c by auto
    ultimately show ?thesis
      using Cons.IH [of "\<lparr>rc_runs = runs', rc_answers = rc_answers st @ [if e = None then AcceptMessage m else ReleaseMessage m]\<rparr>"]
      by (auto simp: Received handleMessage10_def)
  qed simp
qed simp

lemma run10_accepted:
  assumes "AcceptMessage m \<in> set (rc_answers (run10 h evs st))" "AcceptMessage m \<notin> set (rc_answers st)"
    "\<And>m now outcome. Received m now outcome \<in> set evs \<Longrightarrow> honest outcome"
  shows "\<exists>now outcome. Received m now outcome \<in> set evs \<and> list_ex (sameRun (message10Run h now m)) (rc_runs (run10 h evs st))"
  using assms
proof (induction evs arbitrary: st)
  case (Cons ev evs)
  show ?case
  proof (cases ev)
    case (Received m' now outcome)
    obtain e runs' where c: "createOnce outcome (message10Run h now m') (rc_runs st) = (e, runs')" by fastforce
    let ?st = "\<lparr>rc_runs = runs', rc_answers = rc_answers st @ [if e = None then AcceptMessage m' else ReleaseMessage m']\<rparr>"
    have run: "run10 h (ev # evs) st = run10 h evs ?st" by (simp add: Received handleMessage10_def c)
    show ?thesis
    proof (cases "m = m' \<and> e = None")
      case True
      then have "list_ex (sameRun (message10Run h now m)) runs'"
        using createOnce_ok [of outcome "message10Run h now m'" "rc_runs st"] c Cons.prems(3) [of m' now outcome] by (simp add: Received)
      moreover obtain rs where "rc_runs (run10 h evs ?st) = runs' @ rs" using run10_extends [of h evs ?st] by auto
      ultimately have "list_ex (sameRun (message10Run h now m)) (rc_runs (run10 h (ev # evs) st))" unfolding run by simp
      then show ?thesis using True Received by (intro exI [of _ now] exI [of _ outcome]) simp
    next
      case False
      have "\<exists>now outcome. Received m now outcome \<in> set evs \<and> list_ex (sameRun (message10Run h now m)) (rc_runs (run10 h evs ?st))"
        by (rule Cons.IH) (use Cons.prems False run in auto)
      then show ?thesis unfolding run by auto
    qed
  qed (use Cons.prems in simp)
qed simp

lemma natsCallback_step:
  "ns_runs (natsCallback h js x st) = snd (deliverNats h js x (ns_runs st))"
  "ns_answers (natsCallback h js x st) =
     ns_answers st @ (if js then [if fst (deliverNats h js x (ns_runs st)) = None then NatsAck (fst x) else NatsNak (fst x)] else [])"
  by (simp_all add: natsCallback_def deliverNats_def case_prod_beta)

lemma natsCallbacks_runs: "ns_runs (fold (natsCallback h js) xs st) = nats.consume h js xs (ns_runs st)"
  by (induction xs arbitrary: st) (simp_all add: natsCallback_step)

lemma natsCallbacks_acked:
  assumes "NatsAck m \<in> set (ns_answers (fold (natsCallback h js) xs st))" "NatsAck m \<notin> set (ns_answers st)"
    "\<And>x. x \<in> set xs \<Longrightarrow> honest (snd (snd (snd x)))"
  shows "\<exists>x\<in>set xs. fst x = m \<and> list_ex (sameRun (natsRunOf h js x)) (ns_runs (fold (natsCallback h js) xs st))"
  using assms
proof (induction xs arbitrary: st)
  case (Cons x xs)
  let ?st = "natsCallback h js x st"
  show ?case
  proof (cases "NatsAck m \<in> set (ns_answers ?st)")
    case True
    then have "fst x = m" "fst (deliverNats h js x (ns_runs st)) = None"
      using Cons.prems(2) by (auto simp: natsCallback_step split: if_splits)
    moreover have "list_ex (sameRun (natsRunOf h js x)) (ns_runs ?st)"
      using calculation(2) Cons.prems(3) [of x] by (simp add: natsCallback_step nats.handled case_prod_beta)
    then have "list_ex (sameRun (natsRunOf h js x)) (ns_runs (fold (natsCallback h js) (x # xs) st))"
      by (simp add: natsCallbacks_runs nats.consume_keeps natsCallback_step)
    ultimately show ?thesis by (intro bexI [of _ x]) simp_all
  next
    case False
    with Cons.prems have "\<exists>x\<in>set xs. fst x = m \<and> list_ex (sameRun (natsRunOf h js x)) (ns_runs (fold (natsCallback h js) xs ?st))"
      by (intro Cons.IH) auto
    then show ?thesis by simp
  qed
qed simp


section \<open>Names that do not identify the message\<close>

text \<open>
  Delivery tags count from 1 on every channel, and the handler names a FlowRun by the tag alone: after a reconnect the
  names of the first channel come again.
\<close>

lemma deliveryRun_same: "dv_tag d = dv_tag d' \<Longrightarrow> sameRun (deliveryRun h d) = sameRun (deliveryRun h d')"
  by (rule ext) (simp add: sameRun_def deliveryRun_def deliveryRunName_def)

lemma run091_accepting:
  "run091 h (map (\<lambda>d. Delivered d Accepted None) ds) st =
     \<lparr>ch_runs = amqp091.consume h (map (\<lambda>d. (d, Accepted, None)) ds) (ch_runs st),
      ch_settled = ch_settled st @ map (\<lambda>d. Ack (dv_tag d)) ds\<rparr>"
proof (induction ds arbitrary: st)
  case (Cons d ds)
  have "deliveryStep h d Accepted None st =
      \<lparr>ch_runs = snd (deliver091 h (d, Accepted, None) (ch_runs st)), ch_settled = ch_settled st @ [Ack (dv_tag d)]\<rparr>"
    using createOnce_accepted [of "deliveryRun h d" "ch_runs st"]
    by (cases "createOnce Accepted (deliveryRun h d) (ch_runs st)") (simp add: deliveryStep_def handleDelivery_def deliver091_create(1))
  with Cons show ?case by (simp only: list.map run091_step) simp
qed simp

lemma run091_second_channel:
  assumes "map dv_tag ds = [1..<Suc n]" and "map dv_tag ds' = [1..<Suc k]" and "k \<le> n"
    and "st1 = run091 h (map (\<lambda>d. Delivered d Accepted None) ds) st"
    and "st2 = run091 h (map (\<lambda>d. Delivered d Accepted None) ds') st1"
  shows "ch_runs st2 = ch_runs st1 \<and> ch_settled st2 = ch_settled st1 @ map Ack [1..<Suc k]"
proof -
  have "amqp091.consume h (map (\<lambda>d. (d, Accepted, None)) ds') (ch_runs st1) = ch_runs st1"
    unfolding assms(4) run091_accepting channelState.simps
  proof (rule amqp091.consume_again)
    show "(\<lambda>(d, outcome, ackErr). honest outcome) x \<and> fst (deliver091 h x rs) = None"
      if elem: "x \<in> set (map (\<lambda>d. (d, Accepted, None)) ds)" for x rs
    proof -
      obtain d where x: "x = (d, Accepted, None)" using elem by auto
      show ?thesis using createOnce_accepted [of "deliveryRun h d" rs]
        by (cases "createOnce Accepted (deliveryRun h d) rs") (simp add: x deliver091_def handleDelivery_def honest_def)
    qed
    fix y
    assume "y \<in> set (map (\<lambda>d. (d, Accepted, None :: msg option)) ds')"
    then obtain d' where y: "y = (d', Accepted, None)" "d' \<in> set ds'" by auto
    have "dv_tag ` set ds' \<subseteq> dv_tag ` set ds"
      using arg_cong [OF assms(1), of set] arg_cong [OF assms(2), of set] assms(3) by auto
    with y(2) have "dv_tag d' \<in> dv_tag ` set ds" by blast
    then obtain d where "d \<in> set ds" "dv_tag d' = dv_tag d" by auto
    then show "\<exists>x\<in>set (map (\<lambda>d. (d, Accepted, None)) ds).
        sameRun ((\<lambda>(d, outcome, ackErr). deliveryRun h d) y) = sameRun ((\<lambda>(d, outcome, ackErr). deliveryRun h d) x)"
      using deliveryRun_same [of d' d h] by (intro bexI [of _ "(d, Accepted, None)"]) (simp_all add: y)
  qed
  then have "st2 = \<lparr>ch_runs = ch_runs st1, ch_settled = ch_settled st1 @ map Ack (map dv_tag ds')\<rparr>"
    by (simp add: assms(5) run091_accepting comp_def)
  then show ?thesis by (simp add: assms(2))
qed

lemma createOnce_second: "fr_name r \<noteq> fr_name r' \<Longrightarrow> createOnce Accepted r' [r] = (None, [r, r'])"
  using createOnce_fresh [of r' "[r]"] by (simp add: sameRun_def)

text \<open>
  A JetStream server counts deliveries per consumer, so a message that is delivered again comes with another consumer
  sequence.
\<close>

lemma digits_alphaNumDash: "list_all alphaNumDash (showNat n)"
  using showNat_digits by (auto simp: list_all_iff alphaNumDash_def)

lemma natsRunOf_jetStream:
  "nm_metadata m = Inr (s, c) \<Longrightarrow> natsRunOf h True (m, now, suffix, outcome) = natsRun h (mh_triggerName h @ ''-seq-'' @ showNat c) m"
  by (simp add: natsRunOf_def natsRunName_def)

lemma natsCallback_jetStream:
  assumes "nm_metadata m = Inr (s, c)" and "createOnce outcome (natsRun h (mh_triggerName h @ ''-seq-'' @ showNat c) m) (ns_runs st) = (e, runs')"
  shows "natsCallback h True (m, now, suffix, outcome) st =
    \<lparr>ns_runs = runs', ns_answers = ns_answers st @ [if e = None then NatsAck m else NatsNak m]\<rparr>"
proof -
  have "natsRunName h True now suffix m = Inr (mh_triggerName h @ ''-seq-'' @ showNat c)" by (simp add: natsRunName_def assms(1))
  then have "handleNats h True now suffix outcome m (ns_runs st) = (map_option apiErrorMsg e, runs')"
    by (simp only: handleNats_def sum.case assms(2) prod.case)
  then show ?thesis by (simp add: natsCallback_def)
qed

text \<open>A redelivered JetStream message gets a second FlowRun: when the answer to the first Create is lost after the
  FlowRun was stored, the message is delivered again under the next consumer sequence, and the handler stores the same
  body under another name.\<close>

theorem jetstream_redelivery_duplicates:
  assumes "nm_metadata m = Inr (s, c)" and "m' = m\<lparr>nm_metadata := Inr (s, c')\<rparr>" and "c \<noteq> c'"
    and "list_all alphaNumDash (mh_triggerName h)" and "length (mh_triggerName h @ ''-seq-'' @ showNat c) \<le> 253"
    and "length (mh_triggerName h @ ''-seq-'' @ showNat c') \<le> 253" and "e \<noteq> AlreadyExists"
  shows "\<exists>r r'. fold (natsCallback h True) [(m, now, suffix, AnswerLost e), (m', now', suffix', Accepted)] \<lparr>ns_runs = [], ns_answers = []\<rparr> =
      \<lparr>ns_runs = [r, r'], ns_answers = [NatsNak m, NatsAck m']\<rparr> \<and> fr_name r \<noteq> fr_name r' \<and> fr_spec r = fr_spec r'"
proof -
  let ?name = "\<lambda>n. mh_triggerName h @ ''-seq-'' @ showNat n"
  have plain: "list_all alphaNumDash (?name n)" for n
  proof -
    have lit: "list_all alphaNumDash ''-seq-''" by code_simp
    show ?thesis by (simp only: list_all_append assms(4) lit digits_alphaNumDash simp_thms)
  qed
  have names: "sanitizeFlowRunName (?name c) = ?name c" "sanitizeFlowRunName (?name c') = ?name c'"
    using assms(5,6) by (simp_all only: sanitizeFlowRunName_plain [OF plain] take_all)
  let ?r = "natsRun h (?name c) m" and ?r' = "natsRun h (?name c') m"
  have m': "nm_metadata m' = Inr (s, c')" "natsRun h (?name c') m' = ?r'" by (simp_all add: assms(2) natsRun_def)
  have diff: "fr_name ?r \<noteq> fr_name ?r'"
    unfolding natsRun_def messageRun_key names same_append_eq showNat_inject by (rule assms(3))
  have lost: "createOnce (AnswerLost e) r [] = (Some e, [r])" for r using assms(7) by (simp add: createOnce_def storeRun_def Let_def)
  have first: "createOnce (AnswerLost e) ?r [] = (Some e, [?r])" by (rule lost)
  have second: "createOnce Accepted ?r' [?r] = (None, [?r, ?r'])"
    by (rule createOnce_second [OF diff])
  have run: "fold (natsCallback h True) [(m, now, suffix, AnswerLost e), (m', now', suffix', Accepted)] \<lparr>ns_runs = [], ns_answers = []\<rparr> =
      \<lparr>ns_runs = [?r, ?r'], ns_answers = [NatsNak m, NatsAck m']\<rparr>"
    using natsCallback_jetStream [where st = "\<lparr>ns_runs = [], ns_answers = []\<rparr>", OF assms(1), unfolded natsState.simps, OF first]
      natsCallback_jetStream [where h = h and st = "\<lparr>ns_runs = [?r], ns_answers = [NatsNak m]\<rparr>", OF m'(1), unfolded natsState.simps m'(2), OF second]
    by (simp only: fold.simps comp_apply id_apply append_Nil option.distinct if_False if_True append_Cons simp_thms)
  have "fr_spec ?r = fr_spec ?r'" by (simp add: natsRun_def messageRun_def triggeredRun_def)
  with run diff show ?thesis by (intro exI [of _ ?r] exI [of _ ?r'] conjI)
qed

lemma snoc_split_unique: "x \<notin> set ds \<Longrightarrow> x \<notin> set ds' \<Longrightarrow> xs @ x # ds = ys @ x # ds' \<longleftrightarrow> xs = ys \<and> ds = ds'"
  by (auto simp: append_eq_append_conv2 Cons_eq_append_conv append_eq_Cons_conv)

lemma not_in_digits: "\<not> byteIn 48 57 x \<Longrightarrow> x \<notin> set (showNat n)"
  using showNat_digits by blast

lemma kafkaRunName_inject:
  assumes "0 \<le> km_partition m" "0 \<le> km_partition m'" "0 \<le> km_offset m" "0 \<le> km_offset m'"
  shows "kafkaRunName h m = kafkaRunName h' m' \<longleftrightarrow>
    mh_triggerName h = mh_triggerName h' \<and> km_partition m = km_partition m' \<and> km_offset m = km_offset m'"
proof -
  have dash: "CHR ''-'' \<notin> set (showNat n)" and p: "CHR ''p'' \<notin> set (showNat n)" for n
    by (rule not_in_digits; simp add: byteIn_def)+
  have split: "kafkaRunName h m = (mh_triggerName h @ ''-p'' @ showInt (km_partition m) @ ''-offset'') @ CHR ''-'' # showInt (km_offset m)"
    for h m by (simp add: kafkaRunName_def)
  have shown: "showInt (km_partition m) = showNat (nat (km_partition m))" "showInt (km_partition m') = showNat (nat (km_partition m'))"
    "showInt (km_offset m) = showNat (nat (km_offset m))" "showInt (km_offset m') = showNat (nat (km_offset m'))"
    using assms by (simp_all add: showInt_def)
  have "kafkaRunName h m = kafkaRunName h' m' \<longleftrightarrow>
      (mh_triggerName h @ ''-'') @ CHR ''p'' # showNat (nat (km_partition m)) =
      (mh_triggerName h' @ ''-'') @ CHR ''p'' # showNat (nat (km_partition m')) \<and>
      nat (km_offset m) = nat (km_offset m')"
    unfolding split shown by (subst snoc_split_unique [OF dash dash]) simp
  also have "\<dots> \<longleftrightarrow> mh_triggerName h = mh_triggerName h' \<and> nat (km_partition m) = nat (km_partition m') \<and> nat (km_offset m) = nat (km_offset m')"
    by (subst snoc_split_unique [OF p p]) simp
  finally show ?thesis using assms by (simp add: eq_nat_nat_iff)
qed

text \<open>The FlowRun of a Kafka message is named by trigger, partition and offset and by nothing else: as long as the names
  are not truncated, two messages share a FlowRun exactly when these agree, whatever their topics are.\<close>

theorem kafka_name_identifies:
  assumes "0 \<le> km_partition m" "0 \<le> km_partition m'" "0 \<le> km_offset m" "0 \<le> km_offset m'"
    and "list_all alphaNumDash (mh_triggerName h)" "list_all alphaNumDash (mh_triggerName h')"
    and "length (kafkaRunName h m) \<le> 253" "length (kafkaRunName h' m') \<le> 253"
  shows "sameRun (kafkaRun h tp m) (kafkaRun h' tp' m') \<longleftrightarrow>
    mh_triggerNamespace h = mh_triggerNamespace h' \<and> mh_triggerName h = mh_triggerName h' \<and>
    km_partition m = km_partition m' \<and> km_offset m = km_offset m'"
proof -
  have plain: "list_all alphaNumDash (kafkaRunName g x)"
    if "list_all alphaNumDash (mh_triggerName g)" "0 \<le> km_partition x" "0 \<le> km_offset x" for g x
  proof -
    have lit: "list_all alphaNumDash ''-p''" by code_simp
    have lit': "list_all alphaNumDash ''-offset-''" by code_simp
    have "showInt (km_partition x) = showNat (nat (km_partition x))" "showInt (km_offset x) = showNat (nat (km_offset x))"
      using that by (simp_all add: showInt_def)
    then show ?thesis by (simp only: kafkaRunName_def list_all_append that(1) lit lit' digits_alphaNumDash simp_thms)
  qed
  have names: "sanitizeFlowRunName (kafkaRunName h m) = kafkaRunName h m" "sanitizeFlowRunName (kafkaRunName h' m') = kafkaRunName h' m'"
    using sanitizeFlowRunName_plain [OF plain [OF assms(5,1,3)]] sanitizeFlowRunName_plain [OF plain [OF assms(6,2,4)]]
    by (simp_all only: take_all [OF assms(7)] take_all [OF assms(8)])
  show ?thesis unfolding sameRun_def kafkaRun_key names kafkaRunName_inject [OF assms(1-4)] by argo
qed

section \<open>Examples\<close>

definition orders :: messageHandler where
  "orders = \<lparr>mh_triggerName = ''orders'', mh_triggerNamespace = ''shop'', mh_flowRefName = ''ship''\<rparr>"

definition order7 :: consumerMessage where
  "order7 = \<lparr>km_topic = ''orders'', km_partition = 0, km_offset = 7, km_key = None, km_value = ''{}'', km_headers = []\<rparr>"

definition parcel :: "nat \<Rightarrow> delivery" where
  "parcel t = \<lparr>dv_tag = t, dv_routingKey = ''eu'', dv_headers = [], dv_body = ''{}''\<rparr>"

definition natsEvent :: "nat \<Rightarrow> natsMessage" where
  "natsEvent c = \<lparr>nm_subject = ''orders'', nm_header = [], nm_data = ''{}'', nm_metadata = Inr (4, c)\<rparr>"

definition noTrace :: "string \<Rightarrow> string" where "noTrace parent = []"


theorem kafka_failed_message_lost_witness:
  "let st = consumeClaim orders [(order7, noTrace, Rejected Conflict)] \<lparr>cl_runs = [], cl_marked = []\<rparr>
   in order7 \<in> set (cl_marked st) \<and> \<not> list_ex (sameRun (claimedRun orders (order7, noTrace, Rejected Conflict))) (cl_runs st)"
  using kafka_failed_message_lost [of "(order7, noTrace, Rejected Conflict)" "[(order7, noTrace, Rejected Conflict)]" Conflict orders
      "\<lparr>cl_runs = [], cl_marked = []\<rparr>"]
  by (simp add: Let_def del: consumeClaim.simps)


theorem jetstream_redelivery_duplicates_witness:
  "\<exists>r r'. fold (natsCallback orders True) [(natsEvent 1, 0, [], AnswerLost (ApiFailure (Txt ''timeout''))), (natsEvent 2, 0, [], Accepted)]
      \<lparr>ns_runs = [], ns_answers = []\<rparr> = \<lparr>ns_runs = [r, r'], ns_answers = [NatsNak (natsEvent 1), NatsAck (natsEvent 2)]\<rparr> \<and>
    fr_name r \<noteq> fr_name r' \<and> fr_spec r = fr_spec r'"
proof (rule jetstream_redelivery_duplicates [of "natsEvent 1" 4 1 "natsEvent 2" 2 orders "ApiFailure (Txt ''timeout'')" 0 "[]" 0 "[]"])
  show "nm_metadata (natsEvent 1) = Inr (4, 1)" "natsEvent 2 = natsEvent 1\<lparr>nm_metadata := Inr (4, 2)\<rparr>" by (simp_all add: natsEvent_def)
  show "list_all alphaNumDash (mh_triggerName orders)" by code_simp
  show "length (mh_triggerName orders @ ''-seq-'' @ showNat 1) \<le> 253" by code_simp
  show "length (mh_triggerName orders @ ''-seq-'' @ showNat 2) \<le> 253" by code_simp
qed simp_all

theorem kafka_name_identifies_witness:
  "sameRun (kafkaRun orders [] order7) (kafkaRun orders [] (order7\<lparr>km_topic := ''returns''\<rparr>)) \<and>
   \<not> sameRun (kafkaRun orders [] order7) (kafkaRun orders [] (order7\<lparr>km_offset := 8\<rparr>))"
proof -
  have plain: "list_all alphaNumDash (mh_triggerName orders)" by code_simp
  have len: "length (kafkaRunName orders order7) \<le> 253" by code_simp
  have len': "length (kafkaRunName orders (order7\<lparr>km_topic := ''returns''\<rparr>)) \<le> 253" by code_simp
  have len8: "length (kafkaRunName orders (order7\<lparr>km_offset := 8\<rparr>)) \<le> 253" by code_simp
  have "sameRun (kafkaRun orders [] order7) (kafkaRun orders [] (order7\<lparr>km_topic := ''returns''\<rparr>))"
    by (subst kafka_name_identifies) (simp_all only: plain len len', simp_all add: order7_def)
  moreover have "\<not> sameRun (kafkaRun orders [] order7) (kafkaRun orders [] (order7\<lparr>km_offset := 8\<rparr>))"
    by (subst kafka_name_identifies) (simp_all only: plain len len8, simp_all add: order7_def)
  ultimately show ?thesis ..
qed

end
