(* ===== verification/BrokerWatcher.thy ===== *)
theory BrokerWatcher
  imports BrokerRuns SecretIndex Sha256
begin

text \<open>
  The watchers of the Kafka, AMQP and NATS gateways (\<^verbatim>\<open>internal/gateway/{kafka,amqp,nats}/watcher.go\<close>): each follows the
  Triggers of its type, resolves the credentials of the Integration a Trigger names, and keeps one consumer per
  Trigger. The three files are the same code around different specifications; the definitions are parametrised over
  the record \<open>broker\<close> of what differs and instantiated three times. The handlers of the informers are taken as steps
  one after the other. Reads of the API server and the calls into the broker libraries, the certificate parser and the
  file system are the record \<open>brokerEnv\<close>.
\<close>

section \<open>Connections\<close>

text \<open>
  \<^verbatim>\<open>tls.Config\<close> as the gateways fill it in: \<^verbatim>\<open>InsecureSkipVerify\<close> and the bundle of \<^verbatim>\<open>RootCAs\<close>, if any. Settings of the
  client libraries that are the same for every connection (protocol version, balance strategy, reconnect options) are
  part of the libraries.
\<close>

type_synonym clientTLS = "bool \<times> string option"

record consumerConfig =
  kc_tls :: "clientTLS option"
  kc_sasl :: "(string \<times> string \<times> string) option"

datatype natsAuth = NatsNoAuth | NatsCredsFile string | NatsUserInfo string string

record natsOptions =
  no_tls :: "clientTLS option"
  no_auth :: natsAuth

record amqpDial =
  ad_url :: string
  ad_tls :: "clientTLS option"
  ad_sasl :: "(string \<times> string) option"

datatype channelCall =
    ExchangeDeclare string string
  | QueueDeclare string
  | QueueBind string string string
  | Consume string string

text \<open>The credentials file of NATS is a path and its content.\<close>

record brokerEnv =
  bk_secret :: "string \<Rightarrow> string \<Rightarrow> apiError + smap"
  bk_integration :: "string \<Rightarrow> string \<Rightarrow> apiError + integration"
  bk_appendCerts :: "string \<Rightarrow> bool"
  bk_newConsumerGroup :: "string list \<Rightarrow> string \<Rightarrow> consumerConfig \<Rightarrow> msg option"
  bk_createTemp :: "msg + string"
  bk_writeTemp :: "msg option"
  bk_closeTemp :: "msg option"
  bk_natsConnect :: "string \<Rightarrow> natsOptions \<Rightarrow> msg option"
  bk_jetStream :: "msg option"
  bk_natsSubscribe :: "string \<Rightarrow> string option \<Rightarrow> msg option"
  bk_dial :: "amqpDial \<Rightarrow> msg option"
  bk_channel :: "msg option"
  bk_channelCall :: "channelCall \<Rightarrow> msg option"
  bk_session :: "msg option"
  bk_receiver :: "string \<Rightarrow> msg option"

text \<open>What a started consumer holds on to.\<close>

datatype consumer =
    KafkaConsumer "string list" string consumerConfig string messageHandler
  | Amqp091Consumer trigger amqpTrigger amqpIntegrationSpec messageHandler
  | Amqp10Consumer trigger amqpTrigger amqpIntegrationSpec messageHandler
  | NatsConsumer string natsOptions string "string option" messageHandler

fun consumerHandler :: "consumer \<Rightarrow> messageHandler" where
  "consumerHandler (KafkaConsumer _ _ _ _ h) = h"
| "consumerHandler (Amqp091Consumer _ _ _ h) = h"
| "consumerHandler (Amqp10Consumer _ _ _ h) = h"
| "consumerHandler (NatsConsumer _ _ _ _ h) = h"

section \<open>Credentials\<close>

record credentials =
  cr_caPEM :: string
  cr_credsContent :: string
  cr_username :: string
  cr_password :: string
  cr_secretRefs :: "namespacedName list"
  cr_fingerprint :: string

definition noCredentials :: credentials where
  "noCredentials = \<lparr>cr_caPEM = [], cr_credsContent = [], cr_username = [], cr_password = [], cr_secretRefs = [], cr_fingerprint = []\<rparr>"

definition readBrokerSecret :: "brokerEnv \<Rightarrow> string \<Rightarrow> string \<Rightarrow> string \<Rightarrow> string result" where
  "readBrokerSecret env namespace name key =
     (case bk_secret env namespace name of
        Inl err \<Rightarrow> Inl (Fmt ''get secret %s/%s: %w'' [Txt namespace, Txt name, apiErrorMsg err])
      | Inr data \<Rightarrow>
          (case map_of data key of
             None \<Rightarrow> Inl (Fmt ''secret %s/%s does not contain key %q'' [Txt namespace, Txt name, Txt key])
           | Some val \<Rightarrow> Inr val))"

text \<open>A resolution in progress: the credentials so far, the bytes written to the hash, and the error that ended it.\<close>

type_synonym resolving = "credentials \<times> string \<times> msg option"

definition addRefs :: "string \<Rightarrow> string list \<Rightarrow> credentials \<Rightarrow> credentials" where
  "addRefs namespace names creds =
     creds\<lparr>cr_secretRefs := cr_secretRefs creds @ map (\<lambda>n. \<lparr>nn_namespace = namespace, nn_name = n\<rparr>) names\<rparr>"

definition secretStage ::
  "brokerEnv \<Rightarrow> string \<Rightarrow> string \<Rightarrow> (string \<Rightarrow> credentials \<Rightarrow> credentials) \<Rightarrow> (string \<times> string) option \<Rightarrow> resolving \<Rightarrow> resolving" where
  "secretStage env namespace what put ref r =
     (case (r, ref) of
        ((creds, written, None), Some (name, key)) \<Rightarrow>
          (case readBrokerSecret env namespace name key of
             Inl err \<Rightarrow> (creds, written, Some (Fmt what [err]))
           | Inr val \<Rightarrow> (addRefs namespace [name] (put val creds), written @ val, None))
      | _ \<Rightarrow> r)"

text \<open>User name and password are read together; only then are both Secrets recorded.\<close>

definition pairStage ::
  "brokerEnv \<Rightarrow> string \<Rightarrow> string \<Rightarrow> string \<Rightarrow> (keySelector \<times> keySelector option) option \<Rightarrow> resolving \<Rightarrow> resolving" where
  "pairStage env namespace userWhat passWhat refs r =
     (case (r, refs) of
        ((creds, written, None), Some (userRef, passRef)) \<Rightarrow>
          (case readBrokerSecret env namespace (ks_name userRef) (ks_key userRef) of
             Inl err \<Rightarrow> (creds, written, Some (Fmt userWhat [err]))
           | Inr username \<Rightarrow>
               (case passRef of
                  None \<Rightarrow> (creds, written, Some (Txt ''spec.nats.passwordSecretRef must be set when usernameSecretRef is set''))
                | Some ref \<Rightarrow>
                    (case readBrokerSecret env namespace (ks_name ref) (ks_key ref) of
                       Inl err \<Rightarrow> (creds, written, Some (Fmt passWhat [err]))
                     | Inr password \<Rightarrow>
                         (addRefs namespace [ks_name userRef, ks_name ref] (creds\<lparr>cr_username := username, cr_password := password\<rparr>),
                          written @ username @ password, None))))
      | _ \<Rightarrow> r)"

definition fingerprinted :: "resolving \<Rightarrow> credentials \<times> msg option" where
  "fingerprinted r =
     (case r of
        (creds, written, None) \<Rightarrow> (creds\<lparr>cr_fingerprint := hexEncode (sha256 written)\<rparr>, None)
      | (creds, written, Some e) \<Rightarrow> (creds, Some e))"

definition selectedKey :: "keySelector \<Rightarrow> string \<times> string" where
  "selectedKey ref = (ks_name ref, ks_key ref)"

definition resolveKafkaCredentials :: "brokerEnv \<Rightarrow> string \<Rightarrow> kafkaIntegrationSpec \<Rightarrow> credentials \<times> msg option" where
  "resolveKafkaCredentials env namespace spec =
     fingerprinted
       (pairStage env namespace ''reading SASL username secret: %w'' ''reading SASL password secret: %w''
          (map_option (\<lambda>s. (ksc_usernameSecretRef s, Some (ksc_passwordSecretRef s))) (ki_sasl spec))
          (secretStage env namespace ''reading CA cert secret: %w'' (\<lambda>v c. c\<lparr>cr_caPEM := v\<rparr>)
             (case ki_tls spec of
                Some t \<Rightarrow> if kt_enabled t then map_option selectedKey (kt_caSecretRef t) else None
              | None \<Rightarrow> None)
             (noCredentials, [], None)))"

definition resolveAmqpCredentials :: "brokerEnv \<Rightarrow> string \<Rightarrow> amqpIntegrationSpec \<Rightarrow> credentials \<times> msg option" where
  "resolveAmqpCredentials env namespace spec =
     fingerprinted
       (secretStage env namespace ''reading CA cert secret: %w'' (\<lambda>v c. c)
          (case ai_tls spec of Some t \<Rightarrow> map_option selectedKey (at_caSecretRef t) | None \<Rightarrow> None)
          (secretStage env namespace ''reading password secret: %w'' (\<lambda>v c. c) (map_option selectedKey (ai_passwordSecretRef spec))
             (secretStage env namespace ''reading username secret: %w'' (\<lambda>v c. c) (map_option selectedKey (ai_usernameSecretRef spec))
                (noCredentials, [], None))))"

definition resolveNatsCredentials :: "brokerEnv \<Rightarrow> string \<Rightarrow> natsIntegrationSpec \<Rightarrow> credentials \<times> msg option" where
  "resolveNatsCredentials env namespace spec =
     (let ca = secretStage env namespace ''reading CA cert secret: %w'' (\<lambda>v c. c\<lparr>cr_caPEM := v\<rparr>)
                 (case ni_tls spec of Some t \<Rightarrow> map_option selectedKey (nx_caSecretRef t) | None \<Rightarrow> None) (noCredentials, [], None)
      in fingerprinted
           (case ni_credentialsSecretRef spec of
              Some name \<Rightarrow>
                secretStage env namespace ''reading nats credentials secret: %w'' (\<lambda>v c. c\<lparr>cr_credsContent := v\<rparr>)
                  (Some (name, ''nats.creds'')) ca
            | None \<Rightarrow>
                pairStage env namespace ''reading nats username secret: %w'' ''reading nats password secret: %w''
                  (map_option (\<lambda>u. (u, ni_passwordSecretRef spec)) (ni_usernameSecretRef spec)) ca))"

section \<open>Starting a consumer\<close>

definition handlerOf :: "trigger \<Rightarrow> messageHandler" where
  "handlerOf t = \<lparr>mh_triggerName = tr_name t, mh_triggerNamespace = tr_namespace t, mh_flowRefName = ts_flowRef (tr_spec t)\<rparr>"

definition caConfig :: "brokerEnv \<Rightarrow> string \<Rightarrow> bool \<Rightarrow> keySelector option \<Rightarrow> string \<Rightarrow> clientTLS result" where
  "caConfig env namespace insecure caRef caPEM =
     (case caRef of
        None \<Rightarrow> Inr (insecure, None)
      | Some ref \<Rightarrow>
          if \<not> bk_appendCerts env caPEM then
            Inl (Fmt ''failed to parse CA certificate from secret %s/%s key %s'' [Txt namespace, Txt (ks_name ref), Txt (ks_key ref)])
          else Inr (insecure, Some caPEM))"

definition consumerGroup :: "trigger \<Rightarrow> kafkaTrigger \<Rightarrow> string" where
  "consumerGroup t kt = (if kk_consumerGroup kt = [] then ''kubezap-'' @ tr_name t else kk_consumerGroup kt)"

definition consumerTLS :: "brokerEnv \<Rightarrow> string \<Rightarrow> kafkaIntegrationSpec \<Rightarrow> credentials \<Rightarrow> clientTLS option result" where
  "consumerTLS env namespace spec creds =
     (case ki_tls spec of
        None \<Rightarrow> Inr None
      | Some tc \<Rightarrow>
          if kt_enabled tc
          then bindR (caConfig env namespace (kt_insecureSkipVerify tc) (kt_caSecretRef tc) (cr_caPEM creds)) (\<lambda>c. Inr (Some c))
          else Inr None)"

definition consumerSASL :: "kafkaIntegrationSpec \<Rightarrow> credentials \<Rightarrow> (string \<times> string \<times> string) option result" where
  "consumerSASL spec creds =
     (case ki_sasl spec of
        None \<Rightarrow> Inr None
      | Some sasl \<Rightarrow>
          if ksc_mechanism sasl \<in> set [''PLAIN'', ''SCRAM-SHA-256'', ''SCRAM-SHA-512'']
          then Inr (Some (ksc_mechanism sasl, cr_username creds, cr_password creds))
          else Inl (Fmt ''unsupported SASL mechanism: %s'' [Txt (ksc_mechanism sasl)]))"

text \<open>A start returns the consumer or an error, and the files it left in the temporary directory.\<close>

type_synonym started = "consumer result \<times> (string \<times> string) list"

definition startKafka :: "brokerEnv \<Rightarrow> trigger \<Rightarrow> kafkaTrigger \<Rightarrow> kafkaIntegrationSpec \<Rightarrow> credentials \<Rightarrow> started" where
  "startKafka env t kt spec creds =
     (bindR (consumerTLS env (tr_namespace t) spec creds) (\<lambda>tls.
        bindR (consumerSASL spec creds) (\<lambda>sasl.
          (let config = \<lparr>kc_tls = tls, kc_sasl = sasl\<rparr>; cgID = consumerGroup t kt
           in case bk_newConsumerGroup env (ki_bootstrapServers spec) cgID config of
                Some err \<Rightarrow> Inl (Fmt ''create consumer group for trigger %s/%s: %w'' [Txt (tr_namespace t), Txt (tr_name t), err])
              | None \<Rightarrow> Inr (KafkaConsumer (ki_bootstrapServers spec) cgID config (kk_topic kt) (handlerOf t))))), [])"

definition amqpVersion091 :: string where "amqpVersion091 = ''0-9-1''"

definition startAmqp :: "brokerEnv \<Rightarrow> trigger \<Rightarrow> amqpTrigger \<Rightarrow> amqpIntegrationSpec \<Rightarrow> credentials \<Rightarrow> started" where
  "startAmqp env t at spec creds =
     (let version = (if ai_version spec = [] then amqpVersion091 else ai_version spec)
      in (if at_exchange at \<noteq> None \<and> version \<noteq> amqpVersion091 then
            Inl (Fmt ''amqp exchange routing (spec.amqp.exchange) is only supported for version %q, got version %q for trigger %s/%s''
                   [Txt amqpVersion091, Txt version, Txt (tr_namespace t), Txt (tr_name t)])
          else if version = amqpVersion091 then Inr (Amqp091Consumer t at spec (handlerOf t))
          else if version = ''1.0'' then Inr (Amqp10Consumer t at spec (handlerOf t))
          else Inl (Fmt ''unsupported amqp version %q for trigger %s/%s'' [Txt version, Txt (tr_namespace t), Txt (tr_name t)]), []))"

text \<open>The credentials file of NATS is removed only when writing or closing it fails, or when the subscription stops.\<close>

definition natsAuthOf :: "brokerEnv \<Rightarrow> natsIntegrationSpec \<Rightarrow> credentials \<Rightarrow> natsAuth result \<times> (string \<times> string) list" where
  "natsAuthOf env spec creds =
     (if ni_credentialsSecretRef spec \<noteq> None then
        (case bk_createTemp env of
           Inl err \<Rightarrow> (Inl (Fmt ''creating nats credentials temp file: %w'' [err]), [])
         | Inr path \<Rightarrow>
             (case bk_writeTemp env of
                Some err \<Rightarrow> (Inl (Fmt ''writing nats credentials to temp file: %w'' [err]), [])
              | None \<Rightarrow>
                  (case bk_closeTemp env of
                     Some err \<Rightarrow> (Inl (Fmt ''closing nats credentials temp file: %w'' [err]), [])
                   | None \<Rightarrow> (Inr (NatsCredsFile path), [(path, cr_credsContent creds)]))))
      else if ni_usernameSecretRef spec \<noteq> None then (Inr (NatsUserInfo (cr_username creds) (cr_password creds)), [])
      else (Inr NatsNoAuth, []))"

definition durableName :: "trigger \<Rightarrow> string" where
  "durableName t = take 32 (''kubezap-'' @ tr_name t)"

definition natsSubscribe :: "brokerEnv \<Rightarrow> trigger \<Rightarrow> natsTrigger \<Rightarrow> natsIntegrationSpec \<Rightarrow> natsOptions \<Rightarrow> consumer result" where
  "natsSubscribe env t nt spec opts =
     (let servers = joinStr '','' (ni_servers spec); subject = nt_subject nt; at = [Txt (tr_namespace t), Txt (tr_name t)]
      in case bk_natsConnect env servers opts of
           Some err \<Rightarrow> Inl (Fmt ''connect to nats for trigger %s/%s: %w'' (at @ [err]))
         | None \<Rightarrow>
             if ni_jetStream spec then
               (case bk_jetStream env of
                  Some err \<Rightarrow> Inl (Fmt ''create jetstream context for trigger %s/%s: %w'' (at @ [err]))
                | None \<Rightarrow>
                    (case bk_natsSubscribe env subject (Some (durableName t)) of
                       Some err \<Rightarrow> Inl (Fmt ''jetstream subscribe on trigger %s/%s subject %s: %w'' (at @ [Txt subject, err]))
                     | None \<Rightarrow> Inr (NatsConsumer servers opts subject (Some (durableName t)) (handlerOf t))))
             else
               (case bk_natsSubscribe env subject None of
                  Some err \<Rightarrow> Inl (Fmt ''subscribe on trigger %s/%s subject %s: %w'' (at @ [Txt subject, err]))
                | None \<Rightarrow> Inr (NatsConsumer servers opts subject None (handlerOf t))))"

definition startNats :: "brokerEnv \<Rightarrow> trigger \<Rightarrow> natsTrigger \<Rightarrow> natsIntegrationSpec \<Rightarrow> credentials \<Rightarrow> started" where
  "startNats env t nt spec creds =
     (case (case ni_tls spec of
              None \<Rightarrow> Inr None
            | Some tc \<Rightarrow>
                bindR (caConfig env (tr_namespace t) (nx_insecureSkipVerify tc) (nx_caSecretRef tc) (cr_caPEM creds)) (\<lambda>c. Inr (Some c))) of
        Inl e \<Rightarrow> (Inl e, [])
      | Inr tls \<Rightarrow>
          (case natsAuthOf env spec creds of
             (Inl e, files) \<Rightarrow> (Inl e, files)
           | (Inr auth, files) \<Rightarrow> (natsSubscribe env t nt spec \<lparr>no_tls = tls, no_auth = auth\<rparr>, files)))"

section \<open>The watcher\<close>

text \<open>\<open>su_context\<close> identifies the context of the subscription, which \<open>cancel\<close> ends.\<close>

record subscription =
  su_context :: nat
  su_integrationName :: string
  su_topic :: string
  su_group :: string
  su_fingerprint :: string

record credentialReport =
  ce_trigger :: namespacedName
  ce_eventType :: string
  ce_reason :: string
  ce_message :: msg

record brokerWatcher =
  bw_triggers :: "(namespacedName \<times> trigger) list"
  bw_secretIndex :: index
  bw_integrationIndex :: index
  bw_subscriptions :: "(namespacedName \<times> subscription) list"
  bw_credentialFailed :: "(namespacedName \<times> bool) list"
  bw_events :: "credentialReport list"
  bw_running :: "(nat \<times> consumer) list"
  bw_contexts :: nat
  bw_files :: "(string \<times> string) list"

definition newBrokerWatcher :: brokerWatcher where
  "newBrokerWatcher =
     \<lparr>bw_triggers = [], bw_secretIndex = newIndex, bw_integrationIndex = newIndex, bw_subscriptions = [], bw_credentialFailed = [],
      bw_events = [], bw_running = [], bw_contexts = 0, bw_files = []\<rparr>"

text \<open>
  What differs between the gateways. \<open>br_source\<close> is the topic, queue or subject of a Trigger with what else identifies
  its consumer: the consumer group of Kafka, the routing key of AMQP, nothing for NATS.
\<close>

record ('t, 's) broker =
  br_type :: string
  br_trigger :: "triggerSpec \<Rightarrow> 't option"
  br_integrationRef :: "'t \<Rightarrow> string"
  br_source :: "trigger \<Rightarrow> 't \<Rightarrow> string \<times> string"
  br_spec :: "integration \<Rightarrow> 's option"
  br_resolve :: "brokerEnv \<Rightarrow> string \<Rightarrow> 's \<Rightarrow> credentials \<times> msg option"
  br_start :: "brokerEnv \<Rightarrow> trigger \<Rightarrow> 't \<Rightarrow> 's \<Rightarrow> credentials \<Rightarrow> started"

definition kafkaBroker :: "(kafkaTrigger, kafkaIntegrationSpec) broker" where
  "kafkaBroker =
     \<lparr>br_type = ''kafka'', br_trigger = ts_kafka, br_integrationRef = kk_integrationRef,
      br_source = (\<lambda>t kt. (kk_topic kt, consumerGroup t kt)), br_spec = ig_kafka,
      br_resolve = resolveKafkaCredentials, br_start = startKafka\<rparr>"

definition amqpBroker :: "(amqpTrigger, amqpIntegrationSpec) broker" where
  "amqpBroker =
     \<lparr>br_type = ''amqp'', br_trigger = ts_amqp, br_integrationRef = at_integrationRef,
      br_source = (\<lambda>t at. (at_topic at, at_routingKey at)), br_spec = ig_amqp,
      br_resolve = resolveAmqpCredentials, br_start = startAmqp\<rparr>"

definition natsBroker :: "(natsTrigger, natsIntegrationSpec) broker" where
  "natsBroker =
     \<lparr>br_type = ''nats'', br_trigger = ts_nats, br_integrationRef = nt_integrationRef,
      br_source = (\<lambda>t nt. (nt_subject nt, [])), br_spec = ig_nats,
      br_resolve = resolveNatsCredentials, br_start = startNats\<rparr>"

definition credentialResolutionFailedReason :: string where "credentialResolutionFailedReason = ''CredentialResolutionFailed''"
definition credentialResolutionSucceededReason :: string where "credentialResolutionSucceededReason = ''CredentialResolutionSucceeded''"

definition recordCredentialFailure :: "string \<Rightarrow> namespacedName \<Rightarrow> string \<Rightarrow> msg \<Rightarrow> brokerWatcher \<Rightarrow> brokerWatcher" where
  "recordCredentialFailure kind key integrationName err w =
     w\<lparr>bw_credentialFailed := AList.update key True (bw_credentialFailed w),
       bw_events := bw_events w @
         [\<lparr>ce_trigger = key, ce_eventType = ''Warning'', ce_reason = credentialResolutionFailedReason,
           ce_message = Fmt (''failed to resolve '' @ kind @ '' credentials for integration %q: %v'') [Txt integrationName, err]\<rparr>]\<rparr>"

definition recordCredentialSuccess :: "string \<Rightarrow> namespacedName \<Rightarrow> string \<Rightarrow> brokerWatcher \<Rightarrow> brokerWatcher" where
  "recordCredentialSuccess kind key integrationName w =
     (let wasFailed = map_of (bw_credentialFailed w) key = Some True;
          w1 = w\<lparr>bw_credentialFailed := AList.update key False (bw_credentialFailed w)\<rparr>
      in if \<not> wasFailed then w1
         else w1\<lparr>bw_events := bw_events w1 @
                [\<lparr>ce_trigger = key, ce_eventType = ''Normal'', ce_reason = credentialResolutionSucceededReason,
                  ce_message = Fmt (''resolved '' @ kind @ '' credentials for integration %q'') [Txt integrationName]\<rparr>]\<rparr>)"

text \<open>Cancelling the context of a subscription ends its consumer, which removes the credentials file it uses.\<close>

fun credsFile :: "consumer \<Rightarrow> string option" where
  "credsFile (NatsConsumer _ opts _ _ _) = (case no_auth opts of NatsCredsFile path \<Rightarrow> Some path | _ \<Rightarrow> None)"
| "credsFile _ = None"

definition cancelContext :: "nat \<Rightarrow> brokerWatcher \<Rightarrow> brokerWatcher" where
  "cancelContext ctx w =
     w\<lparr>bw_running := AList.delete ctx (bw_running w),
       bw_files := filter (\<lambda>(path, _). \<not> list_ex (\<lambda>(c, consumer). c = ctx \<and> credsFile consumer = Some path) (bw_running w)) (bw_files w)\<rparr>"

definition stopSubscription :: "namespacedName \<Rightarrow> brokerWatcher \<Rightarrow> brokerWatcher" where
  "stopSubscription key w =
     (case map_of (bw_subscriptions w) key of
        None \<Rightarrow> w
      | Some sub \<Rightarrow> cancelContext (su_context sub) (w\<lparr>bw_subscriptions := AList.delete key (bw_subscriptions w)\<rparr>))"

definition startSubscription ::
  "('t, 's) broker \<Rightarrow> brokerEnv \<Rightarrow> trigger \<Rightarrow> 't \<Rightarrow> 's \<Rightarrow> credentials \<Rightarrow> brokerWatcher \<Rightarrow> brokerWatcher" where
  "startSubscription b env t bt spec creds w =
     (case br_start b env t bt spec creds of
        (Inl _, files) \<Rightarrow> w\<lparr>bw_files := bw_files w @ files\<rparr>
      | (Inr consumer, files) \<Rightarrow>
          (let sub = \<lparr>su_context = bw_contexts w, su_integrationName = br_integrationRef b bt, su_topic = fst (br_source b t bt),
                      su_group = snd (br_source b t bt), su_fingerprint = cr_fingerprint creds\<rparr>
           in w\<lparr>bw_files := bw_files w @ files, bw_subscriptions := AList.update (triggerKey t) sub (bw_subscriptions w),
                bw_running := bw_running w @ [(bw_contexts w, consumer)], bw_contexts := Suc (bw_contexts w)\<rparr>))"

definition servedTrigger :: "('t, 's) broker \<Rightarrow> trigger \<Rightarrow> 't option" where
  "servedTrigger b t =
     (if ts_type (tr_spec t) = br_type b \<and> ts_enabled (tr_spec t) then br_trigger b (tr_spec t) else None)"

definition sameSubscription :: "('t, 's) broker \<Rightarrow> trigger \<Rightarrow> 't \<Rightarrow> credentials \<Rightarrow> subscription \<Rightarrow> bool" where
  "sameSubscription b t bt creds sub \<longleftrightarrow>
     su_topic sub = fst (br_source b t bt) \<and> su_group sub = snd (br_source b t bt) \<and>
     su_integrationName sub = br_integrationRef b bt \<and> su_fingerprint sub = cr_fingerprint creds"

definition ensureSubscription ::
  "('t, 's) broker \<Rightarrow> brokerEnv \<Rightarrow> trigger \<Rightarrow> 't \<Rightarrow> 's \<Rightarrow> credentials \<Rightarrow> brokerWatcher \<Rightarrow> brokerWatcher" where
  "ensureSubscription b env t bt spec creds w =
     (case map_of (bw_subscriptions w) (triggerKey t) of
        None \<Rightarrow> startSubscription b env t bt spec creds w
      | Some sub \<Rightarrow>
          if sameSubscription b t bt creds sub then w
          else startSubscription b env t bt spec creds (stopSubscription (triggerKey t) w))"

definition reconcileBroker :: "('t, 's) broker \<Rightarrow> brokerEnv \<Rightarrow> trigger \<Rightarrow> brokerWatcher \<Rightarrow> brokerWatcher" where
  "reconcileBroker b env t w =
     (let key = triggerKey t; w1 = w\<lparr>bw_triggers := AList.update key t (bw_triggers w)\<rparr>
      in case servedTrigger b t of
           None \<Rightarrow>
             stopSubscription key
               (w1\<lparr>bw_secretIndex := Remove key (bw_secretIndex w1), bw_integrationIndex := Remove key (bw_integrationIndex w1)\<rparr>)
         | Some bt \<Rightarrow>
             (let name = br_integrationRef b bt;
                  w2 = w1\<lparr>bw_integrationIndex :=
                    Update key [\<lparr>nn_namespace = tr_namespace t, nn_name = name\<rparr>] (bw_integrationIndex w1)\<rparr>
              in case bk_integration env (tr_namespace t) name of
                   Inl err \<Rightarrow> recordCredentialFailure (br_type b) key name (apiErrorMsg err) w2
                 | Inr ig \<Rightarrow>
                     (case br_spec b ig of
                        None \<Rightarrow> recordCredentialFailure (br_type b) key name (Txt (''integration has no '' @ br_type b @ '' spec'')) w2
                      | Some spec \<Rightarrow>
                          (case br_resolve b env (tr_namespace t) spec of
                             (creds, credErr) \<Rightarrow>
                               (let w3 = w2\<lparr>bw_secretIndex := Update key (cr_secretRefs creds) (bw_secretIndex w2)\<rparr>
                                in case credErr of
                                     Some e \<Rightarrow> recordCredentialFailure (br_type b) key name e w3
                                   | None \<Rightarrow>
                                       ensureSubscription b env t bt spec creds (recordCredentialSuccess (br_type b) key name w3))))))"

fun reprocessTriggers :: "('t, 's) broker \<Rightarrow> brokerEnv \<Rightarrow> namespacedName list \<Rightarrow> brokerWatcher \<Rightarrow> brokerWatcher" where
  "reprocessTriggers b env [] w = w"
| "reprocessTriggers b env (key # keys) w =
     reprocessTriggers b env keys
       (case map_of (bw_triggers w) key of None \<Rightarrow> w | Some t \<Rightarrow> reconcileBroker b env t w)"

definition onSecretChange :: "('t, 's) broker \<Rightarrow> brokerEnv \<Rightarrow> namespacedName \<Rightarrow> brokerWatcher \<Rightarrow> brokerWatcher" where
  "onSecretChange b env secretKey w = reprocessTriggers b env (ObjectsFor secretKey (bw_secretIndex w)) w"

definition onIntegrationChange :: "('t, 's) broker \<Rightarrow> brokerEnv \<Rightarrow> namespacedName \<Rightarrow> brokerWatcher \<Rightarrow> brokerWatcher" where
  "onIntegrationChange b env integrationKey w = reprocessTriggers b env (ObjectsFor integrationKey (bw_integrationIndex w)) w"

definition onTriggerDelete :: "trigger \<Rightarrow> brokerWatcher \<Rightarrow> brokerWatcher" where
  "onTriggerDelete t w =
     (let key = triggerKey t
      in stopSubscription key
           (w\<lparr>bw_triggers := AList.delete key (bw_triggers w), bw_secretIndex := Remove key (bw_secretIndex w),
              bw_integrationIndex := Remove key (bw_integrationIndex w),
              bw_credentialFailed := AList.delete key (bw_credentialFailed w)\<rparr>))"

text \<open>At shutdown every subscription is cancelled.\<close>

definition stopAll :: "brokerWatcher \<Rightarrow> brokerWatcher" where
  "stopAll w = fold stopSubscription (map fst (bw_subscriptions w)) w"

text \<open>A deletion event without a Trigger, neither itself nor in a tombstone, is ignored.\<close>

datatype brokerEvent = TriggerSeen trigger | TriggerGone "trigger option" | SecretSeen namespacedName | IntegrationSeen namespacedName

fun brokerStep :: "('t, 's) broker \<Rightarrow> brokerEnv \<Rightarrow> brokerEvent \<Rightarrow> brokerWatcher \<Rightarrow> brokerWatcher" where
  "brokerStep b env (TriggerSeen t) w = reconcileBroker b env t w"
| "brokerStep b env (TriggerGone (Some t)) w = onTriggerDelete t w"
| "brokerStep b env (TriggerGone None) w = w"
| "brokerStep b env (SecretSeen k) w = onSecretChange b env k w"
| "brokerStep b env (IntegrationSeen k) w = onIntegrationChange b env k w"

section \<open>The three gateways\<close>

definition reconcileKafkaTrigger :: "brokerEnv \<Rightarrow> trigger \<Rightarrow> brokerWatcher \<Rightarrow> brokerWatcher" where
  "reconcileKafkaTrigger = reconcileBroker kafkaBroker"

definition reconcileAmqpTrigger :: "brokerEnv \<Rightarrow> trigger \<Rightarrow> brokerWatcher \<Rightarrow> brokerWatcher" where
  "reconcileAmqpTrigger = reconcileBroker amqpBroker"

definition reconcileNatsTrigger :: "brokerEnv \<Rightarrow> trigger \<Rightarrow> brokerWatcher \<Rightarrow> brokerWatcher" where
  "reconcileNatsTrigger = reconcileBroker natsBroker"

definition handleKafkaSecret :: "brokerEnv \<Rightarrow> namespacedName \<Rightarrow> brokerWatcher \<Rightarrow> brokerWatcher" where
  "handleKafkaSecret = onSecretChange kafkaBroker"

definition handleAmqpSecret :: "brokerEnv \<Rightarrow> namespacedName \<Rightarrow> brokerWatcher \<Rightarrow> brokerWatcher" where
  "handleAmqpSecret = onSecretChange amqpBroker"

definition handleNatsSecret :: "brokerEnv \<Rightarrow> namespacedName \<Rightarrow> brokerWatcher \<Rightarrow> brokerWatcher" where
  "handleNatsSecret = onSecretChange natsBroker"

text \<open>\<^verbatim>\<open>Start\<close> registers the handlers of the three informers.\<close>

definition kafkaStep :: "brokerEnv \<Rightarrow> brokerEvent \<Rightarrow> brokerWatcher \<Rightarrow> brokerWatcher" where "kafkaStep = brokerStep kafkaBroker"
definition amqpStep :: "brokerEnv \<Rightarrow> brokerEvent \<Rightarrow> brokerWatcher \<Rightarrow> brokerWatcher" where "amqpStep = brokerStep amqpBroker"
definition natsStep :: "brokerEnv \<Rightarrow> brokerEvent \<Rightarrow> brokerWatcher \<Rightarrow> brokerWatcher" where "natsStep = brokerStep natsBroker"

lemmas gateway_defs = reconcileKafkaTrigger_def reconcileAmqpTrigger_def reconcileNatsTrigger_def handleKafkaSecret_def
  handleAmqpSecret_def handleNatsSecret_def kafkaStep_def amqpStep_def natsStep_def

section \<open>What the gateways promise\<close>

text \<open>
  The laws the watcher relies on: a started consumer handles messages for its Trigger, and resolved credentials depend
  on no Secret but those they report.
\<close>

locale broker_contract =
  fixes b :: "('t, 's) broker"
  assumes started: "br_start b env t bt spec creds = (Inr consumer, files) \<Longrightarrow> consumerHandler consumer = handlerOf t"
    and resolved_stable: "br_resolve b env ns spec = (creds, None) \<Longrightarrow>
      (\<And>n. \<lparr>nn_namespace = ns, nn_name = n\<rparr> \<in> set (cr_secretRefs creds) \<Longrightarrow> bk_secret env' ns n = bk_secret env ns n) \<Longrightarrow>
      br_resolve b env' ns spec = (creds, None)"
begin

text \<open>When the credentials change, one of the Secrets they were resolved from has changed.\<close>

lemma changed_secret:
  assumes "br_resolve b env ns spec = (creds, None)" "br_resolve b env' ns spec \<noteq> (creds, None)"
  obtains n where "\<lparr>nn_namespace = ns, nn_name = n\<rparr> \<in> set (cr_secretRefs creds)" "bk_secret env' ns n \<noteq> bk_secret env ns n"
  using resolved_stable [OF assms(1), of env'] assms(2) by blast

end

text \<open>The stages of a resolution keep the Secrets they have read and add the ones they read.\<close>

definition stable :: "brokerEnv \<Rightarrow> string \<Rightarrow> (brokerEnv \<Rightarrow> resolving \<Rightarrow> resolving) \<Rightarrow> bool" where
  "stable env ns stage \<longleftrightarrow>
     (\<forall>env' r creds h. stage env r = (creds, h, None) \<longrightarrow>
        snd (snd r) = None \<and> set (cr_secretRefs (fst r)) \<subseteq> set (cr_secretRefs creds) \<and>
        ((\<forall>n. \<lparr>nn_namespace = ns, nn_name = n\<rparr> \<in> set (cr_secretRefs creds) \<longrightarrow> bk_secret env' ns n = bk_secret env ns n) \<longrightarrow>
         stage env' r = (creds, h, None)))"

lemma readBrokerSecret_cong: "bk_secret env' ns n = bk_secret env ns n \<Longrightarrow> readBrokerSecret env' ns n k = readBrokerSecret env ns n k"
  by (simp add: readBrokerSecret_def)

lemma addRefs_refs [simp]:
  "set (cr_secretRefs (addRefs ns names c)) = set (cr_secretRefs c) \<union> (\<lambda>n. \<lparr>nn_namespace = ns, nn_name = n\<rparr>) ` set names"
  by (simp add: addRefs_def)

lemma stable_secretStage:
  assumes "\<And>v c. cr_secretRefs (put v c) = cr_secretRefs c"
  shows "stable env ns (\<lambda>env. secretStage env ns what put ref)"
  unfolding stable_def
proof (intro allI impI)
  fix env' r creds h
  assume st: "secretStage env ns what put ref r = (creds, h, None)"
  obtain c0 h0 e0 where r: "r = (c0, h0, e0)" by (metis prod.exhaust)
  have e0: "e0 = None" using st r by (auto simp: secretStage_def split: option.splits)
  show "snd (snd r) = None \<and> set (cr_secretRefs (fst r)) \<subseteq> set (cr_secretRefs creds) \<and>
      ((\<forall>n. \<lparr>nn_namespace = ns, nn_name = n\<rparr> \<in> set (cr_secretRefs creds) \<longrightarrow> bk_secret env' ns n = bk_secret env ns n) \<longrightarrow>
       secretStage env' ns what put ref r = (creds, h, None))"
  proof (cases ref)
    case None
    then show ?thesis using st r e0 by (simp add: secretStage_def)
  next
    case (Some nk)
    obtain n k where nk: "nk = (n, k)" by (cases nk)
    obtain v where v: "readBrokerSecret env ns n k = Inr v" "creds = addRefs ns [n] (put v c0)" "h = h0 @ v"
      using st r e0 Some nk by (auto simp: secretStage_def split: sum.splits)
    have "readBrokerSecret env' ns n k = Inr v" if "bk_secret env' ns n = bk_secret env ns n"
      using readBrokerSecret_cong [of env' ns n env, OF that] v(1) by simp
    then show ?thesis using v r e0 Some nk assms by (simp add: secretStage_def subset_insertI)
  qed
qed

lemma stable_pairStage: "stable env ns (\<lambda>env. pairStage env ns uw pw refs)"
  unfolding stable_def
proof (intro allI impI)
  fix env' r creds h
  assume st: "pairStage env ns uw pw refs r = (creds, h, None)"
  obtain c0 h0 e0 where r: "r = (c0, h0, e0)" by (metis prod.exhaust)
  have e0: "e0 = None" using st r by (auto simp: pairStage_def split: option.splits)
  show "snd (snd r) = None \<and> set (cr_secretRefs (fst r)) \<subseteq> set (cr_secretRefs creds) \<and>
      ((\<forall>n. \<lparr>nn_namespace = ns, nn_name = n\<rparr> \<in> set (cr_secretRefs creds) \<longrightarrow> bk_secret env' ns n = bk_secret env ns n) \<longrightarrow>
       pairStage env' ns uw pw refs r = (creds, h, None))"
  proof (cases refs)
    case None
    then show ?thesis using st r e0 by (simp add: pairStage_def)
  next
    case (Some up)
    then obtain u p where up: "up = (u, Some p)" using st r e0 by (cases up; cases "snd up") (auto simp: pairStage_def split: sum.splits)
    obtain x y where v: "readBrokerSecret env ns (ks_name u) (ks_key u) = Inr x" "readBrokerSecret env ns (ks_name p) (ks_key p) = Inr y"
        "creds = addRefs ns [ks_name u, ks_name p] (c0\<lparr>cr_username := x, cr_password := y\<rparr>)" "h = h0 @ x @ y"
      using st r e0 Some up by (auto simp: pairStage_def split: sum.splits)
    have "readBrokerSecret env' ns (ks_name u) (ks_key u) = Inr x" if "bk_secret env' ns (ks_name u) = bk_secret env ns (ks_name u)"
      using readBrokerSecret_cong [of env' ns "ks_name u" env, OF that] v(1) by simp
    moreover have "readBrokerSecret env' ns (ks_name p) (ks_key p) = Inr y" if "bk_secret env' ns (ks_name p) = bk_secret env ns (ks_name p)"
      using readBrokerSecret_cong [of env' ns "ks_name p" env, OF that] v(2) by simp
    moreover have "set (cr_secretRefs c0) \<subseteq> set (cr_secretRefs creds)" by (auto simp: v(3))
    ultimately show ?thesis using v(3,4) r e0 Some up by (simp add: pairStage_def addRefs_def)
  qed
qed

lemma stable_comp: "stable env ns f \<Longrightarrow> stable env ns g \<Longrightarrow> stable env ns (\<lambda>e r. g e (f e r))"
  unfolding stable_def
proof (intro allI impI)
  fix env' r creds h
  assume f: "\<forall>env' r creds h. f env r = (creds, h, None) \<longrightarrow>
        snd (snd r) = None \<and> set (cr_secretRefs (fst r)) \<subseteq> set (cr_secretRefs creds) \<and>
        ((\<forall>n. \<lparr>nn_namespace = ns, nn_name = n\<rparr> \<in> set (cr_secretRefs creds) \<longrightarrow> bk_secret env' ns n = bk_secret env ns n) \<longrightarrow>
         f env' r = (creds, h, None))"
    and g: "\<forall>env' r creds h. g env r = (creds, h, None) \<longrightarrow>
        snd (snd r) = None \<and> set (cr_secretRefs (fst r)) \<subseteq> set (cr_secretRefs creds) \<and>
        ((\<forall>n. \<lparr>nn_namespace = ns, nn_name = n\<rparr> \<in> set (cr_secretRefs creds) \<longrightarrow> bk_secret env' ns n = bk_secret env ns n) \<longrightarrow>
         g env' r = (creds, h, None))"
    and gf: "g env (f env r) = (creds, h, None)"
  obtain c1 h1 where f1: "f env r = (c1, h1, None)" "set (cr_secretRefs c1) \<subseteq> set (cr_secretRefs creds)"
    using g gf by (metis prod.collapse fst_conv)
  show "snd (snd r) = None \<and> set (cr_secretRefs (fst r)) \<subseteq> set (cr_secretRefs creds) \<and>
      ((\<forall>n. \<lparr>nn_namespace = ns, nn_name = n\<rparr> \<in> set (cr_secretRefs creds) \<longrightarrow> bk_secret env' ns n = bk_secret env ns n) \<longrightarrow>
       g env' (f env' r) = (creds, h, None))"
    using f [rule_format, OF f1(1), of env'] g [rule_format, OF gf, of env'] f1 by auto
qed

lemma stable_resolve:
  assumes "stable env ns stage" "fingerprinted (stage env r) = (creds, None)"
    and "\<And>n. \<lparr>nn_namespace = ns, nn_name = n\<rparr> \<in> set (cr_secretRefs creds) \<Longrightarrow> bk_secret env' ns n = bk_secret env ns n"
  shows "fingerprinted (stage env' r) = (creds, None)"
proof -
  obtain c h where s: "stage env r = (c, h, None)" "creds = c\<lparr>cr_fingerprint := hexEncode (sha256 h)\<rparr>"
    using assms(2) by (cases "stage env r"; cases "snd (snd (stage env r))") (auto simp: fingerprinted_def)
  have "stage env' r = (c, h, None)"
    using assms(1) [unfolded stable_def, rule_format, OF s(1), of env'] assms(3) s(2) by simp
  then show ?thesis using s by (simp add: fingerprinted_def)
qed

lemma bindR_Inr: "bindR r f = Inr y \<longleftrightarrow> (\<exists>x. r = Inr x \<and> f x = Inr y)"
  by (cases r) auto

interpretation kafkaGateway: broker_contract kafkaBroker
proof
  show "consumerHandler consumer = handlerOf t" if "br_start kafkaBroker env t bt spec creds = (Inr consumer, files)"
    for env t bt spec creds consumer files
    using that by (auto simp: kafkaBroker_def startKafka_def bindR_Inr Let_def split: option.splits)
next
  fix env env' :: brokerEnv and ns spec creds
  assume "br_resolve kafkaBroker env ns spec = (creds, None)"
    and "\<And>n. \<lparr>nn_namespace = ns, nn_name = n\<rparr> \<in> set (cr_secretRefs creds) \<Longrightarrow> bk_secret env' ns n = bk_secret env ns n"
  then show "br_resolve kafkaBroker env' ns spec = (creds, None)"
    unfolding kafkaBroker_def broker.simps resolveKafkaCredentials_def
    by (rule stable_resolve [OF stable_comp [OF stable_secretStage stable_pairStage], rotated]) simp_all
qed

interpretation amqpGateway: broker_contract amqpBroker
proof
  show "consumerHandler consumer = handlerOf t" if "br_start amqpBroker env t bt spec creds = (Inr consumer, files)"
    for env t bt spec creds consumer files
    using that by (auto simp: amqpBroker_def startAmqp_def Let_def split: if_splits)
next
  fix env env' :: brokerEnv and ns spec creds
  assume "br_resolve amqpBroker env ns spec = (creds, None)"
    and "\<And>n. \<lparr>nn_namespace = ns, nn_name = n\<rparr> \<in> set (cr_secretRefs creds) \<Longrightarrow> bk_secret env' ns n = bk_secret env ns n"
  then show "br_resolve amqpBroker env' ns spec = (creds, None)"
    unfolding amqpBroker_def broker.simps resolveAmqpCredentials_def
    by (rule stable_resolve [OF stable_comp [OF stable_comp [OF stable_secretStage stable_secretStage] stable_secretStage], rotated 3]) simp_all
qed

interpretation natsGateway: broker_contract natsBroker
proof
  show "consumerHandler consumer = handlerOf t" if "br_start natsBroker env t bt spec creds = (Inr consumer, files)"
    for env t bt spec creds consumer files
    using that
    by (auto simp: natsBroker_def startNats_def natsSubscribe_def Let_def split: sum.splits option.splits if_splits prod.splits)
next
  fix env env' :: brokerEnv and ns spec creds
  assume r: "br_resolve natsBroker env ns spec = (creds, None)"
    and same: "\<And>n. \<lparr>nn_namespace = ns, nn_name = n\<rparr> \<in> set (cr_secretRefs creds) \<Longrightarrow> bk_secret env' ns n = bk_secret env ns n"
  show "br_resolve natsBroker env' ns spec = (creds, None)"
  proof (cases "ni_credentialsSecretRef spec")
    case None
    show ?thesis using r same unfolding natsBroker_def broker.simps resolveNatsCredentials_def Let_def None option.case
      by (rule stable_resolve [OF stable_comp [OF stable_secretStage stable_pairStage], rotated]) simp_all
  next
    case (Some name)
    show ?thesis using r same unfolding natsBroker_def broker.simps resolveNatsCredentials_def Let_def Some option.case
      by (rule stable_resolve [OF stable_comp [OF stable_secretStage stable_secretStage], rotated 2]) simp_all
  qed
qed

end
