(* ===== verification/BrokerConsumers.thy ===== *)
theory BrokerConsumers
  imports BrokerWatcher
begin

text \<open>
  What the watchers of the broker gateways guarantee. The invariant ties the running consumers to the known Triggers and
  the Integration index to their references; on it rest the theorems on rotation. The last sections show where a
  watcher does not follow its objects, and when it reports credential events.
\<close>

section \<open>One consumer for each served Trigger\<close>

definition consumerKey :: "consumer \<Rightarrow> namespacedName" where
  "consumerKey c = \<lparr>nn_namespace = mh_triggerNamespace (consumerHandler c), nn_name = mh_triggerName (consumerHandler c)\<rparr>"

definition runningOk :: "brokerWatcher \<Rightarrow> bool" where
  "runningOk w \<longleftrightarrow> distinct (map fst (bw_running w)) \<and> (\<forall>c \<in> fst ` set (bw_running w). c < bw_contexts w) \<and>
     (\<forall>c x. map_of (bw_running w) c = Some x \<longrightarrow>
        (\<exists>sub. map_of (bw_subscriptions w) (consumerKey x) = Some sub \<and> su_context sub = c)) \<and>
     (\<forall>k sub. map_of (bw_subscriptions w) k = Some sub \<longrightarrow> (\<exists>x. map_of (bw_running w) (su_context sub) = Some x \<and> consumerKey x = k))"

lemma runningOkD:
  assumes "runningOk w"
  shows "distinct (map fst (bw_running w))" "map_of (bw_running w) c = Some x \<Longrightarrow> c < bw_contexts w"
    "map_of (bw_running w) c = Some x \<Longrightarrow> \<exists>sub. map_of (bw_subscriptions w) (consumerKey x) = Some sub \<and> su_context sub = c"
    "map_of (bw_subscriptions w) k = Some sub \<Longrightarrow> \<exists>x. map_of (bw_running w) (su_context sub) = Some x \<and> consumerKey x = k"
  using assms unfolding runningOk_def by (blast dest: map_of_SomeD, force dest: map_of_SomeD, blast, blast)

lemma runningOkI:
  assumes "distinct (map fst (bw_running w))" "\<And>c. c \<in> fst ` set (bw_running w) \<Longrightarrow> c < bw_contexts w"
    "\<And>c x. map_of (bw_running w) c = Some x \<Longrightarrow> \<exists>sub. map_of (bw_subscriptions w) (consumerKey x) = Some sub \<and> su_context sub = c"
    "\<And>k sub. map_of (bw_subscriptions w) k = Some sub \<Longrightarrow> \<exists>x. map_of (bw_running w) (su_context sub) = Some x \<and> consumerKey x = k"
  shows "runningOk w"
  using assms unfolding runningOk_def by blast

lemma stopSubscription_fields [simp]:
  "bw_triggers (stopSubscription k w) = bw_triggers w" "bw_secretIndex (stopSubscription k w) = bw_secretIndex w"
  "bw_integrationIndex (stopSubscription k w) = bw_integrationIndex w" "bw_events (stopSubscription k w) = bw_events w"
  "bw_credentialFailed (stopSubscription k w) = bw_credentialFailed w" "bw_contexts (stopSubscription k w) = bw_contexts w"
  by (simp_all add: stopSubscription_def cancelContext_def split: option.split)

lemma stopSubscription_subs [simp]: "map_of (bw_subscriptions (stopSubscription k w)) = (map_of (bw_subscriptions w))(k := None)"
  by (auto simp: stopSubscription_def cancelContext_def delete_conv' split: option.split)

lemma stopSubscription_running:
  "bw_running (stopSubscription k w) =
     (case map_of (bw_subscriptions w) k of None \<Rightarrow> bw_running w | Some sub \<Rightarrow> AList.delete (su_context sub) (bw_running w))"
  by (simp add: stopSubscription_def cancelContext_def split: option.split)

lemma stopSubscription_ok:
  assumes "runningOk w"
  shows "runningOk (stopSubscription k w)"
proof (cases "map_of (bw_subscriptions w) k")
  case None
  then show ?thesis using assms by (simp add: stopSubscription_def)
next
  case (Some sub)
  have run: "bw_running (stopSubscription k w) = AList.delete (su_context sub) (bw_running w)" by (simp add: stopSubscription_running Some)
  obtain x where x: "map_of (bw_running w) (su_context sub) = Some x" "consumerKey x = k" using runningOkD(4) [OF assms Some] by blast
  show ?thesis
  proof (rule runningOkI)
    show "distinct (map fst (bw_running (stopSubscription k w)))" by (simp add: run distinct_delete runningOkD(1) [OF assms])
    show "c < bw_contexts (stopSubscription k w)" if "c \<in> fst ` set (bw_running (stopSubscription k w))" for c
      using that assms by (auto simp: run delete_keys [symmetric] runningOk_def AList.delete_eq)
    show "\<exists>s. map_of (bw_subscriptions (stopSubscription k w)) (consumerKey y) = Some s \<and> su_context s = c"
      if "map_of (bw_running (stopSubscription k w)) c = Some y" for c y
    proof -
      have y: "c \<noteq> su_context sub" "map_of (bw_running w) c = Some y" using that by (auto simp: run delete_conv' split: if_splits)
      then obtain s where "map_of (bw_subscriptions w) (consumerKey y) = Some s" "su_context s = c" using runningOkD(3) [OF assms] by blast
      then show ?thesis using y(1) Some by auto
    qed
    show "\<exists>y. map_of (bw_running (stopSubscription k w)) (su_context s) = Some y \<and> consumerKey y = k'"
      if "map_of (bw_subscriptions (stopSubscription k w)) k' = Some s" for k' s
    proof -
      have k': "k' \<noteq> k" "map_of (bw_subscriptions w) k' = Some s" using that by (auto split: if_splits)
      then obtain y where "map_of (bw_running w) (su_context s) = Some y" "consumerKey y = k'" using runningOkD(4) [OF assms] by blast
      then show ?thesis using x k'(1) by (auto simp: run delete_conv')
    qed
  qed
qed

lemma startSubscription_fields [simp]:
  "bw_triggers (startSubscription b env t bt spec creds w) = bw_triggers w"
  "bw_secretIndex (startSubscription b env t bt spec creds w) = bw_secretIndex w"
  "bw_integrationIndex (startSubscription b env t bt spec creds w) = bw_integrationIndex w"
  "bw_events (startSubscription b env t bt spec creds w) = bw_events w"
  "bw_credentialFailed (startSubscription b env t bt spec creds w) = bw_credentialFailed w"
  by (simp_all add: startSubscription_def Let_def split: prod.split sum.split)

lemma startSubscription_failed:
  assumes "br_start b env t bt spec creds = (Inl e, files)"
  shows "startSubscription b env t bt spec creds w = w\<lparr>bw_files := bw_files w @ files\<rparr>"
  using assms by (simp add: startSubscription_def)

lemma startSubscription_started:
  assumes "br_start b env t bt spec creds = (Inr consumer, files)"
  shows "map_of (bw_subscriptions (startSubscription b env t bt spec creds w)) =
      (map_of (bw_subscriptions w))(triggerKey t \<mapsto>
        \<lparr>su_context = bw_contexts w, su_integrationName = br_integrationRef b bt, su_topic = fst (br_source b t bt),
         su_group = snd (br_source b t bt), su_fingerprint = cr_fingerprint creds\<rparr>)"
    and "bw_running (startSubscription b env t bt spec creds w) = bw_running w @ [(bw_contexts w, consumer)]"
    and "bw_contexts (startSubscription b env t bt spec creds w) = Suc (bw_contexts w)"
  using assms by (simp_all add: startSubscription_def Let_def update_conv')

lemma startSubscription_subs:
  "map_of (bw_subscriptions (startSubscription b env t bt spec creds w)) k =
     (if k = triggerKey t \<and> isl (fst (br_start b env t bt spec creds)) = False
      then Some \<lparr>su_context = bw_contexts w, su_integrationName = br_integrationRef b bt, su_topic = fst (br_source b t bt),
         su_group = snd (br_source b t bt), su_fingerprint = cr_fingerprint creds\<rparr>
      else map_of (bw_subscriptions w) k)"
proof (cases "br_start b env t bt spec creds")
  case (Pair r files)
  then show ?thesis by (cases r) (simp_all add: startSubscription_failed startSubscription_started)
qed

lemma ensureSubscription_fields [simp]:
  "bw_triggers (ensureSubscription b env t bt spec creds w) = bw_triggers w"
  "bw_secretIndex (ensureSubscription b env t bt spec creds w) = bw_secretIndex w"
  "bw_integrationIndex (ensureSubscription b env t bt spec creds w) = bw_integrationIndex w"
  "bw_events (ensureSubscription b env t bt spec creds w) = bw_events w"
  "bw_credentialFailed (ensureSubscription b env t bt spec creds w) = bw_credentialFailed w"
  by (simp_all add: ensureSubscription_def split: option.split)

lemma record_fields [simp]:
  "bw_triggers (recordCredentialFailure kind k n e w) = bw_triggers w" "bw_triggers (recordCredentialSuccess kind k n w) = bw_triggers w"
  "bw_secretIndex (recordCredentialFailure kind k n e w) = bw_secretIndex w"
  "bw_secretIndex (recordCredentialSuccess kind k n w) = bw_secretIndex w"
  "bw_integrationIndex (recordCredentialFailure kind k n e w) = bw_integrationIndex w"
  "bw_integrationIndex (recordCredentialSuccess kind k n w) = bw_integrationIndex w"
  "bw_subscriptions (recordCredentialFailure kind k n e w) = bw_subscriptions w"
  "bw_subscriptions (recordCredentialSuccess kind k n w) = bw_subscriptions w"
  "bw_running (recordCredentialFailure kind k n e w) = bw_running w" "bw_running (recordCredentialSuccess kind k n w) = bw_running w"
  "bw_contexts (recordCredentialFailure kind k n e w) = bw_contexts w" "bw_contexts (recordCredentialSuccess kind k n w) = bw_contexts w"
  by (simp_all add: recordCredentialFailure_def recordCredentialSuccess_def Let_def)

lemma runningOk_cong:
  "bw_running w' = bw_running w \<Longrightarrow> bw_contexts w' = bw_contexts w \<Longrightarrow> bw_subscriptions w' = bw_subscriptions w \<Longrightarrow>
   runningOk w' \<longleftrightarrow> runningOk w"
  by (simp add: runningOk_def)

lemma runningOk_start:
  assumes "runningOk w" "map_of (bw_subscriptions w) (triggerKey t) = None"
    and "br_start b env t bt spec creds = (Inr consumer, files)" "consumerHandler consumer = handlerOf t"
  shows "runningOk (startSubscription b env t bt spec creds w)"
proof -
  let ?w = "startSubscription b env t bt spec creds w"
  note started = startSubscription_started [OF assms(3), of w]
  have key: "consumerKey consumer = triggerKey t" by (simp add: consumerKey_def assms(4) handlerOf_def triggerKey_def)
  have fresh: "bw_contexts w \<notin> fst ` set (bw_running w)" using assms(1) by (auto simp: runningOk_def)
  then have none: "map_of (bw_running w) (bw_contexts w) = None" by (simp add: map_of_eq_None_iff)
  show ?thesis
  proof (rule runningOkI)
    show "distinct (map fst (bw_running ?w))" using runningOkD(1) [OF assms(1)] fresh by (simp add: started)
    show "c < bw_contexts ?w" if "c \<in> fst ` set (bw_running ?w)" for c
      using that assms(1) by (auto simp: started runningOk_def less_Suc_eq)
    show "\<exists>sub. map_of (bw_subscriptions ?w) (consumerKey x) = Some sub \<and> su_context sub = c"
      if "map_of (bw_running ?w) c = Some x" for c x
    proof (cases "map_of (bw_running w) c")
      case None
      then have "c = bw_contexts w" "x = consumer" using that by (auto simp: started split: if_splits)
      then show ?thesis by (simp add: started key)
    next
      case (Some y)
      then have "map_of (bw_running w) c = Some x" using that by (simp add: started)
      then obtain sub where "map_of (bw_subscriptions w) (consumerKey x) = Some sub" "su_context sub = c"
        using runningOkD(3) [OF assms(1)] by blast
      then show ?thesis using assms(2) by (auto simp: started)
    qed
    show "\<exists>x. map_of (bw_running ?w) (su_context sub) = Some x \<and> consumerKey x = k"
      if subs: "map_of (bw_subscriptions ?w) k = Some sub" for k sub
    proof (cases "k = triggerKey t")
      case True
      then show ?thesis using subs none by (auto simp: started key map_add_def)
    next
      case False
      then obtain x where "map_of (bw_running w) (su_context sub) = Some x" "consumerKey x = k"
        using subs runningOkD(4) [OF assms(1), of k sub] by (auto simp: started)
      then show ?thesis by (simp add: started)
    qed
  qed
qed

context broker_contract
begin

lemma startSubscription_ok:
  assumes "runningOk w" "map_of (bw_subscriptions w) (triggerKey t) = None"
  shows "runningOk (startSubscription b env t bt spec creds w)"
proof (cases "br_start b env t bt spec creds")
  case (Pair r files)
  show ?thesis
  proof (cases r)
    case (Inl e)
    then show ?thesis using Pair assms(1) by (simp add: startSubscription_failed runningOk_cong [of "w\<lparr>bw_files := _\<rparr>" w])
  next
    case (Inr consumer)
    then have st: "br_start b env t bt spec creds = (Inr consumer, files)" using Pair by simp
    show ?thesis by (rule runningOk_start [OF assms st started [OF st]])
  qed
qed

lemma ensureSubscription_ok: "runningOk w \<Longrightarrow> runningOk (ensureSubscription b env t bt spec creds w)"
  by (simp add: ensureSubscription_def startSubscription_ok stopSubscription_ok split: option.split)

end

section \<open>The cases of a reconciliation\<close>

definition integrationKey :: "('t, 's) broker \<Rightarrow> trigger \<Rightarrow> 't \<Rightarrow> namespacedName" where
  "integrationKey b t bt = \<lparr>nn_namespace = tr_namespace t, nn_name = br_integrationRef b bt\<rparr>"

definition noted :: "('t, 's) broker \<Rightarrow> trigger \<Rightarrow> 't \<Rightarrow> index \<Rightarrow> brokerWatcher \<Rightarrow> brokerWatcher" where
  "noted b t bt secrets w =
     w\<lparr>bw_triggers := AList.update (triggerKey t) t (bw_triggers w),
       bw_integrationIndex := Update (triggerKey t) [integrationKey b t bt] (bw_integrationIndex w), bw_secretIndex := secrets\<rparr>"

lemma noted_fields [simp]:
  "bw_triggers (noted b t bt si w) = AList.update (triggerKey t) t (bw_triggers w)"
  "bw_integrationIndex (noted b t bt si w) = Update (triggerKey t) [integrationKey b t bt] (bw_integrationIndex w)"
  "bw_secretIndex (noted b t bt si w) = si" "bw_subscriptions (noted b t bt si w) = bw_subscriptions w"
  "bw_running (noted b t bt si w) = bw_running w" "bw_contexts (noted b t bt si w) = bw_contexts w"
  "bw_events (noted b t bt si w) = bw_events w" "bw_credentialFailed (noted b t bt si w) = bw_credentialFailed w"
  "bw_files (noted b t bt si w) = bw_files w"
  by (simp_all add: noted_def)

lemma reconcile_unserved:
  assumes "servedTrigger b t = None"
  shows "reconcileBroker b env t w =
    stopSubscription (triggerKey t)
      (w\<lparr>bw_triggers := AList.update (triggerKey t) t (bw_triggers w), bw_secretIndex := Remove (triggerKey t) (bw_secretIndex w),
         bw_integrationIndex := Remove (triggerKey t) (bw_integrationIndex w)\<rparr>)"
  using assms by (simp add: reconcileBroker_def Let_def)

lemma reconcile_resolved:
  assumes "servedTrigger b t = Some bt" "bk_integration env (tr_namespace t) (br_integrationRef b bt) = Inr ig"
    and "br_spec b ig = Some spec" "br_resolve b env (tr_namespace t) spec = (creds, None)"
  shows "reconcileBroker b env t w =
    ensureSubscription b env t bt spec creds
      (recordCredentialSuccess (br_type b) (triggerKey t) (br_integrationRef b bt)
         (noted b t bt (Update (triggerKey t) (cr_secretRefs creds) (bw_secretIndex w)) w))"
  using assms by (simp add: reconcileBroker_def Let_def noted_def integrationKey_def)

lemma reconcile_unresolved:
  assumes "servedTrigger b t = Some bt" "bk_integration env (tr_namespace t) (br_integrationRef b bt) = Inr ig"
    and "br_spec b ig = Some spec" "br_resolve b env (tr_namespace t) spec = (creds, Some e)"
  shows "reconcileBroker b env t w =
    recordCredentialFailure (br_type b) (triggerKey t) (br_integrationRef b bt) e
      (noted b t bt (Update (triggerKey t) (cr_secretRefs creds) (bw_secretIndex w)) w)"
  using assms by (simp add: reconcileBroker_def Let_def noted_def integrationKey_def)

lemma reconcile_cases:
  obtains (unserved) "servedTrigger b t = None"
  | (failed) bt e si where "servedTrigger b t = Some bt" "si = bw_secretIndex w \<or> (\<exists>refs. si = Update (triggerKey t) refs (bw_secretIndex w))"
      "reconcileBroker b env t w = recordCredentialFailure (br_type b) (triggerKey t) (br_integrationRef b bt) e (noted b t bt si w)"
  | (resolved) bt ig spec creds where "servedTrigger b t = Some bt"
      "bk_integration env (tr_namespace t) (br_integrationRef b bt) = Inr ig"
      "br_spec b ig = Some spec" "br_resolve b env (tr_namespace t) spec = (creds, None)"
proof (cases "servedTrigger b t")
  case (Some bt)
  show thesis
  proof (cases "bk_integration env (tr_namespace t) (br_integrationRef b bt)")
    case (Inl e)
    show thesis by (rule failed [OF Some, of "bw_secretIndex w"]) (simp_all add: reconcileBroker_def Let_def noted_def integrationKey_def Some Inl)
  next
    case (Inr ig)
    show thesis
    proof (cases "br_spec b ig")
      case None
      show thesis
        by (rule failed [OF Some, of "bw_secretIndex w"])
          (simp_all add: reconcileBroker_def Let_def noted_def integrationKey_def Some Inr None)
    next
      case spec: (Some spec)
      obtain creds err where r: "br_resolve b env (tr_namespace t) spec = (creds, err)" by (metis prod.exhaust)
      show thesis
      proof (cases err)
        case None
        then show thesis using resolved [OF Some Inr spec] r by simp
      next
        case e: (Some e)
        show thesis by (rule failed [OF Some _ reconcile_unresolved [OF Some Inr spec r [unfolded e]]]) blast
      qed
    qed
  qed
qed (rule unserved)

section \<open>The invariant\<close>

definition brokerInv :: "('t, 's) broker \<Rightarrow> brokerWatcher \<Rightarrow> bool" where
  "brokerInv b w \<longleftrightarrow> runningOk w \<and> indexOk (bw_secretIndex w) \<and> indexOk (bw_integrationIndex w) \<and>
     (\<forall>k t. map_of (bw_triggers w) k = Some t \<longrightarrow> triggerKey t = k) \<and>
     indexDeps (bw_integrationIndex w) =
       {(k, i). \<exists>t bt. map_of (bw_triggers w) k = Some t \<and> servedTrigger b t = Some bt \<and> i = integrationKey b t bt} \<and>
     (\<forall>k sub. map_of (bw_subscriptions w) k = Some sub \<longrightarrow> (\<exists>t. map_of (bw_triggers w) k = Some t \<and> servedTrigger b t \<noteq> None))"

lemma brokerInvD:
  assumes "brokerInv b w"
  shows "runningOk w" "indexOk (bw_secretIndex w)" "indexOk (bw_integrationIndex w)"
    "map_of (bw_triggers w) k = Some t \<Longrightarrow> triggerKey t = k"
    "indexDeps (bw_integrationIndex w) =
       {(k, i). \<exists>t bt. map_of (bw_triggers w) k = Some t \<and> servedTrigger b t = Some bt \<and> i = integrationKey b t bt}"
    "map_of (bw_subscriptions w) k' = Some sub \<Longrightarrow> \<exists>t. map_of (bw_triggers w) k' = Some t \<and> servedTrigger b t \<noteq> None"
  using assms unfolding brokerInv_def by blast+

lemma brokerInvI:
  assumes "runningOk w" "indexOk (bw_secretIndex w)" "indexOk (bw_integrationIndex w)"
    "\<And>k t. map_of (bw_triggers w) k = Some t \<Longrightarrow> triggerKey t = k"
    "indexDeps (bw_integrationIndex w) =
       {(k, i). \<exists>t bt. map_of (bw_triggers w) k = Some t \<and> servedTrigger b t = Some bt \<and> i = integrationKey b t bt}"
    "\<And>k sub. map_of (bw_subscriptions w) k = Some sub \<Longrightarrow> \<exists>t. map_of (bw_triggers w) k = Some t \<and> servedTrigger b t \<noteq> None"
  shows "brokerInv b w"
  using assms unfolding brokerInv_def by blast

text \<open>After a reconciliation of a served Trigger the Trigger is known, and its rows in the indexes are its own.\<close>

lemma brokerInv_noted:
  assumes "brokerInv b w" "servedTrigger b t = Some bt" "indexOk (bw_secretIndex w')" "runningOk w'"
    and "bw_triggers w' = AList.update (triggerKey t) t (bw_triggers w)"
    and "bw_integrationIndex w' = Update (triggerKey t) [integrationKey b t bt] (bw_integrationIndex w)"
    and "\<And>k sub. map_of (bw_subscriptions w') k = Some sub \<Longrightarrow> k = triggerKey t \<or> map_of (bw_subscriptions w) k \<noteq> None"
  shows "brokerInv b w'"
proof (rule brokerInvI)
  show "indexOk (bw_integrationIndex w')" using brokerInvD(3) [OF assms(1)] by (simp add: assms(6) Update_ok)
  show "triggerKey t' = k" if "map_of (bw_triggers w') k = Some t'" for k t'
    using that brokerInvD(4) [OF assms(1), of k t'] by (auto simp: assms(5) update_conv' split: if_splits)
  show "indexDeps (bw_integrationIndex w') =
      {(k, i). \<exists>t bt. map_of (bw_triggers w') k = Some t \<and> servedTrigger b t = Some bt \<and> i = integrationKey b t bt}"
    unfolding assms(6) secrets.deps_update [OF brokerInvD(3) [OF assms(1)]] brokerInvD(5) [OF assms(1)] assms(5) update_conv'
    using assms(2) by (auto split: if_splits)
  show "\<exists>t. map_of (bw_triggers w') k = Some t \<and> servedTrigger b t \<noteq> None" if "map_of (bw_subscriptions w') k = Some sub" for k sub
    using assms(7) [OF that] brokerInvD(6) [OF assms(1), of k] assms(2) by (auto simp: assms(5) update_conv')
qed (fact assms)+

lemma brokerInv_removed:
  assumes "brokerInv b w" "runningOk w'" "bw_secretIndex w' = Remove k (bw_secretIndex w)"
    and "bw_integrationIndex w' = Remove k (bw_integrationIndex w)"
    and "map_of (bw_triggers w') = (map_of (bw_triggers w))(k := opt)" "\<And>t. opt = Some t \<Longrightarrow> triggerKey t = k \<and> servedTrigger b t = None"
    and "map_of (bw_subscriptions w') = (map_of (bw_subscriptions w))(k := None)"
  shows "brokerInv b w'"
proof (rule brokerInvI)
  show "indexOk (bw_secretIndex w')" "indexOk (bw_integrationIndex w')"
    using brokerInvD(2,3) [OF assms(1)] by (simp_all add: assms(3,4) Remove_def Update_ok)
  show "triggerKey t' = k'" if "map_of (bw_triggers w') k' = Some t'" for k' t'
    using that brokerInvD(4) [OF assms(1), of k' t'] assms(6) by (auto simp: assms(5) split: if_splits)
  show "indexDeps (bw_integrationIndex w') =
      {(k, i). \<exists>t bt. map_of (bw_triggers w') k = Some t \<and> servedTrigger b t = Some bt \<and> i = integrationKey b t bt}"
    unfolding assms(4) Remove_def secrets.deps_update [OF brokerInvD(3) [OF assms(1)]] brokerInvD(5) [OF assms(1)] assms(5)
    using assms(6) by (auto split: if_splits)
  show "\<exists>t. map_of (bw_triggers w') k' = Some t \<and> servedTrigger b t \<noteq> None" if "map_of (bw_subscriptions w') k' = Some sub" for k' sub
    using that brokerInvD(6) [OF assms(1), of k' sub] by (auto simp: assms(5,7) split: if_splits)
qed (fact assms)

lemma ensureSubscription_other:
  "k \<noteq> triggerKey t \<Longrightarrow> map_of (bw_subscriptions (ensureSubscription b env t bt spec creds w)) k = map_of (bw_subscriptions w) k"
  by (auto simp: ensureSubscription_def startSubscription_subs split: option.split)

lemma onTriggerDelete_inv:
  assumes "brokerInv b w"
  shows "brokerInv b (onTriggerDelete t w)"
proof (rule brokerInv_removed [OF assms, of _ "triggerKey t" None])
  show "runningOk (onTriggerDelete t w)"
    unfolding onTriggerDelete_def Let_def
    by (rule stopSubscription_ok, subst runningOk_cong [where w = w]) (simp_all add: brokerInvD(1) [OF assms])
qed (simp_all add: onTriggerDelete_def Let_def delete_conv')

context broker_contract
begin

lemma reconcile_inv:
  assumes inv: "brokerInv b w"
  shows "brokerInv b (reconcileBroker b env t w)"
proof (cases rule: reconcile_cases [where b = b and t = t and env = env and w = w])
  case unserved
  show ?thesis
  proof (rule brokerInv_removed [OF inv, of _ "triggerKey t" "Some t"])
    show "runningOk (reconcileBroker b env t w)"
      unfolding reconcile_unserved [OF unserved]
      by (rule stopSubscription_ok, subst runningOk_cong [where w = w]) (simp_all add: brokerInvD(1) [OF inv])
  qed (simp_all add: reconcile_unserved [OF unserved] update_conv' unserved)
next
  case (failed bt e si)
  have "indexOk si" using failed(2) brokerInvD(2) [OF inv] by (auto simp: Update_ok)
  then show ?thesis
  proof (intro brokerInv_noted [OF inv failed(1)])
    show "runningOk (reconcileBroker b env t w)"
      by (subst runningOk_cong [where w = w]) (simp_all add: failed(3) brokerInvD(1) [OF inv])
  qed (simp_all add: failed(3))
next
  case (resolved bt ig spec creds)
  note r = reconcile_resolved [OF resolved]
  show ?thesis
  proof (rule brokerInv_noted [OF inv resolved(1)])
    show "runningOk (reconcileBroker b env t w)"
      unfolding r by (rule ensureSubscription_ok, subst runningOk_cong [where w = w]) (simp_all add: brokerInvD(1) [OF inv])
    show "k = triggerKey t \<or> map_of (bw_subscriptions w) k \<noteq> None"
      if "map_of (bw_subscriptions (reconcileBroker b env t w)) k = Some sub" for k sub
      using that unfolding r by (cases "k = triggerKey t") (simp_all add: ensureSubscription_other)
    show "indexOk (bw_secretIndex (reconcileBroker b env t w))" using brokerInvD(2) [OF inv] by (simp add: r Update_ok)
  qed (simp_all add: r)
qed

lemma reprocessTriggers_inv: "brokerInv b w \<Longrightarrow> brokerInv b (reprocessTriggers b env keys w)"
  by (induction keys arbitrary: w) (simp_all add: reconcile_inv split: option.split)

lemma step_inv:
  assumes "brokerInv b w"
  shows "brokerInv b (brokerStep b env e w)"
proof (cases e)
  case (TriggerGone obj)
  then show ?thesis using assms by (cases obj) (simp_all add: onTriggerDelete_inv)
qed (simp_all add: assms reconcile_inv onSecretChange_def onIntegrationChange_def reprocessTriggers_inv)

lemma brokerInv_new: "brokerInv b newBrokerWatcher"
  by (simp add: brokerInv_def newBrokerWatcher_def runningOk_def)

lemma watcher_inv: "brokerInv b (fold (\<lambda>(env, e). brokerStep b env e) es newBrokerWatcher)"
proof -
  have "brokerInv b (fold (\<lambda>(env, e). brokerStep b env e) es w)" if "brokerInv b w" for w
    using that by (induction es arbitrary: w) (auto simp: step_inv)
  then show ?thesis using brokerInv_new by blast
qed

text \<open>Reprocessing a Trigger that resolves and starts leaves it with the current credentials.\<close>

lemma reconcile_current:
  assumes "servedTrigger b t = Some bt" "bk_integration env (tr_namespace t) (br_integrationRef b bt) = Inr ig"
    and "br_spec b ig = Some spec" "br_resolve b env (tr_namespace t) spec = (creds, None)"
    and "br_start b env t bt spec creds = (Inr consumer, files)"
  shows "\<exists>sub. map_of (bw_subscriptions (reconcileBroker b env t w)) (triggerKey t) = Some sub \<and> sameSubscription b t bt creds sub"
proof -
  let ?w = "recordCredentialSuccess (br_type b) (triggerKey t) (br_integrationRef b bt)
      (noted b t bt (Update (triggerKey t) (cr_secretRefs creds) (bw_secretIndex w)) w)"
  show ?thesis
    unfolding reconcile_resolved [OF assms(1-4)]
    by (cases "map_of (bw_subscriptions ?w) (triggerKey t)")
      (auto simp: ensureSubscription_def startSubscription_started [OF assms(5)] sameSubscription_def)
qed

lemma reconcile_other: "k \<noteq> triggerKey t \<Longrightarrow> map_of (bw_subscriptions (reconcileBroker b env t w)) k = map_of (bw_subscriptions w) k"
proof (cases rule: reconcile_cases [where b = b and t = t and env = env and w = w])
  case unserved
  then show "k \<noteq> triggerKey t \<Longrightarrow> ?thesis" by (simp add: reconcile_unserved)
next
  case (failed bt e si)
  then show "k \<noteq> triggerKey t \<Longrightarrow> ?thesis" by simp
next
  case (resolved bt ig spec creds)
  then show "k \<noteq> triggerKey t \<Longrightarrow> ?thesis" by (simp add: reconcile_resolved [OF resolved] ensureSubscription_other)
qed

lemma reconcile_triggers: "bw_triggers (reconcileBroker b env t w) = AList.update (triggerKey t) t (bw_triggers w)"
proof (cases rule: reconcile_cases [where b = b and t = t and env = env and w = w])
  case unserved
  then show ?thesis by (simp add: reconcile_unserved)
next
  case (failed bt e si)
  then show ?thesis by simp
next
  case (resolved bt ig spec creds)
  then show ?thesis by (simp add: reconcile_resolved [OF resolved])
qed

lemma reprocess_current:
  assumes "brokerInv b w" "map_of (bw_triggers w) k = Some t"
    and "\<And>w. \<exists>sub. map_of (bw_subscriptions (reconcileBroker b env t w)) k = Some sub \<and> P sub"
    and "k \<in> set keys \<or> (\<exists>sub. map_of (bw_subscriptions w) k = Some sub \<and> P sub)"
  shows "\<exists>sub. map_of (bw_subscriptions (reprocessTriggers b env keys w)) k = Some sub \<and> P sub"
  using assms(1,2,4)
proof (induction keys arbitrary: w)
  case (Cons k' keys)
  show ?case
  proof (cases "map_of (bw_triggers w) k'")
    case None
    then have "k' \<noteq> k" using Cons.prems(2) by auto
    then show ?thesis using Cons.IH [OF Cons.prems(1,2)] Cons.prems(3) None by auto
  next
    case (Some t')
    let ?w = "reconcileBroker b env t' w"
    have key: "triggerKey t' = k'" by (rule brokerInvD(4) [OF Cons.prems(1) Some])
    have known: "map_of (bw_triggers ?w) k = Some t" using Some Cons.prems(2) key by (auto simp: reconcile_triggers update_conv')
    have "k \<in> set keys \<or> (\<exists>sub. map_of (bw_subscriptions ?w) k = Some sub \<and> P sub)"
    proof (cases "k' = k")
      case True
      then have "t' = t" using Some Cons.prems(2) by simp
      then show ?thesis using assms(3) by blast
    next
      case False
      then show ?thesis using Cons.prems(3) reconcile_other [of k t' env w] key by auto
    qed
    then show ?thesis using Cons.IH [OF reconcile_inv [OF Cons.prems(1)] known] Some by simp
  qed
qed simp

end

section \<open>Consumers match the Triggers\<close>

text \<open>Every event may find other answers of the API server and of the broker: the environment changes with the event.\<close>

definition brokerHistory :: "('t, 's) broker \<Rightarrow> (brokerEnv \<times> brokerEvent) list \<Rightarrow> brokerWatcher" where
  "brokerHistory b es = fold (\<lambda>(env, e). brokerStep b env e) es newBrokerWatcher"

definition consumersMatch :: "('t, 's) broker \<Rightarrow> brokerWatcher \<Rightarrow> bool" where
  "consumersMatch b w \<longleftrightarrow>
     (\<forall>c x. (c, x) \<in> set (bw_running w) \<longrightarrow> (\<exists>t. map_of (bw_triggers w) (consumerKey x) = Some t \<and> servedTrigger b t \<noteq> None)) \<and>
     (\<forall>c x c' x'. (c, x) \<in> set (bw_running w) \<longrightarrow> (c', x') \<in> set (bw_running w) \<longrightarrow> consumerKey x = consumerKey x' \<longrightarrow> c = c' \<and> x = x') \<and>
     (\<forall>i. set (ObjectsFor i (bw_integrationIndex w)) =
        {k. \<exists>t bt. map_of (bw_triggers w) k = Some t \<and> servedTrigger b t = Some bt \<and> i = integrationKey b t bt})"

lemma brokerInv_match:
  assumes "brokerInv b w"
  shows "consumersMatch b w"
  unfolding consumersMatch_def
proof (intro conjI allI impI)
  have run: "map_of (bw_running w) c = Some x" if "(c, x) \<in> set (bw_running w)" for c x
    using that runningOkD(1) [OF brokerInvD(1) [OF assms]] by simp
  note sub = runningOkD(3) [OF brokerInvD(1) [OF assms]]
  show "\<exists>t. map_of (bw_triggers w) (consumerKey x) = Some t \<and> servedTrigger b t \<noteq> None" if "(c, x) \<in> set (bw_running w)" for c x
    using sub [OF run [OF that]] brokerInvD(6) [OF assms] by blast
  fix c x c' x'
  assume a: "(c, x) \<in> set (bw_running w)" "(c', x') \<in> set (bw_running w)" "consumerKey x = consumerKey x'"
  then show "c = c'" using sub [OF run [OF a(1)]] sub [OF run [OF a(2)]] by auto
  then show "x = x'" using run [OF a(1)] run [OF a(2)] by simp
next
  show "set (ObjectsFor i (bw_integrationIndex w)) =
      {k. \<exists>t bt. map_of (bw_triggers w) k = Some t \<and> servedTrigger b t = Some bt \<and> i = integrationKey b t bt}" for i
    unfolding secrets.objectsFor_deps [OF brokerInvD(3) [OF assms]] brokerInvD(5) [OF assms] by simp
qed

definition kafkaHistory :: "(brokerEnv \<times> brokerEvent) list \<Rightarrow> brokerWatcher" where
  "kafkaHistory es = fold (\<lambda>(env, e). kafkaStep env e) es newBrokerWatcher"

definition amqpHistory :: "(brokerEnv \<times> brokerEvent) list \<Rightarrow> brokerWatcher" where
  "amqpHistory es = fold (\<lambda>(env, e). amqpStep env e) es newBrokerWatcher"

definition natsHistory :: "(brokerEnv \<times> brokerEvent) list \<Rightarrow> brokerWatcher" where
  "natsHistory es = fold (\<lambda>(env, e). natsStep env e) es newBrokerWatcher"

lemma history_inv:
  "brokerInv kafkaBroker (kafkaHistory es)" "brokerInv amqpBroker (amqpHistory es)" "brokerInv natsBroker (natsHistory es)"
  unfolding kafkaHistory_def amqpHistory_def natsHistory_def gateway_defs
  by (fact kafkaGateway.watcher_inv amqpGateway.watcher_inv natsGateway.watcher_inv)+


section \<open>Rotation\<close>

context broker_contract
begin

lemma rotation:
  assumes "brokerInv b w0" "servedTrigger b t = Some bt"
    and "bk_integration env (tr_namespace t) (br_integrationRef b bt) = Inr ig" "br_spec b ig = Some spec"
    and "br_resolve b env (tr_namespace t) spec = (creds, None)"
    and "bk_integration env' (tr_namespace t) (br_integrationRef b bt) = Inr ig'" "br_spec b ig' = Some spec"
    and "br_resolve b env' (tr_namespace t) spec = (creds', None)" "creds' \<noteq> creds"
    and "br_start b env' t bt spec creds' = (Inr consumer, files)"
  shows "\<exists>name sub. bk_secret env' (tr_namespace t) name \<noteq> bk_secret env (tr_namespace t) name \<and>
    map_of (bw_subscriptions (onSecretChange b env' \<lparr>nn_namespace = tr_namespace t, nn_name = name\<rparr> (reconcileBroker b env t w0)))
      (triggerKey t) = Some sub \<and> sameSubscription b t bt creds' sub"
proof -
  let ?w = "reconcileBroker b env t w0"
  have "br_resolve b env' (tr_namespace t) spec \<noteq> (creds, None)" using assms(8,9) by simp
  then obtain n where n: "\<lparr>nn_namespace = tr_namespace t, nn_name = n\<rparr> \<in> set (cr_secretRefs creds)"
      "bk_secret env' (tr_namespace t) n \<noteq> bk_secret env (tr_namespace t) n"
    by (rule changed_secret [OF assms(5)])
  have inv: "brokerInv b ?w" by (rule reconcile_inv [OF assms(1)])
  have row: "triggerKey t \<in> set (ObjectsFor \<lparr>nn_namespace = tr_namespace t, nn_name = n\<rparr> (bw_secretIndex ?w))"
    using n(1) brokerInvD(2) [OF assms(1)] secrets.objectsFor_deps [OF brokerInvD(2) [OF inv]]
    by (simp add: reconcile_resolved [OF assms(2-5)] secrets.deps_update)
  have "\<exists>sub. map_of (bw_subscriptions (reprocessTriggers b env' (ObjectsFor \<lparr>nn_namespace = tr_namespace t, nn_name = n\<rparr> (bw_secretIndex ?w)) ?w))
      (triggerKey t) = Some sub \<and> sameSubscription b t bt creds' sub"
    by (rule reprocess_current [OF inv])
      (use row reconcile_current [OF assms(2,6,7,8,10)] in \<open>simp_all add: reconcile_triggers update_conv'\<close>)
  with n(2) show ?thesis by (auto simp: onSecretChange_def)
qed

end


section \<open>Where the watcher does not follow\<close>

text \<open>C40: A Secret that is missing when its Trigger is first seen is never waited for: the failed resolution reports no
  Secret, so the index has no row, and the creation of any Secret leaves the watcher as it is and the Trigger without
  a consumer.\<close>

theorem kafka_missing_secret_not_awaited:
  assumes "servedTrigger kafkaBroker t = Some kt" "bk_integration env (tr_namespace t) (kk_integrationRef kt) = Inr ig"
    and "ig_kafka ig = Some spec" "ki_tls spec = None" "ki_sasl spec = Some sasl"
    and "bk_secret env (tr_namespace t) (ks_name (ksc_usernameSecretRef sasl)) = Inl e"
    and "w = reconcileKafkaTrigger env t newBrokerWatcher"
  shows "handleKafkaSecret env' secretKey w = w \<and> map_of (bw_subscriptions w) (triggerKey t) = None"
proof -
  obtain err where "br_resolve kafkaBroker env (tr_namespace t) spec = (noCredentials, Some err)"
    using assms(4-6) by (simp add: kafkaBroker_def resolveKafkaCredentials_def secretStage_def pairStage_def readBrokerSecret_def fingerprinted_def)
  then have w: "w = recordCredentialFailure (br_type kafkaBroker) (triggerKey t) (kk_integrationRef kt) err
      (noted kafkaBroker t kt (Update (triggerKey t) [] newIndex) newBrokerWatcher)"
    using reconcile_unresolved [OF assms(1), of env ig spec noCredentials err newBrokerWatcher] assms(2,3) assms(7) [unfolded gateway_defs]
    by (simp add: kafkaBroker_def noCredentials_def newBrokerWatcher_def)
  have "ObjectsFor secretKey (bw_secretIndex w) = []"
    by (simp add: w Update_def newIndex_def ObjectsFor_def setOf_def Let_def)
  then show ?thesis unfolding gateway_defs by (simp add: onSecretChange_def w newBrokerWatcher_def)
qed

text \<open>A Trigger edited to start another Flow goes on starting the old one: the consumer keeps running, and every message
  it handles becomes a FlowRun of the Flow the Trigger named when the consumer was started.\<close>

theorem kafka_edited_flow_ignored:
  assumes "servedTrigger kafkaBroker t = Some kt" "bk_integration env (tr_namespace t) (kk_integrationRef kt) = Inr ig"
    and "ig_kafka ig = Some spec" "resolveKafkaCredentials env (tr_namespace t) spec = (creds, None)"
    and "startKafka env t kt spec creds = (Inr consumer, files)"
    and "t' = t\<lparr>tr_spec := (tr_spec t)\<lparr>ts_flowRef := flow'\<rparr>\<rparr>"
    and "w = reconcileBroker kafkaBroker env t' (reconcileBroker kafkaBroker env t newBrokerWatcher)"
  shows "map_of (bw_triggers w) (triggerKey t) = Some t' \<and> map snd (bw_running w) = [consumer] \<and>
    frs_flowRef (fr_spec (kafkaRun (consumerHandler consumer) tp m)) = ts_flowRef (tr_spec t)"
proof -
  have t': "triggerKey t' = triggerKey t" "tr_namespace t' = tr_namespace t" "servedTrigger kafkaBroker t' = Some kt"
      "br_source kafkaBroker t' kt = br_source kafkaBroker t kt"
    using assms(1) by (auto simp: assms(6) triggerKey_def servedTrigger_def kafkaBroker_def consumerGroup_def split: if_splits)
  let ?w1 = "reconcileBroker kafkaBroker env t newBrokerWatcher"
  have st: "br_start kafkaBroker env t kt spec creds = (Inr consumer, files)" using assms(5) by (simp add: kafkaBroker_def)
  note r = reconcile_resolved [where b = kafkaBroker, OF assms(1), of env ig spec creds] reconcile_resolved [where b = kafkaBroker, OF t'(3), of env ig spec creds]
  have hyp: "bk_integration env (tr_namespace t) (br_integrationRef kafkaBroker kt) = Inr ig" "br_spec kafkaBroker ig = Some spec"
      "br_resolve kafkaBroker env (tr_namespace t) spec = (creds, None)"
    using assms(2-4) by (simp_all add: kafkaBroker_def)
  have run1: "bw_running ?w1 = [(0, consumer)]"
    by (simp add: r(1) [OF hyp] ensureSubscription_def startSubscription_started [OF st] newBrokerWatcher_def)
  obtain sub where sub: "map_of (bw_subscriptions ?w1) (triggerKey t) = Some sub" "sameSubscription kafkaBroker t kt creds sub"
    using kafkaGateway.reconcile_current [OF assms(1) hyp st, of newBrokerWatcher] by blast
  then have "sameSubscription kafkaBroker t' kt creds sub" by (simp add: sameSubscription_def t'(4))
  then have "bw_running w = [(0, consumer)]"
    using sub(1) run1 by (simp add: assms(7) r(2) [unfolded t'(2), OF hyp] ensureSubscription_def t'(1))
  moreover have "map_of (bw_triggers w) (triggerKey t) = Some t'"
    by (simp add: assms(7) kafkaGateway.reconcile_triggers update_conv' t'(1))
  moreover have "frs_flowRef (fr_spec (kafkaRun (consumerHandler consumer) tp m)) = ts_flowRef (tr_spec t)"
    by (simp add: kafkaRun_def messageRun_def triggeredRun_def kafkaGateway.started [OF st] handlerOf_def case_prod_beta)
  ultimately show ?thesis by simp
qed

text \<open>A NATS connection that fails leaves the credentials behind: the file with the contents of the Secret stays in the
  temporary directory although nothing runs, and deleting the Trigger does not remove it.\<close>

theorem nats_failed_start_leaks_credentials:
  assumes "servedTrigger natsBroker t = Some nt" "bk_integration env (tr_namespace t) (nt_integrationRef nt) = Inr ig"
    and "ig_nats ig = Some spec" "resolveNatsCredentials env (tr_namespace t) spec = (creds, None)"
    and "ni_tls spec = None" "ni_credentialsSecretRef spec = Some secret" "bk_createTemp env = Inr path"
    and "bk_writeTemp env = None" "bk_closeTemp env = None" "\<And>opts. bk_natsConnect env (joinStr '','' (ni_servers spec)) opts = Some err"
    and "w = reconcileBroker natsBroker env t newBrokerWatcher"
  shows "bw_running w = [] \<and> bw_files w = [(path, cr_credsContent creds)] \<and>
    bw_running (onTriggerDelete t w) = [] \<and> bw_files (onTriggerDelete t w) = [(path, cr_credsContent creds)]"
proof -
  have hyp: "bk_integration env (tr_namespace t) (br_integrationRef natsBroker nt) = Inr ig" "br_spec natsBroker ig = Some spec"
      "br_resolve natsBroker env (tr_namespace t) spec = (creds, None)"
    using assms(2-4) by (simp_all add: natsBroker_def)
  have "natsSubscribe env t nt spec \<lparr>no_tls = None, no_auth = NatsCredsFile path\<rparr> =
      Inl (Fmt ''connect to nats for trigger %s/%s: %w'' [Txt (tr_namespace t), Txt (tr_name t), err])"
    by (simp add: natsSubscribe_def Let_def assms(10))
  then have st: "br_start natsBroker env t nt spec creds =
      (Inl (Fmt ''connect to nats for trigger %s/%s: %w'' [Txt (tr_namespace t), Txt (tr_name t), err]), [(path, cr_credsContent creds)])"
    using assms(5-9) by (simp add: natsBroker_def startNats_def natsAuthOf_def)
  have "bw_running w = []" "bw_files w = [(path, cr_credsContent creds)]" "bw_subscriptions w = []"
    by (simp_all add: assms(11) reconcile_resolved [OF assms(1) hyp] ensureSubscription_def startSubscription_failed [OF st]
        newBrokerWatcher_def recordCredentialSuccess_def Let_def)
  then show ?thesis by (simp add: onTriggerDelete_def Let_def stopSubscription_def)
qed

text \<open>Two credentials whose concatenations agree have the same fingerprint, so rotating one into the other restarts nothing.\<close>

lemma kafka_fingerprint_ambiguous:
  assumes "ki_tls spec = None" "ki_sasl spec = Some sasl"
    and "readBrokerSecret env ns (ks_name (ksc_usernameSecretRef sasl)) (ks_key (ksc_usernameSecretRef sasl)) = Inr u"
    and "readBrokerSecret env ns (ks_name (ksc_passwordSecretRef sasl)) (ks_key (ksc_passwordSecretRef sasl)) = Inr p"
    and "readBrokerSecret env' ns (ks_name (ksc_usernameSecretRef sasl)) (ks_key (ksc_usernameSecretRef sasl)) = Inr u'"
    and "readBrokerSecret env' ns (ks_name (ksc_passwordSecretRef sasl)) (ks_key (ksc_passwordSecretRef sasl)) = Inr p'"
    and "u @ p = u' @ p'"
  shows "cr_fingerprint (fst (resolveKafkaCredentials env ns spec)) = cr_fingerprint (fst (resolveKafkaCredentials env' ns spec))"
  using assms by (simp add: resolveKafkaCredentials_def secretStage_def pairStage_def fingerprinted_def)

text \<open>Durable names are cut to 32 characters: Triggers that agree on the first 24 share a durable consumer.\<close>

lemma durableName_collision: "take 24 (tr_name t) = take 24 (tr_name t') \<Longrightarrow> durableName t = durableName t'"
  by (simp add: durableName_def)

section \<open>Credential events\<close>

text \<open>A recovery is reported only when the last report was a failure.\<close>

fun recoveriesOk :: "bool \<Rightarrow> credentialReport list \<Rightarrow> bool" where
  "recoveriesOk failed [] = True"
| "recoveriesOk failed (e # es) =
     (if ce_reason e = credentialResolutionSucceededReason then failed \<and> recoveriesOk False es else recoveriesOk True es)"

definition endsFailed :: "credentialReport list \<Rightarrow> bool" where
  "endsFailed es \<longleftrightarrow> es \<noteq> [] \<and> ce_reason (last es) \<noteq> credentialResolutionSucceededReason"

lemma recoveriesOk_snoc:
  "recoveriesOk failed (es @ [e]) \<longleftrightarrow> recoveriesOk failed es \<and>
     (ce_reason e = credentialResolutionSucceededReason \<longrightarrow> (if es = [] then failed else endsFailed es))"
  by (induction es arbitrary: failed) (auto simp: endsFailed_def)

definition eventsOf :: "namespacedName \<Rightarrow> brokerWatcher \<Rightarrow> credentialReport list" where
  "eventsOf k w = filter (\<lambda>e. ce_trigger e = k) (bw_events w)"

definition eventsInv :: "brokerWatcher \<Rightarrow> bool" where
  "eventsInv w \<longleftrightarrow> (\<forall>k. recoveriesOk False (eventsOf k w) \<and>
     (map_of (bw_credentialFailed w) k = Some True \<longrightarrow> endsFailed (eventsOf k w)))"

lemma eventsInv_weaker:
  "eventsInv w \<Longrightarrow> bw_events w' = bw_events w \<Longrightarrow>
   (\<And>k. map_of (bw_credentialFailed w') k = Some True \<Longrightarrow> map_of (bw_credentialFailed w) k = Some True) \<Longrightarrow> eventsInv w'"
  unfolding eventsInv_def eventsOf_def by presburger

lemma reasons_differ [simp]: "credentialResolutionFailedReason \<noteq> credentialResolutionSucceededReason"
  by (simp add: credentialResolutionFailedReason_def credentialResolutionSucceededReason_def)

lemma eventsInv_failure: "eventsInv w \<Longrightarrow> eventsInv (recordCredentialFailure kind k n e w)"
  by (auto simp: eventsInv_def eventsOf_def recordCredentialFailure_def recoveriesOk_snoc endsFailed_def update_conv' split: if_splits)

lemma eventsInv_success:
  assumes "eventsInv w"
  shows "eventsInv (recordCredentialSuccess kind k n w)"
proof (cases "map_of (bw_credentialFailed w) k = Some True")
  case True
  then have "endsFailed (eventsOf k w)" using assms by (simp add: eventsInv_def)
  then have "eventsOf k w \<noteq> [] \<and> endsFailed (eventsOf k w)" by (simp add: endsFailed_def)
  then show ?thesis using assms True
    by (auto simp: eventsInv_def eventsOf_def recordCredentialSuccess_def Let_def recoveriesOk_snoc update_conv' split: if_splits)
next
  case False
  show ?thesis
    by (rule eventsInv_weaker [OF assms]) (use False in \<open>auto simp: recordCredentialSuccess_def Let_def update_conv' split: if_splits\<close>)
qed

lemma eventsInv_reconcile:
  assumes "eventsInv w"
  shows "eventsInv (reconcileBroker b env t w)"
proof (cases rule: reconcile_cases [where b = b and t = t and env = env and w = w])
  case unserved
  show ?thesis by (rule eventsInv_weaker [OF assms]) (simp_all add: reconcile_unserved [OF unserved])
next
  case (failed bt e si)
  have "eventsInv (noted b t bt si w)" by (rule eventsInv_weaker [OF assms]) simp_all
  then show ?thesis by (simp add: failed(3) eventsInv_failure)
next
  case (resolved bt ig spec creds)
  let ?w = "noted b t bt (Update (triggerKey t) (cr_secretRefs creds) (bw_secretIndex w)) w"
  have "eventsInv ?w" by (rule eventsInv_weaker [OF assms]) simp_all
  then show ?thesis unfolding reconcile_resolved [OF resolved] by (rule eventsInv_weaker [OF eventsInv_success]) simp_all
qed

lemma eventsInv_reprocess: "eventsInv w \<Longrightarrow> eventsInv (reprocessTriggers b env keys w)"
  by (induction keys arbitrary: w) (simp_all add: eventsInv_reconcile split: option.split)

lemma eventsInv_delete: "eventsInv w \<Longrightarrow> eventsInv (onTriggerDelete t w)"
  by (erule eventsInv_weaker) (auto simp: onTriggerDelete_def Let_def delete_conv' split: if_splits)

lemma eventsInv_step: "eventsInv w \<Longrightarrow> eventsInv (brokerStep b env e w)"
  by (cases "(b, env, e, w)" rule: brokerStep.cases)
    (simp_all add: eventsInv_reconcile eventsInv_delete onSecretChange_def onIntegrationChange_def eventsInv_reprocess)

text \<open>After any history of events, a recovery is reported for a Trigger only directly after a failure was reported for it:
  a Trigger whose credentials always resolved has no event, and a lasting success is reported once.\<close>

theorem broker_recovery_follows_failure: "recoveriesOk False (eventsOf k (brokerHistory b es))"
proof -
  have "eventsInv (fold (\<lambda>(env, e). brokerStep b env e) es w)" if "eventsInv w" for w
    using that by (induction es arbitrary: w) (auto simp: eventsInv_step)
  moreover have "eventsInv newBrokerWatcher" by (simp add: eventsInv_def eventsOf_def newBrokerWatcher_def)
  ultimately have "eventsInv (brokerHistory b es)" unfolding brokerHistory_def by blast
  then show ?thesis by (simp add: eventsInv_def)
qed

section \<open>Examples\<close>

definition shopTrigger :: "string \<Rightarrow> string \<Rightarrow> trigger" where
  "shopTrigger kind flow =
     \<lparr>tr_name = ''orders'', tr_namespace = ''shop'', tr_generation = 1, tr_deletionTimestamp = None, tr_finalizers = [],
      tr_spec =
        \<lparr>ts_type = kind, ts_enabled = True, ts_webhook = None, ts_cron = None,
         ts_kafka = Some \<lparr>kk_integrationRef = ''bus'', kk_topic = ''orders'', kk_consumerGroup = []\<rparr>, ts_amqp = None,
         ts_nats = Some \<lparr>nt_integrationRef = ''bus'', nt_subject = ''orders''\<rparr>, ts_plugin = None, ts_resource = None, ts_flowRef = flow,
         ts_event = [], ts_cooldown = None, ts_flowRunGC = None\<rparr>,
      tr_status = \<lparr>tt_conditions = [], tt_lastTriggeredTime = None, tt_lastResult = [], tt_lastError = [], tt_currentInvocationCount = 0\<rparr>\<rparr>"

definition shopKafka :: kafkaIntegrationSpec where
  "shopKafka =
     \<lparr>ki_bootstrapServers = [''kafka:9092''], ki_tls = None,
      ki_sasl = Some \<lparr>ksc_mechanism = ''PLAIN'', ksc_usernameSecretRef = \<lparr>ks_name = ''login'', ks_key = ''user''\<rparr>,
                      ksc_passwordSecretRef = \<lparr>ks_name = ''login'', ks_key = ''pass''\<rparr>\<rparr>,
      ki_consumerGroupPrefix = []\<rparr>"

definition shopNats :: natsIntegrationSpec where
  "shopNats =
     \<lparr>ni_servers = [''nats:4222''], ni_tls = None, ni_credentialsSecretRef = Some ''login'', ni_usernameSecretRef = None,
      ni_passwordSecretRef = None, ni_jetStream = False\<rparr>"

definition shopBus :: integration where
  "shopBus =
     \<lparr>ig_name = ''bus'', ig_namespace = ''shop'', ig_generation = 1, ig_type = ''kafka'', ig_kafka = Some shopKafka, ig_amqp = None,
      ig_nats = Some shopNats, ig_plugin = None, ig_http = None, ig_status = emptyIntegrationStatus\<rparr>"

definition shopEnv :: "smap option \<Rightarrow> brokerEnv" where
  "shopEnv secret =
     \<lparr>bk_secret = (\<lambda>ns n. case secret of None \<Rightarrow> Inl NotFound | Some data \<Rightarrow> Inr data), bk_integration = (\<lambda>ns n. Inr shopBus),
      bk_appendCerts = (\<lambda>pem. True), bk_newConsumerGroup = (\<lambda>servers cg config. None), bk_createTemp = Inr ''/tmp/nats-creds-1.creds'',
      bk_writeTemp = None, bk_closeTemp = None, bk_natsConnect = (\<lambda>servers opts. Some (Txt ''no servers available'')),
      bk_jetStream = None, bk_natsSubscribe = (\<lambda>subject durable. None), bk_dial = (\<lambda>d. None), bk_channel = None,
      bk_channelCall = (\<lambda>c. None), bk_session = None, bk_receiver = (\<lambda>topic. None)\<rparr>"

definition login :: "string \<Rightarrow> smap" where
  "login pass = [(''user'', ''app''), (''pass'', pass), (''nats.creds'', ''jwt'')]"

definition shopCreds :: "string \<Rightarrow> credentials" where
  "shopCreds pass =
     \<lparr>cr_caPEM = [], cr_credsContent = [], cr_username = ''app'', cr_password = pass,
      cr_secretRefs = [\<lparr>nn_namespace = ''shop'', nn_name = ''login''\<rparr>, \<lparr>nn_namespace = ''shop'', nn_name = ''login''\<rparr>],
      cr_fingerprint = hexEncode (sha256 (''app'' @ pass))\<rparr>"

definition shopConsumer :: "string \<Rightarrow> string \<Rightarrow> consumer" where
  "shopConsumer flow pass =
     KafkaConsumer [''kafka:9092''] ''kubezap-orders'' \<lparr>kc_tls = None, kc_sasl = Some (''PLAIN'', ''app'', pass)\<rparr> ''orders''
       \<lparr>mh_triggerName = ''orders'', mh_triggerNamespace = ''shop'', mh_flowRefName = flow\<rparr>"

definition shopSource :: kafkaTrigger where
  "shopSource = \<lparr>kk_integrationRef = ''bus'', kk_topic = ''orders'', kk_consumerGroup = []\<rparr>"

lemma shop_served:
  "servedTrigger kafkaBroker (shopTrigger ''kafka'' flow) = Some shopSource"
  "servedTrigger natsBroker (shopTrigger ''nats'' flow) = Some \<lparr>nt_integrationRef = ''bus'', nt_subject = ''orders''\<rparr>"
  by (simp_all add: servedTrigger_def kafkaBroker_def natsBroker_def shopTrigger_def shopSource_def)

lemma shop_resolves: "resolveKafkaCredentials (shopEnv (Some (login pass))) ''shop'' shopKafka = (shopCreds pass, None)"
  by (simp add: resolveKafkaCredentials_def secretStage_def pairStage_def readBrokerSecret_def fingerprinted_def addRefs_def
      noCredentials_def shopCreds_def shopEnv_def login_def shopKafka_def)

lemma shop_starts:
  "startKafka (shopEnv s) (shopTrigger ''kafka'' flow) shopSource shopKafka (shopCreds pass) = (Inr (shopConsumer flow pass), [])"
  by (simp add: startKafka_def consumerTLS_def consumerSASL_def Let_def shopConsumer_def shopEnv_def shopCreds_def shopKafka_def
      shopSource_def shopTrigger_def handlerOf_def consumerGroup_def)

lemma shop_reads: "bk_integration (shopEnv s) ns n = Inr shopBus" "ig_kafka shopBus = Some shopKafka" "ig_nats shopBus = Some shopNats"
  by (simp_all add: shopEnv_def shopBus_def)

lemma shop_namespace: "tr_namespace (shopTrigger kind flow) = ''shop''"
  by (simp add: shopTrigger_def)

lemma shop_creds_differ: "shopCreds ''b'' \<noteq> shopCreds ''a''"
  by (simp add: shopCreds_def)


theorem kafka_missing_secret_not_awaited_witness:
  "let w = reconcileKafkaTrigger (shopEnv None) (shopTrigger ''kafka'' ''ship'') newBrokerWatcher
   in handleKafkaSecret (shopEnv (Some (login ''a''))) \<lparr>nn_namespace = ''shop'', nn_name = ''login''\<rparr> w = w \<and>
      map_of (bw_subscriptions w) (triggerKey (shopTrigger ''kafka'' ''ship'')) = None"
  unfolding Let_def
  by (rule kafka_missing_secret_not_awaited [OF shop_served(1) shop_reads(1) [of None] shop_reads(2) _ _ _ refl, where e = NotFound])
    (simp_all add: shopKafka_def shopEnv_def)

theorem kafka_edited_flow_ignored_witness:
  "let w = reconcileBroker kafkaBroker (shopEnv (Some (login ''a''))) (shopTrigger ''kafka'' ''return'')
       (reconcileBroker kafkaBroker (shopEnv (Some (login ''a''))) (shopTrigger ''kafka'' ''ship'') newBrokerWatcher)
   in map_of (bw_triggers w) (triggerKey (shopTrigger ''kafka'' ''ship'')) = Some (shopTrigger ''kafka'' ''return'') \<and>
      map snd (bw_running w) = [shopConsumer ''ship'' ''a''] \<and>
      frs_flowRef (fr_spec (kafkaRun (consumerHandler (shopConsumer ''ship'' ''a'')) [] order7)) = ts_flowRef (tr_spec (shopTrigger ''kafka'' ''ship''))"
  unfolding Let_def
proof (rule kafka_edited_flow_ignored [OF shop_served(1) shop_reads(1,2) _ shop_starts])
  show "resolveKafkaCredentials (shopEnv (Some (login ''a''))) (tr_namespace (shopTrigger ''kafka'' ''ship'')) shopKafka = (shopCreds ''a'', None)"
    by (simp only: shop_namespace shop_resolves)
  show "shopTrigger ''kafka'' ''return'' =
      (shopTrigger ''kafka'' ''ship'')\<lparr>tr_spec := (tr_spec (shopTrigger ''kafka'' ''ship''))\<lparr>ts_flowRef := ''return''\<rparr>\<rparr>"
    by (simp add: shopTrigger_def)
qed (rule refl)

theorem nats_failed_start_leaks_credentials_witness:
  "let w = reconcileBroker natsBroker (shopEnv (Some (login ''a''))) (shopTrigger ''nats'' ''ship'') newBrokerWatcher
   in bw_running w = [] \<and> bw_files w = [(''/tmp/nats-creds-1.creds'', ''jwt'')] \<and>
      bw_running (onTriggerDelete (shopTrigger ''nats'' ''ship'') w) = [] \<and>
      bw_files (onTriggerDelete (shopTrigger ''nats'' ''ship'') w) = [(''/tmp/nats-creds-1.creds'', ''jwt'')]"
proof -
  let ?creds = "\<lparr>cr_caPEM = [], cr_credsContent = ''jwt'', cr_username = [], cr_password = [],
      cr_secretRefs = [\<lparr>nn_namespace = ''shop'', nn_name = ''login''\<rparr>], cr_fingerprint = hexEncode (sha256 ''jwt'')\<rparr>"
  have "resolveNatsCredentials (shopEnv (Some (login ''a''))) (tr_namespace (shopTrigger ''nats'' ''ship'')) shopNats = (?creds, None)"
    by (simp add: resolveNatsCredentials_def secretStage_def readBrokerSecret_def fingerprinted_def addRefs_def noCredentials_def shopEnv_def
        login_def shopNats_def shop_namespace)
  from nats_failed_start_leaks_credentials [OF shop_served(2) shop_reads(1,3) this, where secret = "''login''" and w = "reconcileBroker natsBroker (shopEnv (Some (login ''a''))) (shopTrigger ''nats'' ''ship'') newBrokerWatcher"
      and path = "''/tmp/nats-creds-1.creds''" and err = "Txt ''no servers available''"]
  show ?thesis by (simp add: shopNats_def shopEnv_def Let_def del: joinStr.simps)
qed

end
