(* ===== verification/AmqpSession.thy ===== *)
theory AmqpSession
  imports BrokerConsumers
begin

text \<open>
  The connections of the AMQP gateway (\<^verbatim>\<open>internal/gateway/amqp/watcher.go\<close>): dialling with the credentials of the
  Integration, declaring the queue and its binding, consuming until the connection ends, and the loop that reconnects
  with a growing delay. A connection is one element of the list the loop runs over: what the environment answers and what
  the broker delivers on it. The list ends where the context of the subscription is cancelled.
\<close>

section \<open>Dialling\<close>

definition embedCredsInURL :: "string \<Rightarrow> string \<Rightarrow> string \<Rightarrow> string" where
  "embedCredsInURL rawURL username password =
     (if hasPrefix rawURL ''amqps://'' then ''amqps://'' @ username @ '':'' @ password @ ''@'' @ drop 8 rawURL
      else if hasPrefix rawURL ''amqp://'' then ''amqp://'' @ username @ '':'' @ password @ ''@'' @ drop 7 rawURL
      else rawURL)"

text \<open>\<^verbatim>\<open>buildTLSConfig091\<close> and \<^verbatim>\<open>buildTLSConfig10\<close> are the same.\<close>

definition buildTLSConfig :: "brokerEnv \<Rightarrow> string \<Rightarrow> amqpIntegrationSpec \<Rightarrow> clientTLS result" where
  "buildTLSConfig env namespace spec =
     (case ai_tls spec of
        None \<Rightarrow> Inr (False, None)
      | Some tc \<Rightarrow>
          (case at_caSecretRef tc of
             None \<Rightarrow> Inr (at_insecureSkipVerify tc, None)
           | Some ref \<Rightarrow>
               (case readBrokerSecret env namespace (ks_name ref) (ks_key ref) of
                  Inl err \<Rightarrow> Inl (Fmt ''reading CA cert secret: %w'' [err])
                | Inr caPEM \<Rightarrow> caConfig env namespace (at_insecureSkipVerify tc) (Some ref) caPEM)))"

definition readLogin :: "brokerEnv \<Rightarrow> string \<Rightarrow> amqpIntegrationSpec \<Rightarrow> (string \<times> string) option result" where
  "readLogin env namespace spec =
     (case ai_usernameSecretRef spec of
        None \<Rightarrow> Inr None
      | Some uref \<Rightarrow>
          (case readBrokerSecret env namespace (ks_name uref) (ks_key uref) of
             Inl err \<Rightarrow> Inl (Fmt ''reading username secret: %w'' [err])
           | Inr username \<Rightarrow>
               (case ai_passwordSecretRef spec of
                  None \<Rightarrow> Inr (Some (username, []))
                | Some pref \<Rightarrow>
                    (case readBrokerSecret env namespace (ks_name pref) (ks_key pref) of
                       Inl err \<Rightarrow> Inl (Fmt ''reading password secret: %w'' [err])
                     | Inr password \<Rightarrow> Inr (Some (username, password))))))"

definition needsTLS :: "amqpIntegrationSpec \<Rightarrow> string \<Rightarrow> bool" where
  "needsTLS spec url \<longleftrightarrow> (case ai_tls spec of Some tc \<Rightarrow> at_enabled tc | None \<Rightarrow> False) \<or> hasPrefix url ''amqps://''"

definition tlsFor :: "brokerEnv \<Rightarrow> string \<Rightarrow> amqpIntegrationSpec \<Rightarrow> string \<Rightarrow> clientTLS option result" where
  "tlsFor env namespace spec url =
     (if needsTLS spec url then
        (case buildTLSConfig env namespace spec of
           Inl err \<Rightarrow> Inl (Fmt ''building TLS config: %w'' [err])
         | Inr c \<Rightarrow> Inr (Some c))
      else Inr None)"

text \<open>The login of AMQP 0-9-1 goes into the URL, the one of AMQP 1.0 into the options.\<close>

definition loginURL :: "string \<Rightarrow> (string \<times> string) option \<Rightarrow> string" where
  "loginURL url creds = (case creds of None \<Rightarrow> url | Some (username, password) \<Rightarrow> embedCredsInURL url username password)"

definition dial091 :: "brokerEnv \<Rightarrow> string \<Rightarrow> amqpIntegrationSpec \<Rightarrow> amqpDial result" where
  "dial091 env namespace spec =
     bindR (readLogin env namespace spec) (\<lambda>creds.
       (let url = loginURL (ai_url spec) creds
        in bindR (tlsFor env namespace spec url) (\<lambda>tls.
             (let plan = \<lparr>ad_url = url, ad_tls = tls, ad_sasl = None\<rparr>
              in case bk_dial env plan of Some err \<Rightarrow> Inl (Fmt ''dialing amqp broker: %w'' [err]) | None \<Rightarrow> Inr plan))))"

definition dial10 :: "brokerEnv \<Rightarrow> string \<Rightarrow> amqpIntegrationSpec \<Rightarrow> amqpDial result" where
  "dial10 env namespace spec =
     bindR (tlsFor env namespace spec (ai_url spec)) (\<lambda>tls.
       bindR (readLogin env namespace spec) (\<lambda>creds.
         (let plan = \<lparr>ad_url = ai_url spec, ad_tls = tls, ad_sasl = creds\<rparr>
          in case bk_dial env plan of Some err \<Rightarrow> Inl (Fmt ''dialing amqp 1.0 broker: %w'' [err]) | None \<Rightarrow> Inr plan)))"

section \<open>Declaring and consuming\<close>

text \<open>The calls on the channel up to the first that fails, with the error.\<close>

fun channelCalls :: "brokerEnv \<Rightarrow> (channelCall \<times> (msg \<Rightarrow> msg)) list \<Rightarrow> msg option \<times> channelCall list" where
  "channelCalls env [] = (None, [])"
| "channelCalls env ((c, wrap) # cs) =
     (case bk_channelCall env c of
        Some err \<Rightarrow> (Some (wrap err), [c])
      | None \<Rightarrow> (case channelCalls env cs of (e, calls) \<Rightarrow> (e, c # calls)))"

definition declareCalls :: "string \<Rightarrow> string \<Rightarrow> amqpExchangeSpec option \<Rightarrow> string \<Rightarrow> (channelCall \<times> (msg \<Rightarrow> msg)) list" where
  "declareCalls topic routingKey exchange consumerTag =
     (case exchange of
        None \<Rightarrow> []
      | Some x \<Rightarrow> [(ExchangeDeclare (ax_name x) (ax_type x), \<lambda>err. Fmt ''declaring exchange %q: %w'' [Txt (ax_name x), err])]) @
     [(QueueDeclare topic, \<lambda>err. Fmt ''declaring queue %q: %w'' [Txt topic, err])] @
     (case exchange of
        None \<Rightarrow> []
      | Some x \<Rightarrow>
          [(QueueBind topic routingKey (ax_name x), \<lambda>err. Fmt ''binding queue %q to exchange %q: %w'' [Txt topic, Txt (ax_name x), err])]) @
     [(Consume topic consumerTag, \<lambda>err. Fmt ''starting consume on queue %q: %w'' [Txt topic, err])]"

definition declareAndBind091 ::
  "brokerEnv \<Rightarrow> string \<Rightarrow> string \<Rightarrow> amqpExchangeSpec option \<Rightarrow> string \<Rightarrow> msg option \<times> channelCall list" where
  "declareAndBind091 env topic routingKey exchange consumerTag = channelCalls env (declareCalls topic routingKey exchange consumerTag)"

text \<open>A connection ends with an error before it consumes, or without one when the deliveries end.\<close>

definition connect091 ::
  "trigger \<Rightarrow> amqpTrigger \<Rightarrow> amqpIntegrationSpec \<Rightarrow> brokerEnv \<times> channelEvent list \<Rightarrow> channelState \<Rightarrow> msg option \<times> channelState" where
  "connect091 t at spec conn st =
     (case conn of (env, evs) \<Rightarrow>
        case dial091 env (tr_namespace t) spec of
          Inl err \<Rightarrow> (Some err, st)
        | Inr _ \<Rightarrow>
            (case bk_channel env of
               Some err \<Rightarrow> (Some (Fmt ''opening amqp channel: %w'' [err]), st)
             | None \<Rightarrow>
                 (case fst (declareAndBind091 env (at_topic at) (at_routingKey at) (at_exchange at) (''kubezap-'' @ tr_name t)) of
                    Some err \<Rightarrow> (Some err, st)
                  | None \<Rightarrow> (None, run091 (handlerOf t) evs st))))"

definition connect10 ::
  "trigger \<Rightarrow> amqpTrigger \<Rightarrow> amqpIntegrationSpec \<Rightarrow> brokerEnv \<times> receiveEvent list \<Rightarrow> receiverState \<Rightarrow> msg option \<times> receiverState" where
  "connect10 t at spec conn st =
     (case conn of (env, evs) \<Rightarrow>
        case dial10 env (tr_namespace t) spec of
          Inl err \<Rightarrow> (Some err, st)
        | Inr _ \<Rightarrow>
            (case bk_session env of
               Some err \<Rightarrow> (Some (Fmt ''creating amqp 1.0 session: %w'' [err]), st)
             | None \<Rightarrow>
                 (case bk_receiver env (at_topic at) of
                    Some err \<Rightarrow> (Some (Fmt ''creating amqp 1.0 receiver for %q: %w'' [Txt (at_topic at), err]), st)
                  | None \<Rightarrow> (None, run10 (handlerOf t) evs st))))"

section \<open>Reconnecting\<close>

definition initialBackoff :: duration where "initialBackoff = 5 * 1000000000"
definition maxBackoff :: duration where "maxBackoff = 60 * 1000000000"

text \<open>
  The loop of \<^verbatim>\<open>runSubscription091\<close> and \<^verbatim>\<open>runSubscription10\<close>: the delays it waits and the state it ends with.
\<close>

fun runSubscription :: "('x \<Rightarrow> 's \<Rightarrow> msg option \<times> 's) \<Rightarrow> duration \<Rightarrow> 'x list \<Rightarrow> 's \<Rightarrow> duration list \<times> 's" where
  "runSubscription connect backoff [] st = ([], st)"
| "runSubscription connect backoff (x # xs) st =
     (case connect x st of
        (None, st') \<Rightarrow> runSubscription connect initialBackoff xs st'
      | (Some err, st') \<Rightarrow>
          (case runSubscription connect (min (backoff * 2) maxBackoff) xs st' of (waits, st'') \<Rightarrow> (backoff # waits, st'')))"

definition runSubscription091 ::
  "trigger \<Rightarrow> amqpTrigger \<Rightarrow> amqpIntegrationSpec \<Rightarrow> (brokerEnv \<times> channelEvent list) list \<Rightarrow> channelState \<Rightarrow> duration list \<times> channelState" where
  "runSubscription091 t at spec = runSubscription (connect091 t at spec) initialBackoff"

definition runSubscription10 ::
  "trigger \<Rightarrow> amqpTrigger \<Rightarrow> amqpIntegrationSpec \<Rightarrow> (brokerEnv \<times> receiveEvent list) list \<Rightarrow> receiverState \<Rightarrow> duration list \<times> receiverState" where
  "runSubscription10 t at spec = runSubscription (connect10 t at spec) initialBackoff"

section \<open>Reconnection\<close>

lemma backoff_doubles:
  assumes "0 \<le> backoff"
  shows "min (min (backoff * 2) maxBackoff * 2 ^ i) maxBackoff = min (backoff * 2 ^ Suc i) maxBackoff"
proof (cases "backoff * 2 \<le> maxBackoff")
  case False
  have grows: "x \<le> x * 2 ^ i" if "0 \<le> x" for x :: int using mult_left_mono [of 1 "2 ^ i" x] that by simp
  have "maxBackoff \<le> maxBackoff * 2 ^ i" by (rule grows) (simp add: maxBackoff_def)
  moreover have "maxBackoff \<le> backoff * 2 ^ Suc i" using grows [of "backoff * 2"] assms False by (simp add: mult.assoc)
  ultimately show ?thesis using False by (simp only: min_def) simp
qed (simp add: min_def mult.assoc)

lemma runSubscription_failing:
  assumes "\<And>x st. x \<in> set xs \<Longrightarrow> \<exists>e. connect x st = (Some e, st)" "0 \<le> backoff" "backoff \<le> maxBackoff"
  shows "runSubscription connect backoff xs st = (map (\<lambda>i. min (backoff * 2 ^ i) maxBackoff) [0..<length xs], st)"
  using assms
proof (induction xs arbitrary: backoff)
  case (Cons x xs)
  obtain e where e: "connect x st = (Some e, st)" using Cons.prems(1) by auto
  have step: "runSubscription connect (min (backoff * 2) maxBackoff) xs st =
      (map (\<lambda>i. min (min (backoff * 2) maxBackoff * 2 ^ i) maxBackoff) [0..<length xs], st)"
    using Cons.prems by (intro Cons.IH) (simp_all add: maxBackoff_def)
  have "map (\<lambda>i. min (backoff * 2 ^ i) maxBackoff) [0..<length (x # xs)] =
      backoff # map (\<lambda>i. min (backoff * 2 ^ Suc i) maxBackoff) [0..<length xs]"
    using Cons.prems(3) by (simp add: upt_conv_Cons map_Suc_upt [symmetric] comp_def del: upt_Suc)
  then show ?case using step by (simp add: e backoff_doubles [OF Cons.prems(2)])
qed simp

lemma runSubscription_bounds:
  "initialBackoff \<le> backoff \<Longrightarrow> backoff \<le> maxBackoff \<Longrightarrow>
   list_all (\<lambda>w. initialBackoff \<le> w \<and> w \<le> maxBackoff) (fst (runSubscription connect backoff xs st))"
proof (induction xs arbitrary: backoff st)
  case (Cons x xs)
  show ?case
  proof (cases "fst (connect x st)")
    case None
    then show ?thesis using Cons.IH [of initialBackoff "snd (connect x st)"]
      by (simp add: case_prod_beta initialBackoff_def maxBackoff_def)
  next
    case (Some e)
    have "initialBackoff \<le> min (backoff * 2) maxBackoff" using Cons.prems by (simp add: initialBackoff_def maxBackoff_def)
    from Cons.IH [OF this, of "snd (connect x st)"] Cons.prems Some show ?thesis by (simp add: case_prod_beta)
  qed
qed simp

lemma connect091_failed:
  "fst (connect091 t at spec conn st) \<noteq> None \<Longrightarrow> snd (connect091 t at spec conn st) = st"
  by (auto simp: connect091_def split: prod.splits sum.splits option.splits)

text \<open>C20: While the broker cannot be reached the AMQP 0-9-1 gateway waits 5, 10, 20, 40 and then 60 seconds between attempts,
  never longer, and touches nothing meanwhile: the first connection after an outage finds the state the last one left.
  The delays of every subscription, of either protocol version, lie between 5 and 60 seconds.\<close>

theorem amqp_reconnect_backoff:
  assumes "\<And>conn st. conn \<in> set outage \<Longrightarrow> fst (connect091 t at spec conn st) \<noteq> None"
  shows "runSubscription091 t at spec outage st = (map (\<lambda>i. min (initialBackoff * 2 ^ i) maxBackoff) [0..<length outage], st) \<and>
    list_all (\<lambda>w. initialBackoff \<le> w \<and> w \<le> maxBackoff) (fst (runSubscription091 t at spec conns st)) \<and>
    list_all (\<lambda>w. initialBackoff \<le> w \<and> w \<le> maxBackoff) (fst (runSubscription10 t at spec conns10 st10))"
proof -
  have "\<exists>e. connect091 t at spec conn st = (Some e, st)" if "conn \<in> set outage" for conn st
    using assms [OF that, of st] connect091_failed [of t at spec conn st] by (metis option.exhaust prod.collapse)
  then show ?thesis
    unfolding runSubscription091_def runSubscription10_def
    by (intro conjI runSubscription_failing runSubscription_bounds) (simp_all add: initialBackoff_def maxBackoff_def)
qed

section \<open>Lost deliveries\<close>

lemma run091_closed: "run091 h (map (\<lambda>d. Delivered d Accepted None) ds @ [ChannelClosed]) st = run091 h (map (\<lambda>d. Delivered d Accepted None) ds) st"
proof (induction ds arbitrary: st)
  case (Cons d ds)
  then show ?case by (simp only: list.map append_Cons run091_step)
qed simp

definition connects :: "trigger \<Rightarrow> amqpTrigger \<Rightarrow> amqpIntegrationSpec \<Rightarrow> brokerEnv \<Rightarrow> bool" where
  "connects t at spec env \<longleftrightarrow> isl (dial091 env (tr_namespace t) spec) = False \<and> bk_channel env = None \<and>
     fst (declareAndBind091 env (at_topic at) (at_routingKey at) (at_exchange at) (''kubezap-'' @ tr_name t)) = None"

lemma connect091_connected: "connects t at spec env \<Longrightarrow> connect091 t at spec (env, evs) st = (None, run091 (handlerOf t) evs st)"
  by (auto simp: connect091_def connects_def split: sum.splits)

text \<open>C39: An AMQP 0-9-1 subscription loses messages when its connection is renewed: if the first connection handled n
  messages, the first n messages of the next are acknowledged although no FlowRun is created for them, because the broker
  numbers the deliveries of every channel from 1.\<close>

theorem amqp091_reconnect_loses_messages:
  assumes "connects t at spec env" "connects t at spec env'"
    and "map dv_tag ds = [1..<Suc n]" "map dv_tag ds' = [1..<Suc k]" "k \<le> n"
    and "accepted = map (\<lambda>d. Delivered d Accepted None)"
    and "st1 = snd (runSubscription091 t at spec [(env, accepted ds @ [ChannelClosed])] st)"
    and "st2 = snd (runSubscription091 t at spec [(env, accepted ds @ [ChannelClosed]), (env', accepted ds')] st)"
  shows "ch_runs st2 = ch_runs st1 \<and> ch_settled st2 = ch_settled st1 @ map Ack [1..<Suc k]"
proof (rule run091_second_channel [OF assms(3-5)])
  show "st1 = run091 (handlerOf t) (map (\<lambda>d. Delivered d Accepted None) ds) st"
    using assms(1,6,7) by (simp add: runSubscription091_def connect091_connected run091_closed)
  then show "st2 = run091 (handlerOf t) (map (\<lambda>d. Delivered d Accepted None) ds') st1"
    using assms(1,2,6,8) by (simp add: runSubscription091_def connect091_connected run091_closed)
qed

section \<open>Transport security\<close>

lemma caConfig_ok: "caConfig env ns insecure caRef pem = Inr c \<Longrightarrow> c = (insecure, if caRef = None then None else Some pem)"
  by (auto simp: caConfig_def split: option.splits if_splits)

text \<open>The TLS settings of a connection are those of the Integration, with the certificate of its Secret as the only root.\<close>

definition configuredTLS :: "brokerEnv \<Rightarrow> string \<Rightarrow> amqpIntegrationSpec \<Rightarrow> clientTLS \<Rightarrow> bool" where
  "configuredTLS env namespace spec c \<longleftrightarrow>
     (case ai_tls spec of
        None \<Rightarrow> c = (False, None)
      | Some tc \<Rightarrow>
          (case at_caSecretRef tc of
             None \<Rightarrow> c = (at_insecureSkipVerify tc, None)
           | Some ref \<Rightarrow> (\<exists>pem. readBrokerSecret env namespace (ks_name ref) (ks_key ref) = Inr pem \<and> c = (at_insecureSkipVerify tc, Some pem))))"

lemma buildTLSConfig_ok: "buildTLSConfig env ns spec = Inr c \<Longrightarrow> configuredTLS env ns spec c"
  by (auto simp: buildTLSConfig_def configuredTLS_def split: option.splits sum.splits dest: caConfig_ok)

lemma tlsFor_ok:
  "tlsFor env ns spec url = Inr tls \<Longrightarrow> if needsTLS spec url then \<exists>c. tls = Some c \<and> configuredTLS env ns spec c else tls = None"
  by (auto simp: tlsFor_def buildTLSConfig_ok split: if_splits sum.splits)

lemma embedCreds_scheme: "hasPrefix (embedCredsInURL url u p) ''amqps://'' = hasPrefix url ''amqps://''"
proof -
  have a: "hasPrefix (''amqps://'' @ x) ''amqps://''" and b: "\<not> hasPrefix (''amqp://'' @ x) ''amqps://''" for x
    by (simp_all add: hasPrefix_def)
  show ?thesis
  proof (cases "hasPrefix url ''amqps://''")
    case True
    then show ?thesis by (simp only: embedCredsInURL_def if_True a)
  next
    case False
    then show ?thesis by (cases "hasPrefix url ''amqp://''") (simp_all only: embedCredsInURL_def if_True if_False b)
  qed
qed


text \<open>Nothing escapes the login: two logins that differ only in where the colon is give the same URL.\<close>

lemma embedCreds_ambiguous: "embedCredsInURL url (a @ '':'' @ b) c = embedCredsInURL url a (b @ '':'' @ c)"
  by (simp add: embedCredsInURL_def)

text \<open>The calls on a channel are made in order and stop at the first that fails; without an exchange there are only two.\<close>

definition plannedCalls :: "string \<Rightarrow> string \<Rightarrow> amqpExchangeSpec option \<Rightarrow> string \<Rightarrow> channelCall list" where
  "plannedCalls topic routingKey exchange tag =
     (case exchange of
        None \<Rightarrow> [QueueDeclare topic, Consume topic tag]
      | Some x \<Rightarrow> [ExchangeDeclare (ax_name x) (ax_type x), QueueDeclare topic, QueueBind topic routingKey (ax_name x), Consume topic tag])"

lemma channelCalls_prefix: "snd (channelCalls env cs) = take (length (snd (channelCalls env cs))) (map fst cs)"
  by (induction env cs rule: channelCalls.induct) (auto split: option.splits prod.splits)

lemma channelCalls_ok: "fst (channelCalls env cs) = None \<longleftrightarrow> (\<forall>c \<in> set (map fst cs). bk_channelCall env c = None)"
  by (induction env cs rule: channelCalls.induct) (simp_all add: case_prod_beta split: option.split)

lemma declareAndBind091_calls:
  "snd (declareAndBind091 env topic rk exchange tag) =
     take (length (snd (declareAndBind091 env topic rk exchange tag))) (plannedCalls topic rk exchange tag)"
  "fst (declareAndBind091 env topic rk exchange tag) = None \<longleftrightarrow> (\<forall>c \<in> set (plannedCalls topic rk exchange tag). bk_channelCall env c = None)"
proof -
  have "map fst (declareCalls topic rk exchange tag) = plannedCalls topic rk exchange tag"
    by (simp add: declareCalls_def plannedCalls_def split: option.split)
  with channelCalls_prefix [of env "declareCalls topic rk exchange tag"] channelCalls_ok [of env "declareCalls topic rk exchange tag"]
  show "snd (declareAndBind091 env topic rk exchange tag) =
      take (length (snd (declareAndBind091 env topic rk exchange tag))) (plannedCalls topic rk exchange tag)"
    "fst (declareAndBind091 env topic rk exchange tag) = None \<longleftrightarrow> (\<forall>c \<in> set (plannedCalls topic rk exchange tag). bk_channelCall env c = None)"
    by (simp_all only: declareAndBind091_def)
qed

section \<open>Examples\<close>

definition shopQueue :: amqpTrigger where
  "shopQueue = \<lparr>at_integrationRef = ''bus'', at_topic = ''orders'', at_routingKey = [], at_exchange = None\<rparr>"

definition shopAmqp :: amqpIntegrationSpec where
  "shopAmqp = \<lparr>ai_url = ''amqps://mq/'', ai_version = [], ai_tls = None, ai_usernameSecretRef = None, ai_passwordSecretRef = None\<rparr>"

definition downEnv :: brokerEnv where
  "downEnv = (shopEnv None)\<lparr>bk_dial := \<lambda>plan. Some (Txt ''connection refused'')\<rparr>"

lemma shop_dials: "dial091 (shopEnv s) ns shopAmqp = Inr \<lparr>ad_url = ''amqps://mq/'', ad_tls = Some (False, None), ad_sasl = None\<rparr>"
  by (simp add: dial091_def readLogin_def tlsFor_def needsTLS_def buildTLSConfig_def loginURL_def Let_def hasPrefix_def shopAmqp_def shopEnv_def)

lemma shop_connects: "connects (shopTrigger ''amqp'' ''ship'') shopQueue shopAmqp (shopEnv s)"
proof -
  have "bk_channel (shopEnv s) = None" "bk_channelCall (shopEnv s) c = None" for c by (simp_all add: shopEnv_def)
  then show ?thesis by (simp add: connects_def shop_dials declareAndBind091_calls(2))
qed

lemma shop_down: "fst (connect091 (shopTrigger ''amqp'' ''ship'') shopQueue shopAmqp (downEnv, evs) st) = Some (Fmt ''dialing amqp broker: %w'' [Txt ''connection refused''])"
proof -
  have "dial091 downEnv ns shopAmqp = Inl (Fmt ''dialing amqp broker: %w'' [Txt ''connection refused''])" for ns
    by (simp add: dial091_def readLogin_def tlsFor_def needsTLS_def buildTLSConfig_def loginURL_def Let_def hasPrefix_def shopAmqp_def downEnv_def)
  then show ?thesis by (simp add: connect091_def)
qed

theorem amqp_reconnect_backoff_witness:
  "runSubscription091 (shopTrigger ''amqp'' ''ship'') shopQueue shopAmqp [(downEnv, []), (downEnv, [])] \<lparr>ch_runs = [], ch_settled = []\<rparr> =
     ([5 * 1000000000, 10 * 1000000000], \<lparr>ch_runs = [], ch_settled = []\<rparr>)"
proof -
  have "runSubscription091 (shopTrigger ''amqp'' ''ship'') shopQueue shopAmqp [(downEnv, []), (downEnv, [])] \<lparr>ch_runs = [], ch_settled = []\<rparr> =
      (map (\<lambda>i. min (initialBackoff * 2 ^ i) maxBackoff) [0..<length [(downEnv, [] :: channelEvent list), (downEnv, [])]], \<lparr>ch_runs = [], ch_settled = []\<rparr>)"
  proof (rule conjunct1 [OF amqp_reconnect_backoff])
    fix conn st
    assume "conn \<in> set [(downEnv, []), (downEnv, [] :: channelEvent list)]"
    then show "fst (connect091 (shopTrigger ''amqp'' ''ship'') shopQueue shopAmqp conn st) \<noteq> None" by (auto simp: shop_down)
  qed
  then show ?thesis by (simp add: upt_rec initialBackoff_def maxBackoff_def)
qed

theorem amqp091_reconnect_loses_messages_witness:
  "\<exists>st1 st2. st1 = snd (runSubscription091 (shopTrigger ''amqp'' ''ship'') shopQueue shopAmqp
        [(shopEnv None, [Delivered (parcel 1) Accepted None, ChannelClosed])] \<lparr>ch_runs = [], ch_settled = []\<rparr>) \<and>
     st2 = snd (runSubscription091 (shopTrigger ''amqp'' ''ship'') shopQueue shopAmqp
        [(shopEnv None, [Delivered (parcel 1) Accepted None, ChannelClosed]), (shopEnv None, [Delivered (parcel 1) Accepted None])]
        \<lparr>ch_runs = [], ch_settled = []\<rparr>) \<and>
     ch_runs st2 = ch_runs st1 \<and> ch_settled st2 = ch_settled st1 @ [Ack 1]"
  using amqp091_reconnect_loses_messages [OF shop_connects [of None] shop_connects [of None], of "[parcel 1]" 1 "[parcel 1]" 1, OF _ _ _ refl refl refl,
      of "\<lparr>ch_runs = [], ch_settled = []\<rparr>"]
  by (simp add: parcel_def upt_rec)


end
