(* ===== verification/Sha512.thy ===== *)
theory Sha512
  imports Sha256
begin

text \<open>
  \<^verbatim>\<open>crypto/sha512\<close> and \<^verbatim>\<open>hmac.New(sha512.New, key)\<close>, on byte strings. The constants are the first 64 bits of the fractional
  parts of the cube roots of the first 80 primes, and of the square roots of the first 8.
\<close>

section \<open>SHA-512\<close>

definition morePrimes :: "nat list" where
  "morePrimes = [313, 317, 331, 337, 347, 349, 353, 359, 367, 373, 379, 383, 389, 397, 401, 409]"

definition sha512K :: "64 word list" where
  "sha512K = map (\<lambda>p. of_nat (rootFrom 3 (p * 2 ^ 192) 67 0)) (firstPrimes @ morePrimes)"

definition squareRootBits64 :: "nat \<Rightarrow> 64 word" where
  "squareRootBits64 p = of_nat (rootFrom 2 (p * 2 ^ 128) 67 0)"

record sha512State =
  xa :: "64 word"
  xb :: "64 word"
  xc :: "64 word"
  xd :: "64 word"
  xe :: "64 word"
  xf :: "64 word"
  xg :: "64 word"
  xh :: "64 word"

definition sha512Init :: sha512State where
  "sha512Init =
     \<lparr>xa = squareRootBits64 2, xb = squareRootBits64 3, xc = squareRootBits64 5, xd = squareRootBits64 7,
      xe = squareRootBits64 11, xf = squareRootBits64 13, xg = squareRootBits64 17, xh = squareRootBits64 19\<rparr>"

definition rotr64 :: "nat \<Rightarrow> 64 word \<Rightarrow> 64 word" where
  "rotr64 n x = drop_bit n x OR push_bit (64 - n) x"

definition sha512Round :: "sha512State \<Rightarrow> 64 word \<times> 64 word \<Rightarrow> sha512State" where
  "sha512Round s kw =
     (let t1 = xh s + (rotr64 14 (xe s) XOR rotr64 18 (xe s) XOR rotr64 41 (xe s))
               + ((xe s AND xf s) XOR (NOT (xe s) AND xg s)) + fst kw + snd kw;
          t2 = (rotr64 28 (xa s) XOR rotr64 34 (xa s) XOR rotr64 39 (xa s))
               + ((xa s AND xb s) XOR (xa s AND xc s) XOR (xb s AND xc s))
      in \<lparr>xa = t1 + t2, xb = xa s, xc = xb s, xd = xc s, xe = xd s + t1, xf = xe s, xg = xf s, xh = xg s\<rparr>)"

text \<open>The message schedule, newest word first.\<close>

fun sha512Schedule :: "nat \<Rightarrow> 64 word list \<Rightarrow> 64 word list" where
  "sha512Schedule 0 ws = ws"
| "sha512Schedule (Suc n) ws =
     (let a = ws ! 1; b = ws ! 14
      in sha512Schedule n
           (((rotr64 19 a XOR rotr64 61 a XOR drop_bit 6 a) + ws ! 6
             + (rotr64 1 b XOR rotr64 8 b XOR drop_bit 7 b) + ws ! 15) # ws))"

definition sha512Block :: "sha512State \<Rightarrow> 64 word list \<Rightarrow> sha512State" where
  "sha512Block s block =
     (let r = foldl sha512Round s (zip sha512K (rev (sha512Schedule 64 (rev block))))
      in \<lparr>xa = xa s + xa r, xb = xb s + xb r, xc = xc s + xc r, xd = xd s + xd r,
          xe = xe s + xe r, xf = xf s + xf r, xg = xg s + xg r, xh = xh s + xh r\<rparr>)"

fun words64Of :: "nat list \<Rightarrow> 64 word list" where
  "words64Of (a # b # c # d # e # f # g # h # rest) =
     of_nat (foldl (\<lambda>n x. n * 256 + x) 0 [a, b, c, d, e, f, g, h]) # words64Of rest"
| "words64Of _ = []"

fun blocks512Loop :: "nat \<Rightarrow> 64 word list \<Rightarrow> sha512State \<Rightarrow> sha512State" where
  "blocks512Loop 0 ws s = s"
| "blocks512Loop (Suc n) ws s = blocks512Loop n (drop 16 ws) (sha512Block s (take 16 ws))"

definition sha512Pad :: "nat list \<Rightarrow> nat list" where
  "sha512Pad bytes =
     bytes @ [128] @ replicate ((239 - length bytes mod 128) mod 128) 0 @ bytesBE 16 (8 * length bytes mod 2 ^ 128)"

definition sha512 :: "string \<Rightarrow> string" where
  "sha512 s =
     (let bytes = sha512Pad (map of_char s);
          r = blocks512Loop (length bytes div 128) (words64Of bytes) sha512Init
      in map char_of (concat (map (\<lambda>w. bytesBE 8 (unat w)) [xa r, xb r, xc r, xd r, xe r, xf r, xg r, xh r])))"

section \<open>HMAC\<close>

definition hmacSHA512 :: "string \<Rightarrow> string \<Rightarrow> string" where
  "hmacSHA512 key message =
     (let k0 = (if 128 < length key then sha512 key else key);
          k = k0 @ replicate (128 - length k0) (char_of (0 :: nat))
      in sha512 (xorPad 0x5c k @ sha512 (xorPad 0x36 k @ message)))"

section \<open>Lengths\<close>

lemma length_sha512 [simp]: "length (sha512 s) = 64"
  by (simp add: sha512_def Let_def length_concat)

lemma length_hmacSHA512 [simp]: "length (hmacSHA512 key m) = 64"
  by (simp add: hmacSHA512_def Let_def)

lemma sha512Pad_blocks: "length (sha512Pad bytes) mod 128 = 0"
proof -
  define q r where "q = length bytes div 128" and "r = length bytes mod 128"
  have len: "length bytes = 128 * q + r" and r: "r < 128" by (simp_all add: q_def r_def)
  have pad: "length (sha512Pad bytes) = 128 * q + r + 1 + (239 - r) mod 128 + 16"
    using len by (simp add: sha512Pad_def r_def)
  show ?thesis
  proof (cases "r \<le> 111")
    case True
    then have "(239 - r) mod 128 = (111 - r + 128) mod 128" by (simp add: add.commute)
    also have "\<dots> = 111 - r" by simp
    finally show ?thesis using True pad by simp
  next
    case False
    then have "(239 - r) mod 128 = 239 - r" by simp
    then have "length (sha512Pad bytes) = 128 * (q + 2)" using False r pad by simp
    then show ?thesis by (simp only: mod_mult_self1_is_0)
  qed
qed

end
