(* ===== verification/Scram.thy ===== *)
theory Scram
  imports BrokerRuns Sha512 ClientAddr
begin

text \<open>
  The SCRAM client of the Kafka gateway and of the Kafka producer (\<^verbatim>\<open>xdgSCRAMClient\<close> in
  \<^verbatim>\<open>internal/gateway/kafka/watcher.go\<close>, \<^verbatim>\<open>producerSCRAMClient\<close> in \<^verbatim>\<open>internal/controller/flowrun_controller.go\<close>, the same code
  twice). The iteration count is a Go \<^verbatim>\<open>int\<close>, 64 bits wide. The counting loop of \<^verbatim>\<open>scramHi\<close> does not end for the largest
  count, so it is a partial function, and so is the step that calls it: \<^const>\<open>None\<close> stands for not returning.
\<close>

section \<open>Hash functions\<close>

record hashFunction =
  hf_sum :: "string \<Rightarrow> string"
  hf_hmac :: "string \<Rightarrow> string \<Rightarrow> string"

definition sha256New :: hashFunction where "sha256New = \<lparr>hf_sum = sha256, hf_hmac = hmacSHA256\<rparr>"
definition sha512New :: hashFunction where "sha512New = \<lparr>hf_sum = sha512, hf_hmac = hmacSHA512\<rparr>"

definition scramHMAC :: "hashFunction \<Rightarrow> string \<Rightarrow> string \<Rightarrow> string" where
  "scramHMAC h key message = hf_hmac h key message"

definition scramH :: "hashFunction \<Rightarrow> string \<Rightarrow> string" where
  "scramH h data = hf_sum h data"

definition xorByte :: "char \<Rightarrow> char \<Rightarrow> char" where
  "xorByte a b = char_of ((of_char a :: nat) XOR of_char b)"

text \<open>Both arguments have the length of the hash.\<close>

definition scramXorBytes :: "string \<Rightarrow> string \<Rightarrow> string" where
  "scramXorBytes a b = map (\<lambda>(x, y). xorByte x y) (zip a b)"

partial_function (option) hiLoop :: "hashFunction \<Rightarrow> string \<Rightarrow> 64 word \<Rightarrow> 64 word \<Rightarrow> string \<Rightarrow> string \<Rightarrow> string option" where
  "hiLoop h password i iterations u result =
     (if sint i \<le> sint iterations then
        hiLoop h password (i + 1) iterations (hf_hmac h password u) (scramXorBytes result (hf_hmac h password u))
      else Some result)"

definition scramHi :: "hashFunction \<Rightarrow> string \<Rightarrow> string \<Rightarrow> 64 word \<Rightarrow> string option" where
  "scramHi h password salt iterations =
     (let u = hf_hmac h password (salt @ map char_of [0, 0, 0, 1 :: nat]) in hiLoop h password 2 iterations u u)"

section \<open>Messages\<close>

definition scramParseAttrs :: "string \<Rightarrow> smap" where
  "scramParseAttrs message =
     fold (\<lambda>part attrs. if length part < 2 \<or> part ! 1 \<noteq> CHR ''='' then attrs else AList.update (take 1 part) (drop 2 part) attrs)
       (splitOn (CHR '','') message) []"

fun iterLoop :: "string \<Rightarrow> string \<Rightarrow> 64 word \<Rightarrow> 64 word result" where
  "iterLoop s [] n = (if sint n \<le> 0 then Inl (Fmt ''iteration count must be positive, got %q'' [Txt s]) else Inr n)"
| "iterLoop s (c # cs) n =
     (if byteIn 48 57 c then iterLoop s cs (n * 10 + of_nat (digitVal c)) else Inl (Fmt ''invalid iteration count: %q'' [Txt s]))"

definition scramParseIter :: "string \<Rightarrow> 64 word result" where
  "scramParseIter s = iterLoop s s 0"

section \<open>The client\<close>

record scramClient =
  sx_user :: string
  sx_pass :: string
  sx_clientNonce :: string
  sx_saltedPass :: string
  sx_authMessage :: string
  sx_step :: nat

text \<open>\<open>random\<close> is what reading 24 random bytes gives.\<close>

definition scramBegin :: "string \<Rightarrow> string \<Rightarrow> string result \<Rightarrow> scramClient \<Rightarrow> msg option \<times> scramClient" where
  "scramBegin userName password random x =
     (let x1 = x\<lparr>sx_user := userName, sx_pass := password, sx_step := 0\<rparr>
      in case random of
           Inl err \<Rightarrow> (Some (Fmt ''generate client nonce: %w'' [err]), x1)
         | Inr nonceBytes \<Rightarrow> (None, x1\<lparr>sx_clientNonce := base64Encode nonceBytes\<rparr>))"

definition clientFirstBare :: "scramClient \<Rightarrow> string" where
  "clientFirstBare x = ''n='' @ sx_user x @ '',r='' @ sx_clientNonce x"

definition clientFinalNP :: "string \<Rightarrow> string" where
  "clientFinalNP combinedNonce = ''c='' @ base64Encode ''n,,'' @ '',r='' @ combinedNonce"

text \<open>The checks of the server-first message, up to nonce, salt and iteration count.\<close>

definition serverFirst :: "scramClient \<Rightarrow> string \<Rightarrow> (string \<times> string \<times> 64 word) result" where
  "serverFirst x challenge =
     (let attrs = scramParseAttrs challenge
      in case map_of attrs ''r'' of
           None \<Rightarrow> Inl (Txt (''SCRAM: missing '' @ [CHR 0x27] @ ''r'' @ [CHR 0x27] @ '' in server-first message''))
         | Some combinedNonce \<Rightarrow>
             if \<not> hasPrefix combinedNonce (sx_clientNonce x) then Inl (Txt ''SCRAM: server nonce does not begin with client nonce'')
             else
               (case map_of attrs ''s'' of
                  None \<Rightarrow> Inl (Txt (''SCRAM: missing '' @ [CHR 0x27] @ ''s'' @ [CHR 0x27] @ '' in server-first message''))
                | Some saltB64 \<Rightarrow>
                    (case base64Decode saltB64 of
                       None \<Rightarrow> Inl (Fmt ''SCRAM: decode salt: %w'' [Txt ''illegal base64 data''])
                     | Some salt \<Rightarrow>
                         (case map_of attrs ''i'' of
                            None \<Rightarrow> Inl (Txt (''SCRAM: missing '' @ [CHR 0x27] @ ''i'' @ [CHR 0x27] @ '' in server-first message''))
                          | Some iterStr \<Rightarrow>
                              (case scramParseIter iterStr of
                                 Inl err \<Rightarrow> Inl (Fmt ''SCRAM: %w'' [err])
                               | Inr iterations \<Rightarrow> Inr (combinedNonce, salt, iterations))))))"

definition stepFinal :: "hashFunction \<Rightarrow> string \<Rightarrow> scramClient \<Rightarrow> (string result \<times> scramClient) option" where
  "stepFinal h challenge x =
     (case serverFirst x challenge of
        Inl err \<Rightarrow> Some (Inl err, x)
      | Inr (combinedNonce, salt, iterations) \<Rightarrow>
          (case scramHi h (sx_pass x) salt iterations of
             None \<Rightarrow> None
           | Some salted \<Rightarrow>
               (let clientKey = scramHMAC h salted ''Client Key'';
                    storedKey = scramH h clientKey;
                    authMessage = clientFirstBare x @ '','' @ challenge @ '','' @ clientFinalNP combinedNonce;
                    clientSig = scramHMAC h storedKey authMessage;
                    proof = scramXorBytes clientKey clientSig
                in Some (Inr (clientFinalNP combinedNonce @ '',p='' @ base64Encode proof),
                         x\<lparr>sx_saltedPass := salted, sx_authMessage := authMessage\<rparr>))))"

definition stepVerify :: "hashFunction \<Rightarrow> string \<Rightarrow> scramClient \<Rightarrow> string result" where
  "stepVerify h challenge x =
     (let serverKey = scramHMAC h (sx_saltedPass x) ''Server Key'';
          expected = scramHMAC h serverKey (sx_authMessage x)
      in case map_of (scramParseAttrs challenge) ''v'' of
           None \<Rightarrow> Inl (Txt (''SCRAM: missing '' @ [CHR 0x27] @ ''v'' @ [CHR 0x27] @ '' in server-final message''))
         | Some sigB64 \<Rightarrow>
             (case base64Decode sigB64 of
                None \<Rightarrow> Inl (Fmt ''SCRAM: decode server signature: %w'' [Txt ''illegal base64 data''])
              | Some received \<Rightarrow> if expected \<noteq> received then Inl (Txt ''SCRAM: server signature verification failed'') else Inr []))"

definition scramStep :: "hashFunction \<Rightarrow> string \<Rightarrow> scramClient \<Rightarrow> (string result \<times> scramClient) option" where
  "scramStep h challenge x0 =
     (let x = x0\<lparr>sx_step := Suc (sx_step x0)\<rparr>
      in if sx_step x = 1 then Some (Inr (''n,,n='' @ sx_user x @ '',r='' @ sx_clientNonce x), x)
         else if sx_step x = 2 then stepFinal h challenge x
         else if sx_step x = 3 then Some (stepVerify h challenge x, x)
         else Some (Inl (Fmt ''SCRAM: unexpected step %d'' [Txt (showNat (sx_step x))]), x))"

definition scramDone :: "scramClient \<Rightarrow> bool" where
  "scramDone x \<longleftrightarrow> 3 \<le> sx_step x"

section \<open>The reference\<close>

text \<open>
  RFC 5802: \<open>Hi\<close> is the exclusive or of the first \<open>n\<close> iterates of the keyed hash, the first of them of salt and block number.
  A server stores \<open>storedKey\<close> and \<open>serverKey\<close>, accepts a proof when it recovers the client key from it, and signs with
  the server key.
\<close>

fun hiU :: "hashFunction \<Rightarrow> string \<Rightarrow> string \<Rightarrow> nat \<Rightarrow> string" where
  "hiU h password salt 0 = hf_hmac h password (salt @ map char_of [0, 0, 0, 1 :: nat])"
| "hiU h password salt (Suc n) = hf_hmac h password (hiU h password salt n)"

definition Hi :: "hashFunction \<Rightarrow> string \<Rightarrow> string \<Rightarrow> nat \<Rightarrow> string" where
  "Hi h password salt n = foldl scramXorBytes (hiU h password salt 0) (map (hiU h password salt) [1..<n])"

definition storedKeyOf :: "hashFunction \<Rightarrow> string \<Rightarrow> string \<Rightarrow> nat \<Rightarrow> string" where
  "storedKeyOf h password salt n = hf_sum h (hf_hmac h (Hi h password salt n) ''Client Key'')"

definition serverKeyOf :: "hashFunction \<Rightarrow> string \<Rightarrow> string \<Rightarrow> nat \<Rightarrow> string" where
  "serverKeyOf h password salt n = hf_hmac h (Hi h password salt n) ''Server Key''"

definition scramServerAccepts :: "hashFunction \<Rightarrow> string \<Rightarrow> string \<Rightarrow> string \<Rightarrow> bool" where
  "scramServerAccepts h storedKey authMessage proof \<longleftrightarrow> hf_sum h (scramXorBytes proof (hf_hmac h storedKey authMessage)) = storedKey"

definition serverFirstMessage :: "string \<Rightarrow> string \<Rightarrow> nat \<Rightarrow> string" where
  "serverFirstMessage nonce salt n = ''r='' @ nonce @ '',s='' @ base64Encode salt @ '',i='' @ showNat n"

section \<open>The iterated hash\<close>

lemma sint_Suc:
  fixes i :: "64 word"
  assumes "- (2 ^ 63) \<le> sint i + 1" "sint i + 1 < 2 ^ 63"
  shows "sint (i + 1) = sint i + 1"
proof -
  have "sint (i + 1) = signed_take_bit 63 (sint i + 1)"
    by (simp add: sint_word_ariths)
  also have "\<dots> = sint i + 1" using assms by (intro signed_take_bit_int_eq_self) simp_all
  finally show ?thesis .
qed

lemma hiLoop_Hi:
  assumes "2 \<le> sint i" "sint i \<le> sint n + 1" "sint n < 2 ^ 63 - 1"
    and "u = hiU h password salt (nat (sint i) - 2)"
  shows "hiLoop h password i n u result =
    Some (foldl scramXorBytes result (map (hiU h password salt) [nat (sint i) - 1..<nat (sint n)]))"
  using assms
proof (induction "nat (sint n + 1 - sint i)" arbitrary: i u result)
  case 0
  then show ?case by (subst hiLoop.simps) simp
next
  case (Suc d)
  have le: "sint i \<le> sint n" using Suc.hyps(2) by simp
  have step: "sint (i + 1) = sint i + 1" using Suc.prems le by (intro sint_Suc) simp_all
  have u: "hf_hmac h password u = hiU h password salt (nat (sint i) - 1)"
  proof -
    have "nat (sint i) - 1 = Suc (nat (sint i) - 2)" using Suc.prems(1) by simp
    then show ?thesis by (simp add: Suc.prems(4))
  qed
  have idx: "nat (sint (i + 1)) - 2 = nat (sint i) - 1" "nat (sint (i + 1)) - 1 = Suc (nat (sint i) - 1)"
    using Suc.prems(1) by (simp_all add: step)
  have "hiLoop h password i n u result =
      hiLoop h password (i + 1) n (hiU h password salt (nat (sint i) - 1)) (scramXorBytes result (hiU h password salt (nat (sint i) - 1)))"
    using le by (subst hiLoop.simps) (simp add: u)
  also have "\<dots> = Some (foldl scramXorBytes (scramXorBytes result (hiU h password salt (nat (sint i) - 1)))
      (map (hiU h password salt) [nat (sint (i + 1)) - 1..<nat (sint n)]))"
  proof (rule Suc.hyps(1))
    show "d = nat (sint n + 1 - sint (i + 1))" using Suc.hyps(2) by (simp add: step)
    show "hiU h password salt (nat (sint i) - 1) = hiU h password salt (nat (sint (i + 1)) - 2)" by (simp only: idx)
  qed (use Suc.prems le in \<open>simp_all add: step\<close>)
  also have "[nat (sint (i + 1)) - 1..<nat (sint n)] = [Suc (nat (sint i) - 1)..<nat (sint n)]" by (simp only: idx)
  also have "Some (foldl scramXorBytes (scramXorBytes result (hiU h password salt (nat (sint i) - 1)))
      (map (hiU h password salt) [Suc (nat (sint i) - 1)..<nat (sint n)])) =
      Some (foldl scramXorBytes result (map (hiU h password salt) [nat (sint i) - 1..<nat (sint n)]))"
  proof -
    have "[nat (sint i) - 1..<nat (sint n)] = (nat (sint i) - 1) # [Suc (nat (sint i) - 1)..<nat (sint n)]"
      using le Suc.prems(1) by (intro upt_conv_Cons) simp
    then show ?thesis by (simp only: list.map foldl.simps)
  qed
  finally show ?case .
qed

lemma scramHi_is_Hi:
  assumes "sint n < 2 ^ 63 - 1"
  shows "scramHi h password salt n = Some (Hi h password salt (nat (sint n)))"
proof (cases "0 < sint n")
  case True
  have "sint (2 :: 64 word) = 2" by simp
  then have "hiLoop h password 2 n (hiU h password salt 0) result =
      Some (foldl scramXorBytes result (map (hiU h password salt) [1..<nat (sint n)]))" for result
    using hiLoop_Hi [of 2 n "hiU h password salt 0" h password salt result] assms True by simp
  then show ?thesis by (simp add: scramHi_def Hi_def)
next
  case False
  then show ?thesis by (simp add: scramHi_def Hi_def hiLoop.simps [of h password 2])
qed

text \<open>No signed 64-bit counter exceeds the largest integer, so counting to it does not end.\<close>

lemma hiLoop_diverges:
  assumes "hiLoop h password i n u result = Some y"
  shows "sint n \<noteq> 2 ^ 63 - 1"
proof (rule hiLoop.raw_induct [where P = "\<lambda>h password i n u result y. sint n \<noteq> 2 ^ 63 - 1", OF _ assms])
  fix f h password u result y and i n :: "64 word"
  assume IH: "\<And>h password i n u result y. f h password i n u result = Some y \<Longrightarrow> sint n \<noteq> 2 ^ 63 - 1"
    and body: "(if sint i \<le> sint n then f h password (i + 1) n (hf_hmac h password u) (scramXorBytes result (hf_hmac h password u))
      else Some result) = Some y"
  show "sint n \<noteq> 2 ^ 63 - 1"
  proof (cases "sint i \<le> sint n")
    case True
    then show ?thesis using IH body by simp
  next
    case False
    then show ?thesis using sint_lt [of i] by simp
  qed
qed

text \<open>C18: The key derivation of the SCRAM client is the function of RFC 5802, the exclusive or of as many iterates of the keyed
  hash as the iteration count says, and it returns for every count but one: for the largest 64-bit integer its loop
  never ends.\<close>

theorem scramHi_returns:
  "scramHi h password salt n = (if sint n = 2 ^ 63 - 1 then None else Some (Hi h password salt (nat (sint n))))"
proof (cases "sint n = 2 ^ 63 - 1")
  case True
  then show ?thesis using hiLoop_diverges [of h password 2 n] by (cases "scramHi h password salt n") (auto simp: scramHi_def Let_def)
next
  case False
  then show ?thesis using scramHi_is_Hi [of n h password salt] sint_lt [of n] by simp
qed

section \<open>Bytes and messages\<close>

lemma of_char_take_bit: "(of_char c :: nat) = take_bit 8 (of_char c)"
  by (simp add: take_bit_nat_eq_self)

lemma xorByte_cancel [simp]: "xorByte (xorByte a b) b = a"
proof -
  have "(of_char (xorByte a b) :: nat) = take_bit 8 (of_char a XOR of_char b)"
    by (simp add: xorByte_def take_bit_eq_mod)
  also have "\<dots> = of_char a XOR of_char b"
    by (simp only: take_bit_xor of_char_take_bit [symmetric])
  finally show ?thesis by (simp add: xorByte_def xor.assoc)
qed

lemma scramXorBytes_cancel: "length a = length b \<Longrightarrow> scramXorBytes (scramXorBytes a b) b = a"
  by (induction a b rule: list_induct2) (simp_all add: scramXorBytes_def)

lemma splitOn_plain: "d \<notin> set a \<Longrightarrow> splitOn d a = [a]"
  by (induction a) auto

lemma base64Char_comma: "base64Char n \<noteq> CHR '',''"
proof
  assume "base64Char n = CHR '',''"
  moreover have "base64Val (CHR '','') = None" by (simp add: base64Val_def)
  ultimately show False using base64Val_char [of n] by simp
qed

lemma base64Encode_comma: "CHR '','' \<notin> set (base64Encode s)"
  using base64Char_comma [symmetric] by (induction s rule: base64Encode.induct) (simp_all add: Let_def)

lemma showNat_comma: "CHR '','' \<notin> set (showNat n)"
  by (rule not_in_digits) (simp add: byteIn_def)

lemma parse_serverFirst:
  assumes "CHR '','' \<notin> set nonce"
  shows "scramParseAttrs (serverFirstMessage nonce salt n) = [(''r'', nonce), (''s'', base64Encode salt), (''i'', showNat n)]"
proof -
  have "serverFirstMessage nonce salt n =
      (''r='' @ nonce) @ CHR '','' # ((''s='' @ base64Encode salt) @ CHR '','' # (''i='' @ showNat n))"
    by (simp add: serverFirstMessage_def)
  then have "splitOn (CHR '','') (serverFirstMessage nonce salt n) = [''r='' @ nonce, ''s='' @ base64Encode salt, ''i='' @ showNat n]"
    using assms base64Encode_comma showNat_comma by (simp only: splitOn_append) (simp add: splitOn_plain)
  then show ?thesis by (simp add: scramParseAttrs_def)
qed

lemma parse_serverFinal: "scramParseAttrs (''v='' @ base64Encode sig) = [(''v'', base64Encode sig)]"
  using base64Encode_comma [of sig] splitOn_plain [of "CHR '',''" "''v='' @ base64Encode sig"] by (simp add: scramParseAttrs_def)

lemma iterLoop_digits:
  "list_all (byteIn 48 57) cs \<Longrightarrow> iterLoop s cs (of_nat n) = iterLoop s [] (of_nat (foldl (\<lambda>n c. n * 10 + digitVal c) n cs))"
proof (induction cs arbitrary: n)
  case (Cons c cs)
  have "iterLoop s (c # cs) (of_nat n) = iterLoop s cs (of_nat (n * 10 + digitVal c))" using Cons.prems by simp
  also have "\<dots> = iterLoop s [] (of_nat (foldl (\<lambda>n c. n * 10 + digitVal c) (n * 10 + digitVal c) cs))"
    using Cons.prems by (intro Cons.IH) simp
  finally show ?case by simp
qed simp

lemma sint_small: "n < 2 ^ 63 \<Longrightarrow> sint (of_nat n :: 64 word) = int n"
proof -
  assume "n < 2 ^ 63"
  then have "signed_take_bit 63 (int n) = int n" by (intro signed_take_bit_int_eq_self) simp_all
  moreover have "uint (of_nat n :: 64 word) = int n"
    using \<open>n < 2 ^ 63\<close> by (simp add: unsigned_of_nat take_bit_nat_eq_self)
  ultimately show ?thesis by (simp add: sint_uint)
qed

lemma parseIter_showNat:
  assumes "0 < n" "n < 2 ^ 63"
  shows "scramParseIter (showNat n) = Inr (of_nat n)"
proof -
  have "list_all (byteIn 48 57) (showNat n)" using showNat_digits by (simp add: list_all_iff)
  from iterLoop_digits [OF this, of "showNat n" 0] have "scramParseIter (showNat n) = iterLoop (showNat n) [] (of_nat n)"
    using natOfDigits_showNat [of n] by (simp add: scramParseIter_def natOfDigits_def)
  then show ?thesis using assms sint_small [of n] by simp
qed

text \<open>Larger counts wrap around: this one is taken for a single iteration.\<close>

lemma parseIter_wraps: "scramParseIter ''18446744073709551617'' = Inr 1"
  by (simp add: scramParseIter_def byteIn_def digitVal_def)

text \<open>User names are not escaped: a server reads only the part of the name before a comma.\<close>

lemma unescaped_user: "map_of (scramParseAttrs (clientFirstBare (x\<lparr>sx_user := ''a,b'', sx_clientNonce := ''c''\<rparr>))) ''n'' = Some ''a''"
  by (simp add: clientFirstBare_def scramParseAttrs_def)

section \<open>The exchange\<close>

lemma stepFinal_serverFirst:
  assumes "hasPrefix nonce (sx_clientNonce x)" "CHR '','' \<notin> set nonce" "0 < n" "n < 2 ^ 63 - 1"
    and "challenge = serverFirstMessage nonce salt n"
    and "authMessage = clientFirstBare x @ '','' @ challenge @ '','' @ clientFinalNP nonce"
    and "proof = scramXorBytes (hf_hmac h (Hi h (sx_pass x) salt n) ''Client Key'') (hf_hmac h (storedKeyOf h (sx_pass x) salt n) authMessage)"
  shows "stepFinal h challenge x =
    Some (Inr (clientFinalNP nonce @ '',p='' @ base64Encode proof), x\<lparr>sx_saltedPass := Hi h (sx_pass x) salt n, sx_authMessage := authMessage\<rparr>)"
proof -
  have "serverFirst x challenge = Inr (nonce, salt, of_nat n)"
    using assms(1-4) by (simp add: serverFirst_def Let_def assms(5) parse_serverFirst base64Decode_Encode parseIter_showNat)
  moreover have "scramHi h (sx_pass x) salt (of_nat n) = Some (Hi h (sx_pass x) salt n)"
    using scramHi_is_Hi [of "of_nat n" h "sx_pass x" salt] assms(3,4) sint_small [of n] by simp
  ultimately show ?thesis
    by (simp add: stepFinal_def Let_def assms(6,7) storedKeyOf_def scramHMAC_def scramH_def)
qed

text \<open>C17: The SCRAM client completes the exchange of RFC 5802 with every server that knows its password, and with no other: for
  any nonce, salt and iteration count the server answers with, its proof is accepted by a server that stores the keys
  derived from the same password, and of the signatures the server may return it accepts exactly the one made with the
  server key.\<close>

theorem scram_authenticates_both_ways:
  assumes "h = sha256New \<or> h = sha512New" "CHR '','' \<notin> set serverNonce" "0 < n" "n < 2 ^ 63 - 1"
    and "scramBegin user password (Inr random) x0 = (None, x1)" "scramStep h [] x1 = Some (Inr first, x2)"
    and "nonce = sx_clientNonce x1 @ serverNonce" "challenge = serverFirstMessage nonce salt n"
    and "authMessage = drop 3 first @ '','' @ challenge @ '','' @ clientFinalNP nonce"
  shows "\<exists>proof x3. scramStep h challenge x2 = Some (Inr (clientFinalNP nonce @ '',p='' @ base64Encode proof), x3) \<and>
    scramServerAccepts h (storedKeyOf h password salt n) authMessage proof \<and>
    (\<forall>sig. map_option fst (scramStep h (''v='' @ base64Encode sig) x3) = Some (Inr []) \<longleftrightarrow>
       sig = hf_hmac h (serverKeyOf h password salt n) authMessage)"
proof -
  have x1: "sx_user x1 = user" "sx_pass x1 = password" "sx_step x1 = 0" "sx_clientNonce x1 = base64Encode random"
    using assms(5) by (auto simp: scramBegin_def Let_def)
  have x2: "x2 = x1\<lparr>sx_step := 1\<rparr>" "first = ''n,,n='' @ user @ '',r='' @ sx_clientNonce x1"
    using assms(6) x1 by (auto simp: scramStep_def Let_def)
  let ?x = "x2\<lparr>sx_step := 2\<rparr>"
  define cproof where "cproof = scramXorBytes (hf_hmac h (Hi h password salt n) ''Client Key'') (hf_hmac h (storedKeyOf h password salt n) authMessage)"
  define x3 where "x3 = ?x\<lparr>sx_saltedPass := Hi h password salt n, sx_authMessage := authMessage\<rparr>"
  have auth: "authMessage = clientFirstBare ?x @ '','' @ challenge @ '','' @ clientFinalNP nonce"
    by (simp add: assms(9) x2 x1 clientFirstBare_def)
  have "stepFinal h challenge ?x = Some (Inr (clientFinalNP nonce @ '',p='' @ base64Encode cproof), x3)"
    using stepFinal_serverFirst [of nonce ?x n challenge salt authMessage cproof h, OF _ _ assms(3,4,8) auth] assms(2) base64Encode_comma [of random]
    by (simp add: assms(7) x1 x2 hasPrefix_def cproof_def x3_def)
  then have step: "scramStep h challenge x2 = Some (Inr (clientFinalNP nonce @ '',p='' @ base64Encode cproof), x3)"
    by (simp add: scramStep_def Let_def x2 numeral_2_eq_2)
  have "length (hf_hmac h a b) = length (hf_hmac h c d)" for a b c d
    using assms(1) by (auto simp: sha256New_def sha512New_def)
  then have "scramServerAccepts h (storedKeyOf h password salt n) authMessage cproof"
    by (simp add: scramServerAccepts_def cproof_def scramXorBytes_cancel storedKeyOf_def)
  moreover have "map_option fst (scramStep h (''v='' @ base64Encode sig) x3) = Some (Inr []) \<longleftrightarrow>
      sig = hf_hmac h (serverKeyOf h password salt n) authMessage" for sig
    unfolding scramStep_def stepVerify_def parse_serverFinal
    by (auto simp: Let_def x3_def x2 base64Decode_Encode scramHMAC_def serverKeyOf_def)
  ultimately show ?thesis using step by blast
qed

section \<open>Examples\<close>

definition idleClient :: scramClient where
  "idleClient = \<lparr>sx_user = [], sx_pass = [], sx_clientNonce = [], sx_saltedPass = [], sx_authMessage = [], sx_step = 0\<rparr>"

definition begunClient :: scramClient where
  "begunClient = snd (scramBegin ''app'' ''pw'' (Inr ''abc'') idleClient)"

theorem scram_authenticates_both_ways_witness:
  "let nonce = sx_clientNonce begunClient @ ''xyz''; challenge = serverFirstMessage nonce ''salt'' 4096;
       authMessage = ''n=app,r='' @ sx_clientNonce begunClient @ '','' @ challenge @ '','' @ clientFinalNP nonce
   in \<exists>proof x3. scramStep sha256New challenge (begunClient\<lparr>sx_step := 1\<rparr>) = Some (Inr (clientFinalNP nonce @ '',p='' @ base64Encode proof), x3) \<and>
        scramServerAccepts sha256New (storedKeyOf sha256New ''pw'' ''salt'' 4096) authMessage proof \<and>
        (\<forall>sig. map_option fst (scramStep sha256New (''v='' @ base64Encode sig) x3) = Some (Inr []) \<longleftrightarrow>
           sig = hf_hmac sha256New (serverKeyOf sha256New ''pw'' ''salt'' 4096) authMessage)"
  unfolding Let_def
proof (rule scram_authenticates_both_ways [of sha256New "''xyz''" 4096 "''app''" "''pw''" "''abc''" idleClient begunClient])
  show "scramBegin ''app'' ''pw'' (Inr ''abc'') idleClient = (None, begunClient)" by (simp add: begunClient_def scramBegin_def Let_def)
  show "scramStep sha256New [] begunClient = Some (Inr (''n,,n=app,r='' @ sx_clientNonce begunClient), begunClient\<lparr>sx_step := 1\<rparr>)"
    by (simp add: scramStep_def begunClient_def scramBegin_def Let_def)
qed simp_all

end
