(* ===== verification/Spec2Isabelle.thy ===== *)
theory Spec2Isabelle
  imports FlowRunProgress HttpExecutor FlowValidation WebhookHandler WebhookWatcher ClientCrl CronScheduler Admission TriggerReconcile ExecutorReconcile
    WebhookCerts IntegrationReconcile AmqpSession Scram
begin

text \<open>
  Verification development of the KubeZap operator.
\<close>

end
